(* ===== verification/Protocol.thy ===== *)
theory Protocol
  imports Prelude
begin

text \<open>
  \<open>cote3mon/protocol.py\<close>: the versioned local protocol between the container client
  and the gateway.  \<open>Request.encode\<close>, \<open>Response.encode\<close> and \<open>validate_request\<close> are
  the definitions of these names; \<open>recv_exact\<close>, \<open>recv_request\<close> and \<open>recv_response\<close>
  read from a stream, which is anything with a \<open>recv\<close> operation: the interface
  \<open>byte_stream\<close> says what the decoder relies on, and is provided both by a socket (a
  list of the segments that arrive) and by a binary file (the bytes not yet read).
\<close>

section \<open>struct.pack and struct.unpack for network order\<close>

text \<open>A format is the list of its field sizes: \<open>I\<close> is 4 bytes, \<open>H\<close> 2, \<open>Q\<close> 8.  A value
  out of the range of its field raises \<open>struct.error\<close>.\<close>

fun pack_fields :: "(nat \<times> int) list \<Rightarrow> bytes result" where
  "pack_fields [] = Inr []"
| "pack_fields ((k, n) # fs) =
     (if 0 \<le> n \<and> n < 256 ^ k
      then bindE (pack_fields fs) (\<lambda>bs. Inr (be_bytes k (nat n) @ bs))
      else Inl StructError)"

fun unpack_fields :: "nat list \<Rightarrow> bytes \<Rightarrow> int list" where
  "unpack_fields [] bs = []"
| "unpack_fields (k # ks) bs = int (be_value (take k bs)) # unpack_fields ks (drop k bs)"

lemma nat_less_256_power: "0 \<le> n \<Longrightarrow> n < 256 ^ k \<Longrightarrow> nat n < 256 ^ k"
  by (simp add: nat_less_iff)

lemma pack_fields_length: "pack_fields fs = Inr bs \<Longrightarrow> length bs = sum_list (map fst fs)"
  by (induction fs arbitrary: bs rule: pack_fields.induct)
     (auto simp: bindE_eq_Inr_iff split: if_splits)

lemma unpack_pack:
  "pack_fields fs = Inr bs \<Longrightarrow> unpack_fields (map fst fs) (bs @ rest) = map snd fs"
proof (induction fs arbitrary: bs rule: pack_fields.induct)
  case (2 k n fs)
  then obtain cs where n: "0 \<le> n" "n < 256 ^ k" and cs: "pack_fields fs = Inr cs"
    and bs: "bs = be_bytes k (nat n) @ cs"
    by (auto simp: bindE_eq_Inr_iff split: if_splits)
  have "be_value (be_bytes k (nat n)) = nat n"
    using n by (intro be_value_be_bytes nat_less_256_power)
  with 2(1) [OF _ cs] n bs show ?case by simp
qed simp

lemma pack_unpack:
  "length bs = sum_list ks \<Longrightarrow> pack_fields (zip ks (unpack_fields ks bs)) = Inr bs"
proof (induction ks arbitrary: bs)
  case (Cons k ks)
  have len: "length (take k bs) = k" using Cons.prems by simp
  have "be_value (take k bs) < 256 ^ k" using be_value_less [of "take k bs"] by (simp only: len)
  then have "int (be_value (take k bs)) < 256 ^ k"
    by (metis of_nat_less_iff of_nat_numeral of_nat_power)
  moreover have "be_bytes k (be_value (take k bs)) = take k bs"
    using be_bytes_be_value [of "take k bs"] by (simp only: len)
  ultimately show ?case using Cons by simp
qed simp

section \<open>Messages\<close>

definition MAGIC :: int where "MAGIC = 0x43334D31"

definition VERSION :: int where "VERSION = 1"

definition MAX_KEY_BYTES :: nat where "MAX_KEY_BYTES = 64"

definition MAX_VALUE_BYTES :: nat where "MAX_VALUE_BYTES = 4096"

definition REQUEST_STRUCT :: "nat list" where "REQUEST_STRUCT = [4, 2, 2, 8, 4, 4]"

definition RESPONSE_STRUCT :: "nat list" where "RESPONSE_STRUCT = [4, 2, 2, 8, 4]"

definition struct_size :: "nat list \<Rightarrow> nat" where "struct_size ks = sum_list ks"

datatype operation = PUT | GET | DELETE

fun op_code :: "operation \<Rightarrow> int" where
  "op_code PUT = 1"
| "op_code GET = 2"
| "op_code DELETE = 3"

text \<open>\<open>Operation(raw)\<close> and \<open>Status(raw)\<close> raise \<open>ValueError\<close> on other codes.\<close>

definition operation_of :: "int \<Rightarrow> operation result" where
  "operation_of n =
     (if n = 1 then Inr PUT else if n = 2 then Inr GET else if n = 3 then Inr DELETE else Inl ValueError)"

datatype status = OK | INVALID | NOT_FOUND | BACKEND_ERROR | TOO_LARGE | PROTOCOL_ERROR

fun status_code :: "status \<Rightarrow> int" where
  "status_code OK = 0"
| "status_code INVALID = 1"
| "status_code NOT_FOUND = 2"
| "status_code BACKEND_ERROR = 3"
| "status_code TOO_LARGE = 4"
| "status_code PROTOCOL_ERROR = 5"

definition status_of :: "int \<Rightarrow> status result" where
  "status_of n =
     (if n = 0 then Inr OK else if n = 1 then Inr INVALID else if n = 2 then Inr NOT_FOUND
      else if n = 3 then Inr BACKEND_ERROR else if n = 4 then Inr TOO_LARGE
      else if n = 5 then Inr PROTOCOL_ERROR else Inl ValueError)"

record request =
  req_id :: int
  req_op :: operation
  req_key :: bytes
  req_value :: bytes

record response =
  resp_id :: int
  resp_status :: status
  resp_value :: bytes

definition validate_request :: "operation \<Rightarrow> bytes \<Rightarrow> bytes \<Rightarrow> unit result" where
  "validate_request op key val =
     bindE (whenE (key = [] \<or> MAX_KEY_BYTES < length key) ValueError) (\<lambda>_.
     bindE (whenE (MAX_VALUE_BYTES < length val) ValueError) (\<lambda>_.
     whenE (op \<in> {GET, DELETE} \<and> val \<noteq> []) ValueError))"

definition encode_request :: "request \<Rightarrow> bytes result" where
  "encode_request r =
     bindE (validate_request (req_op r) (req_key r) (req_value r)) (\<lambda>_.
     bindE (pack_fields (zip REQUEST_STRUCT
              [MAGIC, VERSION, op_code (req_op r), req_id r,
               int (length (req_key r)), int (length (req_value r))])) (\<lambda>header.
     Inr (header @ req_key r @ req_value r)))"

definition encode_response :: "response \<Rightarrow> bytes result" where
  "encode_response r =
     bindE (whenE (MAX_VALUE_BYTES < length (resp_value r)) ValueError) (\<lambda>_.
     bindE (pack_fields (zip RESPONSE_STRUCT
              [MAGIC, VERSION, status_code (resp_status r), resp_id r, int (length (resp_value r))])) (\<lambda>header.
     Inr (header @ resp_value r)))"

section \<open>Reading from a stream\<close>

type_synonym 's reader = "'s \<Rightarrow> nat \<Rightarrow> bytes \<times> 's"

function recv_exact_loop :: "'s reader \<Rightarrow> bytes list \<Rightarrow> nat \<Rightarrow> 's \<Rightarrow> (bytes \<times> 's) result" where
  "recv_exact_loop recv acc remaining s =
     (if remaining = 0 then Inr (concat acc, s)
      else case recv s remaining of (chunk, s') \<Rightarrow>
           if chunk = [] then Inl EOFError
           else recv_exact_loop recv (acc @ [chunk]) (remaining - length chunk) s')"
  by pat_completeness auto
termination
  by (relation "measure (\<lambda>(recv, acc, remaining, s). remaining)") auto

declare recv_exact_loop.simps [simp del]

definition recv_exact :: "'s reader \<Rightarrow> nat \<Rightarrow> 's \<Rightarrow> (bytes \<times> 's) result" where
  "recv_exact recv n s = recv_exact_loop recv [] n s"

text \<open>The checks on the fixed header, up to the point where the payload is read.\<close>

definition parse_request_header :: "bytes \<Rightarrow> (int \<times> operation \<times> int \<times> int) result" where
  "parse_request_header raw =
     (case unpack_fields REQUEST_STRUCT raw of
       [magic, version, operation_raw, request_id, key_len, value_len] \<Rightarrow>
         bindE (whenE (magic \<noteq> MAGIC \<or> version \<noteq> VERSION) ValueError) (\<lambda>_.
         bindE (operation_of operation_raw) (\<lambda>op.
         bindE (whenE (key_len = 0 \<or> int MAX_KEY_BYTES < key_len \<or> int MAX_VALUE_BYTES < value_len)
                  ValueError) (\<lambda>_.
         Inr (request_id, op, key_len, value_len))))
     | _ \<Rightarrow> Inl StructError)"

definition recv_request :: "'s reader \<Rightarrow> 's \<Rightarrow> (request \<times> 's) result" where
  "recv_request recv s =
     bindE (recv_exact recv (struct_size REQUEST_STRUCT) s) (\<lambda>(raw, s1).
     bindE (parse_request_header raw) (\<lambda>(request_id, op, key_len, value_len).
     bindE (recv_exact recv (nat (key_len + value_len)) s1) (\<lambda>(payload, s2).
     let r = \<lparr>req_id = request_id, req_op = op, req_key = take (nat key_len) payload,
              req_value = drop (nat key_len) payload\<rparr> in
     bindE (validate_request (req_op r) (req_key r) (req_value r)) (\<lambda>_.
     Inr (r, s2)))))"

definition parse_response_header :: "bytes \<Rightarrow> (int \<times> status \<times> int) result" where
  "parse_response_header raw =
     (case unpack_fields RESPONSE_STRUCT raw of
       [magic, version, status_raw, request_id, value_len] \<Rightarrow>
         bindE (whenE (magic \<noteq> MAGIC \<or> version \<noteq> VERSION) ValueError) (\<lambda>_.
         bindE (whenE (int MAX_VALUE_BYTES < value_len) ValueError) (\<lambda>_.
         bindE (status_of status_raw) (\<lambda>st.
         Inr (request_id, st, value_len))))
     | _ \<Rightarrow> Inl StructError)"

definition recv_response :: "'s reader \<Rightarrow> 's \<Rightarrow> (response \<times> 's) result" where
  "recv_response recv s =
     bindE (recv_exact recv (struct_size RESPONSE_STRUCT) s) (\<lambda>(raw, s1).
     bindE (parse_response_header raw) (\<lambda>(request_id, st, value_len).
     bindE (if value_len \<noteq> 0 then recv_exact recv (nat value_len) s1 else Inr ([], s1)) (\<lambda>(v, s2).
     Inr (\<lparr>resp_id = request_id, resp_status = st, resp_value = v\<rparr>, s2))))"

text \<open>
  \<open>call\<close>: one request over a fresh connection.  \<open>serve\<close> stands for the peer: it gets
  the bytes that were sent and gives the stream of what it sends back.
\<close>

definition call :: "'s reader \<Rightarrow> (bytes \<Rightarrow> 's) \<Rightarrow> request \<Rightarrow> response result" where
  "call recv serve r =
     bindE (encode_request r) (\<lambda>sent.
     bindE (recv_response recv (serve sent)) (\<lambda>(resp, s).
     bindE (whenE (resp_id resp \<noteq> req_id r) ValueError) (\<lambda>_. Inr resp)))"

section \<open>The stream interface\<close>

text \<open>
  What \<open>recv_exact\<close> relies on: \<open>recv\<close> hands over a prefix of what the stream still
  holds, at most as long as asked for, and an empty one only at the end.
\<close>

locale byte_stream =
  fixes recv :: "'s reader" and content :: "'s \<Rightarrow> bytes" and inv :: "'s \<Rightarrow> bool"
  assumes recv_prefix: "inv s \<Longrightarrow> recv s n = (c, s') \<Longrightarrow> content s = c @ content s'"
    and recv_bound: "inv s \<Longrightarrow> recv s n = (c, s') \<Longrightarrow> length c \<le> n"
    and recv_progress: "inv s \<Longrightarrow> 0 < n \<Longrightarrow> recv s n = ([], s') \<Longrightarrow> content s = []"
    and recv_inv: "inv s \<Longrightarrow> recv s n = (c, s') \<Longrightarrow> inv s'"
begin

lemma recv_exact_loop_enough:
  "inv s \<Longrightarrow> n \<le> length (content s) \<Longrightarrow>
   \<exists>s'. recv_exact_loop recv acc n s = Inr (concat acc @ take n (content s), s')
      \<and> content s' = drop n (content s) \<and> inv s'"
proof (induction n arbitrary: acc s rule: less_induct)
  case (less n)
  show ?case
  proof (cases "n = 0")
    case True
    then show ?thesis using less.prems by (simp add: recv_exact_loop.simps)
  next
    case False
    obtain c s1 where r: "recv s n = (c, s1)" by fastforce
    note c = recv_prefix [OF less.prems(1) r] recv_bound [OF less.prems(1) r]
    have ne: "c \<noteq> []"
      using recv_progress [OF less.prems(1), of n s1] r False less.prems(2) by auto
    then have lt: "n - length c < n" using False by (cases c) simp_all
    have "n - length c \<le> length (content s1)" using less.prems(2) c by simp
    from less.IH [OF lt recv_inv [OF less.prems(1) r] this, of "acc @ [c]"]
    obtain s' where "recv_exact_loop recv (acc @ [c]) (n - length c) s1
        = Inr (concat (acc @ [c]) @ take (n - length c) (content s1), s')"
      and "content s' = drop (n - length c) (content s1)" and "inv s'" by blast
    then show ?thesis
      using False r ne c by (simp add: recv_exact_loop.simps [of _ _ n])
  qed
qed

lemma recv_exact_loop_short:
  "inv s \<Longrightarrow> length (content s) < n \<Longrightarrow> recv_exact_loop recv acc n s = Inl EOFError"
proof (induction n arbitrary: acc s rule: less_induct)
  case (less n)
  obtain c s1 where r: "recv s n = (c, s1)" by fastforce
  show ?case
  proof (cases "c = []")
    case True
    then show ?thesis using less.prems(2) r by (simp add: recv_exact_loop.simps [of _ _ n])
  next
    case False
    then have lt: "n - length c < n" using less.prems(2) by (cases c) simp_all
    have "length (content s1) < n - length c"
      using recv_prefix [OF less.prems(1) r] less.prems(2) by simp
    from less.IH [OF lt recv_inv [OF less.prems(1) r] this] False r less.prems(2)
    show ?thesis by (simp add: recv_exact_loop.simps [of _ _ n])
  qed
qed

lemma recv_exact_cases:
  assumes "inv s"
  obtains (enough) s' where "n \<le> length (content s)"
      "recv_exact recv n s = Inr (take n (content s), s')"
      "content s' = drop n (content s)" "inv s'"
    | (short) "length (content s) < n" "recv_exact recv n s = Inl EOFError"
  using recv_exact_loop_enough [OF assms, of n "[]"] recv_exact_loop_short [OF assms, of n "[]"]
  by (cases "n \<le> length (content s)") (auto simp: recv_exact_def)

end

section \<open>The two providers\<close>

text \<open>A binary file (\<open>read\<close>) hands over as much as was asked for.\<close>

definition file_read :: "bytes reader" where
  "file_read s n = (take n s, drop n s)"

text \<open>A socket hands over at most the segment that has arrived; at the end of the
  segments the peer has closed the connection.\<close>

fun sock_recv :: "bytes list reader" where
  "sock_recv [] n = ([], [])"
| "sock_recv (c # cs) n = (take n c, if length c \<le> n then cs else drop n c # cs)"

definition no_empty :: "bytes list \<Rightarrow> bool" where
  "no_empty cs \<longleftrightarrow> [] \<notin> set cs"

interpretation bfile: byte_stream file_read "\<lambda>s. s" "\<lambda>_. True"
  by unfold_locales (auto simp: file_read_def)

interpretation sock: byte_stream sock_recv concat no_empty
proof
  fix s :: "bytes list" and n c s'
  show "no_empty s \<Longrightarrow> sock_recv s n = (c, s') \<Longrightarrow> concat s = c @ concat s'"
    by (cases s) (auto split: if_splits)
  show "no_empty s \<Longrightarrow> sock_recv s n = (c, s') \<Longrightarrow> length c \<le> n"
    by (cases s) auto
  show "no_empty s \<Longrightarrow> 0 < n \<Longrightarrow> sock_recv s n = ([], s') \<Longrightarrow> concat s = []"
    by (cases s) (auto simp: no_empty_def)
  show "no_empty s \<Longrightarrow> sock_recv s n = (c, s') \<Longrightarrow> no_empty s'"
    by (cases s) (auto simp: no_empty_def split: if_splits)
qed

lemma recv_exact_file:
  "recv_exact file_read n s = (if n \<le> length s then Inr (take n s, drop n s) else Inl EOFError)"
  by (rule bfile.recv_exact_cases [where s = s and n = n]) auto

section \<open>Decoding does not depend on how the bytes arrive\<close>

context byte_stream
begin

lemma recv_exact_abs:
  "inv s \<Longrightarrow> mapR (map_prod id content) (recv_exact recv n s) = recv_exact file_read n (content s)"
  by (rule recv_exact_cases [where s = s and n = n]) (auto simp: recv_exact_file)

lemma recv_exact_step_abs:
  assumes "inv s"
    and "\<And>bs s'. inv s' \<Longrightarrow> mapR (map_prod id content) (g bs s') = h bs (content s')"
  shows "mapR (map_prod id content) (bindE (recv_exact recv n s) (\<lambda>(bs, s'). g bs s')) =
    bindE (recv_exact file_read n (content s)) (\<lambda>(bs, s'). h bs s')"
  by (rule recv_exact_cases [OF assms(1), where n = n]) (auto simp: recv_exact_file assms(2))

lemma recv_request_abs:
  assumes "inv s"
  shows "mapR (map_prod id content) (recv_request recv s) = recv_request file_read (content s)"
  unfolding recv_request_def
proof (rule recv_exact_step_abs [OF assms], goal_cases)
  case (1 raw s1)
  show ?case
  proof (cases "parse_request_header raw")
    case (Inr x)
    obtain i op k v where x: "x = (i, op, k, v)" by (cases x)
    show ?thesis unfolding Inr x bindE_simps prod.case
      by (rule recv_exact_step_abs [OF 1]) (auto simp: Let_def bindE_def split: sum.split)
  qed simp
qed

lemma recv_response_abs:
  assumes "inv s"
  shows "mapR (map_prod id content) (recv_response recv s) = recv_response file_read (content s)"
  unfolding recv_response_def
proof (rule recv_exact_step_abs [OF assms], goal_cases)
  case (1 raw s1)
  show ?case
  proof (cases "parse_response_header raw")
    case (Inr x)
    obtain i st v where x: "x = (i, st, v)" by (cases x)
    show ?thesis
    proof (cases "v = 0")
      case False
      then show ?thesis unfolding Inr x bindE_simps prod.case
        by (simp only: if_True not_False_eq_True) (rule recv_exact_step_abs [OF 1], simp)
    qed (simp add: Inr x)
  qed simp
qed

end

section \<open>Round trips\<close>

text \<open>The messages that \<open>encode\<close> accepts.\<close>

definition valid_request :: "request \<Rightarrow> bool" where
  "valid_request r \<longleftrightarrow> is_ok (validate_request (req_op r) (req_key r) (req_value r))
     \<and> 0 \<le> req_id r \<and> req_id r < 256 ^ 8"

definition valid_response :: "response \<Rightarrow> bool" where
  "valid_response r \<longleftrightarrow> length (resp_value r) \<le> MAX_VALUE_BYTES
     \<and> 0 \<le> resp_id r \<and> resp_id r < 256 ^ 8"

lemma operation_of_code [simp]: "operation_of (op_code op) = Inr op"
  by (cases op) (simp_all add: operation_of_def)

lemma operation_of_Inr: "operation_of n = Inr op \<Longrightarrow> n = op_code op"
  by (auto simp: operation_of_def split: if_splits)

lemma status_of_code [simp]: "status_of (status_code st) = Inr st"
  by (cases st) (simp_all add: status_of_def)

lemma status_of_Inr: "status_of n = Inr st \<Longrightarrow> n = status_code st"
  by (auto simp: status_of_def split: if_splits)

lemma op_code_range: "0 \<le> op_code op" "op_code op < 65536"
  by (cases op; simp)+

lemma status_code_range: "0 \<le> status_code st" "status_code st < 65536"
  by (cases st; simp)+

lemmas protocol_constants =
  MAGIC_def VERSION_def MAX_KEY_BYTES_def MAX_VALUE_BYTES_def REQUEST_STRUCT_def
  RESPONSE_STRUCT_def struct_size_def

lemma validate_request_ok:
  "is_ok (validate_request op k v) \<longleftrightarrow>
     k \<noteq> [] \<and> length k \<le> 64 \<and> length v \<le> 4096 \<and> (op = PUT \<or> v = [])"
  by (cases op) (auto simp: validate_request_def bindE_whenE whenE_def protocol_constants)

lemma is_ok_unit: "is_ok m \<Longrightarrow> m = Inr ()"
  by (cases m) auto


lemma encode_requestE:
  assumes "encode_request r = Inr bs"
  obtains h where "bs = h @ req_key r @ req_value r" and "length h = 24"
    and "is_ok (validate_request (req_op r) (req_key r) (req_value r))"
    and "pack_fields (zip REQUEST_STRUCT
           [MAGIC, VERSION, op_code (req_op r), req_id r,
            int (length (req_key r)), int (length (req_value r))]) = Inr h"
proof -
  from assms obtain h where v: "validate_request (req_op r) (req_key r) (req_value r) = Inr ()"
    and h: "pack_fields (zip REQUEST_STRUCT
           [MAGIC, VERSION, op_code (req_op r), req_id r,
            int (length (req_key r)), int (length (req_value r))]) = Inr h"
    and bs: "bs = h @ req_key r @ req_value r"
    by (auto simp: encode_request_def bindE_eq_Inr_iff)
  have "length h = 24" using pack_fields_length [OF h] by (simp add: REQUEST_STRUCT_def)
  with that bs v h show thesis by simp
qed

lemma parse_packed_request:
  assumes "pack_fields (zip REQUEST_STRUCT [MAGIC, VERSION, op_code op, i, k, v]) = Inr h"
    and "0 < k" "k \<le> 64" "v \<le> 4096"
  shows "parse_request_header h = Inr (i, op, k, v)"
proof -
  have "unpack_fields REQUEST_STRUCT h = [MAGIC, VERSION, op_code op, i, k, v]"
    using unpack_pack [OF assms(1), of "[]"] by (simp add: REQUEST_STRUCT_def)
  with assms(2-4) show ?thesis
    by (simp add: parse_request_header_def MAX_KEY_BYTES_def MAX_VALUE_BYTES_def)
qed

lemma decode_encode_request:
  assumes "encode_request r = Inr bs"
  shows "recv_request file_read (bs @ rest) = Inr (r, rest)"
proof -
  from assms obtain h where bs: "bs = h @ req_key r @ req_value r" and len: "length h = 24"
    and v: "is_ok (validate_request (req_op r) (req_key r) (req_value r))"
    and h: "pack_fields (zip REQUEST_STRUCT
           [MAGIC, VERSION, op_code (req_op r), req_id r,
            int (length (req_key r)), int (length (req_value r))]) = Inr h"
    by (rule encode_requestE)
  have "parse_request_header h
      = Inr (req_id r, req_op r, int (length (req_key r)), int (length (req_value r)))"
    using v by (intro parse_packed_request [OF h]) (auto simp: validate_request_ok)
  moreover have "nat (int (length (req_key r)) + int (length (req_value r)))
      = length (req_key r) + length (req_value r)" by simp
  ultimately show ?thesis
    using len is_ok_unit [OF v]
    by (simp add: recv_request_def recv_exact_file bs struct_size_def REQUEST_STRUCT_def Let_def)
qed

lemma parse_request_header_Inr:
  assumes "parse_request_header raw = Inr (i, op, k, v)" and "length raw = 24"
  shows "pack_fields (zip REQUEST_STRUCT [MAGIC, VERSION, op_code op, i, k, v]) = Inr raw"
    and "0 < k" "k \<le> 64" "0 \<le> v" "v \<le> 4096"
proof -
  from assms(1) have u: "unpack_fields REQUEST_STRUCT raw = [MAGIC, VERSION, op_code op, i, k, v]"
    and b: "k \<noteq> 0" "k \<le> 64" "v \<le> 4096"
    by (auto simp: parse_request_header_def REQUEST_STRUCT_def bindE_eq_Inr_iff MAX_KEY_BYTES_def
        MAX_VALUE_BYTES_def dest: operation_of_Inr)
  have "sum_list REQUEST_STRUCT = 24" by (simp add: REQUEST_STRUCT_def)
  then show "pack_fields (zip REQUEST_STRUCT [MAGIC, VERSION, op_code op, i, k, v]) = Inr raw"
    using pack_unpack [of raw REQUEST_STRUCT] assms(2) u by simp
  have "0 \<le> k" "0 \<le> v" using u by (auto simp: REQUEST_STRUCT_def)
  with b show "0 < k" "k \<le> 64" "0 \<le> v" "v \<le> 4096" by simp_all
qed

lemma recv_request_file_Inr:
  assumes "recv_request file_read s = Inr (r, rest)"
  shows "\<exists>bs. encode_request r = Inr bs \<and> s = bs @ rest"
proof -
  let ?raw = "take 24 s" and ?t = "drop 24 s"
  from assms obtain i op k v where len: "24 \<le> length s"
    and hd: "parse_request_header ?raw = Inr (i, op, k, v)"
    and pl: "nat (k + v) \<le> length ?t"
    and val: "validate_request (req_op r) (req_key r) (req_value r) = Inr ()"
    and r: "r = \<lparr>req_id = i, req_op = op, req_key = take (nat k) (take (nat (k + v)) ?t),
                 req_value = drop (nat k) (take (nat (k + v)) ?t)\<rparr>"
    and rest: "rest = drop (nat (k + v)) ?t"
    by (auto simp: recv_request_def recv_exact_file struct_size_def REQUEST_STRUCT_def
        bindE_eq_Inr_iff Let_def split: if_splits)
  have raw: "length ?raw = 24" using len by simp
  note h = parse_request_header_Inr [OF hd raw]
  have kv: "nat (k + v) = nat k + nat v" using h by simp
  have keyl: "int (length (req_key r)) = k" and vall: "int (length (req_value r)) = v"
    using pl h by (simp_all add: r kv)
  have "encode_request r = Inr (?raw @ req_key r @ req_value r)"
    using val h(1) by (simp add: encode_request_def keyl vall r [THEN arg_cong [where f = req_op]]
        r [THEN arg_cong [where f = req_id]])
  moreover have "req_key r @ req_value r = take (nat (k + v)) ?t"
    by (simp only: r request.select_convs append_take_drop_id)
  then have "s = (?raw @ req_key r @ req_value r) @ rest"
    by (metis append_assoc append_take_drop_id rest)
  ultimately show ?thesis by blast
qed

lemma decode_encode_response:
  assumes "encode_response r = Inr bs"
  shows "recv_response file_read (bs @ rest) = Inr (r, rest)"
proof -
  from assms obtain h where v: "length (resp_value r) \<le> 4096"
    and h: "pack_fields (zip RESPONSE_STRUCT
           [MAGIC, VERSION, status_code (resp_status r), resp_id r, int (length (resp_value r))]) = Inr h"
    and bs: "bs = h @ resp_value r"
    by (auto simp: encode_response_def bindE_eq_Inr_iff MAX_VALUE_BYTES_def)
  have len: "length h = 20" using pack_fields_length [OF h] by (simp add: RESPONSE_STRUCT_def)
  have "unpack_fields RESPONSE_STRUCT h =
      [MAGIC, VERSION, status_code (resp_status r), resp_id r, int (length (resp_value r))]"
    using unpack_pack [OF h, of "[]"] by (simp add: RESPONSE_STRUCT_def)
  then have "parse_response_header h = Inr (resp_id r, resp_status r, int (length (resp_value r)))"
    using v by (simp add: parse_response_header_def MAX_VALUE_BYTES_def)
  then show ?thesis using len
    by (simp add: recv_response_def recv_exact_file bs struct_size_def RESPONSE_STRUCT_def)
qed

section \<open>Properties\<close>

lemma sample_request_bytes:
  "encode_request \<lparr>req_id = 123, req_op = PUT, req_key = [0x6B, 0x65], req_value = [0x76]\<rparr> =
   Inr [0x43, 0x33, 0x4D, 0x31, 0, 1, 0, 1, 0, 0, 0, 0, 0, 0, 0, 123, 0, 0, 0, 2, 0, 0, 0, 1,
        0x6B, 0x65, 0x76]"
  by (simp add: encode_request_def protocol_constants validate_request_def)

lemma sample_response_bytes:
  "encode_response \<lparr>resp_id = 123, resp_status = NOT_FOUND, resp_value = []\<rparr> =
   Inr [0x43, 0x33, 0x4D, 0x31, 0, 1, 0, 2, 0, 0, 0, 0, 0, 0, 0, 123, 0, 0, 0, 0]"
  by (simp add: encode_response_def protocol_constants)

text \<open>C19. A request that \<open>encode\<close> accepts is read back unchanged by \<open>recv_request\<close>,
  however the socket cuts its bytes into segments, and the bytes after it stay in the
  stream.\<close>

theorem request_round_trip:
  assumes "encode_request r = Inr bs" and "no_empty segs" and "concat segs = bs @ rest"
  shows "\<exists>segs'. recv_request sock_recv segs = Inr (r, segs') \<and> concat segs' = rest"
proof -
  have "mapR (map_prod id concat) (recv_request sock_recv segs) = Inr (r, rest)"
    using sock.recv_request_abs [OF assms(2)] assms(3) decode_encode_request [OF assms(1)] by simp
  then show ?thesis by (auto simp: mapR_eq_Inr_iff)
qed

theorem request_round_trip_witness:
  "\<exists>segs'. recv_request sock_recv
     [[0x43, 0x33, 0x4D], [0x31, 0, 1, 0, 1, 0, 0, 0, 0, 0, 0, 0, 123, 0, 0, 0, 2, 0],
      [0, 0, 1, 0x6B], [0x65, 0x76, 0xFF]] =
       Inr (\<lparr>req_id = 123, req_op = PUT, req_key = [0x6B, 0x65], req_value = [0x76]\<rparr>, segs')
     \<and> concat segs' = [0xFF]"
  by (rule request_round_trip [OF sample_request_bytes]) (simp_all add: no_empty_def)

text \<open>C20. The decoder is canonical: whatever \<open>recv_request\<close> accepts is the encoding of
  the request it returns, so no two byte sequences decode to the same request.\<close>

theorem recv_request_canonical:
  assumes "recv_request sock_recv segs = Inr (r, segs')" and "no_empty segs"
  shows "\<exists>bs. encode_request r = Inr bs \<and> concat segs = bs @ concat segs'"
proof (rule recv_request_file_Inr)
  show "recv_request file_read (concat segs) = Inr (r, concat segs')"
    using sock.recv_request_abs [OF assms(2)] assms(1) by simp
qed

theorem recv_request_canonical_witness:
  "\<exists>bs. encode_request \<lparr>req_id = 123, req_op = PUT, req_key = [0x6B, 0x65], req_value = [0x76]\<rparr>
      = Inr bs \<and> concat [[0x43, 0x33, 0x4D, 0x31, 0, 1, 0, 1, 0, 0, 0, 0, 0, 0, 0, 123,
        0, 0, 0, 2, 0, 0, 0, 1, 0x6B, 0x65, 0x76]] = bs @ concat []"
  by (rule recv_request_canonical)
     (simp_all add: no_empty_def recv_request_def recv_exact_def recv_exact_loop.simps
      protocol_constants parse_request_header_def be_value_def operation_of_def validate_request_def)

text \<open>Over-limit declarations are rejected from the header alone: with a declared
  empty or over-long key, or an over-long value, \<open>recv_request\<close> raises an error whatever
  payload follows, so it never reads one.\<close>

theorem over_limit_rejected_before_payload:
  assumes "unpack_fields REQUEST_STRUCT raw = [m, ver, op, i, k, v]" and "length raw = 24"
    and "k = 0 \<or> 64 < k \<or> 4096 < v"
    and "no_empty segs" and "concat segs = raw @ payload"
  shows "recv_request sock_recv segs = Inl ValueError"
proof -
  have "parse_request_header raw = Inl ValueError"
    using assms(1,3)
    by (auto simp: parse_request_header_def bindE_whenE MAX_KEY_BYTES_def MAX_VALUE_BYTES_def
        operation_of_def whenE_def)
  then have "recv_request file_read (raw @ payload) = Inl ValueError"
    using assms(2) by (simp add: recv_request_def recv_exact_file struct_size_def REQUEST_STRUCT_def)
  then have "mapR (map_prod id concat) (recv_request sock_recv segs) = Inl ValueError"
    using sock.recv_request_abs [OF assms(4)] assms(5) by simp
  then show ?thesis by (cases "recv_request sock_recv segs") auto
qed

theorem over_limit_rejected_before_payload_witness:
  "recv_request sock_recv [[0x43, 0x33, 0x4D, 0x31, 0, 1, 0, 1, 0, 0, 0, 0, 0, 0, 0, 5,
      0, 0, 0, 1, 0, 0, 0x10, 0x01, 0x6B]] = Inl ValueError"
  by (rule over_limit_rejected_before_payload [where payload = "[0x6B]" and k = 1 and v = 4097 and
       m = "0x43334D31" and ver = 1 and op = 1 and i = 5 and
       raw = "[0x43, 0x33, 0x4D, 0x31, 0, 1, 0, 1, 0, 0, 0, 0, 0, 0, 0, 5, 0, 0, 0, 1, 0, 0, 0x10, 0x01]"])
     (simp_all add: no_empty_def protocol_constants be_value_def)

text \<open>A call over the protocol returns exactly what the peer answered when the peer
  encodes a response with the request's identifier, and raises when the identifier is
  another one.\<close>

theorem call_matches_identifier:
  assumes "encode_request r = Inr sent" and "encode_response resp = Inr bs"
    and "no_empty (serve sent)" and "concat (serve sent) = bs @ rest"
  shows "call sock_recv serve r = (if resp_id resp = req_id r then Inr resp else Inl ValueError)"
proof -
  have "mapR (map_prod id concat) (recv_response sock_recv (serve sent)) = Inr (resp, rest)"
    using sock.recv_response_abs [OF assms(3)] assms(4) decode_encode_response [OF assms(2)] by simp
  then show ?thesis using assms(1) by (auto simp: mapR_eq_Inr_iff call_def)
qed

theorem call_matches_identifier_witness:
  "call sock_recv (\<lambda>_. [[0x43, 0x33, 0x4D, 0x31, 0, 1, 0, 2], [0, 0, 0, 0, 0, 0, 0, 123, 0, 0, 0, 0]])
     \<lparr>req_id = 123, req_op = PUT, req_key = [0x6B, 0x65], req_value = [0x76]\<rparr>
   = Inr \<lparr>resp_id = 123, resp_status = NOT_FOUND, resp_value = []\<rparr>"
  using call_matches_identifier [OF sample_request_bytes sample_response_bytes, of
     "\<lambda>_. [[0x43, 0x33, 0x4D, 0x31, 0, 1, 0, 2], [0, 0, 0, 0, 0, 0, 0, 123, 0, 0, 0, 0]]" "[]"]
  by (simp add: no_empty_def)

end
