(* ===== verification/Crypto.thy ===== *)
theory Crypto
  imports Prelude
begin

text \<open>
  The functions of \<open>hashlib\<close> and \<open>hmac\<close> that the audit chain and the gateway call,
  as executable definitions: SHA-256 (FIPS 180-4), HMAC-SHA256 (RFC 2104) and keyed
  BLAKE2b (RFC 7693).  The proofs of the components use them only through the
  interface at the end: a digest of fixed length.
\<close>

unbundle bit_operations_syntax

section \<open>SHA-256\<close>

text \<open>The 64 constants, eight to a number in big-endian order.\<close>

definition split_words :: "nat \<Rightarrow> 32 word list" where
  "split_words n = map (\<lambda>i. word_of_nat (n div 2 ^ (32 * i))) (rev [0..<8])"

definition sha256_k :: "32 word list" where
  "sha256_k = concat (map split_words
     [0x428a2f9871374491b5c0fbcfe9b5dba53956c25b59f111f1923f82a4ab1c5ed5,
      0xd807aa9812835b01243185be550c7dc372be5d7480deb1fe9bdc06a7c19bf174,
      0xe49b69c1efbe47860fc19dc6240ca1cc2de92c6f4a7484aa5cb0a9dc76f988da,
      0x983e5152a831c66db00327c8bf597fc7c6e00bf3d5a7914706ca635114292967,
      0x27b70a852e1b21384d2c6dfc53380d13650a7354766a0abb81c2c92e92722c85,
      0xa2bfe8a1a81a664bc24b8b70c76c51a3d192e819d6990624f40e3585106aa070,
      0x19a4c1161e376c082748774c34b0bcb5391c0cb34ed8aa4a5b9cca4f682e6ff3,
      0x748f82ee78a5636f84c878148cc7020890befffaa4506cebbef9a3f7c67178f2])"

datatype sha_state =
  Sha "32 word" "32 word" "32 word" "32 word" "32 word" "32 word" "32 word" "32 word"

definition sha256_init :: sha_state where
  "sha256_init =
     Sha 0x6a09e667 0xbb67ae85 0x3c6ef372 0xa54ff53a 0x510e527f 0x9b05688c 0x1f83d9ab 0x5be0cd19"

definition sha256_pad :: "bytes \<Rightarrow> bytes" where
  "sha256_pad m =
     m @ [0x80] @ replicate ((119 - length m mod 64) mod 64) 0 @ be_bytes 8 (8 * length m)"

definition sha_small0 :: "32 word \<Rightarrow> 32 word" where
  "sha_small0 x = word_rotr 7 x XOR word_rotr 18 x XOR drop_bit 3 x"

definition sha_small1 :: "32 word \<Rightarrow> 32 word" where
  "sha_small1 x = word_rotr 17 x XOR word_rotr 19 x XOR drop_bit 10 x"

definition sha_big0 :: "32 word \<Rightarrow> 32 word" where
  "sha_big0 x = word_rotr 2 x XOR word_rotr 13 x XOR word_rotr 22 x"

definition sha_big1 :: "32 word \<Rightarrow> 32 word" where
  "sha_big1 x = word_rotr 6 x XOR word_rotr 11 x XOR word_rotr 25 x"

text \<open>The message schedule, the latest word first.\<close>

fun sha256_extend :: "nat \<Rightarrow> 32 word list \<Rightarrow> 32 word list" where
  "sha256_extend 0 ws = ws"
| "sha256_extend (Suc n) ws =
     sha256_extend n ((sha_small1 (ws ! 1) + ws ! 6 + sha_small0 (ws ! 14) + ws ! 15) # ws)"

definition sha256_schedule :: "bytes \<Rightarrow> 32 word list" where
  "sha256_schedule block =
     rev (sha256_extend 48 (rev (map (\<lambda>w. word_of_nat (be_value w)) (chunks 4 block))))"

fun sha256_round :: "32 word \<times> 32 word \<Rightarrow> sha_state \<Rightarrow> sha_state" where
  "sha256_round (k, w) (Sha a b c d e f g h) =
     (let t1 = h + sha_big1 e + ((e AND f) XOR (NOT e AND g)) + k + w;
          t2 = sha_big0 a + ((a AND b) XOR (a AND c) XOR (b AND c))
      in Sha (t1 + t2) a b c (d + t1) e f g)"

fun sha_add :: "sha_state \<Rightarrow> sha_state \<Rightarrow> sha_state" where
  "sha_add (Sha a b c d e f g h) (Sha a' b' c' d' e' f' g' h') =
     Sha (a + a') (b + b') (c + c') (d + d') (e + e') (f + f') (g + g') (h + h')"

definition sha256_block :: "bytes \<Rightarrow> sha_state \<Rightarrow> sha_state" where
  "sha256_block block s = sha_add s (fold sha256_round (zip sha256_k (sha256_schedule block)) s)"

fun sha_digest :: "sha_state \<Rightarrow> bytes" where
  "sha_digest (Sha a b c d e f g h) = concat (map (\<lambda>w. be_bytes 4 (unat w)) [a, b, c, d, e, f, g, h])"

definition sha256 :: "bytes \<Rightarrow> bytes" where
  "sha256 m = sha_digest (fold sha256_block (chunks 64 (sha256_pad m)) sha256_init)"

section \<open>HMAC-SHA256\<close>

definition hmac_key_block :: "bytes \<Rightarrow> bytes" where
  "hmac_key_block key =
     (let k = (if 64 < length key then sha256 key else key) in k @ replicate (64 - length k) 0)"

definition hmac_sha256 :: "bytes \<Rightarrow> bytes \<Rightarrow> bytes" where
  "hmac_sha256 key m =
     (let k = hmac_key_block key in
      sha256 (map (\<lambda>b. b XOR 0x5c) k @ sha256 (map (\<lambda>b. b XOR 0x36) k @ m)))"

section \<open>BLAKE2b with a key\<close>

definition blake_iv :: "64 word list" where
  "blake_iv =
     [0x6a09e667f3bcc908, 0xbb67ae8584caa73b, 0x3c6ef372fe94f82b, 0xa54ff53a5f1d36f1,
      0x510e527fade682d1, 0x9b05688c2b3e6c1f, 0x1f83d9abfb41bd6b, 0x5be0cd19137e2179]"

definition blake_sigma :: "nat list list" where
  "blake_sigma =
     [[0, 1, 2, 3, 4, 5, 6, 7, 8, 9, 10, 11, 12, 13, 14, 15],
      [14, 10, 4, 8, 9, 15, 13, 6, 1, 12, 0, 2, 11, 7, 5, 3],
      [11, 8, 12, 0, 5, 2, 15, 13, 10, 14, 3, 6, 7, 1, 9, 4],
      [7, 9, 3, 1, 13, 12, 11, 14, 2, 6, 5, 10, 4, 0, 15, 8],
      [9, 0, 5, 7, 2, 4, 10, 15, 14, 1, 11, 12, 6, 8, 3, 13],
      [2, 12, 6, 10, 0, 11, 8, 3, 4, 13, 7, 5, 15, 14, 1, 9],
      [12, 5, 1, 15, 14, 13, 4, 10, 0, 7, 6, 3, 9, 2, 8, 11],
      [13, 11, 7, 14, 12, 1, 3, 9, 5, 0, 15, 4, 8, 6, 2, 10],
      [6, 15, 14, 9, 11, 3, 0, 8, 12, 2, 13, 7, 1, 4, 10, 5],
      [10, 2, 8, 4, 7, 6, 1, 5, 15, 11, 9, 14, 3, 12, 13, 0]]"

definition le_bytes :: "nat \<Rightarrow> nat \<Rightarrow> bytes" where
  "le_bytes k n = rev (be_bytes k n)"

definition blake_words :: "bytes \<Rightarrow> 64 word list" where
  "blake_words block = map (\<lambda>w. word_of_nat (be_value (rev w))) (chunks 8 block)"

definition blake_g ::
  "nat \<times> nat \<times> nat \<times> nat \<Rightarrow> 64 word \<Rightarrow> 64 word \<Rightarrow> 64 word list \<Rightarrow> 64 word list" where
  "blake_g idx x y v =
     (case idx of (ia, ib, ic, jd) \<Rightarrow>
      let a = v ! ia + v ! ib + x;
          d = word_rotr 32 (v ! jd XOR a);
          c = v ! ic + d;
          b = word_rotr 24 (v ! ib XOR c);
          a' = a + b + y;
          d' = word_rotr 16 (d XOR a');
          c' = c + d';
          b' = word_rotr 63 (b XOR c')
      in v[ia := a', ib := b', ic := c', jd := d'])"

definition blake_lanes :: "(nat \<times> nat \<times> nat \<times> nat) list" where
  "blake_lanes =
     [(0, 4, 8, 12), (1, 5, 9, 13), (2, 6, 10, 14), (3, 7, 11, 15),
      (0, 5, 10, 15), (1, 6, 11, 12), (2, 7, 8, 13), (3, 4, 9, 14)]"

definition blake_round :: "64 word list \<Rightarrow> nat list \<Rightarrow> 64 word list \<Rightarrow> 64 word list" where
  "blake_round m s v =
     fold (\<lambda>(i, lane) u. blake_g lane (m ! (s ! (2 * i))) (m ! (s ! (2 * i + 1))) u)
       (zip [0..<8] blake_lanes) v"

definition blake_compress :: "64 word list \<Rightarrow> bytes \<Rightarrow> nat \<Rightarrow> bool \<Rightarrow> 64 word list" where
  "blake_compress h block t final =
     (let m = blake_words block;
          v0 = h @ blake_iv;
          v1 = v0[12 := v0 ! 12 XOR word_of_nat t, 13 := v0 ! 13 XOR word_of_nat (t div 2 ^ 64)];
          v2 = (if final then v1[14 := NOT (v1 ! 14)] else v1);
          v = fold (blake_round m) (blake_sigma @ take 2 blake_sigma) v2
      in map (\<lambda>i. h ! i XOR v ! i XOR v ! (i + 8)) [0..<8])"

fun blake_blocks :: "64 word list \<Rightarrow> bytes list \<Rightarrow> nat \<Rightarrow> 64 word list" where
  "blake_blocks h [] t = h"
| "blake_blocks h [b] t = blake_compress h (b @ replicate (128 - length b) 0) (t + length b) True"
| "blake_blocks h (b # bs) t = blake_blocks (blake_compress h b (t + 128) False) bs (t + 128)"

definition blake2b :: "bytes \<Rightarrow> nat \<Rightarrow> bytes \<Rightarrow> bytes" where
  "blake2b key len m =
     (let h0 = blake_iv[0 := blake_iv ! 0 XOR 0x01010000 XOR word_of_nat (256 * length key + len)];
          padded = (if key = [] then m else key @ replicate (128 - length key) 0 @ m);
          blocks = (if padded = [] then [[]] else chunks 128 padded)
      in take len (concat (map (\<lambda>w. le_bytes 8 (unat w)) (blake_blocks h0 blocks 0))))"

section \<open>The interface: digests of a fixed length\<close>

locale fixed_digest =
  fixes digest :: "bytes \<Rightarrow> bytes" and len :: nat
  assumes digest_length [simp]: "length (digest m) = len"
begin

text \<open>The digests of two messages written one after the other can be told apart.\<close>

lemma digest_append_inject:
  "digest m @ xs = digest n @ ys \<longleftrightarrow> digest m = digest n \<and> xs = ys"
  by (metis append_eq_append_conv digest_length)

lemma hex_digest_length: "length (bytes_hex (digest m)) = 2 * len"
  by simp

lemma digest_differ_imp_differ: "digest m \<noteq> digest n \<Longrightarrow> m \<noteq> n"
  by auto

end

lemma length_sha_digest: "length (sha_digest s) = 32"
  by (cases s) simp

interpretation sha: fixed_digest sha256 32
  by unfold_locales (simp add: sha256_def length_sha_digest)

interpretation hmac: fixed_digest "hmac_sha256 key" 32
  by unfold_locales (simp add: hmac_sha256_def Let_def)

lemma length_blake_compress [simp]: "length (blake_compress h b t f) = 8"
  by (simp add: blake_compress_def Let_def)

lemma length_blake_blocks: "length h = 8 \<Longrightarrow> length (blake_blocks h bs t) = 8"
  by (induction h bs t rule: blake_blocks.induct) simp_all

lemma length_concat_le_bytes: "length (concat (map (\<lambda>w. le_bytes k (f w)) ws)) = k * length ws"
  by (induction ws) (simp_all add: le_bytes_def)

interpretation blake: fixed_digest "blake2b key 8" 8
proof
  have "length (blake_iv[0 := w]) = 8" for w by (simp add: blake_iv_def)
  then show "length (blake2b key 8 m) = 8" for m
    by (simp add: blake2b_def Let_def length_concat_le_bytes length_blake_blocks)
qed

end
