(* ===== verification/Float64.thy ===== *)
theory Float64
  imports Prelude "HOL-Library.Log_Nat"
begin

text \<open>
  Python's \<open>float\<close>: IEEE 754 binary64 with round-half-even, on exact rationals.

  \<open>rnd\<close> rounds a number of any Archimedean field to 53 significant bits, with
  the subnormal quantum \<open>2^-1074\<close>; it is executable on \<open>rat\<close>.  A float is a
  finite rational, an infinity or a NaN; the arithmetic of the components is the
  exact operation followed by one rounding (\<open>of_exact\<close>).  The two zeros are one
  value here (no operation of the modelled code tells them apart but the printed
  sign of a zero), and so are all NaNs.

  The lemmas are the ones numerical code rests on: rounding is monotone, is the
  identity on the representable numbers, commutes with negation, is exact on
  small integers, and the difference of two floats within a factor of two is
  exact (Sterbenz).
\<close>

section \<open>Rounding to the nearest integer, ties to even\<close>

definition round_half_even :: "'a::floor_ceiling \<Rightarrow> int" where
  "round_half_even x =
     (let n = \<lfloor>x\<rfloor>; d = x - of_int n in
      if 2 * d < 1 then n else if 1 < 2 * d then n + 1 else if even n then n else n + 1)"

lemma round_half_even_of_int [simp]: "round_half_even (of_int n :: 'a::floor_ceiling) = n"
  by (simp add: round_half_even_def)

lemma round_half_even_0 [simp]: "round_half_even (0 :: 'a::floor_ceiling) = 0"
  by (simp add: round_half_even_def)

lemma round_half_even_ge_floor: "\<lfloor>x\<rfloor> \<le> round_half_even x"
  by (simp add: round_half_even_def Let_def)

lemma round_half_even_le_floor: "round_half_even x \<le> \<lfloor>x\<rfloor> + 1"
  by (simp add: round_half_even_def Let_def)

lemma round_half_even_mono:
  assumes "x \<le> y"
  shows "round_half_even x \<le> round_half_even y"
proof (cases "\<lfloor>x\<rfloor> = \<lfloor>y\<rfloor>")
  case True
  with assms show ?thesis by (auto simp: round_half_even_def Let_def)
next
  case False
  with floor_mono [OF assms] have "\<lfloor>x\<rfloor> + 1 \<le> \<lfloor>y\<rfloor>" by simp
  then show ?thesis
    using round_half_even_le_floor [of x] round_half_even_ge_floor [of y] by linarith
qed

lemma round_half_even_le_int: "x \<le> of_int n \<Longrightarrow> round_half_even x \<le> n"
  using round_half_even_mono [of x "of_int n"] by simp

lemma round_half_even_ge_int: "of_int n \<le> x \<Longrightarrow> n \<le> round_half_even x"
  using round_half_even_mono [of "of_int n" x] by simp

lemma round_half_even_minus: "round_half_even (- x) = - round_half_even (x :: 'a::floor_ceiling)"
proof (cases "x = of_int \<lfloor>x\<rfloor>")
  case True
  then have "- x = of_int (- \<lfloor>x\<rfloor>)" by simp
  then show ?thesis by (metis True round_half_even_of_int)
next
  case False
  define n where "n = \<lfloor>x\<rfloor>"
  have lt: "of_int n < x" unfolding n_def using False of_int_floor_le [of x] by (metis le_neq_trans)
  have up: "x < of_int n + 1" using floor_correct [of x] by (simp add: n_def)
  have fl: "\<lfloor>- x\<rfloor> = - n - 1"
    using lt up by (intro floor_unique) simp_all
  show ?thesis
    by (auto simp: round_half_even_def Let_def fl n_def [symmetric])
qed

section \<open>Powers of two and the binary exponent\<close>

abbreviation pow2 :: "int \<Rightarrow> 'a::floor_ceiling" where
  "pow2 e \<equiv> 2 powi e"

lemma pow2_pos [simp]: "0 < (pow2 e :: 'a::floor_ceiling)"
  by simp

lemma pow2_add: "(pow2 (a + b) :: 'a::floor_ceiling) = pow2 a * pow2 b"
  by (simp add: power_int_add)

lemma pow2_diff: "(pow2 (a - b) :: 'a::floor_ceiling) = pow2 a / pow2 b"
  by (simp add: power_int_diff)

lemma pow2_mono: "a \<le> b \<Longrightarrow> (pow2 a :: 'a::floor_ceiling) \<le> pow2 b"
  by (rule power_int_increasing) simp_all

lemma pow2_less_iff: "(pow2 a :: 'a::floor_ceiling) < pow2 b \<longleftrightarrow> a < b"
  using power_int_strict_increasing [of a b "2 :: 'a"] pow2_mono [of b a, where 'a = 'a]
  by (meson not_le one_less_numeral_iff semiring_norm(76))

lemma pow2_int: "0 \<le> e \<Longrightarrow> \<exists>n. 0 < n \<and> (pow2 e :: 'a::floor_ceiling) = of_int n"
  by (rule exI [of _ "2 ^ nat e"]) (simp add: power_int_nonneg_exp)

text \<open>
  \<open>ilog2 x\<close> is the exponent \<open>e\<close> with \<open>2^e \<le> x < 2^(e+1)\<close>, computed from the
  bit length of the integer part of \<open>x\<close> or of its reciprocal.
\<close>

definition ilog2 :: "'a::floor_ceiling \<Rightarrow> int" where
  "ilog2 x = (if 1 \<le> x then int (floorlog 2 (nat \<lfloor>x\<rfloor>)) - 1
              else - int (floorlog 2 (nat (\<lceil>1 / x\<rceil> - 1))))"

lemma floorlog_span:
  assumes "1 < b" and "0 < n"
  shows "b ^ (floorlog b n - 1) \<le> n" and "n < b ^ floorlog b n" and "1 \<le> floorlog b n"
  using floorlog_bounds [of n b] floorlog_eq_zero_iff [of b n] assms by auto

text \<open>The same for any base, as the decimal exponent is computed in the same way.\<close>

lemma floorlog_exponent:
  fixes x :: "'a::floor_ceiling"
  assumes b: "1 < b" and pos: "0 < x"
  defines "e \<equiv> if 1 \<le> x then int (floorlog b (nat \<lfloor>x\<rfloor>)) - 1 else - int (floorlog b (nat (\<lceil>1 / x\<rceil> - 1)))"
  shows "of_nat b powi e \<le> x \<and> x < of_nat b powi (e + 1)"
proof (cases "1 \<le> x")
  case True
  define n where "n = nat \<lfloor>x\<rfloor>"
  define k where "k = floorlog b n"
  have n: "0 < n" and fl: "\<lfloor>x\<rfloor> = int n" using True by (simp_all add: n_def)
  have k: "b ^ (k - 1) \<le> n" "n < b ^ k" "1 \<le> k" unfolding k_def by (rule floorlog_span [OF b n])+
  have e: "e = int (k - 1)" using True k(3) by (simp add: e_def k_def n_def of_nat_diff)
  have "of_nat (b ^ (k - 1)) \<le> (of_nat n :: 'a)" using k(1) by (rule of_nat_mono)
  also have "(of_nat n :: 'a) \<le> x" using of_int_floor_le [of x] by (simp add: fl)
  finally have lo: "of_nat b ^ (k - 1) \<le> x" by simp
  have "x < of_int (\<lfloor>x\<rfloor> + 1)" using floor_correct [of x] by blast
  also have "\<dots> \<le> of_nat (b ^ k)" using k(2) of_nat_mono [of "Suc n" "b ^ k", where 'a = 'a] by (simp add: fl add.commute)
  finally have hi: "x < of_nat b ^ k" by simp
  have "e + 1 = int k" using e k(3) by simp
  with lo hi e show ?thesis by (simp only: power_int_of_nat)
next
  case False
  define m where "m = nat (\<lceil>1 / x\<rceil> - 1)"
  define k where "k = floorlog b m"
  have "1 < 1 / x" using False pos by simp
  then have "of_int 1 < 1 / x" by (simp only: of_int_1)
  then have "1 < \<lceil>1 / x\<rceil>" by (simp only: less_ceiling_iff)
  then have m: "0 < m" and cl: "\<lceil>1 / x\<rceil> = int m + 1" unfolding m_def by linarith+
  have k: "b ^ (k - 1) \<le> m" "m < b ^ k" "1 \<le> k" unfolding k_def by (rule floorlog_span [OF b m])+
  have e: "e = - int k" using False by (simp add: e_def k_def m_def)
  have bpos: "0 < (of_nat b :: 'a)" using b by simp
  have "1 / x \<le> of_int \<lceil>1 / x\<rceil>" by simp
  also have "\<dots> \<le> of_nat (b ^ k)" using k(2) of_nat_mono [of "Suc m" "b ^ k", where 'a = 'a] by (simp add: cl add.commute)
  finally have "1 / x \<le> of_nat b ^ k" by simp
  then have lo: "inverse (of_nat b ^ k) \<le> x" using pos bpos by (simp add: field_simps)
  have "of_nat (b ^ (k - 1)) \<le> (of_nat m :: 'a)" using k(1) by (rule of_nat_mono)
  also have "(of_nat m :: 'a) < 1 / x" using less_ceiling_iff [of "int m" "1 / x"] cl by simp
  finally have "of_nat b ^ (k - 1) < 1 / x" by simp
  then have hi: "x < inverse (of_nat b ^ (k - 1))" using pos bpos by (simp add: field_simps)
  have "e + 1 = - int (k - 1)" using e k(3) by simp
  with lo hi e show ?thesis by (simp only: power_int_minus power_int_of_nat)
qed

lemma ilog2_bounds:
  fixes x :: "'a::floor_ceiling"
  assumes "0 < x"
  shows "pow2 (ilog2 x) \<le> x" and "x < pow2 (ilog2 x + 1)"
  using floorlog_exponent [of 2 x] assms by (simp_all add: ilog2_def)

lemma ilog2_mono:
  fixes x y :: "'a::floor_ceiling"
  assumes "0 < x" and "x \<le> y"
  shows "ilog2 x \<le> ilog2 y"
proof -
  have "pow2 (ilog2 x) < (pow2 (ilog2 y + 1) :: 'a)"
    using ilog2_bounds(1) [OF assms(1)] ilog2_bounds(2) [of y] assms by linarith
  then show ?thesis by (simp add: pow2_less_iff)
qed

lemma ilog2_less:
  fixes x :: "'a::floor_ceiling"
  assumes "0 < x" and "x < pow2 e"
  shows "ilog2 x < e"
  using ilog2_bounds(1) [OF assms(1)] assms(2) by (metis order_le_less_trans pow2_less_iff)

section \<open>Rounding to binary64\<close>

definition quantum :: "'a::floor_ceiling \<Rightarrow> int" where
  "quantum x = max (ilog2 \<bar>x\<bar> - 52) (- 1074)"

definition rnd :: "'a::floor_ceiling \<Rightarrow> 'a" where
  "rnd x = (if x = 0 then 0
            else of_int (round_half_even (x / pow2 (quantum x))) * pow2 (quantum x))"

text \<open>The numbers with at most 53 significant bits above the subnormal quantum.\<close>

definition representable :: "'a::floor_ceiling \<Rightarrow> bool" where
  "representable x \<longleftrightarrow> (\<exists>m e. x = of_int m * pow2 e \<and> \<bar>m\<bar> \<le> 2 ^ 53 \<and> - 1074 \<le> e)"

named_theorems rnd_intros "representability"

lemma representableI:
  "x = of_int m * pow2 e \<Longrightarrow> \<bar>m\<bar> \<le> 2 ^ 53 \<Longrightarrow> - 1074 \<le> e \<Longrightarrow> representable x"
  by (auto simp: representable_def)

lemma representable_0 [simp, rnd_intros]: "representable 0"
  by (rule representableI [where m = 0 and e = 0]) simp_all

lemma representable_of_int [rnd_intros]: "\<bar>n\<bar> \<le> 2 ^ 53 \<Longrightarrow> representable (of_int n)"
  by (rule representableI [where m = n and e = 0]) simp_all

lemma representable_1 [simp, rnd_intros]: "representable 1"
  using representable_of_int [of 1] by simp

lemma representable_numeral [rnd_intros]:
  "(numeral n :: int) \<le> 2 ^ 53 \<Longrightarrow> representable (numeral n)"
  using representable_of_int [of "numeral n"] by simp

lemma representable_of_nat [rnd_intros]: "n \<le> 2 ^ 53 \<Longrightarrow> representable (of_nat n)"
proof -
  assume "n \<le> 2 ^ 53"
  then have "\<bar>int n\<bar> \<le> int (2 ^ 53)" by (simp only: abs_of_nat of_nat_le_iff)
  then have "\<bar>int n\<bar> \<le> 2 ^ 53" by (simp only: of_nat_power of_nat_numeral)
  then show ?thesis using representable_of_int [of "int n"] by simp
qed

lemma representable_minus [simp, rnd_intros]: "representable (- x) \<longleftrightarrow> representable x"
proof -
  have *: "representable (- y)" if "representable y" for y :: 'a
  proof -
    from that obtain m e where "y = of_int m * pow2 e" "\<bar>m\<bar> \<le> 2 ^ 53" "- 1074 \<le> e"
      by (auto simp: representable_def)
    then have "- y = of_int (- m) * pow2 e" "\<bar>- m\<bar> \<le> 2 ^ 53" "- 1074 \<le> e" by simp_all
    then show ?thesis by (rule representableI)
  qed
  show ?thesis using * [of x] * [of "- x"] by auto
qed

lemma representable_double [rnd_intros]:
  assumes "representable (x :: 'a::floor_ceiling)"
  shows "representable (2 * x)"
proof -
  from assms obtain m e where "x = of_int m * pow2 e" "\<bar>m\<bar> \<le> 2 ^ 53" "- 1074 \<le> e"
    by (auto simp: representable_def)
  then have "2 * x = of_int m * pow2 (e + 1)" "\<bar>m\<bar> \<le> 2 ^ 53" "- 1074 \<le> e + 1"
    by (simp_all add: power_int_add)
  then show ?thesis by (rule representableI)
qed

lemma representable_pow2: "- 1074 \<le> e \<Longrightarrow> representable (pow2 e)"
  by (rule representableI [where m = 1 and e = e]) simp_all

lemma rnd_0 [simp]: "rnd 0 = 0"
  by (simp add: rnd_def)

lemma rnd_minus: "rnd (- x) = - rnd x"
  by (simp add: rnd_def quantum_def round_half_even_minus)

lemma abs_scaled_less:
  fixes x :: "'a::floor_ceiling"
  assumes "x \<noteq> 0"
  shows "\<bar>x\<bar> / pow2 (quantum x) < 2 ^ 53"
proof -
  have "\<bar>x\<bar> < pow2 (ilog2 \<bar>x\<bar> + 1)" using assms by (intro ilog2_bounds(2)) simp
  also have "\<dots> \<le> pow2 (quantum x + 53)"
    by (rule pow2_mono) (simp add: quantum_def)
  also have "\<dots> = pow2 (quantum x) * 2 ^ 53" by (simp add: power_int_add)
  finally show ?thesis by (simp add: field_simps)
qed

lemma representable_rnd [simp, rnd_intros]: "representable (rnd x)"
proof (cases "x = 0")
  case False
  let ?s = "x / pow2 (quantum x)"
  have "\<bar>?s\<bar> < 2 ^ 53" using abs_scaled_less [OF False] by (simp add: abs_divide)
  then have "?s \<le> 2 ^ 53" and "- (2 ^ 53) \<le> ?s" by (simp_all only: abs_less_iff minus_le_iff less_imp_le)
  then have "?s \<le> of_int (2 ^ 53)" and "of_int (- (2 ^ 53)) \<le> ?s" by simp_all
  then have "round_half_even ?s \<le> 2 ^ 53" and "- (2 ^ 53) \<le> round_half_even ?s"
    by (blast intro: round_half_even_le_int round_half_even_ge_int)+
  then have "\<bar>round_half_even ?s\<bar> \<le> 2 ^ 53" by simp
  moreover have "- 1074 \<le> quantum x" by (simp add: quantum_def)
  ultimately show ?thesis
    using False by (intro representableI) (simp_all add: rnd_def)
qed simp

text \<open>A representable number is an integer multiple of its own quantum.\<close>

lemma representable_multiple:
  fixes x :: "'a::floor_ceiling"
  assumes "representable x" and "x \<noteq> 0"
  shows "\<exists>k. x = of_int k * pow2 (quantum x)"
proof -
  from assms(1) obtain m e where x: "x = of_int m * pow2 e" and m: "\<bar>m\<bar> \<le> 2 ^ 53" and e: "- 1074 \<le> e"
    by (auto simp: representable_def)
  show ?thesis
  proof (cases "quantum x \<le> e")
    case True
    then obtain n where "(pow2 (e - quantum x) :: 'a) = of_int n"
      using pow2_int [of "e - quantum x"] by auto
    then have "pow2 e = (of_int n :: 'a) * pow2 (quantum x)" by (simp add: power_int_diff field_simps)
    then have "x = of_int (m * n) * pow2 (quantum x)" by (simp add: x)
    then show ?thesis by blast
  next
    case False
    have "\<bar>x\<bar> \<le> 2 ^ 53 * pow2 e"
    proof -
      have "(of_int \<bar>m\<bar> :: 'a) \<le> of_int (2 ^ 53)" using m by (simp only: of_int_le_iff)
      then show ?thesis by (simp add: x abs_mult)
    qed
    also have "\<dots> = pow2 (e + 53)" by (simp add: power_int_add)
    finally have le: "\<bar>x\<bar> \<le> pow2 (e + 53)" .
    have "pow2 (ilog2 \<bar>x\<bar>) \<le> (pow2 (e + 53) :: 'a)"
      using ilog2_bounds(1) [of "\<bar>x\<bar>"] assms(2) le by simp
    then have "ilog2 \<bar>x\<bar> \<le> e + 53" by (metis not_le pow2_less_iff)
    with False e have q: "quantum x = e + 1" and "ilog2 \<bar>x\<bar> = e + 53"
      by (auto simp: quantum_def)
    then have "\<bar>x\<bar> = pow2 (e + 53)"
      using le ilog2_bounds(1) [of "\<bar>x\<bar>"] assms(2) by simp
    moreover have "(pow2 (e + 53) :: 'a) = of_int (2 ^ 52) * pow2 (quantum x)"
      by (simp add: q power_int_add)
    ultimately have "x = of_int (2 ^ 52) * pow2 (quantum x) \<or> x = of_int (- (2 ^ 52)) * pow2 (quantum x)"
      by (cases "0 \<le> x") auto
    then show ?thesis by blast
  qed
qed

lemma rnd_id [simp]: "representable x \<Longrightarrow> rnd x = x"
proof (cases "x = 0")
  case False
  assume "representable x"
  with False obtain k where k: "x = of_int k * pow2 (quantum x)"
    using representable_multiple by blast
  have "x / pow2 (quantum x) = of_int k"
    by (subst k) simp
  then show ?thesis using False k by (simp add: rnd_def)
qed simp

lemma rnd_of_int: "\<bar>n\<bar> \<le> 2 ^ 53 \<Longrightarrow> rnd (of_int n) = of_int n"
  by (simp add: representable_of_int)

lemma rnd_rnd [simp]: "rnd (rnd x) = rnd x"
  by simp


section \<open>Rounding is monotone\<close>

lemma quantum_mono:
  fixes x y :: "'a::floor_ceiling"
  assumes "0 < x" and "x \<le> y"
  shows "quantum x \<le> quantum y"
  using ilog2_mono [OF assms] assms by (simp add: quantum_def)

lemma rnd_le_multiple:
  fixes x :: "'a::floor_ceiling"
  assumes "x \<noteq> 0" and "x \<le> of_int k * pow2 (quantum x)"
  shows "rnd x \<le> of_int k * pow2 (quantum x)"
proof -
  have "x / pow2 (quantum x) \<le> of_int k" using assms(2) by (simp add: pos_divide_le_eq)
  then have "round_half_even (x / pow2 (quantum x)) \<le> k" by (rule round_half_even_le_int)
  with assms(1) show ?thesis by (simp add: rnd_def)
qed

lemma rnd_ge_multiple:
  fixes x :: "'a::floor_ceiling"
  assumes "x \<noteq> 0" and "of_int k * pow2 (quantum x) \<le> x"
  shows "of_int k * pow2 (quantum x) \<le> rnd x"
proof -
  have "of_int k \<le> x / pow2 (quantum x)" using assms(2) by (simp add: pos_le_divide_eq)
  then have "k \<le> round_half_even (x / pow2 (quantum x))" by (rule round_half_even_ge_int)
  with assms(1) show ?thesis by (simp add: rnd_def)
qed

lemma rnd_nonneg: "0 \<le> x \<Longrightarrow> 0 \<le> rnd x"
  using rnd_ge_multiple [of x 0] by (cases "x = 0") simp_all

lemma rnd_nonpos: "x \<le> 0 \<Longrightarrow> rnd x \<le> 0"
  using rnd_nonneg [of "- x"] by (simp add: rnd_minus)

lemma rnd_mono_pos:
  fixes x y :: "'a::floor_ceiling"
  assumes "0 < x" and "x \<le> y"
  shows "rnd x \<le> rnd y"
proof (cases "quantum x = quantum y")
  case True
  have "x / pow2 (quantum y) \<le> y / pow2 (quantum y)"
    using assms(2) by (simp add: divide_right_mono)
  then have "round_half_even (x / pow2 (quantum y)) \<le> round_half_even (y / pow2 (quantum y))"
    by (rule round_half_even_mono)
  then show ?thesis using assms by (simp add: rnd_def True)
next
  case False
  with quantum_mono [OF assms] have lt: "quantum x < quantum y" by simp
  then have qy: "quantum y = ilog2 y - 52" and ly: "ilog2 x + 1 \<le> ilog2 y"
    using assms by (auto simp: quantum_def)
  have "x \<le> pow2 (ilog2 x + 1)" using ilog2_bounds(2) [OF assms(1)] by simp
  also have "\<dots> \<le> pow2 (ilog2 y)" using ly by (rule pow2_mono)
  finally have xB: "x \<le> pow2 (ilog2 y)" .
  have yB: "pow2 (ilog2 y) \<le> y" using assms by (intro ilog2_bounds(1)) simp
  have "0 \<le> ilog2 y - quantum x" using lt qy by simp
  then obtain n where n: "(pow2 (ilog2 y - quantum x) :: 'a) = of_int n"
    using pow2_int by blast
  have Bx: "pow2 (ilog2 y) = of_int n * (pow2 (quantum x) :: 'a)"
    using n by (simp add: power_int_diff field_simps)
  have By: "pow2 (ilog2 y) = of_int (2 ^ 52) * (pow2 (quantum y) :: 'a)"
    by (simp add: qy power_int_diff)
  have "rnd x \<le> pow2 (ilog2 y)"
    using rnd_le_multiple [of x n] xB assms(1) by (simp add: Bx)
  also have "\<dots> \<le> rnd y"
    using rnd_ge_multiple [of y "2 ^ 52"] yB assms By by simp
  finally show ?thesis .
qed

theorem rnd_mono:
  fixes x y :: "'a::floor_ceiling"
  assumes "x \<le> y"
  shows "rnd x \<le> rnd y"
proof -
  consider "0 < x" | "x \<le> 0" "0 \<le> y" | "y < 0" by linarith
  then show ?thesis
  proof cases
    case 1
    then show ?thesis using assms by (rule rnd_mono_pos)
  next
    case 2
    then show ?thesis using rnd_nonpos [of x] rnd_nonneg [of y] by linarith
  next
    case 3
    then have "rnd (- y) \<le> rnd (- x)" using assms by (intro rnd_mono_pos) simp_all
    then show ?thesis by (simp add: rnd_minus)
  qed
qed

lemma rnd_le_representable: "x \<le> r \<Longrightarrow> representable r \<Longrightarrow> rnd x \<le> r"
  using rnd_mono [of x r] by simp

lemma rnd_ge_representable: "r \<le> x \<Longrightarrow> representable r \<Longrightarrow> r \<le> rnd x"
  using rnd_mono [of r x] by simp

lemma rnd_unit:
  assumes "0 \<le> x" and "x \<le> 1"
  shows "0 \<le> rnd x" and "rnd x \<le> 1"
  using assms by (auto intro: rnd_nonneg rnd_le_representable)

section \<open>Exact subtraction\<close>

text \<open>Sterbenz: the difference of two floats within a factor of two is a float.\<close>

lemma sterbenz_ordered:
  fixes x y :: "'a::floor_ceiling"
  assumes rx: "representable x" and ry: "representable y"
    and "0 < y" and "y \<le> x" and "x \<le> 2 * y"
  shows "representable (x - y)"
proof -
  let ?u = "pow2 (quantum y) :: 'a"
  obtain m where m: "y = of_int m * ?u" using representable_multiple [OF ry] assms(3) by auto
  obtain k where k: "x = of_int k * pow2 (quantum x)"
    using representable_multiple [OF rx] assms(3,4) by auto
  have "quantum y \<le> quantum x" using assms(3,4) by (rule quantum_mono)
  then obtain n where "(pow2 (quantum x - quantum y) :: 'a) = of_int n"
    using pow2_int [of "quantum x - quantum y"] by auto
  then have "(pow2 (quantum x) :: 'a) = of_int n * ?u" by (simp add: power_int_diff field_simps)
  with k have x: "x = of_int (k * n) * ?u" by simp
  have "of_int (k * n - m) * ?u = of_int (k * n) * ?u - of_int m * ?u"
    by (simp only: of_int_diff left_diff_distrib)
  also have "\<dots> = x - y" by (simp only: x [symmetric] m [symmetric])
  finally have d: "x - y = of_int (k * n - m) * ?u" by simp
  have "of_int 0 * ?u \<le> of_int (k * n - m) * ?u"
    using assms(4) by (simp only: d [symmetric] of_int_0 mult_zero_left diff_ge_0_iff_ge)
  then have nn: "0 \<le> k * n - m"
    by (simp only: mult_le_cancel_right_pos [OF pow2_pos] of_int_le_iff)
  have "x - y \<le> y" using assms(5) by simp
  then have "of_int (k * n - m) * ?u \<le> of_int m * ?u"
    by (simp only: d [symmetric] m [symmetric])
  then have km: "k * n - m \<le> m"
    by (simp only: mult_le_cancel_right_pos [OF pow2_pos] of_int_le_iff)
  have "y / ?u = of_int m" by (subst m) simp
  then have "of_int m < (2 ^ 53 :: 'a)"
    using abs_scaled_less [of y] assms(3) by simp
  then have "(of_int m :: 'a) < of_int (2 ^ 53)" by simp
  then have "m < 2 ^ 53" by (simp only: of_int_less_iff)
  with nn km have "\<bar>k * n - m\<bar> \<le> 2 ^ 53" by simp
  moreover have "- 1074 \<le> quantum y" by (simp add: quantum_def)
  ultimately show ?thesis using d by (intro representableI)
qed

theorem sterbenz:
  fixes x y :: "'a::floor_ceiling"
  assumes "representable x" and "representable y"
    and "0 \<le> y" and "y \<le> 2 * x" and "x \<le> 2 * y"
  shows "representable (x - y)"
proof -
  have "0 \<le> x" using assms(3-5) by linarith
  consider "y = 0" | "0 < y" "y \<le> x" | "0 < x" "x \<le> y" | "x = 0" "y \<noteq> 0"
    using \<open>0 \<le> x\<close> assms(3) by linarith
  then show ?thesis
  proof cases
    case 1
    then show ?thesis using assms(1) by simp
  next
    case 2
    then show ?thesis using assms by (intro sterbenz_ordered)
  next
    case 3
    then have "representable (y - x)" using assms by (intro sterbenz_ordered)
    then show ?thesis using representable_minus [of "y - x"] by simp
  next
    case 4
    then show ?thesis using assms(3,4) by simp
  qed
qed

section \<open>Doubling\<close>

lemma ilog2_unique:
  fixes x :: "'a::floor_ceiling"
  assumes "pow2 e \<le> x" and "x < pow2 (e + 1)"
  shows "ilog2 x = e"
proof -
  have pos: "0 < x" using assms(1) by (rule less_le_trans [OF pow2_pos])
  have "(pow2 e :: 'a) < pow2 (ilog2 x + 1)" using assms(1) ilog2_bounds(2) [OF pos] by (rule le_less_trans)
  moreover have "(pow2 (ilog2 x) :: 'a) < pow2 (e + 1)"
    using ilog2_bounds(1) [OF pos] assms(2) by (rule le_less_trans)
  ultimately show ?thesis by (simp add: pow2_less_iff)
qed

lemma ilog2_double:
  fixes x :: "'a::floor_ceiling"
  assumes "0 < x"
  shows "ilog2 (2 * x) = ilog2 x + 1"
  using ilog2_bounds [OF assms] by (intro ilog2_unique) (simp_all add: power_int_add)

text \<open>Doubling commutes with rounding above the subnormal range.\<close>

lemma rnd_double:
  fixes x :: "'a::floor_ceiling"
  assumes "pow2 (- 1022) \<le> x"
  shows "rnd (2 * x) = 2 * rnd x"
proof -
  have pos: "0 < x" using assms by (rule less_le_trans [OF pow2_pos])
  have "(pow2 (- 1022) :: 'a) < pow2 (ilog2 x + 1)"
    using assms ilog2_bounds(2) [OF pos] by (rule le_less_trans)
  then have "- 1022 < ilog2 x + 1" by (simp only: pow2_less_iff)
  then have "- 1022 \<le> ilog2 x" by simp
  then have q: "quantum (2 * x) = quantum x + 1"
    using pos by (simp add: quantum_def ilog2_double)
  have "2 * x / pow2 (quantum x + 1) = x / pow2 (quantum x)" by (simp add: power_int_add)
  then show ?thesis using pos by (simp add: rnd_def q power_int_add)
qed

lemma rnd_le_double:
  fixes x y :: "'a::floor_ceiling"
  assumes "y \<le> 2 * x" and "pow2 (- 1022) \<le> x"
  shows "rnd y \<le> 2 * rnd x"
  using rnd_mono [OF assms(1)] by (simp add: rnd_double [OF assms(2)])

section \<open>Rounding a given number\<close>

text \<open>With the exponent \<open>e\<close> known, rounding is one rounding to the nearest integer.\<close>

lemma rnd_value:
  fixes x :: "'a::floor_ceiling"
  assumes "pow2 e \<le> x" and "x < pow2 (e + 1)" and "- 1022 \<le> e"
    and "round_half_even (x / pow2 (e - 52)) = m"
  shows "rnd x = of_int m * pow2 (e - 52)"
proof -
  have pos: "0 < x" using assms(1) by (rule less_le_trans [OF pow2_pos])
  have "ilog2 x = e" by (rule ilog2_unique [OF assms(1,2)])
  then have "quantum x = e - 52" using assms(3) pos by (simp add: quantum_def)
  then show ?thesis using pos assms(4) by (simp add: rnd_def)
qed

end
