(* ===== verification/PyFloat.thy ===== *)
theory PyFloat
  imports Float64
begin

text \<open>
  The Python values built on \<open>rnd\<close>: the type \<open>f64\<close> of floats with infinities and
  NaN, its arithmetic and comparisons, the conversions between \<open>int\<close> and \<open>float\<close>,
  and the parts of \<open>math\<close> and \<open>statistics\<close> that the code calls (\<open>fsum\<close>, \<open>fmean\<close>,
  \<open>pstdev\<close>, \<open>floor\<close>, \<open>ceil\<close>).  Every operation that Python lets raise returns a
  \<open>result\<close>.
\<close>

section \<open>Floats\<close>

datatype f64 = Fin rat | PInf | NInf | NaN

definition max64 :: rat where
  "max64 = 2 ^ 1024"

definition of_exact :: "rat \<Rightarrow> f64" where
  "of_exact x = (let y = rnd x in if max64 \<le> y then PInf else if y \<le> - max64 then NInf else Fin y)"

text \<open>The floats that exist: finite values are representable and below \<open>2^1024\<close>.\<close>

fun is_f64 :: "f64 \<Rightarrow> bool" where
  "is_f64 (Fin x) \<longleftrightarrow> rnd x = x \<and> \<bar>x\<bar> < max64"
| "is_f64 _ \<longleftrightarrow> True"

fun is_finite :: "f64 \<Rightarrow> bool" where
  "is_finite (Fin _) \<longleftrightarrow> True"
| "is_finite _ \<longleftrightarrow> False"

fun fin_val :: "f64 \<Rightarrow> rat" where
  "fin_val (Fin x) = x"
| "fin_val _ = 0"

fun fneg :: "f64 \<Rightarrow> f64" where
  "fneg (Fin x) = Fin (- x)"
| "fneg PInf = NInf"
| "fneg NInf = PInf"
| "fneg NaN = NaN"

fun fabs :: "f64 \<Rightarrow> f64" where
  "fabs (Fin x) = Fin \<bar>x\<bar>"
| "fabs PInf = PInf"
| "fabs NInf = PInf"
| "fabs NaN = NaN"

fun fadd :: "f64 \<Rightarrow> f64 \<Rightarrow> f64" where
  "fadd (Fin x) (Fin y) = of_exact (x + y)"
| "fadd NaN _ = NaN"
| "fadd _ NaN = NaN"
| "fadd PInf NInf = NaN"
| "fadd NInf PInf = NaN"
| "fadd PInf _ = PInf"
| "fadd NInf _ = NInf"
| "fadd _ PInf = PInf"
| "fadd _ NInf = NInf"

definition fsub :: "f64 \<Rightarrow> f64 \<Rightarrow> f64" where
  "fsub a b = fadd a (fneg b)"

definition inf_of_sign :: "rat \<Rightarrow> f64" where
  "inf_of_sign s = (if 0 < s then PInf else if s < 0 then NInf else NaN)"

fun fmul :: "f64 \<Rightarrow> f64 \<Rightarrow> f64" where
  "fmul (Fin x) (Fin y) = of_exact (x * y)"
| "fmul NaN _ = NaN"
| "fmul _ NaN = NaN"
| "fmul PInf (Fin y) = inf_of_sign y"
| "fmul NInf (Fin y) = inf_of_sign (- y)"
| "fmul (Fin x) PInf = inf_of_sign x"
| "fmul (Fin x) NInf = inf_of_sign (- x)"
| "fmul PInf PInf = PInf"
| "fmul PInf NInf = NInf"
| "fmul NInf PInf = NInf"
| "fmul NInf NInf = PInf"

text \<open>Division by a zero raises, whatever the dividend.\<close>

fun fdiv :: "f64 \<Rightarrow> f64 \<Rightarrow> f64 result" where
  "fdiv a (Fin y) =
     (if y = 0 then Inl ZeroDivisionError
      else Inr (case a of Fin x \<Rightarrow> of_exact (x / y)
                | PInf \<Rightarrow> inf_of_sign y | NInf \<Rightarrow> inf_of_sign (- y) | NaN \<Rightarrow> NaN))"
| "fdiv _ NaN = Inr NaN"
| "fdiv (Fin x) _ = Inr (Fin 0)"
| "fdiv _ _ = Inr NaN"

section \<open>Order\<close>

fun frank :: "f64 \<Rightarrow> nat" where
  "frank NInf = 0"
| "frank (Fin _) = 1"
| "frank PInf = 2"
| "frank NaN = 3"

text \<open>
  A total order with NaN above everything, so that the library's sorting
  functions apply.  On floats that are numbers it is Python's order; on NaN
  Python's comparisons (\<open>flt\<close>, \<open>fle\<close>, \<open>feq\<close>) are false, and the order in which
  \<open>sorted\<close> leaves a list with NaN in it is not specified by Python.
\<close>

instantiation f64 :: linorder
begin

definition less_eq_f64 :: "f64 \<Rightarrow> f64 \<Rightarrow> bool" where
  "less_eq_f64 a b \<longleftrightarrow> frank a < frank b \<or> (frank a = frank b \<and> fin_val a \<le> fin_val b)"

definition less_f64 :: "f64 \<Rightarrow> f64 \<Rightarrow> bool" where
  "less_f64 a b \<longleftrightarrow> frank a < frank b \<or> (frank a = frank b \<and> fin_val a < fin_val b)"

instance
proof
  fix x y z :: f64
  show "(x < y) = (x \<le> y \<and> \<not> y \<le> x)"
    by (auto simp: less_eq_f64_def less_f64_def)
  show "x \<le> x" by (simp add: less_eq_f64_def)
  show "x \<le> y \<Longrightarrow> y \<le> z \<Longrightarrow> x \<le> z"
    by (auto simp: less_eq_f64_def)
  show "x \<le> y \<Longrightarrow> y \<le> x \<Longrightarrow> x = y"
    by (cases x; cases y) (auto simp: less_eq_f64_def)
  show "x \<le> y \<or> y \<le> x" by (auto simp: less_eq_f64_def)
qed

end

lemma f64_order_simps [simp]:
  "Fin x \<le> Fin y \<longleftrightarrow> x \<le> y" "Fin x < Fin y \<longleftrightarrow> x < y"
  "NInf \<le> a" "a \<le> NaN" "Fin x \<le> PInf" "Fin x < PInf"
  "\<not> PInf \<le> Fin x" "\<not> Fin x \<le> NInf" "\<not> NaN \<le> Fin x" "\<not> NaN \<le> PInf" "\<not> PInf \<le> NInf"
  by (cases a; simp add: less_eq_f64_def less_f64_def)+

definition flt :: "f64 \<Rightarrow> f64 \<Rightarrow> bool" where
  "flt a b \<longleftrightarrow> a \<noteq> NaN \<and> b \<noteq> NaN \<and> a < b"

definition fle :: "f64 \<Rightarrow> f64 \<Rightarrow> bool" where
  "fle a b \<longleftrightarrow> a \<noteq> NaN \<and> b \<noteq> NaN \<and> a \<le> b"

definition feq :: "f64 \<Rightarrow> f64 \<Rightarrow> bool" where
  "feq a b \<longleftrightarrow> a \<noteq> NaN \<and> a = b"

lemma flt_Fin [simp]: "flt (Fin x) (Fin y) \<longleftrightarrow> x < y"
  by (simp add: flt_def)

lemma fle_Fin [simp]: "fle (Fin x) (Fin y) \<longleftrightarrow> x \<le> y"
  by (simp add: fle_def)

lemma flt_NaN [simp]: "\<not> flt NaN b" "\<not> flt a NaN"
  by (simp_all add: flt_def)

lemma fle_NaN [simp]: "\<not> fle NaN b" "\<not> fle a NaN"
  by (simp_all add: fle_def)

lemma not_fle_flt: "a \<noteq> NaN \<Longrightarrow> b \<noteq> NaN \<Longrightarrow> \<not> fle a b \<longleftrightarrow> flt b a"
  by (auto simp: fle_def flt_def)

text \<open>\<open>max(xs)\<close> keeps the first of several maximal elements and raises on an
  empty argument; \<open>max(a, b, ...)\<close> is the same on the argument list.\<close>

definition py_max :: "f64 list \<Rightarrow> f64 result" where
  "py_max xs = (case xs of [] \<Rightarrow> Inl ValueError
                | x # ys \<Rightarrow> Inr (foldl (\<lambda>m y. if flt m y then y else m) x ys))"

definition fmax2 :: "f64 \<Rightarrow> f64 \<Rightarrow> f64" where
  "fmax2 a b = (if flt a b then b else a)"

lemma foldl_max_mem:
  "foldl (\<lambda>m y. if flt m y then y else m) x ys \<in> insert x (set ys)"
proof (induction ys arbitrary: x)
  case (Cons y ys)
  from Cons.IH [of "if flt x y then y else x"] show ?case by (auto split: if_splits)
qed simp

lemma py_max_mem: "py_max xs = Inr m \<Longrightarrow> m \<in> set xs"
  using foldl_max_mem by (fastforce simp: py_max_def split: list.splits)

lemma foldl_max_upper:
  assumes "NaN \<notin> insert x (set ys)" and "z \<in> insert x (set ys)"
  shows "z \<le> foldl (\<lambda>m y. if flt m y then y else m) x ys"
  using assms
proof (induction ys arbitrary: x z)
  case (Cons y ys)
  define m where "m = (if flt x y then y else x)"
  have m: "NaN \<notin> insert m (set ys)" using Cons.prems(1) by (auto simp: m_def)
  have "x \<le> m" and "y \<le> m" using Cons.prems(1) by (auto simp: m_def flt_def not_less)
  moreover have "m \<le> foldl (\<lambda>m y. if flt m y then y else m) m ys"
    using Cons.IH [OF m, of m] by simp
  moreover have "z \<in> set ys \<Longrightarrow> z \<le> foldl (\<lambda>m y. if flt m y then y else m) m ys"
    using Cons.IH [OF m, of z] by simp
  ultimately have "z \<le> foldl (\<lambda>m y. if flt m y then y else m) m ys"
    using Cons.prems(2) by auto
  then show ?case by (simp add: m_def)
qed simp

lemma py_max_upper: "py_max xs = Inr m \<Longrightarrow> NaN \<notin> set xs \<Longrightarrow> z \<in> set xs \<Longrightarrow> z \<le> m"
  using foldl_max_upper by (fastforce simp: py_max_def split: list.splits)

section \<open>Exactness without overflow\<close>

lemma max64_pos [simp]: "0 < max64"
  by (simp add: max64_def)

lemma small_below_max64: "\<bar>x\<bar> \<le> 2 ^ 64 \<Longrightarrow> \<bar>x\<bar> < max64"
proof -
  have "(2 :: rat) ^ 64 < 2 ^ 1024" by (rule power_strict_increasing) simp_all
  then show "\<bar>x\<bar> \<le> 2 ^ 64 \<Longrightarrow> \<bar>x\<bar> < max64" by (simp only: max64_def)
qed

lemma abs_rnd_le: "\<bar>x\<bar> \<le> r \<Longrightarrow> representable r \<Longrightarrow> \<bar>rnd x\<bar> \<le> r"
proof -
  assume "\<bar>x\<bar> \<le> r" and r: "representable r"
  then have "x \<le> r" and "- r \<le> x" by auto
  then have "rnd x \<le> r" and "- r \<le> rnd x"
    using r by (auto intro: rnd_le_representable rnd_ge_representable)
  then show ?thesis by auto
qed

lemma representable_2_64: "representable (2 ^ 64 :: 'a::floor_ceiling)"
  using representable_pow2 [of 64, where 'a = 'a] by simp

lemma of_exact_small: "\<bar>x\<bar> \<le> 2 ^ 64 \<Longrightarrow> of_exact x = Fin (rnd x)"
proof -
  assume "\<bar>x\<bar> \<le> 2 ^ 64"
  then have "\<bar>rnd x\<bar> \<le> 2 ^ 64" by (rule abs_rnd_le [OF _ representable_2_64])
  then have "\<bar>rnd x\<bar> < max64" by (rule small_below_max64)
  then show ?thesis by (auto simp: of_exact_def Let_def abs_less_iff)
qed

lemma of_exact_not_NaN [simp]: "of_exact x \<noteq> NaN"
  by (simp add: of_exact_def Let_def)

lemma is_f64_of_exact [simp]: "is_f64 (of_exact x)"
  by (auto simp: of_exact_def Let_def abs_less_iff not_le)

lemma of_exact_mono: "x \<le> y \<Longrightarrow> of_exact x \<le> of_exact y"
  using rnd_mono [of x y] by (auto simp: of_exact_def Let_def less_eq_f64_def)

lemma of_exact_0 [simp]: "of_exact 0 = Fin 0"
  using max64_pos by (simp add: of_exact_def not_le)

lemma of_exact_nonneg: "0 \<le> x \<Longrightarrow> Fin 0 \<le> of_exact x"
  using of_exact_mono [of 0 x] by simp

lemma of_exact_representable: "representable x \<Longrightarrow> \<bar>x\<bar> < max64 \<Longrightarrow> of_exact x = Fin x"
  by (auto simp: of_exact_def Let_def abs_less_iff)

section \<open>Conversions\<close>

text \<open>\<open>float(n)\<close> and \<open>a / b\<close> on integers round once and raise when the rounded
  value is out of range; \<open>math.floor\<close>, \<open>math.ceil\<close>, \<open>int\<close> and \<open>round\<close> of a float
  raise on infinities and NaN.\<close>

definition exact_or_overflow :: "rat \<Rightarrow> f64 result" where
  "exact_or_overflow x = (let y = rnd x in if \<bar>y\<bar> < max64 then Inr (Fin y) else Inl OverflowError)"

definition float_of_int :: "int \<Rightarrow> f64 result" where
  "float_of_int n = exact_or_overflow (of_int n)"

definition int_truediv :: "int \<Rightarrow> int \<Rightarrow> f64 result" where
  "int_truediv a b = (if b = 0 then Inl ZeroDivisionError else exact_or_overflow (of_int a / of_int b))"

definition to_int_with :: "(rat \<Rightarrow> int) \<Rightarrow> f64 \<Rightarrow> int result" where
  "to_int_with f a = (case a of Fin x \<Rightarrow> Inr (f x) | NaN \<Rightarrow> Inl ValueError | _ \<Rightarrow> Inl OverflowError)"

definition float_floor :: "f64 \<Rightarrow> int result" where
  "float_floor = to_int_with floor"

definition float_ceil :: "f64 \<Rightarrow> int result" where
  "float_ceil = to_int_with ceiling"

definition rat_trunc :: "rat \<Rightarrow> int" where
  "rat_trunc x = (if x < 0 then \<lceil>x\<rceil> else \<lfloor>x\<rfloor>)"

definition float_trunc :: "f64 \<Rightarrow> int result" where
  "float_trunc = to_int_with rat_trunc"

definition float_round :: "f64 \<Rightarrow> int result" where
  "float_round = to_int_with round_half_even"

text \<open>What \<open>time.sleep\<close> accepts: the nanoseconds must fit 63 bits and not be negative.\<close>

definition sleep_check :: "f64 \<Rightarrow> unit result" where
  "sleep_check seconds =
     (if seconds = NaN then Inl ValueError
      else let ns = fmul seconds (Fin 1000000000) in
        if \<not> (fle (Fin (- (2 ^ 63))) ns \<and> flt ns (Fin (2 ^ 63))) then Inl OverflowError
        else if flt ns (Fin 0) then Inl ValueError
        else Inr ())"

lemma exact_or_overflow_small: "\<bar>x\<bar> \<le> 2 ^ 64 \<Longrightarrow> exact_or_overflow x = Inr (Fin (rnd x))"
proof -
  assume "\<bar>x\<bar> \<le> 2 ^ 64"
  then have "\<bar>rnd x\<bar> \<le> 2 ^ 64" by (rule abs_rnd_le [OF _ representable_2_64])
  then have "\<bar>rnd x\<bar> < max64" by (rule small_below_max64)
  then show ?thesis by (simp add: exact_or_overflow_def)
qed

lemma sleep_check_short:
  assumes "0 \<le> y" and "y \<le> 1"
  shows "sleep_check (Fin y) = Inr ()"
proof -
  let ?d = "y * 1000000000"
  have d: "0 \<le> ?d" "?d \<le> 1000000000" using assms by simp_all
  have r: "0 \<le> rnd ?d" "rnd ?d \<le> 1000000000"
    using rnd_mono [OF d(1)] rnd_mono [OF d(2)] by (simp_all add: representable_numeral)
  have "fmul (Fin y) (Fin 1000000000) = Fin (rnd ?d)" using d by (simp add: of_exact_small)
  then show ?thesis using r by (simp add: sleep_check_def Let_def fle_def flt_def del: fmul.simps)
qed

lemma exact_or_overflow_ok:
  "exact_or_overflow x = Inr a \<Longrightarrow> a = Fin (rnd x) \<and> is_f64 a"
  by (auto simp: exact_or_overflow_def Let_def split: if_splits)

lemma float_of_int_small: "\<bar>n\<bar> \<le> 2 ^ 53 \<Longrightarrow> float_of_int n = Inr (Fin (of_int n))"
proof -
  assume n: "\<bar>n\<bar> \<le> 2 ^ 53"
  then have "of_int \<bar>n\<bar> \<le> (of_int (2 ^ 53) :: rat)" by (simp only: of_int_le_iff)
  also have "(of_int (2 ^ 53) :: rat) \<le> 2 ^ 64" by simp
  finally have "\<bar>of_int n\<bar> \<le> (2 ^ 64 :: rat)" by simp
  then show ?thesis using rnd_of_int [OF n] by (simp add: float_of_int_def exact_or_overflow_small)
qed

text \<open>A ratio of counts lies in the unit interval, in floating point too.\<close>

lemma int_truediv_ratio:
  assumes "0 \<le> a" and "a \<le> b" and "0 < b"
  shows "int_truediv a b = Inr (Fin (rnd (of_int a / of_int b)))"
    and "0 \<le> rnd (of_int a / of_int b :: rat)" and "rnd (of_int a / of_int b :: rat) \<le> 1"
proof -
  have q: "0 \<le> (of_int a / of_int b :: rat)" "(of_int a / of_int b :: rat) \<le> 1"
    using assms by simp_all
  then have "\<bar>of_int a / of_int b :: rat\<bar> \<le> 2 ^ 64" by simp
  then show "int_truediv a b = Inr (Fin (rnd (of_int a / of_int b)))"
    using assms(3) by (simp add: int_truediv_def exact_or_overflow_small)
  from q show "0 \<le> rnd (of_int a / of_int b :: rat)" and "rnd (of_int a / of_int b :: rat) \<le> 1"
    by (rule rnd_unit)+
qed

section \<open>math.fsum, statistics.fmean and statistics.pstdev\<close>

definition fsum :: "f64 list \<Rightarrow> f64 result" where
  "fsum xs =
     (if PInf \<in> set xs \<and> NInf \<in> set xs then Inl ValueError
      else if NaN \<in> set xs then Inr NaN
      else if PInf \<in> set xs then Inr PInf
      else if NInf \<in> set xs then Inr NInf
      else exact_or_overflow (sum_list (map fin_val xs)))"

definition fmean :: "f64 list \<Rightarrow> f64 result" where
  "fmean xs =
     (if xs = [] then Inl StatisticsError
      else bindE (fsum xs) (\<lambda>total.
           bindE (float_of_int (int (length xs))) (\<lambda>n. fdiv total n)))"

fun isqrt :: "nat \<Rightarrow> nat" where
  "isqrt n = (if n = 0 then 0
              else let r = 2 * isqrt (n div 4) in if (r + 1) * (r + 1) \<le> n then r + 1 else r)"

declare isqrt.simps [simp del]

lemma isqrt_bounds: "isqrt n * isqrt n \<le> n \<and> n < (isqrt n + 1) * (isqrt n + 1)"
proof (induction n rule: isqrt.induct)
  case (1 n)
  show ?case
  proof (cases "n = 0")
    case True
    then show ?thesis by (simp add: isqrt.simps)
  next
    case False
    define r where "r = isqrt (n div 4)"
    from 1 False have ih: "r * r \<le> n div 4" "n div 4 < (r + 1) * (r + 1)" by (auto simp: r_def)
    from ih(1) have lo: "4 * (r * r) \<le> n" by linarith
    from ih(2) have hi: "n < 4 * ((r + 1) * (r + 1))" by linarith
    have eq: "isqrt n = (if (2 * r + 1) * (2 * r + 1) \<le> n then 2 * r + 1 else 2 * r)"
      using False by (simp add: isqrt.simps [of n] r_def Let_def)
    show ?thesis
      using lo hi by (auto simp: eq algebra_simps)
  qed
qed

text \<open>
  The square root of a fraction as CPython's \<open>statistics\<close> computes it: an integer
  square root with at least 109 bits, rounded to odd, then one correctly rounded
  integer division.
\<close>

definition isqrt_frac_rto :: "nat \<Rightarrow> nat \<Rightarrow> nat" where
  "isqrt_frac_rto n m = (let a = isqrt (n div m) in if a * a * m \<noteq> n \<and> even a then a + 1 else a)"

definition float_sqrt_of_frac :: "nat \<Rightarrow> nat \<Rightarrow> f64 result" where
  "float_sqrt_of_frac n m =
     (let q = (int (floorlog 2 n) - int (floorlog 2 m) - 109) div 2 in
      if 0 \<le> q
      then int_truediv (int (isqrt_frac_rto n (m * 2 ^ (2 * nat q)) * 2 ^ nat q)) 1
      else int_truediv (int (isqrt_frac_rto (n * 2 ^ (2 * nat (- q))) m)) (2 ^ nat (- q)))"

definition sum_sq_dev :: "rat list \<Rightarrow> rat" where
  "sum_sq_dev xs = (let c = sum_list xs / of_nat (length xs) in sum_list (map (\<lambda>x. (x - c) ^ 2) xs))"

definition pstdev :: "f64 list \<Rightarrow> f64 result" where
  "pstdev xs =
     (if xs = [] then Inl StatisticsError
      else if \<not> list_all is_finite xs then Inl AttributeError
      else let mss = sum_sq_dev (map fin_val xs) / of_nat (length xs);
               nd = quotient_of mss
           in float_sqrt_of_frac (nat (fst nd)) (nat (snd nd)))"

lemma int_truediv_nonneg:
  "int_truediv a b = Inr x \<Longrightarrow> 0 \<le> a \<Longrightarrow> 0 \<le> b \<Longrightarrow> Fin 0 \<le> x"
  by (auto simp: int_truediv_def split: if_splits dest!: exact_or_overflow_ok intro!: rnd_nonneg)

lemma pstdev_nonneg: "pstdev xs = Inr x \<Longrightarrow> Fin 0 \<le> x"
  by (auto simp: pstdev_def float_sqrt_of_frac_def Let_def split: if_splits
      dest!: int_truediv_nonneg)

lemma fsum_nonneg:
  assumes "fsum xs = Inr s" and "\<And>x. x \<in> set xs \<Longrightarrow> Fin 0 \<le> x"
  shows "Fin 0 \<le> s"
proof -
  have "0 \<le> fin_val x" if "x \<in> set xs" for x
    using assms(2) [OF that] by (cases x) auto
  then have "0 \<le> sum_list (map fin_val xs)" by (auto intro!: sum_list_nonneg)
  moreover have "NInf \<notin> set xs" using assms(2) [of NInf] by auto
  ultimately show ?thesis using assms(1)
    by (auto simp: fsum_def split: if_splits dest!: exact_or_overflow_ok intro!: rnd_nonneg)
qed

lemma fdiv_nonneg:
  assumes "fdiv a b = Inr c" and "Fin 0 \<le> a" and "Fin 0 \<le> b"
  shows "Fin 0 \<le> c"
  using assms by (cases a; cases b) (auto simp: inf_of_sign_def of_exact_nonneg split: if_splits)

lemma fmean_nonneg:
  assumes "fmean xs = Inr m" and "\<And>x. x \<in> set xs \<Longrightarrow> Fin 0 \<le> x"
  shows "Fin 0 \<le> m"
proof -
  from assms(1) obtain s n where s: "fsum xs = Inr s" and n: "float_of_int (int (length xs)) = Inr n"
    and m: "fdiv s n = Inr m"
    by (auto simp: fmean_def bindE_eq_Inr_iff split: if_splits)
  have "Fin 0 \<le> s" using fsum_nonneg [OF s] assms(2) by blast
  moreover have "n = Fin (rnd (of_int (int (length xs))))"
    using exact_or_overflow_ok [OF n [unfolded float_of_int_def]] by blast
  then have "Fin 0 \<le> n" by (simp add: rnd_nonneg)
  ultimately show ?thesis by (rule fdiv_nonneg [OF m])
qed

lemma fmax2_nonneg: "Fin 0 \<le> fmax2 (Fin 0) a"
  by (auto simp: fmax2_def flt_def)

end
