(* ===== verification/PyVal.thy ===== *)
theory PyVal
  imports PyFloat
begin

text \<open>
  The values the programs exchange as JSON: telemetry events, feature rows, alerts,
  receipts, models, configurations.  A value is what \<open>json.loads\<close> gives; the
  functions below are the Python operations the code applies to such values
  (\<open>int\<close>, \<open>float\<close>, \<open>str\<close>, truth, \<open>d[k]\<close>, \<open>d.get(k, x)\<close>) with the exceptions they
  raise, and \<open>json.dumps\<close> in the canonical form the audit chain hashes
  (\<open>sort_keys=True\<close>, \<open>separators=(',', ':')\<close>, \<open>ensure_ascii=False\<close>).
\<close>

datatype pyval =
    PNone
  | PBool bool
  | PInt int
  | PFloat f64
  | PStr string
  | PList "pyval list"
  | PDict "(string \<times> pyval) list"

section \<open>Access and truth\<close>

fun py_subscript :: "pyval \<Rightarrow> string \<Rightarrow> pyval result" where
  "py_subscript (PDict d) k = (case dget d k of None \<Rightarrow> Inl KeyError | Some v \<Rightarrow> Inr v)"
| "py_subscript _ k = Inl TypeError"

fun py_get :: "pyval \<Rightarrow> string \<Rightarrow> pyval \<Rightarrow> pyval result" where
  "py_get (PDict d) k x = Inr (case dget d k of None \<Rightarrow> x | Some v \<Rightarrow> v)"
| "py_get _ k x = Inl AttributeError"

fun truthy :: "pyval \<Rightarrow> bool" where
  "truthy PNone \<longleftrightarrow> False"
| "truthy (PBool b) \<longleftrightarrow> b"
| "truthy (PInt n) \<longleftrightarrow> n \<noteq> 0"
| "truthy (PFloat x) \<longleftrightarrow> x \<noteq> Fin 0"
| "truthy (PStr s) \<longleftrightarrow> s \<noteq> []"
| "truthy (PList xs) \<longleftrightarrow> xs \<noteq> []"
| "truthy (PDict d) \<longleftrightarrow> d \<noteq> []"

text \<open>\<open>v == n\<close> for an integer \<open>n\<close> (a bool is an int, an integral float is equal to
  the int) and \<open>v == s\<close> for a string \<open>s\<close>.\<close>

fun eq_int :: "pyval \<Rightarrow> int \<Rightarrow> bool" where
  "eq_int (PBool b) n \<longleftrightarrow> of_bool b = n"
| "eq_int (PInt m) n \<longleftrightarrow> m = n"
| "eq_int (PFloat x) n \<longleftrightarrow> x = Fin (of_int n)"
| "eq_int _ n \<longleftrightarrow> False"

fun eq_str :: "pyval \<Rightarrow> string \<Rightarrow> bool" where
  "eq_str (PStr t) s \<longleftrightarrow> t = s"
| "eq_str _ s \<longleftrightarrow> False"

lemma eq_int_iff_PInt [simp]: "eq_int (PInt m) n \<longleftrightarrow> m = n"
  by simp

lemma eq_strD: "eq_str v s \<Longrightarrow> v = PStr s"
  by (cases v) auto

section \<open>Decimal text\<close>

definition is_digit :: "char \<Rightarrow> bool" where
  "is_digit c = (48 \<le> (of_char c :: nat) \<and> (of_char c :: nat) \<le> 57)"

definition digit_char :: "nat \<Rightarrow> char" where
  "digit_char n = char_of (48 + n)"

function nat_str :: "nat \<Rightarrow> string" where
  "nat_str n = (if n < 10 then [digit_char n] else nat_str (n div 10) @ [digit_char (n mod 10)])"
  by pat_completeness auto
termination
  by (relation "measure id") auto

declare nat_str.simps [simp del]

definition int_str :: "int \<Rightarrow> string" where
  "int_str n = (if n < 0 then CHR ''-'' # nat_str (nat (- n)) else nat_str (nat n))"

definition digits_value :: "string \<Rightarrow> nat" where
  "digits_value ds = foldl (\<lambda>a c. 10 * a + (of_char c - 48)) 0 ds"

text \<open>A run of digits, in which single underscores may stand between two digits.\<close>

fun take_digits :: "string \<Rightarrow> string \<times> string" where
  "take_digits [] = ([], [])"
| "take_digits (c # s) =
     (if \<not> is_digit c then ([], c # s)
      else case s of
             u # d # t \<Rightarrow>
               (if u = CHR ''_'' \<and> is_digit d
                then (case take_digits (d # t) of (ds, r) \<Rightarrow> (c # ds, r))
                else (case take_digits s of (ds, r) \<Rightarrow> (c # ds, r)))
           | _ \<Rightarrow> (case take_digits s of (ds, r) \<Rightarrow> (c # ds, r)))"

text \<open>\<open>str.strip()\<close> removes the white space of \<open>str\<close>, which has the four ASCII separators too.\<close>

definition is_blank :: "char \<Rightarrow> bool" where
  "is_blank c \<longleftrightarrow> is_space c \<or> (let n = of_char c :: nat in 28 \<le> n \<and> n \<le> 31)"

definition strip :: "string \<Rightarrow> string" where
  "strip s = rev (dropWhile is_blank (rev (dropWhile is_blank s)))"

definition take_sign :: "string \<Rightarrow> int \<times> string" where
  "take_sign s = (case s of c # t \<Rightarrow> if c = CHR ''-'' then (-1, t) else if c = CHR ''+'' then (1, t) else (1, s)
                  | [] \<Rightarrow> (1, s))"

text \<open>\<open>int(s)\<close>; the interpreter refuses texts of more than 4300 digits.\<close>

definition parse_int :: "string \<Rightarrow> int result" where
  "parse_int s =
     (case take_sign (strip s) of (sg, t) \<Rightarrow>
      (case take_digits t of (ds, r) \<Rightarrow>
        if ds \<noteq> [] \<and> r = [] \<and> length ds \<le> 4300 then Inr (sg * int (digits_value ds))
        else Inl ValueError))"

definition lower :: "string \<Rightarrow> string" where
  "lower = map (\<lambda>c. let n = of_char c :: nat in if 65 \<le> n \<and> n \<le> 90 then char_of (n + 32) else c)"

definition upper :: "string \<Rightarrow> string" where
  "upper = map (\<lambda>c. let n = of_char c :: nat in if 97 \<le> n \<and> n \<le> 122 then char_of (n - 32) else c)"

text \<open>The exponent part of a float literal, if the text has one.\<close>

definition take_exponent :: "string \<Rightarrow> (int \<times> string) option" where
  "take_exponent s =
     (case s of
        c # t \<Rightarrow>
          if c = CHR ''e'' \<or> c = CHR ''E''
          then (case take_sign t of (sg, u) \<Rightarrow>
                (case take_digits u of (ds, r) \<Rightarrow>
                  if ds = [] then None else Some (sg * int (digits_value ds), r)))
          else Some (0, s)
      | [] \<Rightarrow> Some (0, []))"

definition parse_decimal :: "string \<Rightarrow> rat option" where
  "parse_decimal s =
     (case take_digits s of (ip, r1) \<Rightarrow>
      (case (case r1 of c # t \<Rightarrow> if c = CHR ''.'' then take_digits t else ([], r1) | [] \<Rightarrow> ([], [])) of (fp, r2) \<Rightarrow>
      (case take_exponent r2 of
         Some (e, []) \<Rightarrow>
           if ip = [] \<and> fp = [] then None
           else Some (of_nat (digits_value (ip @ fp)) * 10 powi (e - int (length fp)))
       | _ \<Rightarrow> None)))"

definition parse_float :: "string \<Rightarrow> f64 result" where
  "parse_float s =
     (case take_sign (strip s) of (sg, t) \<Rightarrow>
      if lower t = ''inf'' \<or> lower t = ''infinity'' then Inr (if sg < 0 then NInf else PInf)
      else if lower t = ''nan'' then Inr NaN
      else case parse_decimal t of None \<Rightarrow> Inl ValueError
           | Some x \<Rightarrow> Inr (of_exact (of_int sg * x)))"

section \<open>The shortest text of a float\<close>

text \<open>
  \<open>repr\<close> of a float: the fewest significant digits that read back as the same float
  (17 always suffice), the nearest such number when there are several.  \<open>ilog10 x\<close> is
  the decimal exponent; a candidate of \<open>p\<close> digits is the integer below or above \<open>x\<close>
  scaled to \<open>p\<close> digits, the nearer one first.
\<close>

definition ilog10 :: "rat \<Rightarrow> int" where
  "ilog10 x = (if 1 \<le> x then int (floorlog 10 (nat \<lfloor>x\<rfloor>)) - 1
               else - int (floorlog 10 (nat (\<lceil>1 / x\<rceil> - 1))))"

definition short_candidate :: "rat \<Rightarrow> nat \<Rightarrow> (nat \<times> int) option" where
  "short_candidate x p =
     (let e = ilog10 x - int p + 1;
          q = x / 10 powi e;
          lo = \<lfloor>q\<rfloor>;
          ok = (\<lambda>n. rnd (of_int n * 10 powi e) = x);
          order = (if 2 * (q - of_int lo) \<le> 1 then [lo, lo + 1] else [lo + 1, lo])
      in map_option (\<lambda>n. (nat n, e)) (find ok order))"

fun shortest_from :: "rat \<Rightarrow> nat list \<Rightarrow> nat \<times> int" where
  "shortest_from x [] = (nat \<lfloor>x / 10 powi (ilog10 x - 16)\<rfloor>, ilog10 x - 16)"
| "shortest_from x (p # ps) =
     (case short_candidate x p of Some r \<Rightarrow> r | None \<Rightarrow> shortest_from x ps)"

definition shortest_decimal :: "rat \<Rightarrow> nat \<times> int" where
  "shortest_decimal x = shortest_from x [1..<18]"

definition strip_zeros :: "string \<Rightarrow> string" where
  "strip_zeros s = rev (dropWhile (\<lambda>c. c = CHR ''0'') (rev s))"

definition exponent_str :: "int \<Rightarrow> string" where
  "exponent_str e =
     (let ds = nat_str (nat \<bar>e\<bar>)
      in ''e'' @ (if e < 0 then ''-'' else ''+'') @ (if length ds < 2 then CHR ''0'' # ds else ds))"

definition format_decimal :: "string \<Rightarrow> int \<Rightarrow> string" where
  "format_decimal ds point =
     (if - 4 < point \<and> point \<le> 16
      then (if point \<le> 0 then ''0.'' @ replicate (nat (- point)) (CHR ''0'') @ ds
            else if int (length ds) \<le> point
            then ds @ replicate (nat (point - int (length ds))) (CHR ''0'') @ ''.0''
            else take (nat point) ds @ ''.'' @ drop (nat point) ds)
      else take 1 ds @ (if length ds = 1 then [] else CHR ''.'' # drop 1 ds) @ exponent_str (point - 1))"

definition pos_float_str :: "rat \<Rightarrow> string" where
  "pos_float_str x =
     (case shortest_decimal x of (n, e) \<Rightarrow>
      let ds = nat_str n in format_decimal (strip_zeros ds) (int (length ds) + e))"

fun float_repr :: "f64 \<Rightarrow> string" where
  "float_repr (Fin x) =
     (if x = 0 then ''0.0''
      else if x < 0 then CHR ''-'' # pos_float_str (- x) else pos_float_str x)"
| "float_repr PInf = ''inf''"
| "float_repr NInf = ''-inf''"
| "float_repr NaN = ''nan''"

section \<open>int, float and str\<close>

fun py_int :: "pyval \<Rightarrow> int result" where
  "py_int (PInt n) = Inr n"
| "py_int (PBool b) = Inr (of_bool b)"
| "py_int (PFloat x) = float_trunc x"
| "py_int (PStr s) = parse_int s"
| "py_int _ = Inl TypeError"

fun py_float :: "pyval \<Rightarrow> f64 result" where
  "py_float (PFloat x) = Inr x"
| "py_float (PInt n) = float_of_int n"
| "py_float (PBool b) = Inr (Fin (of_bool b))"
| "py_float (PStr s) = parse_float s"
| "py_float _ = Inl TypeError"

text \<open>\<open>str(v)\<close>; inside a container the elements appear by their \<open>repr\<close>, where a
  string is quoted and its control characters are escaped.\<close>

definition hex2 :: "nat \<Rightarrow> string" where
  "hex2 n = [hex_digit (n div 16), hex_digit (n mod 16)]"

definition str_quote :: "string \<Rightarrow> char" where
  "str_quote s = (if CHR 0x27 \<in> set s \<and> CHR 0x22 \<notin> set s then CHR 0x22 else CHR 0x27)"

definition str_repr :: "string \<Rightarrow> string" where
  "str_repr s =
     (let q = str_quote s;
          esc = (\<lambda>c. let n = of_char c :: nat in
            if c = q \<or> n = 92 then [CHR 0x5C, c]
            else if n = 10 then CHR 0x5C # ''n''
            else if n = 13 then CHR 0x5C # ''r''
            else if n = 9 then CHR 0x5C # ''t''
            else if n < 32 \<or> n = 127 then CHR 0x5C # ''x'' @ hex2 n
            else [c])
      in q # concat (map esc s) @ [q])"

fun join :: "string \<Rightarrow> string list \<Rightarrow> string" where
  "join sep [] = []"
| "join sep [s] = s"
| "join sep (s # t # ss) = s @ sep @ join sep (t # ss)"

primrec py_repr :: "pyval \<Rightarrow> string" where
  "py_repr PNone = ''None''"
| "py_repr (PBool b) = (if b then ''True'' else ''False'')"
| "py_repr (PInt n) = int_str n"
| "py_repr (PFloat x) = float_repr x"
| "py_repr (PStr s) = str_repr s"
| "py_repr (PList xs) = ''['' @ join '', '' (map py_repr xs) @ '']''"
| "py_repr (PDict d) =
     ''{'' @ join '', '' (map (\<lambda>(k, t). str_repr k @ '': '' @ t) (map (map_prod id py_repr) d)) @ ''}''"

definition py_str :: "pyval \<Rightarrow> string" where
  "py_str v = (case v of PStr s \<Rightarrow> s | _ \<Rightarrow> py_repr v)"

lemma py_str_PStr [simp]: "py_str (PStr s) = s"
  by (simp add: py_str_def)

section \<open>Canonical JSON\<close>

definition json_escape :: "char \<Rightarrow> string" where
  "json_escape c =
     (let n = of_char c :: nat in
      if n = 34 \<or> n = 92 then [CHR 0x5C, c]
      else if n = 10 then CHR 0x5C # ''n''
      else if n = 13 then CHR 0x5C # ''r''
      else if n = 9 then CHR 0x5C # ''t''
      else if n = 12 then CHR 0x5C # ''f''
      else if n = 8 then CHR 0x5C # ''b''
      else if n < 32 then CHR 0x5C # ''u00'' @ hex2 n
      else [c])"

definition json_string :: "string \<Rightarrow> string" where
  "json_string s = CHR 0x22 # concat (map json_escape s) @ [CHR 0x22]"

fun json_float :: "f64 \<Rightarrow> string" where
  "json_float (Fin x) = float_repr (Fin x)"
| "json_float PInf = ''Infinity''"
| "json_float NInf = ''-Infinity''"
| "json_float NaN = ''NaN''"

primrec json_dumps :: "pyval \<Rightarrow> string" where
  "json_dumps PNone = ''null''"
| "json_dumps (PBool b) = (if b then ''true'' else ''false'')"
| "json_dumps (PInt n) = int_str n"
| "json_dumps (PFloat x) = json_float x"
| "json_dumps (PStr s) = json_string s"
| "json_dumps (PList xs) = ''['' @ join '','' (map json_dumps xs) @ '']''"
| "json_dumps (PDict d) =
     ''{'' @ join '','' (map (\<lambda>(k, t). json_string k @ '':'' @ t)
                     (sort_key fst (map (map_prod id json_dumps) d))) @ ''}''"

text \<open>The text does not depend on the order in which a dictionary was filled.\<close>

lemma map_of_eq_imp_sorted_eq:
  fixes d e :: "('k::linorder \<times> 'v) list"
  assumes "distinct (map fst d)" and "distinct (map fst e)" and "map_of d = map_of e"
  shows "sort_key fst d = sort_key fst e"
proof -
  have set: "set d = set e"
    using assms by (simp add: map_of_inject_set)
  have "distinct (map fst (sort_key fst d))" "distinct (map fst (sort_key fst e))"
    using assms(1,2) by (simp_all add: distinct_map distinct_sort)
  then show ?thesis
    using set assms(1)
    by (intro map_sorted_distinct_set_unique [where f = fst]) (simp_all add: distinct_map)
qed

lemma json_dumps_dict_order:
  assumes "distinct (map fst d)" and "distinct (map fst e)" and "map_of d = map_of e"
  shows "json_dumps (PDict d) = json_dumps (PDict e)"
proof -
  have keys: "map fst (map (map_prod id json_dumps) l) = map fst l" for l :: "(string \<times> pyval) list"
    by (induction l) auto
  have look: "map_of (map (map_prod id json_dumps) l) = map_option json_dumps \<circ> map_of l"
    for l :: "(string \<times> pyval) list"
    by (induction l) (auto simp: fun_eq_iff)
  have "sort_key fst (map (map_prod id json_dumps) d) = sort_key fst (map (map_prod id json_dumps) e)"
    by (rule map_of_eq_imp_sorted_eq) (simp_all only: keys look assms)
  then show ?thesis by simp
qed

end
