(* ===== verification/Audit_Store.thy ===== *)
theory Audit_Store
  imports Protocol Crypto PyVal
begin

text \<open>
  \<open>cote3mon/audit_store.py\<close>: the receipt chain of the audit store.  The state is
  \<open>self.state\<close> with the key already decoded; a receipt and a record are JSON values, so
  the verifier meets every shape a stored record can have.  The chain is first treated
  as an abstract hash chain (locale \<open>hash_chain\<close>), which the store's message format then
  instantiates.
\<close>

section \<open>Hash chains\<close>

text \<open>The head after chaining the items \<open>xs\<close> from position \<open>i\<close> and head \<open>h\<close>, and the
  messages that are authenticated on the way.\<close>

fun chain_head :: "(nat \<Rightarrow> 'h \<Rightarrow> 'a \<Rightarrow> 'm) \<Rightarrow> ('m \<Rightarrow> 'h) \<Rightarrow> nat \<Rightarrow> 'h \<Rightarrow> 'a list \<Rightarrow> 'h" where
  "chain_head link mac i h [] = h"
| "chain_head link mac i h (x # xs) = chain_head link mac (Suc i) (mac (link i h x)) xs"

fun chain_links :: "(nat \<Rightarrow> 'h \<Rightarrow> 'a \<Rightarrow> 'm) \<Rightarrow> ('m \<Rightarrow> 'h) \<Rightarrow> nat \<Rightarrow> 'h \<Rightarrow> 'a list \<Rightarrow> 'm list" where
  "chain_links link mac i h [] = []"
| "chain_links link mac i h (x # xs) = link i h x # chain_links link mac (Suc i) (mac (link i h x)) xs"

lemma chain_head_append:
  "chain_head link mac i h (xs @ ys) = chain_head link mac (i + length xs) (chain_head link mac i h xs) ys"
  by (induction xs arbitrary: i h) simp_all

lemma chain_links_append:
  "chain_links link mac i h (xs @ ys) =
     chain_links link mac i h xs @ chain_links link mac (i + length xs) (chain_head link mac i h xs) ys"
  by (induction xs arbitrary: i h) simp_all

lemma length_chain_links [simp]: "length (chain_links link mac i h xs) = length xs"
  by (induction xs arbitrary: i h) simp_all

text \<open>Two lists of messages collide at a position.\<close>

definition collide :: "('m \<Rightarrow> 'h) \<Rightarrow> 'm list \<Rightarrow> 'm list \<Rightarrow> bool" where
  "collide mac ms ns \<longleftrightarrow> (\<exists>i < min (length ms) (length ns). ms ! i \<noteq> ns ! i \<and> mac (ms ! i) = mac (ns ! i))"

lemma collide_Nil [simp]: "\<not> collide mac [] ns" "\<not> collide mac ms []"
  by (simp_all add: collide_def)

lemma collide_snoc:
  assumes "length ms = length ns"
  shows "collide mac (ms @ [m]) (ns @ [n]) \<longleftrightarrow> collide mac ms ns \<or> (m \<noteq> n \<and> mac m = mac n)"
proof -
  have "(\<exists>i<length ms. (ms @ [m]) ! i \<noteq> (ns @ [n]) ! i \<and> mac ((ms @ [m]) ! i) = mac ((ns @ [n]) ! i))
      = (\<exists>i<length ms. ms ! i \<noteq> ns ! i \<and> mac (ms ! i) = mac (ns ! i))"
    using assms by (intro ex_cong1 conj_cong refl) (simp_all add: nth_append)
  then show ?thesis using assms
    by (simp add: collide_def Ex_less_Suc nth_append disj_commute)
qed

lemma map_eq_or_collide:
  assumes "map mac ms = map mac ns"
  shows "ms = ns \<or> collide mac ms ns"
proof (rule disjCI)
  assume "\<not> collide mac ms ns"
  moreover have len: "length ms = length ns" using assms by (rule map_eq_imp_length_eq)
  moreover have "mac (ms ! i) = mac (ns ! i)" if "i < length ms" for i
    using arg_cong [OF assms, of "\<lambda>l. l ! i"] that len by simp
  ultimately show "ms = ns" by (intro nth_equalityI) (auto simp: collide_def)
qed

text \<open>A chain binds its items: links are injective in the previous head and the item.\<close>

locale hash_chain =
  fixes link :: "nat \<Rightarrow> 'h \<Rightarrow> 'a \<Rightarrow> 'm" and mac :: "'m \<Rightarrow> 'h" and item :: "'a \<Rightarrow> bool"
  assumes link_inject: "item x \<Longrightarrow> item y \<Longrightarrow> link i h x = link i g y \<Longrightarrow> h = g \<and> x = y"
begin

lemma head_binds:
  assumes "length xs = length ys" and "list_all item xs" and "list_all item ys"
    and "chain_head link mac i h xs = chain_head link mac i h ys"
  shows "xs = ys \<or> collide mac (chain_links link mac i h xs) (chain_links link mac i h ys)"
  using assms
proof (induction xs arbitrary: ys rule: rev_induct)
  case Nil
  then show ?case by simp
next
  case (snoc x xs)
  then obtain zs y where ys: "ys = zs @ [y]" by (cases ys rule: rev_cases) auto
  let ?h = "chain_head link mac i h xs" and ?g = "chain_head link mac i h zs"
  have len: "length xs = length zs" using snoc.prems(1) ys by simp
  have mac: "mac (link (i + length xs) ?h x) = mac (link (i + length xs) ?g y)"
    using snoc.prems(4) ys len by (simp add: chain_head_append)
  have it: "item x" "item y" "list_all item xs" "list_all item zs"
    using snoc.prems(2,3) ys by simp_all
  show ?case
  proof (cases "link (i + length xs) ?h x = link (i + length xs) ?g y")
    case True
    from link_inject [OF it(1,2) True] have "?h = ?g" and "x = y" by simp_all
    with snoc.IH [OF len it(3,4)] show ?thesis
      by (auto simp: ys chain_links_append collide_snoc len)
  next
    case False
    with mac len show ?thesis by (simp add: ys chain_links_append collide_snoc)
  qed
qed

end

section \<open>State and operations\<close>

record audit =
  au_key :: bytes
  au_model :: "string option"
  au_sequence :: int
  au_head :: string

definition DOMAIN :: bytes where
  "DOMAIN = utf8_encode ''C3MAUDIT1''"

definition ZERO_HASH :: bytes where
  "ZERO_HASH = replicate 32 0"

definition canonical_json :: "pyval \<Rightarrow> bytes" where
  "canonical_json v = utf8_encode (json_dumps v)"

text \<open>\<open>AuditStore.__init__\<close> without a state file; the key is \<open>os.urandom(32)\<close>.\<close>

definition new_store :: "bytes \<Rightarrow> audit" where
  "new_store urandom32 =
     \<lparr>au_key = urandom32, au_model = None, au_sequence = 0, au_head = bytes_hex ZERO_HASH\<rparr>"

text \<open>\<open>register_model\<close> on the payload.\<close>

definition register_model :: "bytes \<Rightarrow> audit \<Rightarrow> (string \<times> audit) result" where
  "register_model payload st =
     (let digest = bytes_hex (sha256 payload)
      in if au_sequence st \<noteq> 0 \<and> au_model st \<noteq> Some digest then Inl ValueError
         else Inr (digest, st\<lparr>au_model := Some digest\<rparr>))"

text \<open>\<open>DOMAIN + struct.pack("!Q", sequence) + previous + alert_hash + model_hash\<close>\<close>

definition audit_message :: "int \<Rightarrow> bytes \<Rightarrow> bytes \<Rightarrow> bytes \<Rightarrow> bytes result" where
  "audit_message sequence previous alert_hash model_hash =
     mapR (\<lambda>packed. DOMAIN @ packed @ previous @ alert_hash @ model_hash) (pack_fields [(8, sequence)])"

definition receipt_of :: "int \<Rightarrow> bytes \<Rightarrow> bytes \<Rightarrow> bytes \<Rightarrow> bytes \<Rightarrow> pyval" where
  "receipt_of sequence previous alert_hash model_hash head =
     PDict [(''sequence'', PInt sequence),
            (''previous_head'', PStr (bytes_hex previous)),
            (''alert_hash'', PStr (bytes_hex alert_hash)),
            (''model_hash'', PStr (bytes_hex model_hash)),
            (''head'', PStr (bytes_hex head))]"

definition append :: "pyval \<Rightarrow> audit \<Rightarrow> (pyval \<times> audit) result" where
  "append alert st =
     (case au_model st of
        None \<Rightarrow> Inl ValueError
      | Some model \<Rightarrow>
          if model = [] then Inl ValueError
          else
            let sequence = au_sequence st + 1; alert_hash = sha256 (canonical_json alert) in
            bindE (fromhex (au_head st)) (\<lambda>previous.
            bindE (fromhex model) (\<lambda>model_hash.
            bindE (audit_message sequence previous alert_hash model_hash) (\<lambda>message.
            let head = hmac_sha256 (au_key st) message in
            Inr (receipt_of sequence previous alert_hash model_hash head,
                 st\<lparr>au_sequence := sequence, au_head := bytes_hex head\<rparr>)))))"

text \<open>\<open>verify_receipt\<close>: the fields are read inside a \<open>try\<close> whose handler answers
  \<open>False\<close>; what follows it may raise.\<close>

definition receipt_hex :: "pyval \<Rightarrow> string \<Rightarrow> bytes result" where
  "receipt_hex receipt k = bindE (py_subscript receipt k) (\<lambda>v. fromhex (py_str v))"

definition receipt_fields :: "pyval \<Rightarrow> (int \<times> bytes \<times> bytes \<times> bytes) result" where
  "receipt_fields receipt =
     bindE (bindE (py_subscript receipt ''sequence'') py_int) (\<lambda>sequence.
     bindE (receipt_hex receipt ''previous_head'') (\<lambda>previous.
     bindE (receipt_hex receipt ''model_hash'') (\<lambda>model_hash.
     bindE (receipt_hex receipt ''head'') (\<lambda>claimed.
     Inr (sequence, previous, model_hash, claimed)))))"

definition verify_receipt :: "audit \<Rightarrow> pyval \<Rightarrow> pyval \<Rightarrow> bool result" where
  "verify_receipt st alert receipt =
     (case receipt_fields receipt of
        Inl e \<Rightarrow> if e \<in> {KeyError, TypeError, ValueError} then Inr False else Inl e
      | Inr (sequence, previous, model_hash, claimed) \<Rightarrow>
          let alert_hash = sha256 (canonical_json alert) in
          bindE (py_get receipt ''alert_hash'' PNone) (\<lambda>claimed_hash.
          if \<not> eq_str claimed_hash (bytes_hex alert_hash) then Inr False
          else bindE (audit_message sequence previous alert_hash model_hash) (\<lambda>message.
               Inr (hmac_sha256 (au_key st) message = claimed))))"

definition same_model :: "pyval \<Rightarrow> string option \<Rightarrow> bool" where
  "same_model v model = (case model of None \<Rightarrow> v = PNone | Some m \<Rightarrow> eq_str v m)"

text \<open>The loop of \<open>verify_chain\<close>: \<open>None\<close> is the early \<open>return False\<close>, otherwise the
  final \<open>sequence\<close> and \<open>last_head\<close> (which is always the same as \<open>previous\<close>).\<close>

definition verify_record :: "audit \<Rightarrow> pyval \<Rightarrow> int \<times> string \<Rightarrow> (int \<times> string) option result" where
  "verify_record st rec = (\<lambda>(sequence0, previous).
     bindE (py_get rec ''receipt'' (PDict [])) (\<lambda>receipt.
     let sequence = sequence0 + 1 in
     bindE (py_get receipt ''sequence'' PNone) (\<lambda>rs.
     bindE (py_get receipt ''previous_head'' PNone) (\<lambda>rp.
     if \<not> eq_int rs sequence \<or> \<not> eq_str rp previous then Inr None
     else bindE (py_get receipt ''model_hash'' PNone) (\<lambda>rm.
          if \<not> same_model rm (au_model st) then Inr None
          else bindE (py_get rec ''alert'' (PDict [])) (\<lambda>alert.
               bindE (verify_receipt st alert receipt) (\<lambda>ok.
               if \<not> ok then Inr None
               else mapR (\<lambda>h. Some (sequence, py_str h)) (py_subscript receipt ''head''))))))))"

fun verify_loop :: "audit \<Rightarrow> pyval list \<Rightarrow> int \<times> string \<Rightarrow> (int \<times> string) option result" where
  "verify_loop st [] acc = Inr (Some acc)"
| "verify_loop st (rec # recs) acc =
     bindE (verify_record st rec acc) (\<lambda>r.
     case r of None \<Rightarrow> Inr None | Some acc' \<Rightarrow> verify_loop st recs acc')"

definition verify_chain :: "audit \<Rightarrow> pyval list \<Rightarrow> bool \<Rightarrow> bool result" where
  "verify_chain st records require_current_head =
     mapR (\<lambda>r. case r of None \<Rightarrow> False
           | Some (sequence, last_head) \<Rightarrow>
               if require_current_head then sequence = au_sequence st \<and> last_head = au_head st else True)
       (verify_loop st records (0, bytes_hex ZERO_HASH))"

section \<open>The chain a store stands for\<close>

definition link_msg :: "bytes \<Rightarrow> nat \<Rightarrow> bytes \<Rightarrow> bytes \<Rightarrow> bytes" where
  "link_msg model i previous alert_hash = DOMAIN @ be_bytes 8 i @ previous @ alert_hash @ model"

definition alert_digest :: "pyval \<Rightarrow> bytes" where
  "alert_digest alert = sha256 (canonical_json alert)"

abbreviation audit_head :: "bytes \<Rightarrow> bytes \<Rightarrow> bytes list \<Rightarrow> bytes" where
  "audit_head key model \<equiv> chain_head (link_msg model) (hmac_sha256 key) 1 ZERO_HASH"

abbreviation audit_links :: "bytes \<Rightarrow> bytes \<Rightarrow> bytes list \<Rightarrow> bytes list" where
  "audit_links key model \<equiv> chain_links (link_msg model) (hmac_sha256 key) 1 ZERO_HASH"

interpretation receipts: hash_chain "link_msg model" "hmac_sha256 key" "\<lambda>d. length d = 32" for model key
proof
  fix x y h g :: bytes and i :: nat
  assume "length x = 32" and "length y = 32" and "link_msg model i h x = link_msg model i g y"
  then show "h = g \<and> x = y"
    by (simp add: link_msg_def flip: append_assoc)
qed

text \<open>\<open>holds st model ds\<close>: the store has registered the model with the digest \<open>model\<close>
  and appended the alerts with the digests \<open>ds\<close>.\<close>

definition holds :: "audit \<Rightarrow> bytes \<Rightarrow> bytes list \<Rightarrow> bool" where
  "holds st model ds \<longleftrightarrow> au_model st = Some (bytes_hex model) \<and> length model = 32
     \<and> au_sequence st = int (length ds) \<and> list_all (\<lambda>d. length d = 32) ds
     \<and> au_head st = bytes_hex (audit_head (au_key st) model ds)"

lemma length_alert_digest [simp]: "length (alert_digest a) = 32"
  by (simp add: alert_digest_def)

lemma bytes_hex_eq_Nil [simp]: "bytes_hex bs = [] \<longleftrightarrow> bs = []"
  using bytes_hex_inject [of bs "[]"] by simp

lemma audit_message_nat:
  assumes "n < 2 ^ 64"
  shows "audit_message (int n) p a m = Inr (link_msg m n p a)"
proof -
  have "int n < 256 ^ 8" using assms by simp
  then show ?thesis by (simp add: audit_message_def link_msg_def del: be_bytes_numeral)
qed

lemma int_plus_one: "int n + 1 = int (Suc n)"
  by simp

lemma append_holds:
  fixes a :: pyval
  assumes "holds st model ds" and "Suc (length ds) < 2 ^ 64"
  defines "m \<equiv> link_msg model (Suc (length ds)) (audit_head (au_key st) model ds) (alert_digest a)"
  shows "append a st = Inr
     (receipt_of (int (Suc (length ds))) (audit_head (au_key st) model ds) (alert_digest a) model
        (hmac_sha256 (au_key st) m),
      st\<lparr>au_sequence := int (Suc (length ds)), au_head := bytes_hex (hmac_sha256 (au_key st) m)\<rparr>)"
  using assms(1) audit_message_nat [OF assms(2)]
  by (auto simp: append_def holds_def m_def alert_digest_def Let_def int_plus_one simp del: of_nat_Suc)

lemma holds_append:
  assumes "holds st model ds"
  shows "holds (st\<lparr>au_sequence := int (Suc (length ds)), au_head := bytes_hex (hmac_sha256 (au_key st)
      (link_msg model (Suc (length ds)) (audit_head (au_key st) model ds) (alert_digest a)))\<rparr>)
     model (ds @ [alert_digest a])"
  using assms by (simp add: holds_def chain_head_append)

lemma register_holds:
  assumes "register_model payload (new_store key) = Inr (digest, st)"
  shows "holds st (sha256 payload) []" and "au_key st = key"
  using assms by (auto simp: register_model_def new_store_def holds_def Let_def)

lemma register_new: "register_model payload (new_store key)
    = Inr (bytes_hex (sha256 payload), (new_store key)\<lparr>au_model := Some (bytes_hex (sha256 payload))\<rparr>)"
  by (simp add: register_model_def new_store_def Let_def)

text \<open>Appending alerts one after the other; a record keeps the alert with its receipt.\<close>

definition record_of :: "pyval \<Rightarrow> pyval \<Rightarrow> pyval" where
  "record_of alert receipt = PDict [(''alert'', alert), (''receipt'', receipt)]"

fun append_all :: "pyval list \<Rightarrow> audit \<Rightarrow> (pyval list \<times> audit) result" where
  "append_all [] st = Inr ([], st)"
| "append_all (a # as) st =
     bindE (append a st) (\<lambda>(receipt, st1).
     bindE (append_all as st1) (\<lambda>(records, st2). Inr (record_of a receipt # records, st2)))"

section \<open>Verification of appended records\<close>

lemma receipt_fields_receipt_of:
  "receipt_fields (receipt_of n p a m h) = Inr (n, p, m, h)"
  by (simp add: receipt_fields_def receipt_hex_def receipt_of_def dget_def)

lemma get_receipt_of:
  "py_get (receipt_of n p a m h) ''sequence'' d = Inr (PInt n)"
  "py_get (receipt_of n p a m h) ''previous_head'' d = Inr (PStr (bytes_hex p))"
  "py_get (receipt_of n p a m h) ''alert_hash'' d = Inr (PStr (bytes_hex a))"
  "py_get (receipt_of n p a m h) ''model_hash'' d = Inr (PStr (bytes_hex m))"
  "py_subscript (receipt_of n p a m h) ''head'' = Inr (PStr (bytes_hex h))"
  by (simp_all add: receipt_of_def dget_def)

lemma get_record_of:
  "py_get (record_of a r) ''alert'' d = Inr a" "py_get (record_of a r) ''receipt'' d = Inr r"
  by (simp_all add: record_of_def dget_def)

lemma verify_receipt_of:
  assumes "n < 2 ^ 64"
  shows "verify_receipt st alert (receipt_of (int n) p a m h) =
     Inr (a = alert_digest alert \<and> hmac_sha256 (au_key st) (link_msg m n p (alert_digest alert)) = h)"
  using audit_message_nat [OF assms]
  by (simp add: verify_receipt_def receipt_fields_receipt_of get_receipt_of alert_digest_def Let_def)

lemma verify_receipt_link:
  assumes "n < 2 ^ 64" and "au_key st = key"
  shows "verify_receipt st other (receipt_of (int n) p (alert_digest a) m
      (hmac_sha256 key (link_msg m n p (alert_digest a)))) = Inr (alert_digest other = alert_digest a)"
proof (cases "alert_digest other = alert_digest a")
  case True
  then show ?thesis by (simp only: verify_receipt_of [OF assms(1)] assms(2)) simp
next
  case False
  then have "alert_digest a \<noteq> alert_digest other" by (rule not_sym)
  with False show ?thesis by (simp only: verify_receipt_of [OF assms(1)]) simp
qed

lemma verify_record_of:
  assumes "Suc n < 2 ^ 64" and "au_model st = Some (bytes_hex model)"
    and "h = hmac_sha256 (au_key st) (link_msg model (Suc n) p (alert_digest a))"
  shows "verify_record st (record_of a (receipt_of (int (Suc n)) p (alert_digest a) model h))
       (int n, bytes_hex p) = Inr (Some (int (Suc n), bytes_hex h))"
  using assms
  by (simp add: verify_record_def get_record_of get_receipt_of same_model_def
      verify_receipt_of int_plus_one Let_def del: of_nat_Suc)

lemma append_all_verifies:
  assumes "holds st model ds" and "length ds + length as < 2 ^ 64"
  obtains records st' where "append_all as st = Inr (records, st')"
    and "holds st' model (ds @ map alert_digest as)" and "au_key st' = au_key st"
    and "length records = length as"
    and "\<And>v n. au_key v = au_key st \<Longrightarrow> au_model v = au_model st \<Longrightarrow>
      verify_loop v (take n records) (int (length ds), au_head st)
      = Inr (Some (int (length ds + min n (length as)),
          bytes_hex (audit_head (au_key st) model (ds @ take n (map alert_digest as)))))"
  using assms
proof (induction as arbitrary: st ds thesis)
  case Nil
  have "au_head st = bytes_hex (audit_head (au_key st) model ds)" using Nil.prems(2) by (simp add: holds_def)
  then show ?case using Nil.prems(1) [of "[]" st] Nil.prems(2) by simp
next
  case (Cons a as)
  let ?p = "audit_head (au_key st) model ds"
  let ?h = "hmac_sha256 (au_key st) (link_msg model (Suc (length ds)) ?p (alert_digest a))"
  let ?st1 = "st\<lparr>au_sequence := int (Suc (length ds)), au_head := bytes_hex ?h\<rparr>"
  let ?r = "record_of a (receipt_of (int (Suc (length ds))) ?p (alert_digest a) model ?h)"
  have small: "Suc (length ds) < 2 ^ 64" using Cons.prems(3) by simp
  have model: "au_model st = Some (bytes_hex model)" and head: "au_head st = bytes_hex ?p"
    using Cons.prems(2) by (simp_all add: holds_def)
  have h1: "holds ?st1 model (ds @ [alert_digest a])" by (rule holds_append [OF Cons.prems(2)])
  obtain records st' where IH: "append_all as ?st1 = Inr (records, st')"
    "holds st' model ((ds @ [alert_digest a]) @ map alert_digest as)" "au_key st' = au_key ?st1"
    "length records = length as"
    "\<And>v n. au_key v = au_key ?st1 \<Longrightarrow> au_model v = au_model ?st1 \<Longrightarrow>
      verify_loop v (take n records) (int (length (ds @ [alert_digest a])), au_head ?st1)
      = Inr (Some (int (length (ds @ [alert_digest a]) + min n (length as)),
          bytes_hex (audit_head (au_key ?st1) model ((ds @ [alert_digest a]) @ take n (map alert_digest as)))))"
    by (rule Cons.IH [OF _ h1]) (use Cons.prems(3) in simp_all)
  show ?case
  proof (rule Cons.prems(1))
    show "append_all (a # as) st = Inr (?r # records, st')"
      using append_holds [OF Cons.prems(2) small, of a] IH(1) by (simp del: of_nat_Suc)
    show "holds st' model (ds @ map alert_digest (a # as))" using IH(2) by simp
    show "au_key st' = au_key st" using IH(3) by simp
    show "length (?r # records) = length (a # as)" using IH(4) by simp
    fix v :: audit and n :: nat
    assume v: "au_key v = au_key st" "au_model v = au_model st"
    show "verify_loop v (take n (?r # records)) (int (length ds), au_head st)
      = Inr (Some (int (length ds + min n (length (a # as))),
          bytes_hex (audit_head (au_key st) model (ds @ take n (map alert_digest (a # as))))))"
    proof (cases n)
      case 0
      then show ?thesis using head by simp
    next
      case (Suc k)
      have "verify_record v ?r (int (length ds), bytes_hex ?p)
          = Inr (Some (int (Suc (length ds)), bytes_hex ?h))"
        using verify_record_of [OF small, of v model ?h ?p a] v model by simp
      then show ?thesis using IH(5) [of v k] v by (simp add: Suc head)
    qed
  qed
qed

lemma appended_from_start:
  assumes "holds st model []" and "length as < 2 ^ 64"
  obtains records st' where "append_all as st = Inr (records, st')"
    and "holds st' model (map alert_digest as)" and "au_key st' = au_key st"
    and "length records = length as"
    and "\<And>n. verify_loop st' (take n records) (0, bytes_hex ZERO_HASH)
      = Inr (Some (int (min n (length as)),
          bytes_hex (audit_head (au_key st) model (take n (map alert_digest as)))))"
proof (rule append_all_verifies [OF assms(1), of as])
  show "length ([] :: bytes list) + length as < 2 ^ 64" using assms(2) by simp
next
  fix records :: "pyval list" and st' :: audit
  assume a: "append_all as st = Inr (records, st')" "holds st' model ([] @ map alert_digest as)"
    "au_key st' = au_key st" "length records = length as"
    and v: "\<And>v n. au_key v = au_key st \<Longrightarrow> au_model v = au_model st \<Longrightarrow>
      verify_loop v (take n records) (int (length ([] :: bytes list)), au_head st)
      = Inr (Some (int (length ([] :: bytes list) + min n (length as)),
          bytes_hex (audit_head (au_key st) model ([] @ take n (map alert_digest as)))))"
  have "au_model st' = au_model st" and "au_head st = bytes_hex ZERO_HASH"
    using a(2) assms(1) by (simp_all add: holds_def)
  then show thesis
    using that [OF a(1) _ a(3,4)] a(2) v [of st', OF a(3)] by simp
qed

lemma verify_chain_current:
  "verify_chain st records True = Inr True \<longleftrightarrow>
     verify_loop st records (0, bytes_hex ZERO_HASH) = Inr (Some (au_sequence st, au_head st))"
  by (auto simp: verify_chain_def mapR_eq_Inr_iff split: option.splits prod.splits if_splits)

section \<open>What an accepted chain is\<close>

definition record_alert :: "pyval \<Rightarrow> pyval" where
  "record_alert rec = get_ok (py_get rec ''alert'' (PDict [])) PNone"

lemma py_int_eq_int: "eq_int v n \<Longrightarrow> py_int v = Inr n"
  by (cases v) (auto simp: float_trunc_def to_int_with_def rat_trunc_def)

lemma py_get_default: "py_get r k PNone = Inr v \<Longrightarrow> py_subscript r k = Inr w \<Longrightarrow> w = v"
  by (cases r) (auto split: option.splits)

lemma audit_message_Inr:
  "audit_message n p a m = Inr msg \<Longrightarrow> 0 \<le> n \<and> msg = link_msg m (nat n) p a"
  by (auto simp: audit_message_def mapR_eq_Inr_iff link_msg_def bindE_eq_Inr_iff split: if_splits
      simp del: be_bytes_numeral)

text \<open>A receipt that is accepted after the head \<open>previous\<close> claims the next link.\<close>

lemma receipt_accepted:
  assumes "verify_receipt st alert receipt = Inr True"
    and "py_get receipt ''sequence'' PNone = Inr rs" and "eq_int rs n"
    and "py_get receipt ''previous_head'' PNone = Inr rp" and "eq_str rp previous"
    and "py_get receipt ''model_hash'' PNone = Inr rm" and "eq_str rm (bytes_hex model)"
    and "fromhex previous = Inr p"
    and "py_subscript receipt ''head'' = Inr h"
  shows "fromhex (py_str h) = Inr (hmac_sha256 (au_key st) (link_msg model (nat n) p (alert_digest alert)))"
proof -
  from assms(1) obtain sequence p' m' claimed where
    f: "receipt_fields receipt = Inr (sequence, p', m', claimed)"
    and v: "bindE (audit_message sequence p' (alert_digest alert) m')
        (\<lambda>message. Inr (hmac_sha256 (au_key st) message = claimed)) = Inr True"
    by (auto simp: verify_receipt_def alert_digest_def Let_def bindE_eq_Inr_iff
        split: sum.splits if_splits)
  from f obtain vs vp vm vh where
    s: "py_subscript receipt ''sequence'' = Inr vs" "py_int vs = Inr sequence"
    and p: "py_subscript receipt ''previous_head'' = Inr vp" "fromhex (py_str vp) = Inr p'"
    and m: "py_subscript receipt ''model_hash'' = Inr vm" "fromhex (py_str vm) = Inr m'"
    and h: "py_subscript receipt ''head'' = Inr vh" "fromhex (py_str vh) = Inr claimed"
    by (auto simp: receipt_fields_def receipt_hex_def bindE_eq_Inr_iff)
  have "sequence = n" using py_get_default [OF assms(2) s(1)] s(2) py_int_eq_int [OF assms(3)] by simp
  moreover have "p' = p"
    using py_get_default [OF assms(4) p(1)] p(2) eq_strD [OF assms(5)] assms(8) by simp
  moreover have "m' = model"
    using py_get_default [OF assms(6) m(1)] m(2) eq_strD [OF assms(7)] by simp
  moreover obtain msg where "audit_message sequence p' (alert_digest alert) m' = Inr msg"
    and "hmac_sha256 (au_key st) msg = claimed"
    using v by (auto simp: bindE_eq_Inr_iff)
  ultimately show ?thesis using audit_message_Inr h assms(9) by fastforce
qed

lemma verify_record_accepted:
  assumes "verify_record st rec (int n, previous) = Inr (Some (s, head))"
    and "au_model st = Some (bytes_hex model)" and "fromhex previous = Inr p"
  shows "s = int (Suc n)"
    and "fromhex head = Inr (hmac_sha256 (au_key st)
           (link_msg model (Suc n) p (alert_digest (record_alert rec))))"
proof -
  from assms(1) obtain receipt rs rp rm alert h where
    "py_get receipt ''sequence'' PNone = Inr rs" "eq_int rs (int n + 1)"
    "py_get receipt ''previous_head'' PNone = Inr rp" "eq_str rp previous"
    "py_get receipt ''model_hash'' PNone = Inr rm" "same_model rm (au_model st)"
    "py_get rec ''alert'' (PDict []) = Inr alert" "verify_receipt st alert receipt = Inr True"
    "py_subscript receipt ''head'' = Inr h" and sh: "s = int n + 1" "head = py_str h"
    by (auto simp: verify_record_def bindE_eq_Inr_iff Let_def mapR_eq_Inr_iff split: if_splits)
  note facts = this
  have "nat (int n + 1) = Suc n" by simp
  with receipt_accepted [OF facts(8,1,2,3,4,5) _ assms(3) facts(9), of model] facts(6,7) sh assms(2)
  show "s = int (Suc n)"
    and "fromhex head = Inr (hmac_sha256 (au_key st)
           (link_msg model (Suc n) p (alert_digest (record_alert rec))))"
    by (simp_all add: same_model_def record_alert_def)
qed

lemma verify_loop_accepted:
  assumes "verify_loop st records (int n, previous) = Inr (Some (s, head))"
    and "au_model st = Some (bytes_hex model)" and "fromhex previous = Inr p"
  shows "s = int (n + length records) \<and>
    fromhex head = Inr (chain_head (link_msg model) (hmac_sha256 (au_key st)) (Suc n) p
      (map (\<lambda>r. alert_digest (record_alert r)) records))"
  using assms
proof (induction records arbitrary: n previous p)
  case Nil
  then show ?case by simp
next
  case (Cons r records)
  from Cons.prems(1) obtain s1 head1 where
    r: "verify_record st r (int n, previous) = Inr (Some (s1, head1))"
    and l: "verify_loop st records (s1, head1) = Inr (Some (s, head))"
    by (auto simp: bindE_eq_Inr_iff split: option.splits)
  note a = verify_record_accepted [OF r Cons.prems(2,3)]
  show ?case using Cons.IH [OF l [unfolded a(1)] Cons.prems(2) a(2)] by simp
qed

section \<open>Sequences of operations\<close>

text \<open>A call that raises leaves the store as it was: every \<open>raise\<close> comes before the
  first assignment to the state.\<close>

datatype audit_op = Register bytes | Append pyval

fun run_op :: "audit_op \<Rightarrow> audit \<Rightarrow> audit" where
  "run_op (Register payload) st = (case register_model payload st of Inl _ \<Rightarrow> st | Inr (_, st') \<Rightarrow> st')"
| "run_op (Append alert) st = (case append alert st of Inl _ \<Rightarrow> st | Inr (_, st') \<Rightarrow> st')"

text \<open>The states that operations reach: no alert without a model, and the chain of the
  appended alerts.\<close>

definition audit_inv :: "audit \<Rightarrow> bool" where
  "audit_inv st \<longleftrightarrow>
     (au_model st = None \<and> au_sequence st = 0 \<and> au_head st = bytes_hex ZERO_HASH)
     \<or> (\<exists>model ds. holds st model ds \<and> length ds < 2 ^ 64)"

lemma audit_inv_new: "audit_inv (new_store key)"
  by (simp add: audit_inv_def new_store_def)

lemma audit_inv_zero:
  assumes "audit_inv st" and "au_sequence st = 0"
  shows "au_head st = bytes_hex ZERO_HASH"
  using assms by (auto simp: audit_inv_def holds_def)

lemma append_has_model: "append alert st = Inr x \<Longrightarrow> au_model st \<noteq> None"
  by (cases "au_model st") (simp_all add: append_def)

lemma register_inv:
  assumes "audit_inv st" and "register_model payload st = Inr (digest, st')"
  shows "audit_inv st' \<and> (au_sequence st \<noteq> 0 \<longrightarrow> au_model st' = au_model st)
    \<and> au_sequence st' = au_sequence st \<and> au_key st' = au_key st \<and> au_model st' \<noteq> None"
proof -
  have st': "st' = st\<lparr>au_model := Some (bytes_hex (sha256 payload))\<rparr>"
    and same: "au_sequence st \<noteq> 0 \<Longrightarrow> au_model st = Some (bytes_hex (sha256 payload))"
    using assms(2) by (auto simp: register_model_def Let_def split: if_splits)
  have "audit_inv st'"
  proof (cases "au_sequence st = 0")
    case True
    then have "holds st' (sha256 payload) []"
      using audit_inv_zero [OF assms(1)] by (simp add: st' holds_def)
    moreover have "length ([] :: bytes list) < 2 ^ 64" by simp
    ultimately show ?thesis unfolding audit_inv_def by blast
  next
    case False
    with assms(1) obtain model ds where "holds st model ds" "length ds < 2 ^ 64"
      by (auto simp: audit_inv_def)
    moreover from this have "holds st' model ds" using same [OF False] by (simp add: st' holds_def)
    ultimately show ?thesis unfolding audit_inv_def by blast
  qed
  then show ?thesis using same by (simp add: st')
qed

lemma append_message_range:
  assumes "append alert st = Inr (r, st')" and "holds st model ds"
  shows "Suc (length ds) < 2 ^ 64"
proof -
  from assms have "is_ok (audit_message (int (length ds) + 1)
      (audit_head (au_key st) model ds) (alert_digest alert) model)"
    by (auto simp: append_def holds_def Let_def bindE_eq_Inr_iff alert_digest_def split: if_splits)
  then have "int (length ds) + 1 < 256 ^ 8"
    by (auto simp: audit_message_def mapR_def bindE_def split: if_splits sum.splits)
  then show ?thesis by simp
qed

lemma append_inv:
  assumes "audit_inv st" and "append alert st = Inr (r, st')"
  shows "audit_inv st' \<and> au_model st' = au_model st
    \<and> au_sequence st' = au_sequence st + 1 \<and> au_key st' = au_key st"
proof -
  have "au_model st \<noteq> None" using assms(2) by (rule append_has_model)
  then obtain model ds where h: "holds st model ds" using assms(1) by (auto simp: audit_inv_def)
  note small = append_message_range [OF assms(2) h]
  have st': "st' = st\<lparr>au_sequence := int (Suc (length ds)), au_head := bytes_hex (hmac_sha256 (au_key st)
      (link_msg model (Suc (length ds)) (audit_head (au_key st) model ds) (alert_digest alert)))\<rparr>"
    using append_holds [OF h small, of alert] assms(2) by simp
  have "holds st' model (ds @ [alert_digest alert])" unfolding st' by (rule holds_append [OF h])
  moreover have "length (ds @ [alert_digest alert]) < 2 ^ 64" using small by simp
  ultimately have "audit_inv st'" unfolding audit_inv_def by blast
  then show ?thesis using h by (simp add: st' holds_def)
qed

lemma run_op_inv:
  assumes "audit_inv st"
  shows "audit_inv (run_op op st) \<and> (au_sequence st \<noteq> 0 \<longrightarrow> au_model (run_op op st) = au_model st)
    \<and> au_sequence st \<le> au_sequence (run_op op st) \<and> au_key (run_op op st) = au_key st"
  using assms
  by (cases op) (auto split: sum.split dest: register_inv append_inv)

lemma audit_inv_sequence: "audit_inv st \<Longrightarrow> 0 \<le> au_sequence st"
  by (auto simp: audit_inv_def holds_def)

section \<open>A sample store\<close>

definition sample_store :: audit where
  "sample_store = (new_store [7])\<lparr>au_model := Some (bytes_hex (sha256 [1]))\<rparr>"

lemma sample_store_holds: "holds sample_store (sha256 [1]) []"
  and sample_store_model: "au_model sample_store = Some (bytes_hex (sha256 [1]))"
  by (simp_all add: sample_store_def new_store_def holds_def)

lemma sample_store_inv: "audit_inv sample_store"
proof -
  have "length ([] :: bytes list) < 2 ^ 64" by simp
  with sample_store_holds show ?thesis unfolding audit_inv_def by blast
qed

lemma sample_chain:
  obtains records st where "append_all [PBool True, PNone] sample_store = Inr (records, st)"
    and "holds st (sha256 [1]) (map alert_digest [PBool True, PNone])"
    and "verify_chain st records True = Inr True"
proof (rule appended_from_start [OF sample_store_holds, of "[PBool True, PNone]"])
  fix records :: "pyval list" and st :: audit
  assume a: "append_all [PBool True, PNone] sample_store = Inr (records, st)"
    and h: "holds st (sha256 [1]) (map alert_digest [PBool True, PNone])"
    and k: "au_key st = au_key sample_store" and l: "length records = length [PBool True, PNone]"
    and v: "\<And>n. verify_loop st (take n records) (0, bytes_hex ZERO_HASH)
      = Inr (Some (int (min n (length [PBool True, PNone])),
          bytes_hex (audit_head (au_key sample_store) (sha256 [1])
            (take n (map alert_digest [PBool True, PNone])))))"
  have "verify_chain st records True = Inr True"
    using v [of 2] h k l unfolding verify_chain_current holds_def by simp
  then show thesis by (rule that [OF a h])
qed simp

section \<open>Properties\<close>

text \<open>C24. Completeness: after a model is registered in a fresh store, appending alerts
  succeeds and the records verify against the store; without the check of the current
  head every prefix of them verifies too, with it no proper prefix does.\<close>

theorem appended_chain_verifies:
  assumes "length alerts < 2 ^ 64"
  shows "\<exists>digest st0 records st.
    register_model payload (new_store key) = Inr (digest, st0) \<and> append_all alerts st0 = Inr (records, st)
    \<and> length records = length alerts
    \<and> verify_chain st records True = Inr True
    \<and> (\<forall>n. verify_chain st (take n records) False = Inr True
         \<and> verify_chain st (take n records) True = Inr (length alerts \<le> n))"
proof -
  let ?m = "sha256 payload"
  obtain st0 where r: "register_model payload (new_store key) = Inr (bytes_hex ?m, st0)"
    by (simp add: register_new)
  note h0 = register_holds [OF r]
  obtain records st where a: "append_all alerts st0 = Inr (records, st)"
    and h: "holds st ?m (map alert_digest alerts)" "au_key st = au_key st0"
    and l: "length records = length alerts"
    and loop: "\<And>n. verify_loop st (take n records) (0, bytes_hex ZERO_HASH) = Inr (Some (int (min n (length alerts)),
      bytes_hex (audit_head (au_key st0) ?m (take n (map alert_digest alerts)))))"
    using appended_from_start [OF h0(1) assms] that by blast
  have head: "au_head st = bytes_hex (audit_head (au_key st0) ?m (map alert_digest alerts))"
    and seq: "au_sequence st = int (length alerts)"
    using h by (simp_all add: holds_def)
  have prefix: "verify_chain st (take n records) True = Inr (length alerts \<le> n)" for n
    by (auto simp: verify_chain_def loop seq head min_def)
  have "verify_chain st records True = Inr True"
    using prefix [of "length records"] l by simp
  moreover have "verify_chain st (take n records) False = Inr True" for n
    by (simp add: verify_chain_def loop)
  ultimately show ?thesis using r a l prefix by blast
qed

theorem appended_chain_verifies_witness:
  "\<exists>digest st0 records st.
    register_model [0x7B, 0x7D] (new_store (replicate 32 9)) = Inr (digest, st0)
    \<and> append_all [PDict [(''window'', PInt 1)], PDict [(''window'', PInt 2)]] st0 = Inr (records, st)
    \<and> length records = length [PDict [(''window'', PInt 1)], PDict [(''window'', PInt 2)]]
    \<and> verify_chain st records True = Inr True
    \<and> (\<forall>n. verify_chain st (take n records) False = Inr True
         \<and> verify_chain st (take n records) True
           = Inr (length [PDict [(''window'', PInt 1)], PDict [(''window'', PInt 2)]] \<le> n))"
  by (rule appended_chain_verifies) simp

text \<open>C1. Binding: two record lists, of any shape, that one store accepts with its current
  head agree on the number of records and on every alert's canonical JSON, unless at some
  position their HMAC messages or their alerts collide.  So no record can be modified,
  reordered, dropped or inserted without a collision.\<close>

theorem accepted_chain_is_bound:
  assumes "audit_inv st" and "au_model st = Some m"
    and "verify_chain st records True = Inr True" and "verify_chain st records' True = Inr True"
  defines "msgs \<equiv> \<lambda>rs. audit_links (au_key st) (get_ok (fromhex m) []) (map (\<lambda>r. alert_digest (record_alert r)) rs)"
  defines "texts \<equiv> map (\<lambda>r. canonical_json (record_alert r))"
  shows "length records = length records' \<and>
    (texts records = texts records' \<or> collide sha256 (texts records) (texts records')
     \<or> collide (hmac_sha256 (au_key st)) (msgs records) (msgs records'))"
proof -
  let ?ds = "map (\<lambda>r. alert_digest (record_alert r))"
  obtain model where model: "m = bytes_hex model" using assms(1,2) by (auto simp: audit_inv_def holds_def)
  have zero: "fromhex (bytes_hex ZERO_HASH) = Inr ZERO_HASH" by simp
  have a: "au_sequence st = int (length rs) \<and>
      fromhex (au_head st) = Inr (audit_head (au_key st) model (?ds rs))"
    if "verify_chain st rs True = Inr True" for rs
  proof -
    have "verify_loop st rs (int 0, bytes_hex ZERO_HASH) = Inr (Some (au_sequence st, au_head st))"
      using that by (simp add: verify_chain_current)
    from verify_loop_accepted [OF this _ zero, of model] assms(2) model show ?thesis by simp
  qed
  have len: "length records = length records'" using a [OF assms(3)] a [OF assms(4)] by simp
  have heads: "audit_head (au_key st) model (?ds records) = audit_head (au_key st) model (?ds records')"
    using a [OF assms(3)] a [OF assms(4)] by simp
  have items: "list_all (\<lambda>d. length d = 32) (?ds rs)" for rs by (simp add: list_all_iff)
  have "?ds records = ?ds records' \<or> collide (hmac_sha256 (au_key st)) (msgs records) (msgs records')"
    using receipts.head_binds [OF _ items items heads] len by (simp add: msgs_def model)
  moreover have "texts records = texts records' \<or> collide sha256 (texts records) (texts records')"
    if "?ds records = ?ds records'"
    by (rule map_eq_or_collide) (use that in \<open>simp add: texts_def alert_digest_def comp_def\<close>)
  ultimately show ?thesis using len by blast
qed

theorem accepted_chain_is_bound_witness:
  "\<exists>records st. append_all [PBool True, PNone] sample_store = Inr (records, st) \<and>
    verify_chain st records True = Inr True \<and> length records = length records \<and>
    (map (\<lambda>r. canonical_json (record_alert r)) records = map (\<lambda>r. canonical_json (record_alert r)) records
     \<or> collide sha256 (map (\<lambda>r. canonical_json (record_alert r)) records)
         (map (\<lambda>r. canonical_json (record_alert r)) records)
     \<or> collide (hmac_sha256 (au_key st))
         (audit_links (au_key st) (get_ok (fromhex (bytes_hex (sha256 [1]))) [])
           (map (\<lambda>r. alert_digest (record_alert r)) records))
         (audit_links (au_key st) (get_ok (fromhex (bytes_hex (sha256 [1]))) [])
           (map (\<lambda>r. alert_digest (record_alert r)) records)))"
proof -
  obtain records st where a: "append_all [PBool True, PNone] sample_store = Inr (records, st)"
    and h: "holds st (sha256 [1]) (map alert_digest [PBool True, PNone])"
    and acc: "verify_chain st records True = Inr True"
    by (rule sample_chain)
  have "audit_inv st" using h unfolding audit_inv_def
    by (intro disjI2 exI conjI, assumption) simp
  moreover have "au_model st = Some (bytes_hex (sha256 [1]))" using h by (simp add: holds_def)
  ultimately show ?thesis using accepted_chain_is_bound [OF _ _ acc acc] a acc by blast
qed

text \<open>C27. From any state that operations reach, however many further models are registered
  and alerts appended, the invariant holds, the sequence number never goes back, and once
  an alert has been appended the registered model never changes.\<close>

theorem model_fixed_after_alerts:
  assumes "audit_inv st"
  shows "audit_inv (fold run_op ops st) \<and> au_sequence st \<le> au_sequence (fold run_op ops st)
    \<and> (au_sequence st \<noteq> 0 \<longrightarrow> au_model (fold run_op ops st) = au_model st)
    \<and> au_key (fold run_op ops st) = au_key st"
  using assms
proof (induction ops arbitrary: st)
  case Nil
  then show ?case by simp
next
  case (Cons op ops)
  have step: "audit_inv (run_op op st)" "au_sequence st \<noteq> 0 \<longrightarrow> au_model (run_op op st) = au_model st"
    "au_sequence st \<le> au_sequence (run_op op st)" "au_key (run_op op st) = au_key st"
    using run_op_inv [OF Cons.prems, of op] by blast+
  with Cons.IH [OF step(1)] audit_inv_sequence [OF Cons.prems] show ?case by fastforce
qed

theorem model_fixed_after_alerts_witness:
  "audit_inv (fold run_op [Register [1], Append PNone, Register [2]] (new_store [7]))"
  using model_fixed_after_alerts [OF audit_inv_new, of "[Register [1], Append PNone, Register [2]]" "[7]"]
  by simp

text \<open>The receipt that \<open>append\<close> returns is accepted, later and by any store with the
  same key, for exactly the alerts whose canonical JSON has the digest of the appended one.\<close>

theorem receipt_vouches_for_alert:
  assumes "audit_inv st" and "append alert st = Inr (receipt, st')" and "au_key st2 = au_key st"
  shows "verify_receipt st2 other receipt =
    Inr (sha256 (canonical_json other) = sha256 (canonical_json alert))"
proof -
  have "au_model st \<noteq> None" using assms(2) by (rule append_has_model)
  then obtain model ds where h: "holds st model ds" using assms(1) by (auto simp: audit_inv_def)
  note small = append_message_range [OF assms(2) h]
  let ?p = "audit_head (au_key st) model ds"
  have r: "receipt = receipt_of (int (Suc (length ds))) ?p (alert_digest alert) model
      (hmac_sha256 (au_key st) (link_msg model (Suc (length ds)) ?p (alert_digest alert)))"
    using append_holds [OF h small, of alert] assms(2) by simp
  show ?thesis
    unfolding r verify_receipt_link [OF small assms(3)] by (simp only: alert_digest_def)
qed

theorem receipt_vouches_for_alert_witness:
  "\<exists>receipt. (\<exists>st'. append (PBool True) sample_store = Inr (receipt, st')) \<and>
    verify_receipt sample_store (PBool False) receipt =
      Inr (sha256 (canonical_json (PBool False)) = sha256 (canonical_json (PBool True)))"
proof -
  obtain receipt st' where a: "append (PBool True) sample_store = Inr (receipt, st')"
    using append_holds [OF sample_store_holds] by simp
  show ?thesis using receipt_vouches_for_alert [OF sample_store_inv a refl] a by blast
qed

lemma receipt_fields_errors:
  assumes "receipt_fields receipt = Inl e"
  shows "e \<in> {KeyError, TypeError, ValueError, OverflowError}"
proof -
  have sub: "py_subscript receipt k = Inl e \<Longrightarrow> e \<in> {KeyError, TypeError}" for k e
    by (cases receipt) (auto split: option.splits)
  have hex: "fromhex s = Inl e \<Longrightarrow> e = ValueError" for s e
    by (induction s rule: fromhex.induct)
       (auto simp: mapR_def bindE_def split: if_splits option.splits sum.splits)
  have int: "py_int v = Inl e \<Longrightarrow> e \<in> {TypeError, ValueError, OverflowError}" for v e
    by (cases v) (auto simp: float_trunc_def to_int_with_def parse_int_def
        split: if_splits prod.splits f64.splits)
  have rh: "receipt_hex receipt k = Inl e \<Longrightarrow> e \<in> {KeyError, TypeError, ValueError}" for k e
    using sub hex by (auto simp: receipt_hex_def bindE_def split: sum.splits)
  show ?thesis using assms sub int rh
    by (auto simp: receipt_fields_def bindE_def split: sum.splits) blast+
qed

lemma verify_receipt_errors:
  assumes "verify_receipt st alert receipt = Inl e"
  shows "e \<in> {StructError, OverflowError}"
proof (cases "receipt_fields receipt")
  case (Inl e')
  then show ?thesis using assms receipt_fields_errors [OF Inl]
    by (auto simp: verify_receipt_def split: if_splits)
next
  case (Inr x)
  obtain n p m c where x: "x = (n, p, m, c)" by (cases x)
  have "audit_message n p d m = Inl e' \<Longrightarrow> e' = StructError" for d e'
    by (auto simp: audit_message_def mapR_def bindE_def split: if_splits sum.splits)
  moreover obtain v where "py_get receipt ''alert_hash'' PNone = Inr v"
    using Inr by (cases receipt) (auto simp: receipt_fields_def)
  ultimately show ?thesis using assms
    by (auto simp: verify_receipt_def Inr x Let_def bindE_def split: if_splits sum.splits)
qed

text \<open>C35. A receipt whose fields parse and whose alert hash is right is accepted exactly when
  it claims the HMAC of its message, but with a sequence number that does not fit in 64
  bits unsigned \<open>verify_receipt\<close> raises \<open>struct.error\<close> instead of answering \<open>False\<close>; that
  and the overflow of an infinite sequence number are the only errors it can raise.\<close>

theorem verify_receipt_cases:
  assumes "receipt_fields receipt = Inr (sequence, previous, model_hash, claimed)"
    and "py_get receipt ''alert_hash'' PNone = Inr (PStr (bytes_hex (sha256 (canonical_json alert))))"
  shows "verify_receipt st alert receipt =
      (if 0 \<le> sequence \<and> sequence < 2 ^ 64
       then Inr (hmac_sha256 (au_key st)
              (link_msg model_hash (nat sequence) previous (sha256 (canonical_json alert))) = claimed)
       else Inl StructError)
    \<and> (\<forall>e other r. verify_receipt st other r = Inl e \<longrightarrow> e \<in> {StructError, OverflowError})"
proof (intro conjI allI impI)
  show "verify_receipt st alert receipt =
      (if 0 \<le> sequence \<and> sequence < 2 ^ 64
       then Inr (hmac_sha256 (au_key st)
              (link_msg model_hash (nat sequence) previous (sha256 (canonical_json alert))) = claimed)
       else Inl StructError)"
    using assms
    by (simp add: verify_receipt_def Let_def audit_message_def link_msg_def del: be_bytes_numeral)
qed (rule verify_receipt_errors)

theorem verify_receipt_cases_witness:
  "verify_receipt (new_store [7]) (PBool True)
     (receipt_of (- 1) ZERO_HASH (sha256 (canonical_json (PBool True))) [] []) = Inl StructError"
  using verify_receipt_cases [OF receipt_fields_receipt_of get_receipt_of(3),
      where st = "new_store [7]" and alert = "PBool True", of "- 1" ZERO_HASH "[]" "[]"]
  by simp

end
