(* ===== verification/Json.thy ===== *)
theory Json
  imports PyVal
begin

text \<open>
  \<open>json.loads\<close> as the standard library reads it, and \<open>read_jsonl\<close> of
  \<open>cote3mon/features.py\<close>.  A parser takes the remaining text and returns a value with the
  text after it, \<open>None\<close> being \<open>JSONDecodeError\<close> (a \<open>ValueError\<close>).  Nested values are read
  with fuel; twice the length of the text is always enough (\<open>json_value_enough\<close>).  The last
  part shows that reading undoes \<open>json.dumps\<close>.
\<close>

section \<open>Strings\<close>

definition is_ws :: "char \<Rightarrow> bool" where
  "is_ws c = (let n = of_char c :: nat in n = 32 \<or> n = 9 \<or> n = 10 \<or> n = 13)"

definition skip_ws :: "string \<Rightarrow> string" where
  "skip_ws s = dropWhile is_ws s"

fun hex4 :: "string \<Rightarrow> (nat \<times> string) option" where
  "hex4 (a # b # c # d # s) =
     (case (hex_value a, hex_value b, hex_value c, hex_value d) of
        (Some w, Some x, Some y, Some z) \<Rightarrow> Some (4096 * w + 256 * x + 16 * y + z, s)
      | _ \<Rightarrow> None)"
| "hex4 _ = None"

text \<open>The bytes of a code point; a surrogate that stands alone keeps its three-byte form.\<close>

definition utf8_code :: "nat \<Rightarrow> string" where
  "utf8_code n =
     (if n < 128 then [char_of n]
      else if n < 2048 then [char_of (192 + n div 64), char_of (128 + n mod 64)]
      else if n < 65536
      then [char_of (224 + n div 4096), char_of (128 + n div 64 mod 64), char_of (128 + n mod 64)]
      else [char_of (240 + n div 262144), char_of (128 + n div 4096 mod 64),
            char_of (128 + n div 64 mod 64), char_of (128 + n mod 64)])"

text \<open>The part of a \<open>\u\<close> escape after the \<open>u\<close>: four digits, and a second escape when
  the two make a surrogate pair.\<close>

definition low_surrogate :: "string \<Rightarrow> (nat \<times> string) option" where
  "low_surrogate s =
     (case s of
        a # b # t \<Rightarrow>
          if a = CHR 0x5C \<and> b = CHR ''u''
          then (case hex4 t of
                  Some (n, r) \<Rightarrow> if 56320 \<le> n \<and> n \<le> 57343 then Some (n, r) else None
                | None \<Rightarrow> None)
          else None
      | _ \<Rightarrow> None)"

definition unicode_escape :: "string \<Rightarrow> (string \<times> string) option" where
  "unicode_escape s =
     (case hex4 s of
        None \<Rightarrow> None
      | Some (n, r) \<Rightarrow>
          if 55296 \<le> n \<and> n \<le> 56319
          then (case low_surrogate r of
                  Some (m, r') \<Rightarrow> Some (utf8_code (65536 + 1024 * (n - 55296) + (m - 56320)), r')
                | None \<Rightarrow> Some (utf8_code n, r))
          else Some (utf8_code n, r))"

definition simple_escape :: "char \<Rightarrow> char option" where
  "simple_escape c =
     (if c = CHR 0x22 \<or> c = CHR 0x5C \<or> c = CHR ''/'' then Some c
      else if c = CHR ''b'' then Some (CHR 0x08)
      else if c = CHR ''f'' then Some (CHR 0x0C)
      else if c = CHR ''n'' then Some (CHR 0x0A)
      else if c = CHR ''r'' then Some (CHR 0x0D)
      else if c = CHR ''t'' then Some (CHR 0x09)
      else None)"

text \<open>One character or escape, and the string up to its closing quote.\<close>

definition scan_item :: "string \<Rightarrow> (string \<times> string) option" where
  "scan_item s =
     (case s of
        [] \<Rightarrow> None
      | c # t \<Rightarrow>
          if c = CHR 0x5C
          then (case t of
                  [] \<Rightarrow> None
                | e # u \<Rightarrow>
                    if e = CHR ''u'' then unicode_escape u
                    else (case simple_escape e of None \<Rightarrow> None | Some d \<Rightarrow> Some ([d], u)))
          else if (of_char c :: nat) < 32 then None
          else Some ([c], t))"

lemma hex4_shorter: "hex4 s = Some (n, r) \<Longrightarrow> length r < length s"
  by (cases s rule: hex4.cases) (auto split: option.splits)

lemma low_surrogate_shorter: "low_surrogate s = Some (n, r) \<Longrightarrow> length r < length s"
  by (auto simp: low_surrogate_def dest!: hex4_shorter split: list.splits if_splits option.splits)

lemma unicode_escape_shorter: "unicode_escape s = Some (x, r) \<Longrightarrow> length r < length s"
  by (auto simp: unicode_escape_def dest!: hex4_shorter low_surrogate_shorter
      split: if_splits option.splits)

lemma scan_item_shorter: "scan_item s = Some (x, r) \<Longrightarrow> length r < length s"
  by (auto simp: scan_item_def dest!: unicode_escape_shorter split: list.splits if_splits option.splits)

function scan_string :: "string \<Rightarrow> (string \<times> string) option" where
  "scan_string s =
     (if s \<noteq> [] \<and> hd s = CHR 0x22 then Some ([], tl s)
      else case scan_item s of
             None \<Rightarrow> None
           | Some (x, r) \<Rightarrow>
               (case scan_string r of None \<Rightarrow> None | Some (y, r') \<Rightarrow> Some (x @ y, r')))"
  by pat_completeness auto
termination
  by (relation "measure length") (auto dest: scan_item_shorter)

declare scan_string.simps [simp del]

section \<open>Numbers\<close>

definition minus_part :: "string \<Rightarrow> string \<times> string" where
  "minus_part s = (if s \<noteq> [] \<and> hd s = CHR ''-'' then ([hd s], tl s) else ([], s))"

definition whole_part :: "string \<Rightarrow> (string \<times> string) option" where
  "whole_part s =
     (case s of
        [] \<Rightarrow> None
      | c # t \<Rightarrow>
          if c = CHR ''0'' then Some ([c], t)
          else if is_digit c then Some (takeWhile is_digit s, dropWhile is_digit s)
          else None)"

definition fraction_part :: "string \<Rightarrow> string \<times> string" where
  "fraction_part s =
     (case s of
        c # d # t \<Rightarrow>
          if c = CHR ''.'' \<and> is_digit d
          then (c # takeWhile is_digit (d # t), dropWhile is_digit (d # t)) else ([], s)
      | _ \<Rightarrow> ([], s))"

definition exponent_part :: "string \<Rightarrow> string \<times> string" where
  "exponent_part s =
     (case s of
        [] \<Rightarrow> ([], s)
      | c # t \<Rightarrow>
          if c = CHR ''e'' \<or> c = CHR ''E''
          then (let (sg, u) = (if t \<noteq> [] \<and> (hd t = CHR ''-'' \<or> hd t = CHR ''+'') then ([hd t], tl t) else ([], t))
                in if u \<noteq> [] \<and> is_digit (hd u)
                   then (c # sg @ takeWhile is_digit u, dropWhile is_digit u) else ([], s))
          else ([], s))"

definition json_number :: "string \<Rightarrow> (pyval \<times> string) option" where
  "json_number s =
     (case minus_part s of (sg, s1) \<Rightarrow>
      (case whole_part s1 of
         None \<Rightarrow> None
       | Some (w, s2) \<Rightarrow>
           (case fraction_part s2 of (f, s3) \<Rightarrow>
           (case exponent_part s3 of (e, s4) \<Rightarrow>
             if f = [] \<and> e = []
             then (case parse_int (sg @ w) of Inl _ \<Rightarrow> None | Inr n \<Rightarrow> Some (PInt n, s4))
             else (case parse_float (sg @ w @ f @ e) of Inl _ \<Rightarrow> None | Inr x \<Rightarrow> Some (PFloat x, s4))))))"

section \<open>Values\<close>

definition literals :: "(string \<times> pyval) list" where
  "literals = [(''null'', PNone), (''true'', PBool True), (''false'', PBool False),
     (''NaN'', PFloat NaN), (''Infinity'', PFloat PInf), (''-Infinity'', PFloat NInf)]"

definition json_atom :: "string \<Rightarrow> (pyval \<times> string) option" where
  "json_atom s =
     (case find (\<lambda>(l, v). take (length l) s = l) literals of
        Some (l, v) \<Rightarrow> Some (v, drop (length l) s)
      | None \<Rightarrow> json_number s)"

definition expect :: "char \<Rightarrow> string \<Rightarrow> string option" where
  "expect c s = (case skip_ws s of [] \<Rightarrow> None | d # t \<Rightarrow> if d = c then Some (skip_ws t) else None)"

text \<open>A value; the elements of a list and the members of an object up to the closing
  bracket.  A key that occurs again keeps its place and takes the later value.\<close>

fun json_value :: "nat \<Rightarrow> string \<Rightarrow> (pyval \<times> string) option"
and json_items :: "nat \<Rightarrow> string \<Rightarrow> (pyval list \<times> string) option"
and json_members :: "nat \<Rightarrow> string \<Rightarrow> ((string \<times> pyval) list \<times> string) option" where
  "json_value 0 s = None"
| "json_value (Suc n) [] = None"
| "json_value (Suc n) (c # s) =
     (if c = CHR 0x22
      then map_option (\<lambda>(x, r). (PStr x, r)) (scan_string s)
      else if c = CHR ''['' then
        (case expect (CHR '']'') s of
           Some _ \<Rightarrow> Some (PList [], tl (skip_ws s))
         | None \<Rightarrow> map_option (\<lambda>(vs, r). (PList vs, r)) (json_items n (skip_ws s)))
      else if c = CHR ''{'' then
        (case expect (CHR ''}'') s of
           Some _ \<Rightarrow> Some (PDict [], tl (skip_ws s))
         | None \<Rightarrow> map_option (\<lambda>(ms, r). (PDict (fold (\<lambda>(k, v). dset k v) ms []), r))
                    (json_members n (skip_ws s)))
      else json_atom (c # s))"
| "json_items 0 s = None"
| "json_items (Suc n) s =
     (case json_value n s of
        None \<Rightarrow> None
      | Some (v, r) \<Rightarrow>
          (case expect (CHR '','') r of
             Some t \<Rightarrow> map_option (\<lambda>(vs, r'). (v # vs, r')) (json_items n t)
           | None \<Rightarrow> (case expect (CHR '']'') r of
                       Some _ \<Rightarrow> Some ([v], tl (skip_ws r))
                     | None \<Rightarrow> None)))"
| "json_members 0 s = None"
| "json_members (Suc n) s =
     (if s = [] \<or> hd s \<noteq> CHR 0x22 then None
      else case scan_string (tl s) of
        None \<Rightarrow> None
      | Some (k, r) \<Rightarrow>
          (case expect (CHR '':'') r of
             None \<Rightarrow> None
           | Some t \<Rightarrow>
               (case json_value n t of
                  None \<Rightarrow> None
                | Some (v, u) \<Rightarrow>
                    (case expect (CHR '','') u of
                       Some w \<Rightarrow> map_option (\<lambda>(ms, r'). ((k, v) # ms, r')) (json_members n w)
                     | None \<Rightarrow> (case expect (CHR ''}'') u of
                                 Some _ \<Rightarrow> Some ([(k, v)], tl (skip_ws u))
                               | None \<Rightarrow> None)))))"

definition json_loads :: "string \<Rightarrow> pyval result" where
  "json_loads s =
     (let t = skip_ws s in
      case json_value (2 * length t) t of
        Some (v, r) \<Rightarrow> if skip_ws r = [] then Inr v else Inl ValueError
      | None \<Rightarrow> Inl ValueError)"

text \<open>\<open>read_jsonl\<close>: the values of the lines of all files in order, blank lines skipped; a
  line that is not JSON raises \<open>ValueError\<close>.\<close>

definition read_jsonl :: "string list list \<Rightarrow> pyval list result" where
  "read_jsonl files = mapE json_loads (filter (\<lambda>line. strip line \<noteq> []) (concat files))"

section \<open>Fuel\<close>

lemma skip_ws_le: "length (skip_ws s) \<le> length s"
  by (simp add: skip_ws_def length_dropWhile_le)

lemma expect_shorter: "expect c s = Some t \<Longrightarrow> length t < length s"
  using skip_ws_le [of s] skip_ws_le [of "tl (skip_ws s)"]
  by (auto simp: expect_def split: list.splits if_splits)

lemma expect_tl_shorter: "expect c s = Some t \<Longrightarrow> length (tl (skip_ws s)) < length s"
  using skip_ws_le [of s] by (auto simp: expect_def split: list.splits)

lemma scan_string_shorter: "scan_string s = Some (x, r) \<Longrightarrow> length r < length s"
proof (induction s arbitrary: x r rule: scan_string.induct)
  case (1 s)
  show ?case
  proof (cases "s \<noteq> [] \<and> hd s = CHR 0x22")
    case True
    with "1.prems" show ?thesis by (cases s) (auto simp: scan_string.simps)
  next
    case False
    with "1.prems" obtain y t z where i: "scan_item s = Some (y, t)" and r: "scan_string t = Some (z, r)"
      by (subst (asm) scan_string.simps) (auto split: if_splits option.splits)
    show ?thesis
      using "1.IH" [OF False i refl r] scan_item_shorter [OF i] by simp
  qed
qed

lemma whole_part_shorter: "whole_part s = Some (w, r) \<Longrightarrow> length r < length s"
  by (auto simp: whole_part_def le_imp_less_Suc length_dropWhile_le split: list.splits if_splits)

lemma fraction_part_le: "fraction_part s = (w, r) \<Longrightarrow> length r \<le> length s"
  using le_trans [OF length_dropWhile_le [of is_digit]]
  by (auto simp: fraction_part_def split: list.splits if_splits)

lemma exponent_part_le: "exponent_part s = (w, r) \<Longrightarrow> length r \<le> length s"
proof -
  assume e: "exponent_part s = (w, r)"
  have "length (dropWhile is_digit (tl t)) \<le> Suc (length t)" "length (dropWhile is_digit t) \<le> Suc (length t)" for t
    using length_dropWhile_le [of is_digit "tl t"] length_dropWhile_le [of is_digit t] by auto
  with e show ?thesis
    by (auto simp: exponent_part_def Let_def split: list.splits if_splits prod.splits)
qed

lemma minus_part_le: "minus_part s = (w, r) \<Longrightarrow> length r \<le> length s"
  by (auto simp: minus_part_def split: if_splits)

lemma json_number_shorter: "json_number s = Some (v, r) \<Longrightarrow> length r < length s"
  by (auto simp: json_number_def split: prod.splits option.splits if_splits sum.splits
      dest!: minus_part_le whole_part_shorter fraction_part_le exponent_part_le)

lemma literals_nonempty: "(l, v) \<in> set literals \<Longrightarrow> l \<noteq> []"
  by (auto simp: literals_def)

lemma json_atom_shorter:
  assumes "json_atom s = Some (v, r)"
  shows "length r < length s"
proof (cases "find (\<lambda>(l, v). take (length l) s = l) literals")
  case None
  with assms show ?thesis by (simp add: json_atom_def json_number_shorter)
next
  case (Some p)
  then obtain l u where p: "p = (l, u)" "(l, u) \<in> set literals" "take (length l) s = l"
    by (auto simp: find_Some_iff in_set_conv_nth)
  then have "l \<noteq> []" "s \<noteq> []" by (auto dest: literals_nonempty)
  with assms Some p(1) show ?thesis by (auto simp: json_atom_def)
qed

lemma json_shorter:
  "json_value n s = Some (v, r) \<Longrightarrow> length r < length s"
  "json_items n s = Some (vs, r) \<Longrightarrow> length r < length s"
  "json_members n s = Some (ms, r) \<Longrightarrow> length r < length s"
proof (induction n s and n s and n s arbitrary: v r and vs r and ms r
    rule: json_value_json_items_json_members.induct)
  case (3 n c s)
  have w: "length (skip_ws s) \<le> length s" by (rule skip_ws_le)
  from 3 w show ?case
    by (fastforce dest: scan_string_shorter json_atom_shorter expect_tl_shorter split: if_splits option.splits)
next
  case (5 n s)
  then show ?case
    by (fastforce dest: expect_tl_shorter expect_shorter split: option.splits)
next
  case (7 n s)
  have "length (tl s) \<le> length s" by simp
  with 7 show ?case
    by (fastforce dest: scan_string_shorter expect_tl_shorter expect_shorter split: option.splits if_splits)
qed simp_all

text \<open>More fuel than twice the length of the text changes nothing.\<close>

lemma expect_None_skip: "expect c s = Some t \<Longrightarrow> s \<noteq> []"
  by (auto simp: expect_def skip_ws_def)

lemma json_fuel:
  "2 * length s \<le> n \<Longrightarrow> n \<le> m \<Longrightarrow> json_value m s = json_value n s"
  "2 * length s < n \<Longrightarrow> n \<le> m \<Longrightarrow> json_items m s = json_items n s"
  "2 * length s < n \<Longrightarrow> n \<le> m \<Longrightarrow> json_members m s = json_members n s"
proof (induction n s and n s and n s arbitrary: m and m and m
    rule: json_value_json_items_json_members.induct)
  case (1 s)
  then show ?case by (cases m) auto
next
  case (2 n)
  then show ?case by (cases m) auto
next
  case (3 n c s)
  obtain k where m: "m = Suc k" using "3.prems" by (cases m) auto
  have w: "2 * length (skip_ws s) < n" using "3.prems" skip_ws_le [of s] by simp
  have k: "n \<le> k" using "3.prems" m by simp
  have items: "json_items k (skip_ws s) = json_items n (skip_ws s)"
    if "c = CHR ''[''" and "expect (CHR '']'') s = None"
    using "3.IH"(1) [OF _ that w k] that(1) by simp
  have members: "json_members k (skip_ws s) = json_members n (skip_ws s)"
    if "c = CHR ''{''" and "expect (CHR ''}'') s = None"
    using "3.IH"(2) [OF _ _ that w k] that(1) by simp
  show ?case using items members by (auto simp: m split: option.splits)
next
  case (5 n s)
  obtain k where m: "m = Suc k" using "5.prems" by (cases m) auto
  have v: "json_value k s = json_value n s" by (rule "5.IH"(1)) (use "5.prems" m in simp_all)
  have items: "json_items k t = json_items n t"
    if "json_value n s = Some (x, r)" and "expect (CHR '','') r = Some t" for x r t
    using "5.IH"(2) [OF that(1) refl that(2), of k] "5.prems" m json_shorter(1) [OF that(1)] expect_shorter [OF that(2)]
    by simp
  show ?case using items by (auto simp: m v split: option.splits)
next
  case (7 n s)
  obtain k where m: "m = Suc k" using "7.prems" by (cases m) auto
  have kn: "n \<le> k" using "7.prems" m by simp
  have len: "2 * length t < n" if "scan_string (tl s) = Some (x, r)" "expect (CHR '':'') r = Some t" "s \<noteq> []" for x r t
    using that "7.prems" scan_string_shorter [OF that(1)] expect_shorter [OF that(2)] by (cases s) auto
  have v: "json_value k t = json_value n t"
    if "\<not> (s = [] \<or> hd s \<noteq> CHR 0x22)" "scan_string (tl s) = Some (x, r)" "expect (CHR '':'') r = Some t" for x r t
    using "7.IH"(1) [OF that(1,2) refl that(3), of k] len [OF that(2,3)] that(1) kn by simp
  have members: "json_members k w = json_members n w"
    if "\<not> (s = [] \<or> hd s \<noteq> CHR 0x22)" "scan_string (tl s) = Some (x, r)" "expect (CHR '':'') r = Some t"
      "json_value n t = Some (y, u)" "expect (CHR '','') u = Some w" for x r t y u w
    using "7.IH"(2) [OF that(1,2) refl that(3,4) refl that(5), of k] len [OF that(2,3)] that(1) kn
      json_shorter(1) [OF that(4)] expect_shorter [OF that(5)] by simp
  show ?case
  proof (cases "\<not> (s = [] \<or> hd s \<noteq> CHR 0x22)")
    case True
    note ok = True
    show ?thesis
    proof (cases "scan_string (tl s)")
      case (Some p)
      then obtain x r where x: "scan_string (tl s) = Some (x, r)" by (cases p) auto
      show ?thesis
      proof (cases "expect (CHR '':'') r")
        case (Some t)
        note t = this
        show ?thesis
        proof (cases "json_value n t")
          case None
          then show ?thesis using ok by (simp add: m x t v [OF ok x t])
        next
          case (Some q)
          then obtain y u where y: "json_value n t = Some (y, u)" by (cases q) auto
          show ?thesis
            using members [OF ok x t y] ok
            by (cases "expect (CHR '','') u") (simp_all add: m x t v [OF ok x t] y)
        qed
      qed (simp add: m x)
    qed (simp add: m)
  qed (auto simp: m)
qed simp_all

lemma json_value_enough: "2 * length s \<le> n \<Longrightarrow> json_value n s = json_value (2 * length s) s"
  by (rule json_fuel(1)) simp_all

section \<open>Reading undoes writing\<close>

lemma hex4_low: "n < 256 \<Longrightarrow> hex4 (''00'' @ hex2 n @ t) = Some (n, t)"
  using hex_digit_value(1) [of "n div 16"] hex_digit_value(1) [of "n mod 16"] hex_digit_value(1) [of 0]
  by (simp add: hex2_def less_mult_imp_div_less hex_digit_def hex_value_def)

lemma char_cases_32:
  assumes "(of_char c :: nat) < 32"
  shows "unicode_escape (''00'' @ hex2 (of_char c) @ t) = Some ([c], t)"
  using hex4_low [of "of_char c" t] assms by (simp add: unicode_escape_def utf8_code_def)

lemma special_chars:
  "(of_char c :: nat) = 34 \<Longrightarrow> c = CHR 0x22" "(of_char c :: nat) = 92 \<Longrightarrow> c = CHR 0x5C"
  "(of_char c :: nat) = 10 \<Longrightarrow> c = CHR 0x0A" "(of_char c :: nat) = 13 \<Longrightarrow> c = CHR 0x0D"
  "(of_char c :: nat) = 9 \<Longrightarrow> c = CHR 0x09" "(of_char c :: nat) = 12 \<Longrightarrow> c = CHR 0x0C"
  "(of_char c :: nat) = 8 \<Longrightarrow> c = CHR 0x08"
  using of_char_eq_iff [where ?'a = nat, of c "CHR 0x22"] of_char_eq_iff [where ?'a = nat, of c "CHR 0x5C"]
    of_char_eq_iff [where ?'a = nat, of c "CHR 0x0A"] of_char_eq_iff [where ?'a = nat, of c "CHR 0x0D"]
    of_char_eq_iff [where ?'a = nat, of c "CHR 0x09"] of_char_eq_iff [where ?'a = nat, of c "CHR 0x0C"]
    of_char_eq_iff [where ?'a = nat, of c "CHR 0x08"]
  by simp_all

lemma json_escape_start: "json_escape c @ t \<noteq> [] \<and> hd (json_escape c @ t) \<noteq> CHR 0x22"
proof -
  have "c \<noteq> CHR 0x22" if "(of_char c :: nat) \<noteq> 34" using that by auto
  then show ?thesis by (auto simp: json_escape_def Let_def)
qed

lemma scan_item_escape: "scan_item (json_escape c @ t) = Some ([c], t)"
proof (cases "(of_char c :: nat) < 32 \<or> (of_char c :: nat) = 34 \<or> (of_char c :: nat) = 92")
  case False
  moreover from this have "c \<noteq> CHR 0x5C" by auto
  ultimately show ?thesis by (auto simp: json_escape_def scan_item_def Let_def)
next
  case True
  consider "(of_char c :: nat) = 34" | "(of_char c :: nat) = 92" | "(of_char c :: nat) = 10"
    | "(of_char c :: nat) = 13" | "(of_char c :: nat) = 9" | "(of_char c :: nat) = 12" | "(of_char c :: nat) = 8"
    | "(of_char c :: nat) < 32" "(of_char c :: nat) \<notin> {34, 92, 10, 13, 9, 12, 8}"
    using True by blast
  then show ?thesis
  proof cases
    case 8
    then have "json_escape c = CHR 0x5C # ''u00'' @ hex2 (of_char c)" by (simp add: json_escape_def Let_def)
    with char_cases_32 [OF 8(1), of t] show ?thesis by (simp add: scan_item_def)
  qed (drule special_chars, simp add: json_escape_def scan_item_def simple_escape_def)+
qed

lemma scan_string_escape:
  "scan_string (concat (map json_escape s) @ CHR 0x22 # rest) = Some (s, rest)"
proof (induction s)
  case Nil
  then show ?case by (subst scan_string.simps) simp
next
  case (Cons c s)
  have "concat (map json_escape (c # s)) @ CHR 0x22 # rest
      = json_escape c @ concat (map json_escape s) @ CHR 0x22 # rest" by simp
  then show ?case
    using Cons json_escape_start [of c "concat (map json_escape s) @ CHR 0x22 # rest"]
    by (subst scan_string.simps) (simp only: scan_item_escape, simp)
qed

text \<open>Decimal numerals.\<close>

lemma digit_char: "n < 10 \<Longrightarrow> is_digit (digit_char n) \<and> (of_char (digit_char n) :: nat) = 48 + n"
  by (simp add: is_digit_def digit_char_def of_char_of)

lemma digits_value_snoc: "digits_value (ds @ [c]) = 10 * digits_value ds + (of_char c - 48)"
  by (simp add: digits_value_def)

lemma nat_str_digits: "list_all is_digit (nat_str n) \<and> nat_str n \<noteq> [] \<and> digits_value (nat_str n) = n"
proof (induction n rule: nat_str.induct)
  case (1 n)
  show ?case
  proof (cases "n < 10")
    case True
    then show ?thesis
      by (subst (1 2 3) nat_str.simps) (simp add: digit_char digits_value_def)
  next
    case False
    have m: "n mod 10 < 10" by simp
    show ?thesis
      using 1 [OF False] digit_char [OF m] False
      by (subst (1 2 3) nat_str.simps) (simp add: digits_value_snoc)
  qed
qed

lemma nat_str_zero: "0 < n \<Longrightarrow> hd (nat_str n) \<noteq> CHR ''0''"
proof (induction n rule: nat_str.induct)
  case (1 n)
  show ?case
  proof (cases "n < 10")
    case True
    then have "(of_char (digit_char n) :: nat) \<noteq> 48" using "1.prems" digit_char [of n] by simp
    then have "digit_char n \<noteq> CHR ''0''" by auto
    then show ?thesis using True by (subst nat_str.simps) simp
  next
    case False
    then have "0 < n div 10" by simp
    from "1.IH" [OF False this] nat_str_digits [of "n div 10"] False show ?thesis
      by (subst nat_str.simps) simp
  qed
qed

lemma nat_str_0: "nat_str 0 = ''0''"
  using of_char_eq_iff [where ?'a = nat, of "digit_char 0" "CHR ''0''"] digit_char [of 0]
  by (simp add: nat_str.simps)

lemma take_digits_all: "list_all is_digit ds \<Longrightarrow> take_digits ds = (ds, [])"
proof (induction ds rule: take_digits.induct)
  case (2 c s)
  have u: "\<not> is_digit (CHR ''_'')" by (simp add: is_digit_def)
  show ?case
  proof (cases s)
    case (Cons d t)
    then have d: "d \<noteq> CHR ''_''" using "2.prems" u by auto
    have IH: "take_digits s = (s, [])"
      by (cases t) (use 2 Cons d in simp_all)
    show ?thesis
      by (cases t) (use IH "2.prems" Cons d in simp_all)
  qed (use "2.prems" in simp)
qed simp

lemma not_blank_digit: "is_digit c \<Longrightarrow> \<not> is_blank c"
  by (auto simp: is_digit_def is_blank_def is_space_def Let_def)

lemma dropWhile_hd: "s = [] \<or> \<not> P (hd s) \<Longrightarrow> dropWhile P s = s"
  by (cases s) auto

lemma strip_id: "s \<noteq> [] \<Longrightarrow> \<not> is_blank (hd s) \<Longrightarrow> \<not> is_blank (last s) \<Longrightarrow> strip s = s"
  by (simp add: strip_def dropWhile_hd hd_rev)

lemma is_digit_minus: "\<not> is_digit (CHR ''-'')" "\<not> is_digit (CHR ''+'')" "\<not> is_blank (CHR ''-'')"
  by (simp_all add: is_digit_def is_blank_def is_space_def)

lemma list_all_hd_last: "list_all P xs \<Longrightarrow> xs \<noteq> [] \<Longrightarrow> P (hd xs) \<and> P (last xs)"
  by (simp add: list_all_iff)

lemma parse_int_digits:
  assumes "list_all is_digit ds" and "ds \<noteq> []" and "length ds \<le> 4300"
  shows "parse_int ds = Inr (int (digits_value ds))" and "parse_int (CHR ''-'' # ds) = Inr (- int (digits_value ds))"
proof -
  have d: "is_digit (hd ds)" "is_digit (last ds)" using list_all_hd_last [OF assms(1,2)] by auto
  then have s: "strip ds = ds" "strip (CHR ''-'' # ds) = CHR ''-'' # ds"
    using assms(2) by (simp_all add: strip_id not_blank_digit is_digit_minus)
  have "take_sign ds = (1, ds)"
    using d(1) assms(2) is_digit_minus by (cases ds) (auto simp: take_sign_def)
  then show "parse_int ds = Inr (int (digits_value ds))"
    using assms by (simp add: parse_int_def s take_digits_all)
  show "parse_int (CHR ''-'' # ds) = Inr (- int (digits_value ds))"
    using assms by (simp add: parse_int_def s take_sign_def take_digits_all)
qed

text \<open>The text after a number must not continue it.\<close>

definition stops :: "string \<Rightarrow> bool" where
  "stops rest \<longleftrightarrow> rest = [] \<or> \<not> is_digit (hd rest) \<and> hd rest \<notin> {CHR ''.'', CHR ''e'', CHR ''E''}"

definition short_int :: "int \<Rightarrow> bool" where
  "short_int n \<longleftrightarrow> length (nat_str (nat \<bar>n\<bar>)) \<le> 4300"

lemma parse_int_str: "short_int n \<Longrightarrow> parse_int (int_str n) = Inr n"
  using nat_str_digits [of "nat \<bar>n\<bar>"] parse_int_digits [of "nat_str (nat \<bar>n\<bar>)"]
  by (auto simp: int_str_def short_int_def abs_if split: if_splits)

lemma takeWhile_digits:
  assumes "list_all is_digit ds" and "rest = [] \<or> \<not> is_digit (hd rest)"
  shows "takeWhile is_digit (ds @ rest) = ds" and "dropWhile is_digit (ds @ rest) = rest"
  using assms by (induction ds) (auto simp: dropWhile_hd takeWhile_eq_Nil_iff)

lemma fraction_part_stops: "stops rest \<Longrightarrow> fraction_part rest = ([], rest)"
  by (auto simp: stops_def fraction_part_def split: list.splits)

lemma exponent_part_stops: "stops rest \<Longrightarrow> exponent_part rest = ([], rest)"
  by (auto simp: stops_def exponent_part_def split: list.splits)

lemma whole_part_nat: "stops rest \<Longrightarrow> whole_part (nat_str n @ rest) = Some (nat_str n, rest)"
proof (cases "n = 0")
  case True
  then show ?thesis by (simp add: nat_str_0 whole_part_def)
next
  case False
  assume r: "stops rest"
  have d: "list_all is_digit (nat_str n)" "nat_str n \<noteq> []" using nat_str_digits [of n] by auto
  have z: "hd (nat_str n) \<noteq> CHR ''0''" using nat_str_zero False by simp
  have t: "takeWhile is_digit (nat_str n @ rest) = nat_str n" "dropWhile is_digit (nat_str n @ rest) = rest"
    using takeWhile_digits [OF d(1), of rest] r by (auto simp: stops_def)
  obtain c cs where c: "nat_str n = c # cs" using d(2) by (cases "nat_str n") auto
  with d z have "is_digit c" "c \<noteq> CHR ''0''" by auto
  then show ?thesis using t unfolding c by (simp add: whole_part_def)
qed

lemma json_number_int:
  assumes "short_int n" and "stops rest"
  shows "json_number (int_str n @ rest) = Some (PInt n, rest)"
proof (cases "n < 0")
  case True
  then have i: "int_str n = CHR ''-'' # nat_str (nat (- n))" by (simp add: int_str_def)
  have "json_number (int_str n @ rest) = (case parse_int (int_str n) of Inl _ \<Rightarrow> None | Inr k \<Rightarrow> Some (PInt k, rest))"
    unfolding i by (simp add: json_number_def minus_part_def whole_part_nat [OF assms(2)]
        fraction_part_stops [OF assms(2)] exponent_part_stops [OF assms(2)])
  then show ?thesis by (simp add: parse_int_str [OF assms(1)])
next
  case False
  then have i: "int_str n = nat_str (nat n)" by (simp add: int_str_def)
  have "is_digit (hd (nat_str (nat n) @ rest))"
    using nat_str_digits [of "nat n"] list_all_hd_last [of is_digit "nat_str (nat n)"] by simp
  then have m: "minus_part (nat_str (nat n) @ rest) = ([], nat_str (nat n) @ rest)"
    using is_digit_minus by (auto simp: minus_part_def)
  have "json_number (int_str n @ rest) = (case parse_int (int_str n) of Inl _ \<Rightarrow> None | Inr k \<Rightarrow> Some (PInt k, rest))"
    unfolding i by (simp add: json_number_def m whole_part_nat [OF assms(2)]
        fraction_part_stops [OF assms(2)] exponent_part_stops [OF assms(2)])
  then show ?thesis by (simp add: parse_int_str [OF assms(1)])
qed

text \<open>A text that is a number on its own is read the same way before other text.\<close>

lemma minus_part_append: "s \<noteq> [] \<Longrightarrow> minus_part s = (sg, t) \<Longrightarrow> minus_part (s @ rest) = (sg, t @ rest)"
  by (cases s) (auto simp: minus_part_def)

lemma span_append:
  assumes "stops rest"
  shows "takeWhile is_digit (s @ rest) = takeWhile is_digit s"
    and "dropWhile is_digit (s @ rest) = dropWhile is_digit s @ rest"
  using assms by (induction s) (auto simp: stops_def dropWhile_hd takeWhile_eq_Nil_iff)

lemma whole_part_append:
  "stops rest \<Longrightarrow> whole_part s = Some (w, t) \<Longrightarrow> whole_part (s @ rest) = Some (w, t @ rest)"
  by (cases s) (auto simp: whole_part_def span_append split: if_splits)

lemma exponent_part_append:
  assumes "stops rest" and "exponent_part s = (e, [])"
  shows "exponent_part (s @ rest) = (e, rest)"
proof (cases s)
  case Nil
  with assms show ?thesis by (simp add: exponent_part_stops) (simp add: exponent_part_def)
next
  case (Cons c t)
  define p where "p = (if t \<noteq> [] \<and> (hd t = CHR ''-'' \<or> hd t = CHR ''+'') then ([hd t], tl t) else ([], t))"
  obtain sg u where p: "p = (sg, u)" by (cases p) auto
  from assms(2) Cons have c: "c = CHR ''e'' \<or> c = CHR ''E''"
    and u: "u \<noteq> []" "is_digit (hd u)" "dropWhile is_digit u = []" "e = c # sg @ takeWhile is_digit u"
    using p by (auto simp: exponent_part_def p_def Let_def split: if_splits)
  have "t \<noteq> []" using p u(1) by (auto simp: p_def)
  then have "(if t @ rest \<noteq> [] \<and> (hd (t @ rest) = CHR ''-'' \<or> hd (t @ rest) = CHR ''+'')
      then ([hd (t @ rest)], tl (t @ rest)) else ([], t @ rest)) = (sg, u @ rest)"
    using p by (auto simp: p_def split: if_splits)
  with u c show ?thesis
    by (simp add: Cons exponent_part_def span_append [OF assms(1)])
qed

lemma fraction_exponent_append:
  assumes r: "stops rest" and f: "fraction_part s = (f, t)" and e: "exponent_part t = (e, [])"
  shows "\<exists>t'. fraction_part (s @ rest) = (f, t') \<and> exponent_part t' = (e, rest)"
proof -
  consider "s = []" | c where "s = [c]" | c d u where "s = c # d # u"
    by (metis list.exhaust)
  then show ?thesis
  proof cases
    case 1
    with f e have "f = []" "e = []" by (auto simp: fraction_part_def exponent_part_def)
    with 1 show ?thesis by (simp add: fraction_part_stops [OF r] exponent_part_stops [OF r])
  next
    case 2
    with f e show ?thesis by (auto simp: fraction_part_def exponent_part_def split: if_splits)
  next
    case 3
    show ?thesis
    proof (cases "c = CHR ''.'' \<and> is_digit d")
      case True
      then have "fraction_part (s @ rest) = (f, t @ rest)"
        using f 3 span_append [OF r, of u] by (auto simp: fraction_part_def)
      with exponent_part_append [OF r e] show ?thesis by simp
    next
      case False
      then have "f = []" "t = s" "fraction_part (s @ rest) = ([], s @ rest)"
        using f 3 by (auto simp: fraction_part_def)
      with exponent_part_append [OF r e] show ?thesis by simp
    qed
  qed
qed

lemma json_number_append:
  assumes "json_number s = Some (v, [])" and r: "stops rest"
  shows "json_number (s @ rest) = Some (v, rest)"
proof -
  obtain sg s1 where m: "minus_part s = (sg, s1)" by (cases "minus_part s") auto
  from assms(1) m obtain w s2 where w: "whole_part s1 = Some (w, s2)"
    by (auto simp: json_number_def split: option.splits)
  obtain f s3 where f: "fraction_part s2 = (f, s3)" by (cases "fraction_part s2") auto
  obtain e s4 where e: "exponent_part s3 = (e, s4)" by (cases "exponent_part s3") auto
  have "s4 = []" using assms(1) m w f e
    by (auto simp: json_number_def split: if_splits sum.splits)
  with e have e: "exponent_part s3 = (e, [])" by simp
  obtain s3' where f': "fraction_part (s2 @ rest) = (f, s3')" and e': "exponent_part s3' = (e, rest)"
    using fraction_exponent_append [OF r f e] by blast
  have "s \<noteq> []" using w m by (auto simp: minus_part_def whole_part_def)
  then show ?thesis
    using assms(1) minus_part_append [OF _ m, of rest] whole_part_append [OF r w]
    by (auto simp: json_number_def m w f e f' e' split: if_splits sum.splits)
qed

lemma json_number_start:
  assumes "json_number s = Some (v, r)"
  shows "\<exists>c t. s = c # t \<and> (is_digit c \<or> c = CHR ''-'' \<and> (\<exists>d u. t = d # u \<and> is_digit d))"
proof -
  have z: "is_digit (CHR ''0'')" by (simp add: is_digit_def)
  obtain sg s1 where m: "minus_part s = (sg, s1)" by (cases "minus_part s") auto
  with assms obtain w s2 where w: "whole_part s1 = Some (w, s2)"
    by (auto simp: json_number_def split: option.splits)
  then obtain d u where "s1 = d # u" "is_digit d"
    using z by (auto simp: whole_part_def split: list.splits if_splits)
  with m show ?thesis by (cases s) (auto simp: minus_part_def split: if_splits)
qed

lemma literal_starts:
  "(l, v) \<in> set literals \<Longrightarrow> \<exists>a b t. l = a # b # t \<and> \<not> is_digit a \<and> (a = CHR ''-'' \<longrightarrow> \<not> is_digit b)"
  by (auto simp: literals_def is_digit_def)

lemma json_atom_number:
  assumes "json_number s = Some (v, r)"
  shows "json_atom s = Some (v, r)"
proof -
  obtain c t where s: "s = c # t" and c: "is_digit c \<or> c = CHR ''-'' \<and> (\<exists>d u. t = d # u \<and> is_digit d)"
    using json_number_start [OF assms] by blast
  have "take (length l) s \<noteq> l" if "(l, u) \<in> set literals" for l u
  proof -
    obtain a b k where l: "l = a # b # k" "\<not> is_digit a" "a = CHR ''-'' \<longrightarrow> \<not> is_digit b"
      using literal_starts [OF \<open>(l, u) \<in> set literals\<close>] by blast
    then show ?thesis using c by (cases t) (auto simp: s)
  qed
  then have "find (\<lambda>(l, v). take (length l) s = l) literals = None"
    by (auto simp: find_None_iff)
  with assms show ?thesis by (simp add: json_atom_def)
qed

text \<open>Values whose text can be read back: keys are distinct, integers are not longer than the
  interpreter converts, and every finite float is the value of its own text.  What comes
  back has its objects in the order of their keys.\<close>

fun reads_back :: "f64 \<Rightarrow> bool" where
  "reads_back (Fin x) \<longleftrightarrow> json_number (float_repr (Fin x)) = Some (PFloat (Fin x), [])"
| "reads_back _ \<longleftrightarrow> True"

primrec good_json :: "pyval \<Rightarrow> bool" where
  "good_json PNone \<longleftrightarrow> True"
| "good_json (PBool b) \<longleftrightarrow> True"
| "good_json (PInt n) \<longleftrightarrow> short_int n"
| "good_json (PFloat x) \<longleftrightarrow> reads_back x"
| "good_json (PStr s) \<longleftrightarrow> True"
| "good_json (PList xs) \<longleftrightarrow> list_all (\<lambda>b. b) (map good_json xs)"
| "good_json (PDict d) \<longleftrightarrow> distinct (map fst d) \<and> list_all snd (map (map_prod id good_json) d)"

primrec sorted_json :: "pyval \<Rightarrow> pyval" where
  "sorted_json PNone = PNone"
| "sorted_json (PBool b) = PBool b"
| "sorted_json (PInt n) = PInt n"
| "sorted_json (PFloat x) = PFloat x"
| "sorted_json (PStr s) = PStr s"
| "sorted_json (PList xs) = PList (map sorted_json xs)"
| "sorted_json (PDict d) = PDict (sort_key fst (map (map_prod id sorted_json) d))"

lemma not_ws_digit: "is_digit c \<Longrightarrow> \<not> is_ws c \<and> c \<notin> {CHR '']'', CHR ''}'', CHR '','', CHR '':'', CHR ''['', CHR ''{'', CHR 0x22}"
  by (auto simp: is_digit_def is_ws_def Let_def)

definition starts_value :: "string \<Rightarrow> bool" where
  "starts_value s \<longleftrightarrow> s \<noteq> [] \<and> \<not> is_ws (hd s) \<and> hd s \<notin> {CHR '']'', CHR ''}''}"

lemma starts_value_append: "starts_value s \<Longrightarrow> starts_value (s @ t)"
  by (simp add: starts_value_def)

lemma skip_ws_start: "starts_value s \<Longrightarrow> skip_ws s = s"
  by (simp add: skip_ws_def dropWhile_hd starts_value_def)

lemma ws_chars: "\<not> is_ws (CHR 0x22)" "\<not> is_ws (CHR ''['')" "\<not> is_ws (CHR ''{'')" "\<not> is_ws (CHR ''-'')"
  "\<not> is_ws (CHR '','')" "\<not> is_ws (CHR '']'')" "\<not> is_ws (CHR ''}'')" "\<not> is_ws (CHR '':'')"
  "\<not> is_ws (CHR ''n'')" "\<not> is_ws (CHR ''t'')" "\<not> is_ws (CHR ''f'')" "\<not> is_ws (CHR ''N'')" "\<not> is_ws (CHR ''I'')"
  by (simp_all add: is_ws_def)

lemma starts_string: "starts_value (json_string s @ t)"
  by (simp add: starts_value_def json_string_def ws_chars)

lemma json_number_starts_value: "json_number s = Some x \<Longrightarrow> starts_value s"
  using json_number_start [of s] not_ws_digit by (cases x) (fastforce simp: starts_value_def ws_chars)

lemma starts_float: "reads_back x \<Longrightarrow> starts_value (json_float x)"
  by (cases x) (auto simp del: float_repr.simps dest: json_number_starts_value, simp_all add: starts_value_def ws_chars)

lemma starts_dumps: "good_json v \<Longrightarrow> starts_value (json_dumps v)"
proof (cases v)
  case (PInt n)
  moreover assume "good_json v"
  ultimately show ?thesis
    using json_number_starts_value [OF json_number_int [of n "[]"]] by (simp add: stops_def)
qed (use starts_float starts_string [of _ "[]"] in \<open>auto simp: starts_value_def ws_chars\<close>)

lemma expect_found: "expect c (c # s) = Some (skip_ws s)" if "\<not> is_ws c"
  using that by (simp add: expect_def skip_ws_def)

lemma expect_other: "\<not> is_ws d \<Longrightarrow> d \<noteq> c \<Longrightarrow> expect c (d # s) = None"
  by (simp add: expect_def skip_ws_def)

lemma expect_start: "starts_value s \<Longrightarrow> expect (CHR '']'') s = None" "starts_value s \<Longrightarrow> expect (CHR ''}'') s = None"
  by (cases s; auto simp: starts_value_def expect_other)+

lemmas expect_simps = expect_found expect_other ws_chars

lemma stops_chars [simp]: "stops (CHR '','' # s)" "stops (CHR '']'' # s)" "stops (CHR ''}'' # s)" "stops []"
  by (simp_all add: stops_def is_digit_def)

lemma json_value_Suc_of: "n \<noteq> 0 \<Longrightarrow> json_value n s = json_value (Suc (n - 1)) s"
  by simp

definition reads :: "string \<Rightarrow> pyval \<Rightarrow> bool" where
  "reads t v \<longleftrightarrow> starts_value t \<and>
     (\<forall>rest n. stops rest \<longrightarrow> 2 * length (t @ rest) \<le> n \<longrightarrow> json_value n (t @ rest) = Some (v, rest))"

lemma reads_number:
  assumes "\<And>rest. stops rest \<Longrightarrow> json_number (t @ rest) = Some (v, rest)"
  shows "reads t v"
proof -
  have s: "starts_value t" using json_number_starts_value assms [of "[]"] by simp
  have t: "json_number t = Some (v, [])" using assms [of "[]"] by simp
  obtain c u where c: "t = c # u" "c \<noteq> CHR 0x22" "c \<noteq> CHR ''[''" "c \<noteq> CHR ''{''"
    using json_number_start [OF t] not_ws_digit by fastforce
  show ?thesis
    unfolding reads_def
  proof (intro conjI s allI impI)
    fix rest n
    assume r: "stops rest" and n: "2 * length (t @ rest) \<le> n"
    then obtain k where k: "n = Suc k" using c by (cases n) auto
    show "json_value n (t @ rest) = Some (v, rest)"
      using json_atom_number [OF assms [OF r]] c by (simp add: k)
  qed
qed

lemma reads_items:
  assumes "list_all2 reads ts vs" and "ts \<noteq> []"
  shows "2 * length (join '','' ts @ CHR '']'' # rest) < n \<Longrightarrow>
    json_items n (join '','' ts @ CHR '']'' # rest) = Some (vs, rest)"
  using assms
proof (induction arbitrary: n rule: list_all2_induct)
  case (Cons t ts v vs)
  obtain k where k: "n = Suc k" using Cons.prems by (cases n) auto
  show ?case
  proof (cases ts)
    case Nil
    with Cons have "json_value k (t @ CHR '']'' # rest) = Some (v, CHR '']'' # rest)"
      unfolding reads_def by (simp add: k)
    with Nil Cons.hyps(2) show ?thesis
      by (simp add: k expect_simps) (simp add: skip_ws_def ws_chars)
  next
    case C: (Cons u us)
    let ?more = "join '','' ts @ CHR '']'' # rest"
    have t: "join '','' (t # ts) @ CHR '']'' # rest = t @ CHR '','' # ?more" by (simp add: C)
    have v: "json_value k (t @ CHR '','' # ?more) = Some (v, CHR '','' # ?more)"
      using Cons.hyps(1) Cons.prems(1) unfolding reads_def t by (simp add: k)
    have "starts_value u" using Cons.hyps(2) C by (auto simp: reads_def list_all2_Cons1)
    then have w: "skip_ws ?more = ?more"
      by (intro skip_ws_start starts_value_append) (cases us; simp add: C starts_value_def)
    have i: "json_items k ?more = Some (vs, rest)"
      by (rule Cons.IH) (use Cons.prems(1) C in \<open>simp_all add: k t\<close>)
    show ?thesis
      unfolding t by (simp add: k v expect_simps w i)
  qed
qed simp

definition member_text :: "string \<times> string \<Rightarrow> string" where
  "member_text = (\<lambda>(k, t). json_string k @ CHR '':'' # t)"

lemma starts_member: "starts_value (member_text m @ t)"
  by (cases m) (simp add: member_text_def starts_value_def json_string_def ws_chars)

lemma reads_members:
  assumes "list_all2 (\<lambda>(k, t) (l, v). k = l \<and> reads t v) ts ms" and "ts \<noteq> []"
  shows "2 * length (join '','' (map member_text ts) @ CHR ''}'' # rest) < n \<Longrightarrow>
    json_members n (join '','' (map member_text ts) @ CHR ''}'' # rest) = Some (ms, rest)"
  using assms
proof (induction arbitrary: n rule: list_all2_induct)
  case (Cons m ts p ms)
  obtain j where j: "n = Suc j" using Cons.prems by (cases n) auto
  obtain k t v where m: "m = (k, t)" "p = (k, v)" "reads t v" using Cons.hyps(1) by auto
  let ?start = "\<lambda>r. member_text (k, t) @ r"
  have first: "json_members n (?start r) =
      (case expect (CHR '','') r of
         Some w \<Rightarrow> map_option (\<lambda>(ms, r'). ((k, v) # ms, r')) (json_members j w)
       | None \<Rightarrow> (case expect (CHR ''}'') r of Some _ \<Rightarrow> Some ([(k, v)], tl (skip_ws r)) | None \<Rightarrow> None))"
    if "stops r" and "2 * length (?start r) < n" for r
  proof -
    have str: "scan_string (concat (map json_escape k) @ CHR 0x22 # CHR '':'' # t @ r) = Some (k, CHR '':'' # t @ r)"
      by (rule scan_string_escape)
    have "starts_value t" and v: "json_value j (t @ r) = Some (v, r)"
      using m(3) that unfolding reads_def by (auto simp: member_text_def j)
    then have w: "skip_ws (t @ r) = t @ r" by (intro skip_ws_start starts_value_append)
    show ?thesis
      using str v by (simp add: j member_text_def json_string_def expect_simps w)
  qed
  show ?case
  proof (cases ts)
    case Nil
    then show ?thesis
      using Cons.hyps(2) Cons.prems(1) first [of "CHR ''}'' # rest"]
      by (simp add: m expect_simps) (simp add: skip_ws_def ws_chars)
  next
    case C: (Cons u us)
    let ?more = "join '','' (map member_text ts) @ CHR ''}'' # rest"
    have t: "join '','' (map member_text (m # ts)) @ CHR ''}'' # rest = ?start (CHR '','' # ?more)"
      by (simp add: C m)
    have "starts_value ?more"
      using starts_member [of u] by (cases us) (simp_all add: C)
    then have w: "skip_ws ?more = ?more" by (rule skip_ws_start)
    have i: "json_members j ?more = Some (ms, rest)"
      by (rule Cons.IH) (use Cons.prems(1) C in \<open>simp_all add: j t\<close>)
    show ?thesis
      unfolding t using first [of "CHR '','' # ?more"] Cons.prems(1) t
      by (simp add: expect_simps w i m(2))
  qed
qed simp

lemma insort_map: "insort_key fst (map_prod id f m) (map (map_prod id f) d) = map (map_prod id f) (insort_key fst m d)"
  by (induction d) auto

lemma sort_map: "sort_key fst (map (map_prod id f) d) = map (map_prod id f) (sort_key fst d)"
  by (induction d) (auto simp: insort_map simp del: map_prod_simp id_apply)

lemma fold_dset_append:
  assumes "distinct (map fst (d @ e))"
  shows "fold (\<lambda>(k, v). dset k v) e d = d @ e"
  using assms
proof (induction e arbitrary: d)
  case (Cons m e)
  obtain k v where m: "m = (k, v)" by (cases m)
  have "dset k v d = d @ [(k, v)]" if "k \<notin> fst ` set d" for d :: "('a \<times> 'b) list"
    using that by (induction d) (auto simp: dset_def)
  moreover have "k \<notin> fst ` set d" using Cons.prems m by auto
  ultimately have "dset k v d = d @ [(k, v)]" by blast
  then show ?case using Cons.IH [of "d @ [(k, v)]"] Cons.prems by (simp add: m)
qed simp

lemma readsI:
  assumes "starts_value t"
    and "\<And>rest k. stops rest \<Longrightarrow> 2 * length (t @ rest) \<le> Suc k \<Longrightarrow> json_value (Suc k) (t @ rest) = Some (v, rest)"
  shows "reads t v"
  unfolding reads_def
proof (intro conjI assms(1) allI impI)
  fix rest n
  assume r: "stops rest" and n: "2 * length (t @ rest) \<le> n"
  moreover from n assms(1) obtain k where "n = Suc k" by (cases n) (auto simp: starts_value_def)
  ultimately show "json_value n (t @ rest) = Some (v, rest)" using assms(2) by simp
qed

lemma reads_list:
  assumes all: "list_all2 reads ts vs"
  shows "reads (''['' @ join '','' ts @ '']'') (PList vs)"
proof (cases "ts = []")
  case True
  with all show ?thesis
    by (auto intro!: readsI simp: starts_value_def expect_simps ws_chars skip_ws_def)
next
  case False
  have s: "starts_value (join '','' ts @ r)" for r
    using False all by (cases ts; cases "tl ts") (auto simp: reads_def starts_value_def list_all2_Cons1)
  show ?thesis
    by (rule readsI)
       (simp_all add: starts_value_def ws_chars skip_ws_start [OF s] expect_start [OF s]
          reads_items [OF all False])
qed

lemma reads_dict:
  assumes all: "list_all2 (\<lambda>(k, t) (l, v). k = l \<and> reads t v) ts ms" and d: "distinct (map fst ms)"
  shows "reads (''{'' @ join '','' (map member_text ts) @ ''}'') (PDict ms)"
proof (cases "ts = []")
  case True
  with all show ?thesis
    by (auto intro!: readsI simp: starts_value_def expect_simps ws_chars skip_ws_def)
next
  case False
  have s: "starts_value (join '','' (map member_text ts) @ r)" for r
    using False starts_member by (cases ts; cases "tl ts") auto
  show ?thesis
    by (rule readsI)
       (simp_all add: starts_value_def ws_chars skip_ws_start [OF s] expect_start [OF s]
          reads_members [OF all False] fold_dset_append [of "[]" ms, simplified] d)
qed

lemma reads_dumps: "good_json v \<Longrightarrow> reads (json_dumps v) (sorted_json v)"
proof (induction v)
  case (PInt n)
  then show ?case by (auto intro: reads_number json_number_int)
next
  case (PFloat x)
  show ?case
  proof (cases x)
    case (Fin q)
    then show ?thesis using PFloat by (auto intro!: reads_number json_number_append)
  qed (auto intro!: readsI simp: starts_value_def ws_chars json_atom_def literals_def)
next
  case (PStr s)
  show ?case
    using starts_string [of s "[]"] scan_string_escape [of s]
    by (auto intro!: readsI simp: json_string_def)
next
  case (PList xs)
  have "list_all2 reads (map json_dumps xs) (map sorted_json xs)"
    using PList by (auto simp: list_all2_conv_all_nth list_all_iff)
  from reads_list [OF this] show ?case by simp
next
  case (PDict d)
  let ?d = "sort_key fst d"
  have dist: "distinct (map fst d)" and g: "\<And>k v. (k, v) \<in> set d \<Longrightarrow> reads (json_dumps v) (sorted_json v)"
    using PDict by (fastforce simp: list_all_iff)+
  have all: "list_all2 (\<lambda>(k, t) (l, v). k = l \<and> reads t v) (map (map_prod id json_dumps) ?d) (map (map_prod id sorted_json) ?d)"
    using g by (auto simp: list_all2_map1 list_all2_map2 list_all2_same)
  have "distinct (map fst ?d)"
    using dist by (simp add: distinct_map)
  then have "distinct (map fst (map (map_prod id sorted_json) ?d))" by (simp add: comp_def)
  from reads_dict [OF all this] show ?case
    by (simp add: sort_map member_text_def)
qed (auto intro!: readsI simp: starts_value_def ws_chars json_atom_def literals_def)

lemma json_loads_reads:
  assumes "reads t v"
  shows "json_loads t = Inr v"
proof -
  have "skip_ws t = t" using assms by (simp add: reads_def skip_ws_start)
  moreover have "json_value (2 * length t) (t @ []) = Some (v, [])"
    using assms stops_chars(4) unfolding reads_def by (metis append_Nil2 order_refl)
  ultimately show ?thesis by (simp add: json_loads_def skip_ws_def)
qed

lemma json_round_trip: "good_json v \<Longrightarrow> json_loads (json_dumps v) = Inr (sorted_json v)"
  by (rule json_loads_reads [OF reads_dumps])

end
