(* ===== verification/Audit_TA.thy ===== *)
theory Audit_TA
  imports Audit_Store Json
begin

text \<open>
  The audit trusted application (\<open>optee/audit_ta/ta/entry.c\<close>) and the command-line client
  that invokes it (\<open>optee/audit_ta/host/audit_client.c\<close>).  The state is the persistent
  object as \<open>load_state\<close> returns it; failures of the secure storage and of the
  cryptographic services are left out.  \<open>ta_store\<close> maps a state to the state of the
  reference implementation in \<open>audit_store.py\<close>, and the two are shown to agree command
  by command.
\<close>

section \<open>The trusted application\<close>

datatype tee_result =
  TEE_SUCCESS | TEE_ERROR_ACCESS_CONFLICT | TEE_ERROR_BAD_STATE | TEE_ERROR_MAC_INVALID

record audit_state =
  as_sequence :: "64 word"
  as_registered :: bool
  as_key :: bytes
  as_model :: bytes
  as_head :: bytes

record cote3_audit_receipt =
  ar_sequence :: "64 word"
  ar_previous :: bytes
  ar_alert :: bytes
  ar_model :: bytes
  ar_head :: bytes

text \<open>The state \<open>load_state\<close> creates when there is none; the key is random.\<close>

definition fresh_state :: "bytes \<Rightarrow> audit_state" where
  "fresh_state random_key = \<lparr>as_sequence = 0, as_registered = False, as_key = random_key,
     as_model = ZERO_HASH, as_head = ZERO_HASH\<rparr>"

fun encode_u64_be :: "nat \<Rightarrow> 64 word \<Rightarrow> bytes" where
  "encode_u64_be 0 v = []"
| "encode_u64_be (Suc n) v = encode_u64_be n (drop_bit 8 v) @ [ucast v]"

definition compute_hmac :: "audit_state \<Rightarrow> 64 word \<Rightarrow> bytes \<Rightarrow> bytes \<Rightarrow> bytes \<Rightarrow> bytes" where
  "compute_hmac st sequence previous alert model =
     hmac_sha256 (as_key st) (DOMAIN @ encode_u64_be 8 sequence @ previous @ alert @ model)"

definition ta_register :: "bytes \<Rightarrow> audit_state \<Rightarrow> tee_result \<times> audit_state" where
  "ta_register digest st =
     (if as_sequence st \<noteq> 0 \<and> as_model st \<noteq> digest then (TEE_ERROR_ACCESS_CONFLICT, st)
      else (TEE_SUCCESS, st\<lparr>as_model := digest, as_registered := True\<rparr>))"

definition ta_append :: "bytes \<Rightarrow> audit_state \<Rightarrow> tee_result \<times> cote3_audit_receipt option \<times> audit_state" where
  "ta_append digest st =
     (if \<not> as_registered st then (TEE_ERROR_BAD_STATE, None, st)
      else
        let sequence = as_sequence st + 1;
            head = compute_hmac st sequence (as_head st) digest (as_model st)
        in (TEE_SUCCESS,
            Some \<lparr>ar_sequence = sequence, ar_previous = as_head st, ar_alert = digest,
                  ar_model = as_model st, ar_head = head\<rparr>,
            st\<lparr>as_sequence := sequence, as_head := head\<rparr>))"

definition ta_verify :: "cote3_audit_receipt \<Rightarrow> audit_state \<Rightarrow> tee_result" where
  "ta_verify r st =
     (if compute_hmac st (ar_sequence r) (ar_previous r) (ar_alert r) (ar_model r) = ar_head r
      then TEE_SUCCESS else TEE_ERROR_MAC_INVALID)"

section \<open>The client\<close>

fun decode_pairs :: "string \<Rightarrow> bytes option" where
  "decode_pairs [] = Some []"
| "decode_pairs [c] = None"
| "decode_pairs (c # d # s) =
     (case (hex_value c, hex_value d, decode_pairs s) of
        (Some high, Some low, Some bs) \<Rightarrow> Some (word_of_nat (16 * high + low) # bs)
      | _ \<Rightarrow> None)"

definition decode_hash :: "string \<Rightarrow> bytes option" where
  "decode_hash s = (if length s = 64 then decode_pairs s else None)"

text \<open>\<open>strtoull\<close> in base 10, with the tests on \<open>errno\<close> and the end pointer: white space and a
  sign may come first, and a minus sign negates modulo \<open>2 ^ 64\<close>.\<close>

definition decode_sequence :: "string \<Rightarrow> 64 word option" where
  "decode_sequence s =
     (case take_sign (dropWhile is_space s) of (sg, ds) \<Rightarrow>
        if ds \<noteq> [] \<and> list_all is_digit ds \<and> digits_value ds < 2 ^ 64
        then Some (word_of_int (sg * int (digits_value ds))) else None)"

definition quoted_hash :: "bytes \<Rightarrow> string" where
  "quoted_hash b = CHR 0x22 # bytes_hex b @ [CHR 0x22]"

definition quoted :: "string \<Rightarrow> string" where
  "quoted s = CHR 0x22 # s @ [CHR 0x22]"

definition print_receipt :: "cote3_audit_receipt \<Rightarrow> string" where
  "print_receipt r =
     ''{'' @ quoted ''sequence'' @ '':'' @ nat_str (unat (ar_sequence r)) @
     '','' @ quoted ''previous_head'' @ '':'' @ quoted_hash (ar_previous r) @
     '','' @ quoted ''alert_hash'' @ '':'' @ quoted_hash (ar_alert r) @
     '','' @ quoted ''model_hash'' @ '':'' @ quoted_hash (ar_model r) @
     '','' @ quoted ''head'' @ '':'' @ quoted_hash (ar_head r) @ ''}'' @ [CHR 0x0A]"

definition print_head :: "audit_state \<Rightarrow> string" where
  "print_head st =
     ''{'' @ quoted ''sequence'' @ '':'' @ nat_str (unat (as_sequence st)) @
     '','' @ quoted ''model_hash'' @ '':'' @ quoted_hash (as_model st) @
     '','' @ quoted ''head'' @ '':'' @ quoted_hash (as_head st) @ ''}'' @ [CHR 0x0A]"

definition decode_receipt :: "string \<Rightarrow> string \<Rightarrow> string \<Rightarrow> string \<Rightarrow> string \<Rightarrow> cote3_audit_receipt option" where
  "decode_receipt s p a m h =
     (case (decode_sequence s, decode_hash p, decode_hash a, decode_hash m, decode_hash h) of
        (Some sequence, Some previous, Some alert, Some model, Some head) \<Rightarrow>
          Some \<lparr>ar_sequence = sequence, ar_previous = previous, ar_alert = alert,
                ar_model = model, ar_head = head\<rparr>
      | _ \<Rightarrow> None)"

text \<open>The exit status, the standard output and the new state.\<close>

definition usage :: "audit_state \<Rightarrow> (int \<times> string) \<times> audit_state" where
  "usage st = ((2, []), st)"

definition exit_code :: "tee_result \<Rightarrow> int" where
  "exit_code r = (if r = TEE_SUCCESS then 0 else 1)"

fun audit_client :: "string list \<Rightarrow> audit_state \<Rightarrow> (int \<times> string) \<times> audit_state" where
  "audit_client [c, x] st =
     (case decode_hash x of
        None \<Rightarrow> usage st
      | Some digest \<Rightarrow>
          if c = ''register''
          then (case ta_register digest st of (r, st') \<Rightarrow> ((exit_code r, []), st'))
          else if c = ''append''
          then (case ta_append digest st of
                  (r, Some receipt, st') \<Rightarrow> ((exit_code r, print_receipt receipt), st')
                | (r, None, st') \<Rightarrow> ((exit_code r, []), st'))
          else usage st)"
| "audit_client [c] st = (if c = ''head'' then ((0, print_head st), st) else usage st)"
| "audit_client [c, s, p, a, m, h] st =
     (if c = ''verify''
      then (case decode_receipt s p a m h of
              None \<Rightarrow> usage st
            | Some r \<Rightarrow>
                (case ta_verify r st of
                   TEE_SUCCESS \<Rightarrow> ((0, ''VALID'' @ [CHR 0x0A]), st)
                 | e \<Rightarrow> ((exit_code e, []), st)))
      else usage st)"
| "audit_client _ st = usage st"

section \<open>Agreement with the reference store\<close>

definition ta_store :: "audit_state \<Rightarrow> audit" where
  "ta_store st = \<lparr>au_key = as_key st,
     au_model = (if as_registered st then Some (bytes_hex (as_model st)) else None),
     au_sequence = uint (as_sequence st), au_head = bytes_hex (as_head st)\<rparr>"

lemma ta_store_simps [simp]:
  "au_key (ta_store st) = as_key st" "au_sequence (ta_store st) = uint (as_sequence st)"
  "au_head (ta_store st) = bytes_hex (as_head st)"
  "au_model (ta_store st) = (if as_registered st then Some (bytes_hex (as_model st)) else None)"
  by (simp_all add: ta_store_def)

lemma ta_store_fresh: "ta_store (fresh_state key) = new_store key"
  by (simp add: ta_store_def fresh_state_def new_store_def)

definition ta_inv :: "audit_state \<Rightarrow> bool" where
  "ta_inv st \<longleftrightarrow> length (as_model st) = 32 \<and> length (as_head st) = 32
     \<and> (as_sequence st \<noteq> 0 \<longrightarrow> as_registered st)"

lemma encode_be_bytes: "encode_u64_be n v = be_bytes n (unat v)"
proof (induction n arbitrary: v)
  case (Suc n)
  have "unat (drop_bit 8 v) = unat v div 256"
    by (simp add: drop_bit_eq_div unat_div)
  moreover have "(ucast v :: byte) = word_of_nat (unat v mod 256)"
    by (rule unsigned_word_eqI [where ?'a = nat])
       (simp add: unsigned_ucast_eq unat_of_nat take_bit_eq_mod)
  ultimately show ?case by (simp add: Suc.IH)
qed simp

lemma compute_hmac_link:
  "compute_hmac st v p a m = hmac_sha256 (as_key st) (link_msg m (unat v) p a)"
  by (simp add: compute_hmac_def link_msg_def encode_be_bytes del: be_bytes_numeral)

lemma register_agrees:
  assumes "ta_inv st" and "ta_register (sha256 payload) st = (r, st')"
  shows "register_model payload (ta_store st) =
      (if r = TEE_SUCCESS then Inr (bytes_hex (sha256 payload), ta_store st') else Inl ValueError)"
    and "ta_inv st'"
  using assms
  by (auto simp: ta_register_def register_model_def ta_inv_def ta_store_def Let_def unsigned_eq_0_iff
      split: if_splits)

definition receipt_json :: "cote3_audit_receipt \<Rightarrow> pyval" where
  "receipt_json r = receipt_of (uint (ar_sequence r)) (ar_previous r) (ar_alert r) (ar_model r) (ar_head r)"

lemma audit_message_word: "audit_message (uint (w :: 64 word)) p a m = Inr (link_msg m (unat w) p a)"
  using audit_message_nat [of "unat w" p a m] unsigned_less [of w, where ?'a = nat] by simp

lemma unat_plus_one: "unat (w :: 64 word) + 1 < 2 ^ 64 \<Longrightarrow> unat (w + 1) = Suc (unat w)"
  using unat_add_lem [of w 1] by simp

lemma append_agrees:
  assumes "ta_inv st" and "unat (as_sequence st) + 1 < 2 ^ 64" and "ta_append (alert_digest alert) st = (res, out, st')"
  shows "append alert (ta_store st) =
      (case out of Some r \<Rightarrow> Inr (receipt_json r, ta_store st') | None \<Rightarrow> Inl ValueError)"
    and "out = None \<longleftrightarrow> res \<noteq> TEE_SUCCESS" and "ta_inv st'"
proof -
  have "int (unat (as_sequence st + 1)) = int (unat (as_sequence st)) + 1"
    using unat_plus_one [OF assms(2)] by simp
  then have seq: "uint (as_sequence st) + 1 = uint (as_sequence st + 1)" by simp
  show "append alert (ta_store st) =
      (case out of Some r \<Rightarrow> Inr (receipt_json r, ta_store st') | None \<Rightarrow> Inl ValueError)"
  proof (cases "as_registered st")
    case True
    have m: "bytes_hex (as_model st) \<noteq> []" using assms(1) by (auto simp: ta_inv_def)
    show ?thesis
      using assms(3) True m
      by (auto simp: append_def ta_append_def Let_def seq audit_message_word alert_digest_def
          receipt_json_def ta_store_def compute_hmac_link)
  next
    case False
    with assms(3) show ?thesis by (simp add: append_def ta_append_def)
  qed
  show "out = None \<longleftrightarrow> res \<noteq> TEE_SUCCESS" using assms(3) by (auto simp: ta_append_def Let_def split: if_splits)
  show "ta_inv st'" using assms(1,3)
    by (auto simp: ta_append_def ta_inv_def Let_def compute_hmac_link split: if_splits)
qed

section \<open>What the client prints and reads\<close>

lemma decode_pairs_hex: "decode_pairs (bytes_hex bs) = Some bs"
proof (induction bs)
  case (Cons b bs)
  have "unat b < 2 ^ LENGTH(8)" by (rule unsigned_less)
  then have d: "unat b div 16 < 16" by (simp add: less_mult_imp_div_less)
  have m: "unat b mod 16 < 16" by simp
  have "word_of_nat (16 * (unat b div 16) + unat b mod 16) = b" by simp
  with Cons show ?case
    by (simp add: hex_byte_def hex_digit_value [OF d] hex_digit_value [OF m])
qed simp

lemma decode_hash_hex: "length bs = 32 \<Longrightarrow> decode_hash (bytes_hex bs) = Some bs"
  by (simp add: decode_hash_def decode_pairs_hex)

lemma decode_sequence_str:
  "decode_sequence (int_str n) = (if \<bar>n\<bar> < 2 ^ 64 then Some (word_of_int n) else None)"
proof -
  let ?ds = "nat_str (nat \<bar>n\<bar>)"
  have ds: "list_all is_digit ?ds" "?ds \<noteq> []" "digits_value ?ds = nat \<bar>n\<bar>"
    using nat_str_digits [of "nat \<bar>n\<bar>"] by auto
  have hd: "is_digit (hd ?ds)" using list_all_hd_last [OF ds(1,2)] by simp
  have sp: "\<not> is_space c" if "is_digit c" for c
    using not_blank_digit [OF that] by (simp add: is_blank_def)
  show ?thesis
  proof (cases "n < 0")
    case True
    then have i: "int_str n = CHR ''-'' # ?ds" by (simp add: int_str_def)
    have "dropWhile is_space (int_str n) = int_str n"
      unfolding i by (simp add: is_space_def)
    then show ?thesis
      using ds True by (auto simp: decode_sequence_def i take_sign_def)
  next
    case False
    then have i: "int_str n = ?ds" by (simp add: int_str_def)
    have "dropWhile is_space ?ds = ?ds" "take_sign ?ds = (1, ?ds)"
      using sp [OF hd] hd is_digit_minus ds(2)
      by (simp add: dropWhile_hd, cases ?ds) (auto simp: take_sign_def)
    then show ?thesis
      using ds False by (auto simp: decode_sequence_def i)
  qed
qed

lemma hex_digit_plain: "n < 16 \<Longrightarrow> json_escape (hex_digit n) = [hex_digit n]"
proof -
  have "list_all (\<lambda>n. json_escape (hex_digit n) = [hex_digit n]) [0..<16]" by code_simp
  then show "n < 16 \<Longrightarrow> ?thesis" by (simp add: list_all_iff)
qed

lemma json_string_hex: "json_string (bytes_hex bs) = quoted_hash bs"
proof -
  have "concat (map json_escape (bytes_hex bs)) = bytes_hex bs"
  proof (induction bs)
    case (Cons b bs)
    have "unat b < 2 ^ LENGTH(8)" by (rule unsigned_less)
    then have "unat b div 16 < 16" "unat b mod 16 < 16" by (simp_all add: less_mult_imp_div_less)
    with Cons show ?case by (simp add: hex_byte_def hex_digit_plain)
  qed simp
  then show ?thesis by (simp add: json_string_def quoted_hash_def)
qed

lemma json_string_plain: "list_all (\<lambda>c. json_escape c = [c]) s \<Longrightarrow> json_string s = quoted s"
proof -
  assume "list_all (\<lambda>c. json_escape c = [c]) s"
  then have "concat (map json_escape s) = s" by (induction s) auto
  then show ?thesis by (simp add: json_string_def quoted_def)
qed

lemma field_names:
  "json_string ''sequence'' = quoted ''sequence''" "json_string ''previous_head'' = quoted ''previous_head''"
  "json_string ''alert_hash'' = quoted ''alert_hash''" "json_string ''model_hash'' = quoted ''model_hash''"
  "json_string ''head'' = quoted ''head''"
  by (rule json_string_plain, code_simp)+

lemma short_word: "short_int (uint (w :: 64 word))"
proof -
  have "length (nat_str n) \<le> Suc m" if "n < 10 ^ Suc m" for n m
    using that
  proof (induction m arbitrary: n)
    case 0
    then show ?case by (subst nat_str.simps) simp
  next
    case (Suc m)
    have "n div 10 < 10 ^ Suc m" using Suc.prems by (simp add: less_mult_imp_div_less)
    from Suc.IH [OF this] show ?case by (subst nat_str.simps) simp
  qed
  note len = this
  have "unat w < 2 ^ 64" using unsigned_less [of w, where ?'a = nat] by simp
  then have "unat w < 10 ^ Suc 63" by simp
  from len [OF this] show ?thesis by (simp add: short_int_def)
qed

lemma nat_str_uint: "nat_str (unat w) = json_dumps (PInt (uint (w :: 64 word)))"
  by (simp add: int_str_def)

lemma reads_word: "reads (nat_str (unat (w :: 64 word))) (PInt (uint w))"
  using reads_dumps [of "PInt (uint w)"] short_word [of w] by (simp only: nat_str_uint) simp

lemma reads_hex: "reads (quoted_hash bs) (PStr (bytes_hex bs))"
  using reads_dumps [of "PStr (bytes_hex bs)"] by (simp add: json_string_hex)

lemma strip_line:
  assumes "s = c # t @ [d]" and "\<not> is_blank c" and "\<not> is_blank d"
  shows "strip (s @ [CHR 0x0A]) = s"
proof -
  have "is_blank (CHR 0x0A)" by (simp add: is_blank_def is_space_def)
  then show ?thesis using assms by (simp add: strip_def)
qed

lemma braces_not_blank: "\<not> is_blank (CHR ''{'')" "\<not> is_blank (CHR ''}'')"
  by (simp_all add: is_blank_def is_space_def)

lemma dict_line_read:
  assumes "list_all2 (\<lambda>(k, t) (l, v). k = l \<and> reads t v) ts ms" and "distinct (map fst ms)"
  shows "json_loads (strip (''{'' @ join '','' (map member_text ts) @ ''}'' @ [CHR 0x0A])) = Inr (PDict ms)"
proof -
  have "strip ((''{'' @ join '','' (map member_text ts) @ ''}'') @ [CHR 0x0A])
      = ''{'' @ join '','' (map member_text ts) @ ''}''"
    by (rule strip_line [where c = "CHR ''{''" and d = "CHR ''}''"]) (simp_all add: braces_not_blank)
  with json_loads_reads [OF reads_dict [OF assms]] show ?thesis by simp
qed

lemma print_receipt_read: "json_loads (strip (print_receipt r)) = Inr (receipt_json r)"
proof -
  let ?ts = "[(''sequence'', nat_str (unat (ar_sequence r))), (''previous_head'', quoted_hash (ar_previous r)),
    (''alert_hash'', quoted_hash (ar_alert r)), (''model_hash'', quoted_hash (ar_model r)), (''head'', quoted_hash (ar_head r))]"
  have "print_receipt r = ''{'' @ join '','' (map member_text ?ts) @ ''}'' @ [CHR 0x0A]"
    by (simp add: print_receipt_def member_text_def field_names)
  moreover have "json_loads (strip (''{'' @ join '','' (map member_text ?ts) @ ''}'' @ [CHR 0x0A])) = Inr (receipt_json r)"
    unfolding receipt_json_def receipt_of_def
    by (rule dict_line_read) (simp_all add: reads_word reads_hex)
  ultimately show ?thesis by (simp only:)
qed

definition head_json :: "audit_state \<Rightarrow> pyval" where
  "head_json st = PDict [(''sequence'', PInt (uint (as_sequence st))), (''model_hash'', PStr (bytes_hex (as_model st))),
     (''head'', PStr (bytes_hex (as_head st)))]"

lemma print_head_read: "json_loads (strip (print_head st)) = Inr (head_json st)"
proof -
  let ?ts = "[(''sequence'', nat_str (unat (as_sequence st))), (''model_hash'', quoted_hash (as_model st)),
    (''head'', quoted_hash (as_head st))]"
  have "print_head st = ''{'' @ join '','' (map member_text ?ts) @ ''}'' @ [CHR 0x0A]"
    by (simp add: print_head_def member_text_def field_names)
  moreover have "json_loads (strip (''{'' @ join '','' (map member_text ?ts) @ ''}'' @ [CHR 0x0A])) = Inr (head_json st)"
    unfolding head_json_def
    by (rule dict_line_read) (simp_all add: reads_word reads_hex)
  ultimately show ?thesis by (simp only:)
qed

section \<open>Refinement\<close>

text \<open>The commands as \<open>OpteeAuditBackend\<close> issues them.\<close>

fun ta_op :: "audit_op \<Rightarrow> audit_state \<Rightarrow> audit_state" where
  "ta_op (Register payload) st = snd (audit_client [''register'', bytes_hex (sha256 payload)] st)"
| "ta_op (Append alert) st = snd (audit_client [''append'', bytes_hex (sha256 (canonical_json alert))] st)"

lemma client_register:
  "audit_client [''register'', bytes_hex (sha256 payload)] st =
     (case ta_register (sha256 payload) st of (r, st') \<Rightarrow> ((exit_code r, []), st'))"
  by (simp add: decode_hash_hex)

lemma client_append:
  "audit_client [''append'', bytes_hex (sha256 (canonical_json alert))] st =
     (case ta_append (alert_digest alert) st of
        (r, Some receipt, st') \<Rightarrow> ((exit_code r, print_receipt receipt), st')
      | (r, None, st') \<Rightarrow> ((exit_code r, []), st'))"
  by (simp add: decode_hash_hex alert_digest_def)

declare audit_client.simps [simp del]

lemma ta_register_failed: "ta_register d st = (r, st') \<Longrightarrow> r \<noteq> TEE_SUCCESS \<Longrightarrow> st' = st"
  by (auto simp: ta_register_def split: if_splits)

lemma ta_append_failed: "ta_append d st = (r, None, st') \<Longrightarrow> st' = st"
  by (auto simp: ta_append_def Let_def split: if_splits)

lemma ta_append_seq: "ta_append d st = (r, out, st') \<Longrightarrow>
    as_sequence st' = (if out = None then as_sequence st else as_sequence st + 1)"
  by (auto simp: ta_append_def Let_def split: if_splits)

lemma ta_register_seq: "ta_register d st = (r, st') \<Longrightarrow> as_sequence st' = as_sequence st"
  by (auto simp: ta_register_def split: if_splits)

lemma ta_op_step:
  assumes "ta_inv st" and "unat (as_sequence st) + 1 < 2 ^ 64"
  shows "ta_store (ta_op op st) = run_op op (ta_store st) \<and> ta_inv (ta_op op st)
    \<and> unat (as_sequence (ta_op op st)) \<le> Suc (unat (as_sequence st))"
proof (cases op)
  case (Register payload)
  obtain r st' where r: "ta_register (sha256 payload) st = (r, st')" by fastforce
  then have "ta_op op st = st'" by (simp add: Register client_register)
  then show ?thesis
    using register_agrees [OF assms(1) r] ta_register_failed [OF r] ta_register_seq [OF r]
    by (cases "r = TEE_SUCCESS") (simp_all add: Register)
next
  case (Append alert)
  obtain r out st' where a: "ta_append (alert_digest alert) st = (r, out, st')" by (metis prod_cases3)
  then have "ta_op op st = st'" by (cases out) (simp_all add: Append client_append)
  then show ?thesis
    using append_agrees [OF assms a] ta_append_failed [of "alert_digest alert" st r st'] a
      ta_append_seq [OF a] unat_plus_one [OF assms(2)]
    by (cases out) (simp_all add: Append)
qed

lemma fresh_inv: "ta_inv (fresh_state key)"
  by (simp add: ta_inv_def fresh_state_def ZERO_HASH_def)

section \<open>Properties\<close>



end
