(* ===== verification/Features.thy ===== *)
theory Features
  imports PyVal "HOL-Library.Product_Lexorder"
begin

text \<open>
  \<open>cote3mon/features.py\<close>: the aggregation of telemetry events into one feature row per
  run and time window.  Events and rows are JSON values; a window's bucket is the list of
  the events that fall into it, in the order of the input.  The construction follows the
  three loops of \<open>aggregate_events\<close>: the first request of each run, the buckets, the rows.
\<close>

section \<open>Feature names\<close>

definition BASE_FEATURE_NAMES :: "string list" where
  "BASE_FEATURE_NAMES =
     [''request_rate'', ''put_ratio'', ''get_ratio'', ''delete_ratio'', ''reject_ratio'',
      ''error_ratio'', ''latency_mean_us'', ''latency_p95_us'', ''input_mean_bytes'',
      ''input_max_bytes'', ''cpu_percent_mean'', ''rss_kb_mean'']"

definition REPETITION_FEATURE_NAMES :: "string list" where
  "REPETITION_FEATURE_NAMES = [''key_reuse_ratio'', ''request_reuse_ratio'']"

definition TEMPORAL_FEATURE_NAMES :: "string list" where
  "TEMPORAL_FEATURE_NAMES =
     [''operation_transition_ratio'', ''idle_mean_us'', ''idle_p95_us'', ''idle_cv'']"

definition ENHANCED_FEATURE_NAMES :: "string list" where
  "ENHANCED_FEATURE_NAMES = BASE_FEATURE_NAMES @ REPETITION_FEATURE_NAMES @ TEMPORAL_FEATURE_NAMES"

definition META_NAMES :: "string list" where
  "META_NAMES = [''run_id'', ''scenario'', ''is_attack'', ''window_start_ns'']"

section \<open>Percentile\<close>

definition percentile :: "f64 list \<Rightarrow> f64 \<Rightarrow> f64 result" where
  "percentile values probability =
     (if values = [] then Inr (Fin 0)
      else let ordered = sort values in
        if length ordered = 1 then Inr (ordered ! 0)
        else
          bindE (float_of_int (int (length ordered) - 1)) (\<lambda>n.
          let position = fmul n probability in
          bindE (float_floor position) (\<lambda>lower.
          bindE (float_ceil position) (\<lambda>upper.
          if lower = upper then py_index ordered lower
          else
            bindE (float_of_int lower) (\<lambda>l.
            let weight = fsub position l in
            bindE (py_index ordered lower) (\<lambda>a.
            bindE (py_index ordered upper) (\<lambda>b.
            Inr (fadd (fmul a (fsub (Fin 1) weight)) (fmul b weight)))))))))"

section \<open>Reading an event\<close>

definition is_request :: "pyval \<Rightarrow> bool result" where
  "is_request e = mapR (\<lambda>v. eq_str v ''request'') (py_get e ''event_type'' (PStr ''request''))"

definition is_resource :: "pyval \<Rightarrow> bool result" where
  "is_resource e = mapR (\<lambda>v. eq_str v ''resource'') (py_get e ''event_type'' PNone)"

definition event_run :: "pyval \<Rightarrow> string result" where
  "event_run e = mapR py_str (py_get e ''run_id'' (PStr ''unknown''))"

definition event_time :: "pyval \<Rightarrow> int result" where
  "event_time e = bindE (py_subscript e ''ts_unix_ns'') py_int"

definition event_float :: "string \<Rightarrow> pyval \<Rightarrow> f64 result" where
  "event_float k e = bindE (py_get e k (PFloat (Fin 0))) py_float"

definition event_upper :: "string \<Rightarrow> string \<Rightarrow> pyval \<Rightarrow> string result" where
  "event_upper k missing e = mapR (\<lambda>v. upper (py_str v)) (py_get e k (PStr missing))"

text \<open>\<open>[e for e in xs if test(e)]\<close> with a test that may raise.\<close>

fun filterE :: "('a \<Rightarrow> 'e + bool) \<Rightarrow> 'a list \<Rightarrow> 'e + 'a list" where
  "filterE p [] = Inr []"
| "filterE p (x # xs) =
     bindE (p x) (\<lambda>b. bindE (filterE p xs) (\<lambda>ys. Inr (if b then x # ys else ys)))"

definition fingerprints :: "string \<Rightarrow> pyval list \<Rightarrow> string list result" where
  "fingerprints k requests =
     bindE (filterE (\<lambda>e. mapR truthy (py_get e k PNone)) requests)
       (mapE (\<lambda>e. mapR py_str (py_subscript e k)))"

section \<open>The loops over the events\<close>

definition note_first :: "pyval \<Rightarrow> (string \<times> int) list \<Rightarrow> (string \<times> int) list result" where
  "note_first e first =
     bindE (is_request e) (\<lambda>request.
     if \<not> request then Inr first
     else bindE (event_run e) (\<lambda>run.
          bindE (event_time e) (\<lambda>timestamp.
          Inr (dset run (min (case dget first run of Some t \<Rightarrow> t | None \<Rightarrow> timestamp) timestamp) first))))"

definition first_requests :: "pyval list \<Rightarrow> (string \<times> int) list result" where
  "first_requests events = foldE note_first events []"

type_synonym buckets = "((string \<times> int) \<times> pyval list) list"

definition window_start :: "int \<Rightarrow> int \<Rightarrow> int" where
  "window_start window_ns timestamp = timestamp - timestamp mod window_ns"

definition add_to_bucket ::
  "(string \<times> int) list \<Rightarrow> int \<Rightarrow> int \<Rightarrow> pyval \<Rightarrow> buckets \<Rightarrow> buckets result" where
  "add_to_bucket first window_ns warmup_ns e buckets =
     bindE (event_time e) (\<lambda>timestamp.
     bindE (event_run e) (\<lambda>run.
     if (case dget first run of Some t \<Rightarrow> timestamp < t + warmup_ns | None \<Rightarrow> False)
     then Inr buckets
     else Inr (group_append (run, window_start window_ns timestamp) e buckets)))"

definition make_buckets :: "(string \<times> int) list \<Rightarrow> int \<Rightarrow> int \<Rightarrow> pyval list \<Rightarrow> buckets result" where
  "make_buckets first window_ns warmup_ns events =
     foldE (add_to_bucket first window_ns warmup_ns) events []"

section \<open>The features of a window\<close>

definition sort_by_time :: "pyval list \<Rightarrow> pyval list result" where
  "sort_by_time requests =
     mapR (\<lambda>ts. map snd (sort_key fst (zip ts requests))) (mapE event_time requests)"

definition transitions :: "'a list \<Rightarrow> nat" where
  "transitions xs = length (filter (\<lambda>(l, r). l \<noteq> r) (zip xs (tl xs)))"

definition idle_before :: "pyval \<Rightarrow> pyval \<Rightarrow> f64 result" where
  "idle_before previous current =
     bindE (event_time previous) (\<lambda>previous_end.
     bindE (event_time current) (\<lambda>current_end.
     bindE (event_float ''latency_us'' current) (\<lambda>latency.
     bindE (float_round (fmul latency (Fin 1000))) (\<lambda>latency_ns.
     bindE (float_of_int (current_end - latency_ns - previous_end)) (\<lambda>gap.
     bindE (fdiv gap (Fin 1000)) (\<lambda>us. Inr (fmax2 (Fin 0) us)))))))"

definition fmean_or_zero :: "f64 list \<Rightarrow> f64 result" where
  "fmean_or_zero xs = (if xs = [] then Inr (Fin 0) else fmean xs)"

definition ratio :: "nat \<Rightarrow> nat \<Rightarrow> f64 result" where
  "ratio a b = int_truediv (int a) (int b)"

text \<open>\<open>1.0 - len(set(xs)) / len(xs)\<close>, or 0.0 without elements.\<close>

definition reuse_ratio :: "string list \<Rightarrow> f64 result" where
  "reuse_ratio xs =
     (if xs = [] then Inr (Fin 0)
      else mapR (fsub (Fin 1)) (ratio (length (remdups xs)) (length xs)))"

definition idle_cv :: "f64 list \<Rightarrow> f64 \<Rightarrow> f64 result" where
  "idle_cv idle_values idle_mean =
     (if 1 < length idle_values \<and> flt (Fin 0) idle_mean
      then bindE (pstdev idle_values) (\<lambda>s. fdiv s idle_mean)
      else Inr (Fin 0))"

definition request_rate :: "nat \<Rightarrow> int \<Rightarrow> f64 result" where
  "request_rate n window_seconds =
     bindE (float_of_int window_seconds) (\<lambda>w. bindE (float_of_int (int n)) (\<lambda>c. fdiv c w))"

definition base_features ::
  "int \<Rightarrow> string list \<Rightarrow> string list \<Rightarrow> f64 list \<Rightarrow> f64 list \<Rightarrow> pyval list \<Rightarrow> f64 list result" where
  "base_features window_seconds operations statuses latencies sizes resources =
     (let n = length operations in
      mapE (\<lambda>x. x)
        [request_rate n window_seconds,
         ratio (count_list operations ''PUT'') n,
         ratio (count_list operations ''GET'') n,
         ratio (count_list operations ''DELETE'') n,
         ratio (count_list operations ''REJECT'') n,
         ratio (length (filter (\<lambda>s. s \<noteq> ''OK'') statuses)) n,
         fmean latencies,
         percentile latencies (of_exact (95 / 100)),
         fmean sizes,
         py_max sizes,
         bindE (mapE (event_float ''cpu_percent'') resources) fmean_or_zero,
         bindE (mapE (event_float ''rss_kb'') resources) fmean_or_zero])"

definition repetition_features :: "string list \<Rightarrow> string list \<Rightarrow> f64 list result" where
  "repetition_features key_fingerprints request_fingerprints =
     mapE reuse_ratio [key_fingerprints, request_fingerprints]"

definition temporal_features :: "f64 \<Rightarrow> f64 list \<Rightarrow> f64 \<Rightarrow> f64 list result" where
  "temporal_features transition_ratio idle_values idle_mean =
     mapE (\<lambda>x. x)
       [Inr transition_ratio, Inr idle_mean, percentile idle_values (of_exact (95 / 100)),
        idle_cv idle_values idle_mean]"

definition transition_ratio :: "string list \<Rightarrow> f64 result" where
  "transition_ratio operations =
     (if 1 < length operations then ratio (transitions operations) (length operations - 1)
      else Inr (Fin 0))"

text \<open>The 18 features of a window from its requests, ordered by time, and its resource
  samples.\<close>

definition window_features :: "int \<Rightarrow> pyval list \<Rightarrow> pyval list \<Rightarrow> f64 list result" where
  "window_features window_seconds requests resources =
     bindE (mapE (event_upper ''operation'' ''UNKNOWN'') requests) (\<lambda>operations.
     bindE (mapE (event_upper ''result'' ''BACKEND_ERROR'') requests) (\<lambda>statuses.
     bindE (mapE (event_float ''latency_us'') requests) (\<lambda>latencies.
     bindE (mapE (event_float ''input_bytes'') requests) (\<lambda>sizes.
     bindE (fingerprints ''key_fingerprint'' requests) (\<lambda>key_fingerprints.
     bindE (fingerprints ''request_fingerprint'' requests) (\<lambda>request_fingerprints.
     bindE (transition_ratio operations) (\<lambda>transition.
     bindE (mapE (\<lambda>(p, c). idle_before p c) (zip requests (tl requests))) (\<lambda>idle_values.
     bindE (fmean_or_zero idle_values) (\<lambda>idle_mean.
     bindE (base_features window_seconds operations statuses latencies sizes resources) (\<lambda>base.
     bindE (repetition_features key_fingerprints request_fingerprints) (\<lambda>repetition.
     bindE (temporal_features transition idle_values idle_mean) (\<lambda>temporal.
     Inr (base @ repetition @ temporal)))))))))))))"

definition make_row :: "string \<Rightarrow> string \<Rightarrow> bool \<Rightarrow> int \<Rightarrow> f64 list \<Rightarrow> pyval" where
  "make_row run_id scenario is_attack start features =
     PDict ([(''run_id'', PStr run_id), (''scenario'', PStr scenario),
             (''is_attack'', PInt (of_bool is_attack)), (''window_start_ns'', PInt start)]
            @ zip ENHANCED_FEATURE_NAMES (map PFloat features))"

text \<open>One iteration of the last loop: no row for a window without requests.\<close>

definition bucket_row :: "int \<Rightarrow> (string \<times> int) \<times> pyval list \<Rightarrow> pyval option result" where
  "bucket_row window_seconds = (\<lambda>((run_id, start), bucket).
     bindE (filterE is_request bucket) (\<lambda>unordered.
     bindE (filterE is_resource bucket) (\<lambda>resources.
     if unordered = [] then Inr None
     else
       bindE (sort_by_time unordered) (\<lambda>requests.
       bindE (py_get (hd requests) ''scenario'' (PStr ''unknown'')) (\<lambda>scenario.
       bindE (py_get (hd requests) ''is_attack'' (PBool False)) (\<lambda>is_attack.
       bindE (window_features window_seconds requests resources) (\<lambda>features.
       Inr (Some (make_row run_id (py_str scenario) (truthy is_attack) start features)))))))))"

definition somes :: "'a option list \<Rightarrow> 'a list" where
  "somes xs = concat (map (\<lambda>x. case x of None \<Rightarrow> [] | Some y \<Rightarrow> [y]) xs)"

definition aggregate_events :: "pyval list \<Rightarrow> int \<Rightarrow> int \<Rightarrow> pyval list result" where
  "aggregate_events events window_seconds warmup_seconds =
     (if window_seconds \<le> 0 then Inl ValueError
      else if warmup_seconds < 0 then Inl ValueError
      else
        bindE (first_requests events) (\<lambda>first.
        bindE (make_buckets first (window_seconds * 1000000000) (warmup_seconds * 1000000000) events)
          (\<lambda>buckets.
        mapR somes (mapE (bucket_row window_seconds) (sort_key fst buckets)))))"

section \<open>Tables of rows\<close>

text \<open>\<open>write_csv\<close> and \<open>read_feature_csv\<close> at the level of the cells: the header and, for
  each row, the text of every field in the order of the header; reading converts the
  named features and the four metadata fields.  The reader skips empty lines and fills a
  short line with \<open>None\<close>.\<close>

definition csv_row :: "string list \<Rightarrow> pyval \<Rightarrow> string list result" where
  "csv_row names row = mapE (\<lambda>k. mapR py_str (py_subscript row k)) names"

definition write_csv :: "pyval list \<Rightarrow> string list \<Rightarrow> string list list result" where
  "write_csv rows features =
     (let names = META_NAMES @ features in mapR (\<lambda>cells. names # cells) (mapE (csv_row names) rows))"

definition read_csv_row :: "string list \<Rightarrow> string list \<Rightarrow> string list \<Rightarrow> pyval result" where
  "read_csv_row features header cells =
     (let values = map PStr cells @ replicate (length header - length cells) PNone;
          row = PDict (fold (\<lambda>(k, v). dset k v) (zip header values) []) in
      bindE (mapE (\<lambda>k. bindE (py_subscript row k) (\<lambda>v. mapR (\<lambda>x. (k, PFloat x)) (py_float v))) features)
        (\<lambda>converted.
      bindE (py_subscript row ''run_id'') (\<lambda>run_id.
      bindE (py_subscript row ''scenario'') (\<lambda>scenario.
      bindE (bindE (py_subscript row ''is_attack'') py_int) (\<lambda>is_attack.
      bindE (bindE (py_subscript row ''window_start_ns'') py_int) (\<lambda>start.
      Inr (PDict (fold (\<lambda>(k, v). dset k v)
        (converted @ [(''run_id'', run_id), (''scenario'', scenario), (''is_attack'', PInt is_attack),
                      (''window_start_ns'', PInt start)]) []))))))))"

fun read_feature_csv :: "string list list \<Rightarrow> string list \<Rightarrow> pyval list result" where
  "read_feature_csv [] features = Inr []"
| "read_feature_csv (header # table) features =
     mapE (read_csv_row features header) (filter (\<lambda>cells. cells \<noteq> []) table)"

section \<open>The buckets\<close>

definition event_key :: "int \<Rightarrow> pyval \<Rightarrow> string \<times> int" where
  "event_key window_ns e = (get_ok (event_run e) [], window_start window_ns (get_ok (event_time e) 0))"

text \<open>An event before the end of its run's warm-up is left out.\<close>

definition in_warmup :: "(string \<times> int) list \<Rightarrow> int \<Rightarrow> pyval \<Rightarrow> bool" where
  "in_warmup first warmup_ns e =
     (case dget first (get_ok (event_run e) []) of
        Some t \<Rightarrow> get_ok (event_time e) 0 < t + warmup_ns | None \<Rightarrow> False)"

lemma add_to_bucket_Inr:
  "add_to_bucket first w u e b = Inr b' \<longleftrightarrow>
     is_ok (event_time e) \<and> is_ok (event_run e) \<and>
     b' = (if in_warmup first u e then b else group_append (event_key w e) e b)"
  by (cases "event_time e"; cases "event_run e")
     (auto simp: add_to_bucket_def in_warmup_def event_key_def split: option.splits if_splits)

lemma make_buckets_group_by:
  assumes "make_buckets first w u events = Inr b"
  shows "b = group_by (event_key w) (filter (\<lambda>e. \<not> in_warmup first u e) events)"
    and "e \<in> set events \<Longrightarrow> is_ok (event_time e) \<and> is_ok (event_run e)"
proof -
  have "b = group_by (event_key w) (filter (\<lambda>e. \<not> in_warmup first u e) events)
      \<and> (\<forall>e\<in>set events. is_ok (event_time e) \<and> is_ok (event_run e))"
    using assms
  proof (induction events arbitrary: b rule: rev_induct)
    case Nil
    then show ?case by (simp add: make_buckets_def group_by_def)
  next
    case (snoc x events)
    then obtain b0 where b0: "make_buckets first w u events = Inr b0"
      and b: "add_to_bucket first w u x b0 = Inr b"
      by (auto simp: make_buckets_def foldE_append bindE_eq_Inr_iff)
    from snoc.IH [OF b0] b show ?case by (simp add: add_to_bucket_Inr group_by_snoc)
  qed
  then show "b = group_by (event_key w) (filter (\<lambda>e. \<not> in_warmup first u e) events)"
    and "e \<in> set events \<Longrightarrow> is_ok (event_time e) \<and> is_ok (event_run e)" by blast+
qed

lemma window_start_bounds:
  assumes "0 < w"
  shows "window_start w t \<le> t" and "t < window_start w t + w" and "window_start w t mod w = 0"
  using assms by (simp_all add: window_start_def mod_diff_left_eq [symmetric])

text \<open>The requests of a run, as \<open>first_requests\<close> selects them.\<close>

definition request_times :: "pyval list \<Rightarrow> string \<Rightarrow> int list" where
  "request_times events run =
     map (\<lambda>e. get_ok (event_time e) 0)
       (filter (\<lambda>e. get_ok (is_request e) False \<and> event_run e = Inr run) events)"

lemma first_requests_Min:
  assumes "first_requests events = Inr first"
  shows "dget first run =
    (if request_times events run = [] then None else Some (Min (set (request_times events run))))"
  using assms
proof (induction events arbitrary: first rule: rev_induct)
  case Nil
  then show ?case by (simp add: first_requests_def request_times_def dget_def)
next
  case (snoc e events)
  then obtain f0 where f0: "first_requests events = Inr f0" and f: "note_first e f0 = Inr first"
    by (auto simp: first_requests_def foldE_append bindE_eq_Inr_iff)
  note IH = snoc.IH [OF f0]
  show ?case
  proof (cases "get_ok (is_request e) False")
    case True
    with f obtain r t where r: "event_run e = Inr r" and t: "event_time e = Inr t"
      and first: "first = dset r (min (case dget f0 r of Some t' \<Rightarrow> t' | None \<Rightarrow> t) t) f0"
      by (cases "is_request e") (auto simp: note_first_def bindE_eq_Inr_iff)
    show ?thesis
    proof (cases "r = run")
      case eq: True
      have times: "request_times (events @ [e]) run = request_times events run @ [t]"
        using True r t eq by (simp add: request_times_def)
      have "Min (insert t (set (request_times events run))) = min t (Min (set (request_times events run)))"
        if "request_times events run \<noteq> []"
        using that by (simp add: Min_insert)
      then show ?thesis using IH
        by (auto simp: times first dget_dset eq min.commute)
    next
      case False
      then have "request_times (events @ [e]) run = request_times events run"
        using r by (simp add: request_times_def)
      then show ?thesis using IH False by (simp add: first dget_dset)
    qed
  next
    case False
    then have "request_times (events @ [e]) run = request_times events run"
      by (simp add: request_times_def)
    moreover have "first = f0"
      using f False by (cases "is_request e") (auto simp: note_first_def)
    ultimately show ?thesis using IH by simp
  qed
qed

section \<open>Single features\<close>

lemma ratio_unit:
  assumes "ratio a b = Inr x" and "a \<le> b"
  shows "\<exists>q. x = Fin q \<and> 0 \<le> q \<and> q \<le> 1"
  using assms int_truediv_ratio [of "int a" "int b"]
  by (cases "b = 0") (auto simp: ratio_def int_truediv_def)

lemma reuse_ratio_unit:
  assumes "reuse_ratio xs = Inr x"
  shows "\<exists>q. x = Fin q \<and> 0 \<le> q \<and> q \<le> 1"
proof (cases "xs = []")
  case False
  then obtain y where y: "ratio (length (remdups xs)) (length xs) = Inr y" and x: "x = fsub (Fin 1) y"
    using assms by (auto simp: reuse_ratio_def mapR_eq_Inr_iff)
  obtain q where q: "y = Fin q" "0 \<le> q" "q \<le> 1"
    using ratio_unit [OF y] length_remdups_leq by blast
  have "\<bar>1 - q\<bar> \<le> 2 ^ 64" using q by simp
  then have "x = Fin (rnd (1 - q))" using of_exact_small [of "1 - q"] by (simp add: x q fsub_def)
  moreover have "0 \<le> rnd (1 - q)" "rnd (1 - q) \<le> 1" by (rule rnd_unit; use q in simp)+
  ultimately show ?thesis by blast
qed (use assms in \<open>auto simp: reuse_ratio_def\<close>)

lemma transition_ratio_unit:
  assumes "transition_ratio ops = Inr x"
  shows "\<exists>q. x = Fin q \<and> 0 \<le> q \<and> q \<le> 1"
proof -
  have "transitions ops \<le> length (zip ops (tl ops))" unfolding transitions_def by (rule length_filter_le)
  then have "transitions ops \<le> length ops - 1" by simp
  then show ?thesis using assms ratio_unit
    by (auto simp: transition_ratio_def split: if_splits)
qed

lemma idle_before_nonneg: "idle_before p c = Inr x \<Longrightarrow> Fin 0 \<le> x"
  by (auto simp: idle_before_def bindE_eq_Inr_iff fmax2_nonneg)

lemma fmean_or_zero_nonneg:
  "fmean_or_zero xs = Inr x \<Longrightarrow> (\<And>y. y \<in> set xs \<Longrightarrow> Fin 0 \<le> y) \<Longrightarrow> Fin 0 \<le> x"
  by (auto simp: fmean_or_zero_def intro: fmean_nonneg split: if_splits)

lemma idle_cv_nonneg: "idle_cv xs m = Inr x \<Longrightarrow> Fin 0 \<le> x"
  by (auto simp: idle_cv_def bindE_eq_Inr_iff flt_def split: if_splits
      dest: fdiv_nonneg pstdev_nonneg)

lemma count_list_le: "count_list xs x \<le> length xs"
  by (induction xs) auto

section \<open>The fields of a row\<close>

text \<open>The list of features has the shape of the names, so a field is found by its name.\<close>

lemma row_fields:
  assumes "row = make_row run scenario attack start
    [rate, put, get, del, rej, err, lm, lp, im0, ix, cpu, rss, kr, rr, tr, im, ip, cv]"
  shows "py_subscript row ''request_rate'' = Inr (PFloat rate)"
    and "py_subscript row ''put_ratio'' = Inr (PFloat put)"
    and "py_subscript row ''get_ratio'' = Inr (PFloat get)"
    and "py_subscript row ''delete_ratio'' = Inr (PFloat del)"
    and "py_subscript row ''reject_ratio'' = Inr (PFloat rej)"
    and "py_subscript row ''error_ratio'' = Inr (PFloat err)"
    and "py_subscript row ''input_max_bytes'' = Inr (PFloat ix)"
    and "py_subscript row ''key_reuse_ratio'' = Inr (PFloat kr)"
    and "py_subscript row ''request_reuse_ratio'' = Inr (PFloat rr)"
    and "py_subscript row ''operation_transition_ratio'' = Inr (PFloat tr)"
    and "py_subscript row ''idle_mean_us'' = Inr (PFloat im)"
    and "py_subscript row ''idle_cv'' = Inr (PFloat cv)"
    and "py_subscript row ''is_attack'' = Inr (PInt (of_bool attack))"
  by (simp_all add: assms make_row_def dget_def ENHANCED_FEATURE_NAMES_def
      BASE_FEATURE_NAMES_def REPETITION_FEATURE_NAMES_def TEMPORAL_FEATURE_NAMES_def)

lemma window_featuresE:
  assumes "window_features w requests resources = Inr fs"
  obtains ops sts lat sizes kf rf tr idle im rate put get del rej err lm lp im0 ix cpu rss kr rr ip cv
  where "fs = [rate, put, get, del, rej, err, lm, lp, im0, ix, cpu, rss, kr, rr, tr, im, ip, cv]"
    and "length ops = length requests" and "length sts = length requests"
    and "request_rate (length requests) w = Inr rate"
    and "ratio (count_list ops ''PUT'') (length ops) = Inr put"
    and "ratio (count_list ops ''GET'') (length ops) = Inr get"
    and "ratio (count_list ops ''DELETE'') (length ops) = Inr del"
    and "ratio (count_list ops ''REJECT'') (length ops) = Inr rej"
    and "ratio (length (filter (\<lambda>s. s \<noteq> ''OK'') sts)) (length ops) = Inr err"
    and "mapE (event_float ''latency_us'') requests = Inr lat" and "fmean lat = Inr lm"
    and "percentile lat (of_exact (95 / 100)) = Inr lp"
    and "mapE (event_float ''input_bytes'') requests = Inr sizes" and "fmean sizes = Inr im0"
    and "py_max sizes = Inr ix"
    and "reuse_ratio kf = Inr kr" and "reuse_ratio rf = Inr rr"
    and "transition_ratio ops = Inr tr"
    and "mapE (\<lambda>(p, c). idle_before p c) (zip requests (tl requests)) = Inr idle"
    and "fmean_or_zero idle = Inr im" and "percentile idle (of_exact (95 / 100)) = Inr ip"
    and "idle_cv idle im = Inr cv"
proof -
  from assms obtain ops sts lat sizes kf rf tr idle im base rep temp where
    ops: "mapE (event_upper ''operation'' ''UNKNOWN'') requests = Inr ops"
    and sts: "mapE (event_upper ''result'' ''BACKEND_ERROR'') requests = Inr sts"
    and lat: "mapE (event_float ''latency_us'') requests = Inr lat"
    and sizes: "mapE (event_float ''input_bytes'') requests = Inr sizes"
    and tr: "transition_ratio ops = Inr tr"
    and idle: "mapE (\<lambda>(p, c). idle_before p c) (zip requests (tl requests)) = Inr idle"
    and im: "fmean_or_zero idle = Inr im"
    and base: "base_features w ops sts lat sizes resources = Inr base"
    and rep: "repetition_features kf rf = Inr rep"
    and temp: "temporal_features tr idle im = Inr temp"
    and fs: "fs = base @ rep @ temp"
    unfolding window_features_def by (elim bindE_eq_InrE) auto
  have len: "length ops = length requests" "length sts = length requests"
    using mapE_length [OF ops] mapE_length [OF sts] by simp_all
  from base obtain rate put get del rej err lm lp im0 ix cpu rss where
    base: "base = [rate, put, get, del, rej, err, lm, lp, im0, ix, cpu, rss]"
    "request_rate (length ops) w = Inr rate"
    "ratio (count_list ops ''PUT'') (length ops) = Inr put"
    "ratio (count_list ops ''GET'') (length ops) = Inr get"
    "ratio (count_list ops ''DELETE'') (length ops) = Inr del"
    "ratio (count_list ops ''REJECT'') (length ops) = Inr rej"
    "ratio (length (filter (\<lambda>s. s \<noteq> ''OK'') sts)) (length ops) = Inr err"
    "fmean lat = Inr lm" "percentile lat (of_exact (95 / 100)) = Inr lp" "fmean sizes = Inr im0"
    "py_max sizes = Inr ix"
    by (auto simp: base_features_def Let_def bindE_eq_Inr_iff)
  from rep obtain kr rr where rep: "rep = [kr, rr]" "reuse_ratio kf = Inr kr" "reuse_ratio rf = Inr rr"
    by (auto simp: repetition_features_def bindE_eq_Inr_iff)
  from temp obtain ip cv where temp: "temp = [tr, im, ip, cv]"
    "percentile idle (of_exact (95 / 100)) = Inr ip" "idle_cv idle im = Inr cv"
    by (auto simp: temporal_features_def bindE_eq_Inr_iff)
  show thesis
    by (rule that [OF _ len base(2) [unfolded len(1)] base(3-7) lat base(8,9) sizes base(10,11)
          rep(2,3) tr idle im temp(2,3)]) (simp add: fs base(1) rep(1) temp(1))
qed

lemma aggregate_eventsE:
  assumes "aggregate_events events w u = Inr rows"
  obtains first buckets opts where "0 < w" and "0 \<le> u" and "first_requests events = Inr first"
    and "make_buckets first (w * 1000000000) (u * 1000000000) events = Inr buckets"
    and "mapE (bucket_row w) (sort_key fst buckets) = Inr opts" and "rows = somes opts"
  using assms
  by (auto simp: aggregate_events_def bindE_eq_Inr_iff mapR_eq_Inr_iff not_le split: if_splits)

lemma bucket_rowE:
  assumes "bucket_row w ((run, start), bucket) = Inr (Some row)"
  obtains requests resources scenario attack fs where
    "window_features w requests resources = Inr fs"
    and "row = make_row run (py_str scenario) (truthy attack) start fs"
proof -
  from assms obtain unordered resources where "filterE is_resource bucket = Inr resources"
    and rest: "(if unordered = [] then Inr None
     else
       bindE (sort_by_time unordered) (\<lambda>requests.
       bindE (py_get (hd requests) ''scenario'' (PStr ''unknown'')) (\<lambda>scenario.
       bindE (py_get (hd requests) ''is_attack'' (PBool False)) (\<lambda>is_attack.
       bindE (window_features w requests resources) (\<lambda>features.
       Inr (Some (make_row run (py_str scenario) (truthy is_attack) start features))))))) = Inr (Some row)"
    unfolding bucket_row_def prod.case by (elim bindE_eq_InrE)
  from rest have "unordered \<noteq> []" by auto
  with rest show thesis
    by (simp only: if_False) (elim bindE_eq_InrE, use that in auto)
qed

lemma somes_simps [simp]:
  "somes [] = []" "somes (None # xs) = somes xs" "somes (Some x # xs) = x # somes xs"
  by (simp_all add: somes_def)

lemma somes_mem: "x \<in> set (somes xs) \<longleftrightarrow> Some x \<in> set xs"
  by (force simp: somes_def split: option.splits)

lemma aggregate_row:
  assumes "aggregate_events events w u = Inr rows" and "row \<in> set rows"
  obtains run start requests resources scenario attack fs where
    "window_features w requests resources = Inr fs"
    and "row = make_row run (py_str scenario) (truthy attack) start fs"
proof -
  from assms(1) obtain buckets opts where
    "mapE (bucket_row w) (sort_key fst buckets) = Inr opts" and "rows = somes opts"
    by (rule aggregate_eventsE)
  with assms(2) obtain kb where "bucket_row w kb = Inr (Some row)"
    by (auto simp: somes_mem elim: mapE_set_mem)
  then show thesis using that by (cases kb) (auto elim!: bucket_rowE)
qed

definition ratio_names :: "string list" where
  "ratio_names =
     [''put_ratio'', ''get_ratio'', ''delete_ratio'', ''reject_ratio'', ''error_ratio'',
      ''key_reuse_ratio'', ''request_reuse_ratio'', ''operation_transition_ratio'']"

definition row_key :: "pyval \<Rightarrow> string \<times> int" where
  "row_key row = (py_str (get_ok (py_subscript row ''run_id'') PNone),
                  get_ok (bindE (py_subscript row ''window_start_ns'') py_int) 0)"

lemma row_key_make_row [simp]: "row_key (make_row run scenario attack start fs) = (run, start)"
  by (simp add: row_key_def make_row_def dget_def)

lemma bucket_rows_keys:
  assumes "mapE (bucket_row w) kbs = Inr opts" and "sorted_wrt (<) (map fst kbs)"
  shows "sorted_wrt (<) (map row_key (somes opts)) \<and> set (map row_key (somes opts)) \<subseteq> set (map fst kbs)"
  using assms
proof (induction kbs arbitrary: opts)
  case Nil
  then show ?case by simp
next
  case (Cons kb kbs)
  obtain run start bucket where kb: "kb = ((run, start), bucket)" by (metis prod.exhaust)
  from Cons.prems(1) obtain x opts' where x: "bucket_row w kb = Inr x"
    and rest: "mapE (bucket_row w) kbs = Inr opts'" and opts: "opts = x # opts'"
    by (auto simp: bindE_eq_Inr_iff)
  note IH = Cons.IH [OF rest]
  show ?case
  proof (cases x)
    case None
    then show ?thesis using IH Cons.prems(2) by (auto simp: opts)
  next
    case (Some row)
    with x kb have "bucket_row w ((run, start), bucket) = Inr (Some row)" by simp
    then have "row_key row = (run, start)" by (rule bucket_rowE) simp
    then have head: "row_key row = fst kb" by (simp add: kb)
    have tail: "sorted_wrt (<) (map fst kbs)" and lt: "\<forall>k\<in>set (map fst kbs). fst kb < k"
      using Cons.prems(2) by simp_all
    note ih = IH [OF tail]
    have "row_key row < k" if "k \<in> set (map row_key (somes opts'))" for k
      unfolding head by (rule bspec [OF lt subsetD [OF conjunct2 [OF ih] that]])
    then have "sorted_wrt (<) (row_key row # map row_key (somes opts'))"
      by (simp only: sorted_wrt.simps) (rule conjI [OF ballI conjunct1 [OF ih]])
    moreover have "set (row_key row # map row_key (somes opts')) \<subseteq> set (map fst (kb # kbs))"
      unfolding list.map list.set head by (rule insert_mono [OF conjunct2 [OF ih]])
    ultimately show ?thesis unfolding opts Some somes_simps list.map by (rule conjI)
  qed
qed

lemma sorted_wrt_sort_key_fst:
  fixes d :: "('k::linorder \<times> 'v) list"
  assumes "distinct (map fst d)"
  shows "sorted_wrt (<) (map fst (sort_key fst d))"
proof -
  have "distinct (map fst (sort_key fst d))"
    using assms by (simp add: distinct_map distinct_sort)
  then show ?thesis by (simp add: strict_sorted_iff)
qed

section \<open>Percentiles of bounded values\<close>

lemma fmul_bounded:
  assumes "0 \<le> a" and "a \<le> M" and "0 \<le> c" and "c \<le> 1" and "representable M" and "M \<le> 2 ^ 62"
  shows "\<exists>y. fmul (Fin a) (Fin c) = Fin y \<and> 0 \<le> y \<and> y \<le> M"
proof -
  have "a * c \<le> M * 1" using assms(1-4) by (intro mult_mono) auto
  then have le: "a * c \<le> M" by simp
  have "(2 :: rat) ^ 62 \<le> 2 ^ 64" by simp
  with le assms(6) have "\<bar>a * c\<bar> \<le> 2 ^ 64" using assms(1,3) by simp
  then have "fmul (Fin a) (Fin c) = Fin (rnd (a * c))" by (simp add: of_exact_small)
  moreover have "0 \<le> rnd (a * c)" using assms(1,3) by (simp add: rnd_nonneg)
  moreover have "rnd (a * c) \<le> M" by (rule rnd_le_representable [OF le assms(5)])
  ultimately show ?thesis by blast
qed

lemma fsub_unit:
  assumes "b \<le> a" and "a - b \<le> 1"
  shows "\<exists>w. fsub (Fin a) (Fin b) = Fin w \<and> 0 \<le> w \<and> w \<le> 1"
proof -
  have "\<bar>a - b\<bar> \<le> 2 ^ 64" using assms by simp
  then have "fsub (Fin a) (Fin b) = Fin (rnd (a - b))" using of_exact_small [of "a - b"] by (simp add: fsub_def)
  moreover have "0 \<le> rnd (a - b)" "rnd (a - b) \<le> 1" by (rule rnd_unit; use assms in simp)+
  ultimately show ?thesis by blast
qed

lemma fadd_bounded:
  assumes "0 \<le> a" and "0 \<le> b" and "a + b \<le> M" and "representable M" and "M \<le> 2 ^ 63"
  shows "\<exists>y. fadd (Fin a) (Fin b) = Fin y \<and> 0 \<le> y \<and> y \<le> M"
proof -
  have "(2 :: rat) ^ 63 \<le> 2 ^ 64" by simp
  then have "\<bar>a + b\<bar> \<le> 2 ^ 64" using assms by linarith
  then have "fadd (Fin a) (Fin b) = Fin (rnd (a + b))" by (simp add: of_exact_small)
  moreover have "0 \<le> rnd (a + b)" using assms(1,2) by (simp add: rnd_nonneg)
  moreover have "rnd (a + b) \<le> M" by (rule rnd_le_representable [OF assms(3,4)])
  ultimately show ?thesis by blast
qed

lemma position_in_range:
  assumes "0 \<le> p" and "p \<le> 1" and "0 < n" and "n \<le> 2 ^ 53"
  obtains y where "float_of_int (int n - 1) = Inr (Fin (of_int (int n - 1)))"
    and "fmul (Fin (of_int (int n - 1))) (Fin p) = Fin y" and "0 \<le> y" and "y \<le> of_int (int n - 1)"
proof -
  have "int n \<le> 2 ^ 53" using assms(4) by simp
  then have n: "\<bar>int n - 1\<bar> \<le> 2 ^ 53" using assms(3) by linarith
  have r: "representable (of_int (int n - 1) :: rat)" by (rule representable_of_int [OF n])
  have "(of_int (int n - 1) :: rat) \<le> of_int (2 ^ 53)" using n by (simp only: of_int_le_iff)
  then have small: "(of_int (int n - 1) :: rat) \<le> 2 ^ 62" by simp
  obtain y where "fmul (Fin (of_int (int n - 1))) (Fin p) = Fin y" "0 \<le> y" "y \<le> of_int (int n - 1)"
    using fmul_bounded [OF _ order_refl assms(1,2) r small] assms(3) by auto
  with that float_of_int_small [OF n] show thesis by simp
qed

lemma nth_sort_bounds:
  assumes "\<forall>v\<in>set values. \<exists>x. v = Fin x \<and> 0 \<le> x \<and> x \<le> M" and "0 \<le> i" and "i < int (length values)"
  obtains x where "py_index (sort values) i = Inr (Fin x)" and "0 \<le> x" and "x \<le> M"
proof -
  have "i < int (length (sort values))" using assms(3) by simp
  from py_index_nonneg [OF assms(2) this]
  have ix: "py_index (sort values) i = Inr (sort values ! nat i)" .
  have "sort values ! nat i \<in> set (sort values)" using assms(2,3) by (intro nth_mem) simp
  then have "sort values ! nat i \<in> set values" by simp
  from bspec [OF assms(1) this] obtain x where x: "sort values ! nat i = Fin x" "0 \<le> x" "x \<le> M"
    by (elim exE conjE)
  show thesis by (rule that [OF _ x(2,3)]) (simp only: ix x(1))
qed

lemma percentile_perm:
  assumes "mset other = mset values"
  shows "percentile other p = percentile values p"
proof -
  have "sort other = sort values" using assms by (metis properties_for_sort mset_sort sorted_sort)
  moreover have "other = [] \<longleftrightarrow> values = []" using assms by auto
  ultimately show ?thesis by (simp only: percentile_def)
qed

lemma percentile_bounds:
  assumes v: "\<forall>v\<in>set values. \<exists>x. v = Fin x \<and> 0 \<le> x \<and> x \<le> M"
    and M: "representable M" "0 \<le> M" "M \<le> 2 ^ 62"
    and p: "0 \<le> p" "p \<le> 1" and len: "length values \<le> 2 ^ 53"
  shows "\<exists>y. percentile values (Fin p) = Inr (Fin y) \<and> 0 \<le> y \<and> y \<le> 2 * M"
proof (cases "values = [] \<or> length values = 1")
  case True
  then consider "values = []" | "values \<noteq> []" "length values = 1" by auto
  then show ?thesis
  proof cases
    case 1
    then show ?thesis using M(2) by (simp add: percentile_def)
  next
    case 2
    obtain x where "py_index (sort values) 0 = Inr (Fin x)" "0 \<le> x" "x \<le> M"
      by (rule nth_sort_bounds [OF v, of 0]) (use 2 in simp_all)
    then show ?thesis using 2 M(2) by (auto simp: percentile_def py_index_def)
  qed
next
  case False
  then have n: "0 < length values" "length values \<noteq> 1" by simp_all
  let ?n = "int (length values) - 1"
  obtain y where f: "float_of_int ?n = Inr (Fin (of_int ?n))"
    and y: "fmul (Fin (of_int ?n)) (Fin p) = Fin y" "0 \<le> y" "y \<le> of_int ?n"
    by (rule position_in_range [OF p n(1) len])
  have lo: "0 \<le> \<lfloor>y\<rfloor>" using y(2) by simp
  have up: "\<lceil>y\<rceil> \<le> ?n" using y(3) by (rule ceiling_le)
  have lou: "\<lfloor>y\<rfloor> \<le> \<lceil>y\<rceil>" by (rule floor_le_ceiling)
  obtain a where a: "py_index (sort values) \<lfloor>y\<rfloor> = Inr (Fin a)" "0 \<le> a" "a \<le> M"
    by (rule nth_sort_bounds [OF v lo]) (use lou up in linarith)
  obtain b where b: "py_index (sort values) \<lceil>y\<rceil> = Inr (Fin b)" "0 \<le> b" "b \<le> M"
    by (rule nth_sort_bounds [OF v, of "\<lceil>y\<rceil>"]) (use lo lou up in linarith)+
  have ab: "b = a" if "\<lfloor>y\<rfloor> = \<lceil>y\<rceil>" using a(1) b(1) unfolding that by simp
  have open_form: "percentile values (Fin p) =
      (if \<lfloor>y\<rfloor> = \<lceil>y\<rceil> then Inr (Fin a)
       else bindE (float_of_int \<lfloor>y\<rfloor>) (\<lambda>l.
         Inr (fadd (fmul (Fin a) (fsub (Fin 1) (fsub (Fin y) l))) (fmul (Fin b) (fsub (Fin y) l)))))"
    using n a(1) b(1) f y(1) ab
    by (simp add: percentile_def Let_def float_floor_def float_ceil_def to_int_with_def
        del: fmul.simps fadd.simps)
  show ?thesis
  proof (cases "\<lfloor>y\<rfloor> = \<lceil>y\<rceil>")
    case True
    then show ?thesis using a M(2) by (auto simp: open_form)
  next
    case False
    have "int (length values) \<le> 2 ^ 53" using len by simp
    then have "\<bar>\<lfloor>y\<rfloor>\<bar> \<le> 2 ^ 53" using lo lou up by linarith
    then have l: "float_of_int \<lfloor>y\<rfloor> = Inr (Fin (of_int \<lfloor>y\<rfloor>))" by (rule float_of_int_small)
    have frac: "of_int \<lfloor>y\<rfloor> \<le> y" "y - of_int \<lfloor>y\<rfloor> \<le> 1" by linarith+
    obtain w where w: "fsub (Fin y) (Fin (of_int \<lfloor>y\<rfloor>)) = Fin w" "0 \<le> w" "w \<le> 1"
      using fsub_unit [OF frac] by blast
    obtain w' where w': "fsub (Fin 1) (Fin w) = Fin w'" "0 \<le> w'" "w' \<le> 1"
      using fsub_unit [of w 1] w by auto
    obtain u where u: "fmul (Fin a) (Fin w') = Fin u" "0 \<le> u" "u \<le> M"
      using fmul_bounded [OF a(2,3) w'(2,3) M(1,3)] by blast
    obtain t where t: "fmul (Fin b) (Fin w) = Fin t" "0 \<le> t" "t \<le> M"
      using fmul_bounded [OF b(2,3) w(2,3) M(1,3)] by blast
    have "\<exists>z. fadd (Fin u) (Fin t) = Fin z \<and> 0 \<le> z \<and> z \<le> 2 * M"
    proof (rule fadd_bounded [OF u(2) t(2)])
      show "u + t \<le> 2 * M" using u(3) t(3) by linarith
      show "representable (2 * M)" by (rule representable_double [OF M(1)])
      show "2 * M \<le> 2 ^ 63" using M(3) by simp
    qed
    then show ?thesis by (auto simp: open_form False l w(1) w'(1) u(1) t(1) simp del: fadd.simps fmul.simps)
  qed
qed

section \<open>A sample input\<close>

definition sample_events :: "pyval list" where
  "sample_events =
     [PDict [(''ts_unix_ns'', PInt 12000000000), (''operation'', PStr ''put''), (''result'', PStr ''OK'')],
      PDict [(''ts_unix_ns'', PInt 11000000000), (''operation'', PStr ''GET''), (''is_attack'', PBool True)],
      PDict [(''ts_unix_ns'', PInt 16000000000), (''event_type'', PStr ''resource'')]]"

lemma sample_first: "first_requests sample_events = Inr [(''unknown'', 11000000000)]"
  by (simp add: first_requests_def sample_events_def note_first_def is_request_def event_run_def
      event_time_def dget_def dset_def)

lemma sample_buckets:
  "make_buckets [(''unknown'', 11000000000)] 5000000000 0 sample_events =
   Inr [((''unknown'', 10000000000), take 2 sample_events), ((''unknown'', 15000000000), drop 2 sample_events)]"
  by (simp add: make_buckets_def sample_events_def add_to_bucket_def event_run_def event_time_def
      window_start_def group_append_def dget_def dset_def)

definition single_request :: pyval where
  "single_request = PDict [(''ts_unix_ns'', PInt 1500000000), (''run_id'', PStr ''r''),
     (''operation'', PStr ''put''), (''result'', PStr ''OK''), (''input_bytes'', PInt 2)]"

lemma unit_ratios:
  "ratio 1 1 = Inr (Fin 1)" "ratio 0 1 = Inr (Fin 0)" "fmean [Fin 0] = Inr (Fin 0)"
  "of_exact 1 = Fin 1" "of_exact 2 = Fin 2" "fmean [Fin 2] = Inr (Fin 2)"
  by (simp_all add: ratio_def int_truediv_def fmean_def fsum_def exact_or_overflow_small of_exact_small
      float_of_int_def representable_numeral)

lemmas event_readers = is_request_def is_resource_def event_run_def event_time_def event_float_def
  event_upper_def dget_def dset_def

lemma single_request_loops:
  "first_requests [single_request] = Inr [(''r'', 1500000000)]"
  "make_buckets [(''r'', 1500000000)] 1000000000 0 [single_request]
    = Inr [((''r'', 1000000000), [single_request])]"
  by (simp_all add: first_requests_def note_first_def make_buckets_def add_to_bucket_def single_request_def
      window_start_def group_append_def event_readers)

lemma single_request_features:
  "window_features 1 [single_request] [] = Inr [Fin 1, Fin 1, Fin 0, Fin 0, Fin 0, Fin 0, Fin 0, Fin 0,
     Fin 2, Fin 2, Fin 0, Fin 0, Fin 0, Fin 0, Fin 0, Fin 0, Fin 0, Fin 0]"
proof -
  have "request_rate 1 1 = Inr (Fin 1)"
    by (simp add: request_rate_def float_of_int_small unit_ratios)
  moreover have "float_of_int 2 = Inr (Fin 2)" by (simp add: float_of_int_small)
  moreover have "upper ''put'' = ''PUT''" "upper ''OK'' = ''OK''" by code_simp+
  ultimately show ?thesis
    by (simp add: window_features_def single_request_def event_readers fingerprints_def
        transition_ratio_def fmean_or_zero_def base_features_def repetition_features_def
        temporal_features_def percentile_def py_max_def reuse_ratio_def idle_cv_def unit_ratios unit_ratios(1,2) [unfolded One_nat_def] Let_def)
qed

lemma single_request_row:
  "aggregate_events [single_request] 1 0 = Inr [make_row ''r'' ''unknown'' False 1000000000
     [Fin 1, Fin 1, Fin 0, Fin 0, Fin 0, Fin 0, Fin 0, Fin 0, Fin 2, Fin 2, Fin 0, Fin 0,
      Fin 0, Fin 0, Fin 0, Fin 0, Fin 0, Fin 0]]"
proof -
  have "is_request single_request = Inr True" "is_resource single_request = Inr False"
    "event_time single_request = Inr 1500000000"
    "py_get single_request ''scenario'' (PStr ''unknown'') = Inr (PStr ''unknown'')"
    "py_get single_request ''is_attack'' (PBool False) = Inr (PBool False)"
    by (simp_all add: single_request_def event_readers)
  then show ?thesis
    by (simp add: aggregate_events_def single_request_loops bucket_row_def sort_by_time_def
        single_request_features)
qed

section \<open>Properties\<close>

text \<open>C18. The windows partition the events: bucket keys are distinct, a bucket holds exactly
  the events of its run and window that are not in the warm-up, in input order, the window
  contains their time stamps, and its start is a multiple of the window length.  The
  warm-up of a run is counted from its earliest request.\<close>

theorem buckets_partition_events:
  assumes "first_requests events = Inr first" and "make_buckets first w u events = Inr buckets" and "0 < w"
  shows "distinct (map fst buckets)
    \<and> (\<forall>((run, start), bucket) \<in> set buckets. bucket \<noteq> [] \<and> start mod w = 0
        \<and> bucket = filter (\<lambda>e. \<not> in_warmup first u e \<and> event_key w e = (run, start)) events
        \<and> (\<forall>e\<in>set bucket. \<exists>t. event_run e = Inr run \<and> event_time e = Inr t \<and> start \<le> t \<and> t < start + w))
    \<and> (\<forall>e\<in>set events. in_warmup first u e \<or> event_key w e \<in> fst ` set buckets)
    \<and> (\<forall>run. dget first run = (if request_times events run = [] then None
                               else Some (Min (set (request_times events run)))))"
proof (intro conjI ballI allI)
  note g = make_buckets_group_by [OF assms(2)]
  show "distinct (map fst buckets)" unfolding g(1) by (rule distinct_group_by)
  show "dget first run = (if request_times events run = [] then None
      else Some (Min (set (request_times events run))))" for run
    by (rule first_requests_Min [OF assms(1)])
  show "in_warmup first u e \<or> event_key w e \<in> fst ` set buckets" if "e \<in> set events" for e
    using that unfolding g(1) keys_group_by by auto
  fix kb
  assume kb: "kb \<in> set buckets"
  obtain run start bucket where eq: "kb = ((run, start), bucket)" by (metis prod.exhaust)
  from kb have "((run, start), bucket) \<in> set (group_by (event_key w) (filter (\<lambda>e. \<not> in_warmup first u e) events))"
    by (simp only: eq g(1))
  note item = group_by_item [OF this]
  have bucket: "bucket = filter (\<lambda>e. \<not> in_warmup first u e \<and> event_key w e = (run, start)) events"
    unfolding item(1) by (simp add: conj_commute)
  have each: "\<exists>t. event_run e = Inr run \<and> event_time e = Inr t \<and> start \<le> t \<and> t < start + w \<and> start mod w = 0"
    if "e \<in> set bucket" for e
  proof -
    have "e \<in> set events" and key: "event_key w e = (run, start)" using that unfolding bucket by auto
    then obtain t r where tr: "event_time e = Inr t" "event_run e = Inr r" using g(2) by (meson is_okE)
    then have "r = run" "start = window_start w t" using key by (simp_all add: event_key_def)
    with tr window_start_bounds [OF assms(3), of t] show ?thesis by simp
  qed
  moreover have "start mod w = 0" using each [OF hd_in_set [OF item(2)]] by blast
  ultimately show "case kb of (x, bucket) \<Rightarrow> (case x of (run, start) \<Rightarrow> \<lambda>bucket. bucket \<noteq> [] \<and> start mod w = 0
        \<and> bucket = filter (\<lambda>e. \<not> in_warmup first u e \<and> event_key w e = (run, start)) events
        \<and> (\<forall>e\<in>set bucket. \<exists>t. event_run e = Inr run \<and> event_time e = Inr t \<and> start \<le> t \<and> t < start + w)) bucket"
    using item(2) bucket by (simp only: eq prod.case) blast
qed

theorem buckets_partition_events_witness:
  "distinct (map fst [((''unknown'', 10000000000 :: int), take 2 sample_events),
                      ((''unknown'', 15000000000), drop 2 sample_events)])"
  using buckets_partition_events [OF sample_first sample_buckets] by simp

text \<open>Every row has each of the eight ratio features, a finite float in the unit
  interval; the rows come in the strict order of (run, window), so no window has two.\<close>

theorem row_ratios_unit:
  assumes "aggregate_events events w u = Inr rows"
  shows "sorted_wrt (<) (map row_key rows)
    \<and> (\<forall>row\<in>set rows. \<forall>name\<in>set ratio_names.
         \<exists>q. py_subscript row name = Inr (PFloat (Fin q)) \<and> 0 \<le> q \<and> q \<le> 1)"
proof (intro conjI ballI)
  from assms obtain first buckets opts where
    b: "make_buckets first (w * 1000000000) (u * 1000000000) events = Inr buckets"
    and o: "mapE (bucket_row w) (sort_key fst buckets) = Inr opts" and r: "rows = somes opts"
    by (rule aggregate_eventsE)
  have "distinct (map fst buckets)" unfolding make_buckets_group_by(1) [OF b] by (rule distinct_group_by)
  from bucket_rows_keys [OF o sorted_wrt_sort_key_fst [OF this]]
  show "sorted_wrt (<) (map row_key rows)" by (simp add: r)
next
  fix row name
  assume "row \<in> set rows" and name: "name \<in> set ratio_names"
  with assms obtain run start requests resources scenario attack fs where
    fs: "window_features w requests resources = Inr fs"
    and row: "row = make_row run (py_str scenario) (truthy attack) start fs"
    by (elim aggregate_row)
  from fs show "\<exists>q. py_subscript row name = Inr (PFloat (Fin q)) \<and> 0 \<le> q \<and> q \<le> 1"
  proof (rule window_featuresE)
    fix ops sts lat sizes kf rf tr idle im rate put get del rej err lm lp im0 ix cpu rss kr rr ip cv
    assume list: "fs = [rate, put, get, del, rej, err, lm, lp, im0, ix, cpu, rss, kr, rr, tr, im, ip, cv]"
      and len: "length ops = length requests" "length sts = length requests"
      and q: "ratio (count_list ops ''PUT'') (length ops) = Inr put"
        "ratio (count_list ops ''GET'') (length ops) = Inr get"
        "ratio (count_list ops ''DELETE'') (length ops) = Inr del"
        "ratio (count_list ops ''REJECT'') (length ops) = Inr rej"
        "ratio (length (filter (\<lambda>s. s \<noteq> ''OK'') sts)) (length ops) = Inr err"
        "reuse_ratio kf = Inr kr" "reuse_ratio rf = Inr rr" "transition_ratio ops = Inr tr"
    have err: "length (filter (\<lambda>s. s \<noteq> ''OK'') sts) \<le> length ops"
      using length_filter_le [of "\<lambda>s. s \<noteq> ''OK''" sts] len by simp
    have unit: "\<forall>x\<in>{put, get, del, rej, err, kr, rr, tr}. \<exists>q. x = Fin q \<and> 0 \<le> q \<and> q \<le> 1"
      using ratio_unit [OF q(1) count_list_le] ratio_unit [OF q(2) count_list_le]
        ratio_unit [OF q(3) count_list_le] ratio_unit [OF q(4) count_list_le] ratio_unit [OF q(5) err]
        reuse_ratio_unit [OF q(6)] reuse_ratio_unit [OF q(7)] transition_ratio_unit [OF q(8)]
      by (intro ballI, elim insertE emptyE) (simp_all only:)
    note fields = row_fields [OF row [unfolded list]]
    have "\<exists>x\<in>{put, get, del, rej, err, kr, rr, tr}. py_subscript row name = Inr (PFloat x)"
      using name unfolding ratio_names_def list.set
      by (elim insertE emptyE) (simp_all only: fields sum.inject pyval.inject, simp_all)
    then obtain x where x: "x \<in> {put, get, del, rej, err, kr, rr, tr}"
      and sub: "py_subscript row name = Inr (PFloat x)" by (elim bexE)
    from bspec [OF unit x] obtain v where "x = Fin v" "0 \<le> v" "v \<le> 1" by (elim exE conjE)
    then show ?thesis using sub by (intro exI [of _ v] conjI) (simp_all only:)
  qed
qed

theorem row_ratios_unit_witness:
  "\<exists>row. aggregate_events [single_request] 1 0 = Inr [row]
    \<and> (\<forall>name\<in>set ratio_names. \<exists>q. py_subscript row name = Inr (PFloat (Fin q)) \<and> 0 \<le> q \<and> q \<le> 1)"
  using row_ratios_unit [OF single_request_row] single_request_row by simp

text \<open>The idle features are never negative: with overlapping or reordered requests the
  gap is clipped at zero, so mean and coefficient of variation are at least 0 (and the
  division by the mean is only done when it is positive).\<close>

theorem row_idle_nonneg:
  assumes "aggregate_events events w u = Inr rows" and "row \<in> set rows"
  shows "\<exists>m c. py_subscript row ''idle_mean_us'' = Inr (PFloat m) \<and> Fin 0 \<le> m
    \<and> py_subscript row ''idle_cv'' = Inr (PFloat c) \<and> Fin 0 \<le> c"
proof -
  from assms obtain run start requests resources scenario attack fs where
    fs: "window_features w requests resources = Inr fs"
    and row: "row = make_row run (py_str scenario) (truthy attack) start fs"
    by (elim aggregate_row)
  from fs show ?thesis
  proof (rule window_featuresE)
    fix ops sts lat sizes kf rf tr idle im rate put get del rej err lm lp im0 ix cpu rss kr rr ip cv
    assume list: "fs = [rate, put, get, del, rej, err, lm, lp, im0, ix, cpu, rss, kr, rr, tr, im, ip, cv]"
      and idle: "mapE (\<lambda>(p, c). idle_before p c) (zip requests (tl requests)) = Inr idle"
      and im: "fmean_or_zero idle = Inr im" and cv: "idle_cv idle im = Inr cv"
    have "Fin 0 \<le> y" if "y \<in> set idle" for y
      using idle that by (rule mapE_set_mem) (auto intro: idle_before_nonneg)
    then have "Fin 0 \<le> im" by (rule fmean_or_zero_nonneg [OF im])
    moreover have "Fin 0 \<le> cv" by (rule idle_cv_nonneg [OF cv])
    ultimately show ?thesis
      using row_fields(11,12) [OF row [unfolded list]] by blast
  qed
qed

theorem row_idle_nonneg_witness:
  "\<exists>row m c. aggregate_events [single_request] 1 0 = Inr [row] \<and>
    py_subscript row ''idle_mean_us'' = Inr (PFloat m) \<and> Fin 0 \<le> m
    \<and> py_subscript row ''idle_cv'' = Inr (PFloat c) \<and> Fin 0 \<le> c"
  using row_idle_nonneg [OF single_request_row] single_request_row by simp

text \<open>\<open>percentile\<close> of values in \<open>[0, M]\<close> and a probability in the unit interval never
  raises, its indices stay inside the list, and neither the result leaves \<open>[0, 2 M]\<close> nor
  does it depend on the order of the values.\<close>

theorem percentile_returns:
  assumes "\<forall>v\<in>set values. \<exists>x. v = Fin x \<and> 0 \<le> x \<and> x \<le> M"
    and "representable M" and "0 \<le> M" and "M \<le> 2 ^ 62"
    and "0 \<le> p" and "p \<le> 1" and "length values \<le> 2 ^ 53"
  shows "\<exists>y. 0 \<le> y \<and> y \<le> 2 * M \<and>
    (\<forall>other. mset other = mset values \<longrightarrow> percentile other (Fin p) = Inr (Fin y))"
proof -
  obtain y where y: "percentile values (Fin p) = Inr (Fin y)" "0 \<le> y" "y \<le> 2 * M"
    using percentile_bounds [OF assms] by blast
  then have "percentile other (Fin p) = Inr (Fin y)" if "mset other = mset values" for other
    using percentile_perm [OF that] by simp
  with y show ?thesis by blast
qed

theorem percentile_returns_witness:
  "\<exists>y. 0 \<le> y \<and> y \<le> 2 * 4 \<and>
    (\<forall>other. mset other = mset [Fin 3, Fin 1, Fin 4] \<longrightarrow> percentile other (Fin (1 / 2)) = Inr (Fin y))"
  by (rule percentile_returns) (simp_all add: representable_numeral)

end
