(* ===== verification/IForest.thy ===== *)
theory IForest
  imports Features
begin

text \<open>
  \<open>cote3mon/iforest_runtime.py\<close>: inference with an exported isolation forest.  The walk
  through a tree is the \<open>while\<close> loop of \<open>score\<close>, which a malformed tree can keep from
  ending, so it is a partial function: \<open>None\<close> is a walk that never returns.  The two
  functions of the C library that the scores go through, \<open>math.log\<close> and \<open>2.0 ** x\<close>, are
  arguments; what is proved needs only the coarse bounds in \<open>libm_ok\<close>.
\<close>

section \<open>Data\<close>

record tree =
  t_left :: "int list"
  t_right :: "int list"
  t_feature :: "int list"
  t_threshold :: "f64 list"
  t_samples :: "int list"
  t_depth :: "int list"
  t_feature_map :: "int list"

record iforest =
  if_features :: "string list"
  if_threshold :: f64
  if_max_samples :: int
  if_trees :: "tree list"

record libm =
  lm_log :: "f64 \<Rightarrow> f64 result"
  lm_exp2 :: "f64 \<Rightarrow> f64 result"

section \<open>Loading\<close>

fun py_list :: "pyval \<Rightarrow> pyval list result" where
  "py_list (PList xs) = Inr xs"
| "py_list (PStr s) = Inr (map (\<lambda>c. PStr [c]) s)"
| "py_list (PDict d) = Inr (map (\<lambda>(k, _). PStr k) d)"
| "py_list _ = Inl TypeError"

definition field_list :: "(pyval \<Rightarrow> 'a result) \<Rightarrow> pyval \<Rightarrow> string \<Rightarrow> 'a list result" where
  "field_list conv v k = bindE (bindE (py_subscript v k) py_list) (mapE conv)"

text \<open>The arrays of a tree.  The program keeps the parsed JSON and meets an array of the
  wrong type only when a walk reaches it; here it is met when the model is loaded.\<close>

definition tree_of_json :: "pyval \<Rightarrow> tree result" where
  "tree_of_json v =
     bindE (field_list py_int v ''left'') (\<lambda>left.
     bindE (field_list py_int v ''right'') (\<lambda>right.
     bindE (field_list py_int v ''feature'') (\<lambda>feature.
     bindE (field_list py_float v ''threshold'') (\<lambda>threshold.
     bindE (field_list py_int v ''samples'') (\<lambda>samples.
     bindE (field_list py_int v ''depth'') (\<lambda>depth.
     bindE (field_list py_int v ''feature_map'') (\<lambda>feature_map.
     Inr \<lparr>t_left = left, t_right = right, t_feature = feature, t_threshold = threshold,
          t_samples = samples, t_depth = depth, t_feature_map = feature_map\<rparr>)))))))"

definition iforest_init :: "pyval \<Rightarrow> iforest result" where
  "iforest_init model =
     bindE (py_get model ''schema'' PNone) (\<lambda>schema.
     if \<not> eq_str schema ''cote3-mon-iforest-v1'' then Inl ValueError
     else
       bindE (field_list (\<lambda>v. Inr (py_str v)) model ''features'') (\<lambda>features.
       bindE (bindE (py_subscript model ''threshold'') py_float) (\<lambda>threshold.
       bindE (bindE (py_subscript model ''max_samples'') py_int) (\<lambda>max_samples.
       bindE (field_list tree_of_json model ''trees'') (\<lambda>trees.
       if trees = [] then Inl ValueError
       else Inr \<lparr>if_features = features, if_threshold = threshold, if_max_samples = max_samples,
                 if_trees = trees\<rparr>)))))"

section \<open>Scoring\<close>

definition average_path_length :: "libm \<Rightarrow> int \<Rightarrow> f64 result" where
  "average_path_length lm sample_count =
     (if sample_count \<le> 1 then Inr (Fin 0)
      else if sample_count = 2 then Inr (Fin 1)
      else
        bindE (float_of_int sample_count) (\<lambda>n.
        let m = fsub n (Fin 1) in
        bindE (lm_log lm m) (\<lambda>l.
        bindE (fdiv (fmul (Fin 2) m) n) (\<lambda>q.
        Inr (fsub (fmul (Fin 2) (fadd l (of_exact (5772156649015329 / 10000000000000000)))) q)))))"

text \<open>The child that a row goes to from an inner node.\<close>

definition next_node :: "tree \<Rightarrow> f64 list \<Rightarrow> int \<Rightarrow> int \<Rightarrow> int result" where
  "next_node t values node left =
     bindE (py_index (t_feature t) node) (\<lambda>local_feature.
     bindE (py_index (t_feature_map t) local_feature) (\<lambda>source_feature.
     bindE (py_index values source_feature) (\<lambda>v.
     bindE (py_index (t_threshold t) node) (\<lambda>threshold.
     if fle v threshold then Inr left else py_index (t_right t) node))))"

partial_function (option) walk :: "tree \<Rightarrow> f64 list \<Rightarrow> int \<Rightarrow> int result option" where
  "walk t values node =
     (case py_index (t_left t) node of
        Inl e \<Rightarrow> Some (Inl e)
      | Inr left \<Rightarrow>
          if left = - 1 then Some (Inr node)
          else (case next_node t values node left of
                  Inl e \<Rightarrow> Some (Inl e)
                | Inr child \<Rightarrow> walk t values child))"

declare walk.simps [code]

text \<open>\<open>tree["depth"][node] + average_path_length(tree["samples"][node])\<close>\<close>

definition leaf_path :: "libm \<Rightarrow> tree \<Rightarrow> int \<Rightarrow> f64 result" where
  "leaf_path lm t node =
     bindE (py_index (t_depth t) node) (\<lambda>depth.
     bindE (py_index (t_samples t) node) (\<lambda>samples.
     bindE (average_path_length lm samples) (\<lambda>rest.
     bindE (float_of_int depth) (\<lambda>d. Inr (fadd d rest)))))"

fun total_path :: "libm \<Rightarrow> f64 list \<Rightarrow> tree list \<Rightarrow> f64 \<Rightarrow> f64 result option" where
  "total_path lm values [] acc = Some (Inr acc)"
| "total_path lm values (t # ts) acc =
     (case walk t values 0 of
        None \<Rightarrow> None
      | Some leaf \<Rightarrow>
          (case bindE leaf (leaf_path lm t) of
             Inl e \<Rightarrow> Some (Inl e)
           | Inr p \<Rightarrow> total_path lm values ts (fadd acc p)))"

definition final_score :: "libm \<Rightarrow> iforest \<Rightarrow> f64 \<Rightarrow> f64 result" where
  "final_score lm f acc =
     bindE (average_path_length lm (if_max_samples f)) (\<lambda>c.
     bindE (float_of_int (int (length (if_trees f)))) (\<lambda>n.
     let denominator = fmul n c in
     if denominator = Fin 0 then Inr (Fin 1)
     else bindE (fdiv (fneg acc) denominator) (lm_exp2 lm)))"

definition row_values :: "string list \<Rightarrow> pyval \<Rightarrow> f64 list result" where
  "row_values features row = mapE (\<lambda>name. bindE (py_subscript row name) py_float) features"

definition iforest_score :: "libm \<Rightarrow> iforest \<Rightarrow> pyval \<Rightarrow> f64 result option" where
  "iforest_score lm f row =
     (case row_values (if_features f) row of
        Inl e \<Rightarrow> Some (Inl e)
      | Inr values \<Rightarrow> map_option (\<lambda>r. bindE r (final_score lm f)) (total_path lm values (if_trees f) (Fin 0)))"

definition iforest_is_anomaly :: "libm \<Rightarrow> iforest \<Rightarrow> pyval \<Rightarrow> bool result option" where
  "iforest_is_anomaly lm f row =
     map_option (mapR (\<lambda>s. flt (if_threshold f) s)) (iforest_score lm f row)"

section \<open>Well-formed trees\<close>

text \<open>What the exporter writes: arrays of one length, and an inner node's children come
  after it; \<open>k\<close> is the number of features of a row.\<close>

definition wf_tree :: "nat \<Rightarrow> tree \<Rightarrow> bool" where
  "wf_tree k t \<longleftrightarrow>
     (let n = length (t_left t) in
      0 < n \<and> length (t_right t) = n \<and> length (t_feature t) = n \<and> length (t_threshold t) = n
      \<and> length (t_samples t) = n \<and> length (t_depth t) = n
      \<and> (\<forall>m\<in>set (t_feature_map t). 0 \<le> m \<and> m < int k)
      \<and> (\<forall>i<n. t_left t ! i \<noteq> - 1 \<longrightarrow>
           int i < t_left t ! i \<and> t_left t ! i < int n \<and> int i < t_right t ! i \<and> t_right t ! i < int n
           \<and> 0 \<le> t_feature t ! i \<and> t_feature t ! i < int (length (t_feature_map t))))"

text \<open>The depth array counts the edges from the root.\<close>

definition depths_ok :: "tree \<Rightarrow> bool" where
  "depths_ok t \<longleftrightarrow> t_depth t ! 0 = 0 \<and>
     (\<forall>i<length (t_left t). t_left t ! i \<noteq> - 1 \<longrightarrow>
        t_depth t ! nat (t_left t ! i) = t_depth t ! i + 1 \<and> t_depth t ! nat (t_right t ! i) = t_depth t ! i + 1)"

text \<open>\<open>reaches t values k i\<close>: after \<open>k\<close> comparisons the walk from the root is at node \<open>i\<close>.\<close>

inductive reaches :: "tree \<Rightarrow> f64 list \<Rightarrow> nat \<Rightarrow> nat \<Rightarrow> bool" for t vs where
  root: "reaches t vs 0 0"
| step: "reaches t vs (Suc k) (nat c)"
    if "reaches t vs k i" and "py_index (t_left t) (int i) = Inr l" and "l \<noteq> - 1"
    and "next_node t vs (int i) l = Inr c"

inductive_cases reaches_0E: "reaches t vs 0 i"

lemma next_node_wf:
  assumes "wf_tree (length vs) t" and "i < length (t_left t)" and "t_left t ! i \<noteq> - 1"
  obtains c where "next_node t vs (int i) (t_left t ! i) = Inr (int c)" and "i < c" and "c < length (t_left t)"
    and "int c = t_left t ! i \<or> int c = t_right t ! i"
proof -
  let ?n = "length (t_left t)"
  from assms have lens: "length (t_right t) = ?n" "length (t_feature t) = ?n" "length (t_threshold t) = ?n"
    and l: "int i < t_left t ! i" "t_left t ! i < int ?n"
    and r: "int i < t_right t ! i" "t_right t ! i < int ?n"
    and f: "0 \<le> t_feature t ! i" "t_feature t ! i < int (length (t_feature_map t))"
    and fm: "\<forall>m\<in>set (t_feature_map t). 0 \<le> m \<and> m < int (length vs)"
    by (auto simp: wf_tree_def Let_def)
  let ?m = "t_feature_map t ! nat (t_feature t ! i)"
  have ix: "py_index (t_feature_map t) (t_feature t ! i) = Inr ?m" by (rule py_index_nonneg [OF f])
  then have "?m \<in> set (t_feature_map t)" by (rule py_index_mem)
  with fm have m: "0 \<le> ?m" "?m < int (length vs)" by blast+
  define c where "c = (if fle (vs ! nat ?m) (t_threshold t ! i) then t_left t ! i else t_right t ! i)"
  have "next_node t vs (int i) (t_left t ! i) = Inr c"
    using assms(2) lens ix by (simp add: next_node_def py_index_nonneg [OF m] c_def)
  moreover have "int (nat c) = c" using l r by (simp add: c_def)
  ultimately show thesis using that [of "nat c"] l r by (auto simp: c_def split: if_splits)
qed

lemma walk_leaf: "py_index (t_left t) n = Inr (- 1) \<Longrightarrow> walk t vs n = Some (Inr n)"
  by (subst walk.simps) simp

lemma walk_inner:
  "py_index (t_left t) n = Inr l \<Longrightarrow> l \<noteq> - 1 \<Longrightarrow> next_node t vs n l = Inr c \<Longrightarrow> walk t vs n = walk t vs c"
  by (subst walk.simps) simp

text \<open>The walk of a well-formed tree ends in a leaf whose recorded depth, when the depths are
  right, is the number of comparisons made.\<close>

lemma walk_from:
  assumes "wf_tree (length vs) t" and "i < length (t_left t)" and "reaches t vs k i"
  shows "\<exists>j m. walk t vs (int i) = Some (Inr (int j)) \<and> j < length (t_left t) \<and> t_left t ! j = - 1
    \<and> reaches t vs m j"
  using assms(2,3)
proof (induction "length (t_left t) - i" arbitrary: i k rule: less_induct)
  case less
  show ?case
  proof (cases "t_left t ! i = - 1")
    case True
    then have "walk t vs (int i) = Some (Inr (int i))" using less.prems(1) by (intro walk_leaf) simp
    then show ?thesis using less.prems True by blast
  next
    case False
    obtain c where c: "next_node t vs (int i) (t_left t ! i) = Inr (int c)" "i < c" "c < length (t_left t)"
      by (rule next_node_wf [OF assms(1) less.prems(1) False])
    have ix: "py_index (t_left t) (int i) = Inr (t_left t ! i)" using less.prems(1) by simp
    have r: "reaches t vs (Suc k) c" using reaches.step [OF less.prems(2) ix False c(1)] by simp
    have "length (t_left t) - c < length (t_left t) - i" using c(2,3) by simp
    from less.hyps [OF this c(3) r] walk_inner [OF ix False c(1)] show ?thesis by simp
  qed
qed

lemma reaches_depth:
  assumes "wf_tree (length vs) t" and "depths_ok t" and "reaches t vs k i"
  shows "i < length (t_left t) \<and> t_depth t ! i = int k"
  using assms(3)
proof (induction rule: reaches.induct)
  case root
  then show ?case using assms(1,2) by (simp add: wf_tree_def depths_ok_def Let_def)
next
  case (step k i l c)
  from step.IH have i: "i < length (t_left t)" and d: "t_depth t ! i = int k" by simp_all
  have l: "l = t_left t ! i" using step.hyps(2) i by simp
  with step.hyps(3) have inner: "t_left t ! i \<noteq> - 1" by simp
  obtain c' where c': "next_node t vs (int i) (t_left t ! i) = Inr (int c')" "c' < length (t_left t)"
    "int c' = t_left t ! i \<or> int c' = t_right t ! i"
    by (rule next_node_wf [OF assms(1) i inner])
  then have c: "nat c = c'" using step.hyps(4) l by simp
  have "t_depth t ! nat (t_left t ! i) = int k + 1" "t_depth t ! nat (t_right t ! i) = int k + 1"
    using assms(2) i inner d by (simp_all add: depths_ok_def)
  then have "t_depth t ! c' = int k + 1" using c'(3) by (metis nat_int)
  then show ?case using c'(2) unfolding c by simp
qed

lemma reaches_le:
  assumes "wf_tree (length vs) t" and "reaches t vs k i"
  shows "i < length (t_left t) \<and> k \<le> i"
  using assms(2)
proof (induction rule: reaches.induct)
  case root
  then show ?case using assms(1) by (simp add: wf_tree_def Let_def)
next
  case (step k i l c)
  then have i: "i < length (t_left t)" and l: "l = t_left t ! i" by simp_all
  with step.hyps(3) have inner: "t_left t ! i \<noteq> - 1" by simp
  obtain c' where "next_node t vs (int i) (t_left t ! i) = Inr (int c')" "i < c'" "c' < length (t_left t)"
    by (rule next_node_wf [OF assms(1) i inner])
  then show ?case using step.hyps(4) step.IH l by auto
qed

section \<open>Range of the score\<close>

definition libm_ok :: "libm \<Rightarrow> bool" where
  "libm_ok lm \<longleftrightarrow>
     (\<forall>x\<ge>2. \<exists>l. lm_log lm (Fin x) = Inr (Fin l) \<and> 1 / 2 \<le> l \<and> l \<le> 1023)
     \<and> (\<forall>y\<le>Fin 0. \<exists>r. lm_exp2 lm y = Inr (Fin r) \<and> 0 \<le> r \<and> r \<le> 1)"

abbreviation nonneg :: "f64 \<Rightarrow> bool" where
  "nonneg a \<equiv> Fin 0 \<le> a \<and> a \<noteq> NaN"

lemma nonneg_fadd: "nonneg a \<Longrightarrow> nonneg b \<Longrightarrow> nonneg (fadd a b)"
  by (cases a; cases b) (auto simp: of_exact_nonneg)

lemma apl_bounds:
  assumes "libm_ok lm" and "n \<le> 2 ^ 53"
  obtains c where "average_path_length lm n = Inr (Fin c)" and "0 \<le> c" and "c \<le> 2048"
proof -
  consider "n \<le> 1" | "n = 2" | "2 < n" by linarith
  then show thesis
  proof cases
    case 1
    then show ?thesis using that [of 0] by (simp add: average_path_length_def)
  next
    case 2
    then show ?thesis using that [of 1] by (simp add: average_path_length_def)
  next
    case 3
    define M :: rat where "M = of_int n - 1"
    let ?g = "rnd (5772156649015329 / 10000000000000000) :: rat"
    have n: "\<bar>n\<bar> \<le> 2 ^ 53" "\<bar>n - 1\<bar> \<le> 2 ^ 53" using 3 assms(2) by simp_all
    have "(of_int n :: rat) \<le> of_int (2 ^ 53)" using assms(2) by (simp only: of_int_le_iff)
    then have nb: "(of_int n :: rat) \<le> 2 ^ 53" by simp
    have n2: "(2 :: rat) < of_int n" using 3 by simp
    have rm: "representable M" using representable_of_int [OF n(2)] by (simp add: M_def)
    have big: "(2 :: rat) ^ 53 \<le> 2 ^ 64" "(2 :: rat) * 2 ^ 53 \<le> 2 ^ 64" by simp_all
    have m: "fsub (Fin (of_int n)) (Fin 1) = Fin M"
      using of_exact_small [of M] n2 nb big(1) rm by (simp add: fsub_def M_def)
    have two: "fmul (Fin 2) (Fin M) = Fin (2 * M)"
      using of_exact_small [of "2 * M"] n2 nb big(2) representable_double [OF rm] by (simp add: M_def)
    define q where "q = rnd (2 * M / of_int n)"
    have q0: "0 \<le> 2 * M / of_int n" "2 * M / of_int n \<le> 2" using n2 by (simp_all add: M_def field_simps)
    then have "of_exact (2 * M / of_int n) = Fin q" unfolding q_def by (intro of_exact_small) simp
    then have dv: "fdiv (Fin (2 * M)) (Fin (of_int n)) = Inr (Fin q)" using n2 by simp
    have q: "0 \<le> q" "q \<le> 2"
      unfolding q_def using q0 by (simp_all add: rnd_nonneg rnd_le_representable representable_numeral)
    obtain l where l: "lm_log lm (Fin M) = Inr (Fin l)" "1 / 2 \<le> l" "l \<le> 1023"
    proof -
      have "3 \<le> n" using 3 by simp
      then have "(of_int 3 :: rat) \<le> of_int n" by (simp only: of_int_le_iff)
      then have "2 \<le> M" by (simp add: M_def)
      with assms(1) that show thesis unfolding libm_ok_def by blast
    qed
    have half: "representable (1 / 2 :: rat)" using representable_pow2 [of "- 1", where 'a = rat] by simp
    have g0: "1 / 2 \<le> ?g" by (rule rnd_ge_representable [OF _ half]) simp
    have g1: "?g \<le> 1" by (rule rnd_le_representable) simp_all
    note g = g0 g1
    define s where "s = rnd (l + ?g)"
    have sum: "1 \<le> l + ?g" "l + ?g \<le> 1024" using l g by linarith+
    have s: "1 \<le> s" "s \<le> 1024"
      unfolding s_def by (rule rnd_ge_representable [OF sum(1)], simp)
        (rule rnd_le_representable [OF sum(2)], simp add: representable_numeral)
    have add: "fadd (Fin l) (of_exact (5772156649015329 / 10000000000000000)) = Fin s"
      unfolding s_def using of_exact_small [of "l + ?g"] sum
      by (simp add: of_exact_small [of "5772156649015329 / 10000000000000000"])
    have rs: "representable s" by (simp add: s_def)
    have dbl: "fmul (Fin 2) (Fin s) = Fin (2 * s)"
      using of_exact_small [of "2 * s"] s representable_double [OF rs] by simp
    have d: "0 \<le> 2 * s - q" "2 * s - q \<le> 2048" using s q by linarith+
    have "fsub (Fin (2 * s)) (Fin q) = Fin (rnd (2 * s - q))"
      using of_exact_small [of "2 * s - q"] d by (simp add: fsub_def)
    then have "average_path_length lm n = Inr (Fin (rnd (2 * s - q)))"
      using 3 l(1) float_of_int_small [OF n(1)]
      by (simp add: average_path_length_def Let_def m two dv add dbl del: fmul.simps fadd.simps fdiv.simps)
    moreover have "rnd (2 * s - q) \<le> 2048"
      by (rule rnd_le_representable [OF d(2)]) (simp add: representable_numeral)
    ultimately show ?thesis using that d(1) rnd_nonneg by blast
  qed
qed

lemma leaf_path_nonneg:
  assumes "libm_ok lm" and "wf_tree (length vs) t" and "depths_ok t" and "length (t_left t) \<le> 2 ^ 53"
    and "\<forall>s\<in>set (t_samples t). s \<le> 2 ^ 53"
  obtains leaf p where "walk t vs 0 = Some (Inr leaf)" and "leaf_path lm t leaf = Inr p" and "nonneg p"
proof -
  have n0: "0 < length (t_left t)" using assms(2) by (simp add: wf_tree_def Let_def)
  from walk_from [OF assms(2) n0 reaches.root] obtain j k where
    j: "walk t vs 0 = Some (Inr (int j))" "j < length (t_left t)" "reaches t vs k j" by auto
  have lens: "length (t_samples t) = length (t_left t)" "length (t_depth t) = length (t_left t)"
    using assms(2) by (simp_all add: wf_tree_def Let_def)
  have depth: "t_depth t ! j = int k" using reaches_depth [OF assms(2,3) j(3)] by simp
  have "int k \<le> 2 ^ 53"
  proof -
    have "k \<le> 2 ^ 53" using reaches_le [OF assms(2) j(3)] assms(4) by linarith
    then have "int k \<le> int (2 ^ 53)" by (simp only: of_nat_le_iff)
    then show ?thesis by simp
  qed
  then have d: "float_of_int (int k) = Inr (Fin (of_nat k))"
    using float_of_int_small [of "int k"] by simp
  have "t_samples t ! j \<in> set (t_samples t)" using j(2) lens by simp
  with assms(5) have "t_samples t ! j \<le> 2 ^ 53" by blast
  then obtain c where c: "average_path_length lm (t_samples t ! j) = Inr (Fin c)" "0 \<le> c"
    by (rule apl_bounds [OF assms(1)])
  have "leaf_path lm t (int j) = Inr (fadd (Fin (of_nat k)) (Fin c))"
    using j(2) lens c(1) d depth by (simp add: leaf_path_def del: fadd.simps)
  moreover have "nonneg (fadd (Fin (of_nat k)) (Fin c))"
    by (rule nonneg_fadd) (use c(2) in simp_all)
  ultimately show thesis using that [OF j(1)] by blast
qed

definition wf_forest :: "iforest \<Rightarrow> bool" where
  "wf_forest f \<longleftrightarrow> if_trees f \<noteq> [] \<and> length (if_trees f) \<le> 2 ^ 40 \<and> if_max_samples f \<le> 2 ^ 53
     \<and> (\<forall>t\<in>set (if_trees f). wf_tree (length (if_features f)) t \<and> depths_ok t
          \<and> length (t_left t) \<le> 2 ^ 53 \<and> (\<forall>s\<in>set (t_samples t). s \<le> 2 ^ 53))"

lemma total_path_nonneg:
  assumes "libm_ok lm" and "\<forall>t\<in>set ts. wf_tree (length vs) t \<and> depths_ok t
      \<and> length (t_left t) \<le> 2 ^ 53 \<and> (\<forall>s\<in>set (t_samples t). s \<le> 2 ^ 53)"
    and "nonneg acc"
  shows "\<exists>x. total_path lm vs ts acc = Some (Inr x) \<and> nonneg x"
  using assms(2,3)
proof (induction ts arbitrary: acc)
  case Nil
  then show ?case by simp
next
  case (Cons t ts)
  then have t: "wf_tree (length vs) t" "depths_ok t" "length (t_left t) \<le> 2 ^ 53"
    "\<forall>s\<in>set (t_samples t). s \<le> 2 ^ 53" by simp_all
  obtain leaf p where lp: "walk t vs 0 = Some (Inr leaf)" "leaf_path lm t leaf = Inr p" "nonneg p"
    by (rule leaf_path_nonneg [OF assms(1) t])
  have "nonneg (fadd acc p)" using Cons.prems(2) lp(3) by (rule nonneg_fadd)
  with Cons.IH [OF _ this] Cons.prems(1) lp show ?case by simp
qed

lemma final_score_unit:
  assumes "libm_ok lm" and "nonneg acc" and "if_trees f \<noteq> []" and "length (if_trees f) \<le> 2 ^ 40"
    and "if_max_samples f \<le> 2 ^ 53"
  obtains s where "final_score lm f acc = Inr (Fin s)" and "0 \<le> s" and "s \<le> 1"
proof -
  let ?n = "length (if_trees f)"
  obtain c where c: "average_path_length lm (if_max_samples f) = Inr (Fin c)" "0 \<le> c" "c \<le> 2048"
    by (rule apl_bounds [OF assms(1,5)])
  have n40: "(of_nat ?n :: rat) \<le> of_nat (2 ^ 40)" using assms(4) by (simp only: of_nat_le_iff)
  then have n40: "(of_nat ?n :: rat) \<le> 2 ^ 40" by simp
  have "int ?n \<le> int (2 ^ 40)" using assms(4) by (simp only: of_nat_le_iff)
  then have n: "float_of_int (int ?n) = Inr (Fin (of_nat ?n))" using float_of_int_small [of "int ?n"] by simp
  have "of_nat ?n * c \<le> 2 ^ 40 * 2048" using n40 c by (intro mult_mono) simp_all
  then have small: "\<bar>of_nat ?n * c\<bar> \<le> 2 ^ 64" using c(2) by simp
  define d where "d = rnd (of_nat ?n * c)"
  have d: "fmul (Fin (of_nat ?n)) (Fin c) = Fin d" "0 \<le> d"
    using of_exact_small [OF small] c(2) by (simp_all add: d_def rnd_nonneg)
  show thesis
  proof (cases "d = 0")
    case True
    then show ?thesis using that [of 1] c(1) n d(1) by (simp add: final_score_def Let_def del: fmul.simps)
  next
    case False
    then have pos: "0 < d" using d(2) by simp
    obtain y where y: "fdiv (fneg acc) (Fin d) = Inr y" "y \<le> Fin 0"
    proof (cases acc)
      case (Fin x)
      then have "0 \<le> x" using assms(2) by simp
      then have "- x / d \<le> 0" using pos by (simp add: divide_nonpos_nonneg)
      then have "of_exact (- x / d) \<le> of_exact 0" by (rule of_exact_mono)
      then show ?thesis using that [of "of_exact (- x / d)"] Fin pos by simp
    qed (use assms(2) that [of NInf] pos in \<open>auto simp: inf_of_sign_def\<close>)
    obtain r where "lm_exp2 lm y = Inr (Fin r)" "0 \<le> r" "r \<le> 1"
      using assms(1) y(2) unfolding libm_ok_def by blast
    then show ?thesis using that c(1) n d(1) False y(1)
      by (simp add: final_score_def Let_def del: fmul.simps fdiv.simps)
  qed
qed

section \<open>A sample forest\<close>

definition sample_libm :: libm where
  "sample_libm = \<lparr>lm_log = (\<lambda>x. Inr (Fin 1)), lm_exp2 = (\<lambda>y. Inr (Fin (1 / 2)))\<rparr>"

definition sample_tree :: tree where
  "sample_tree = \<lparr>t_left = [1, -1, -1], t_right = [2, -1, -1], t_feature = [0, -2, -2],
     t_threshold = [Fin 5, Fin (-2), Fin (-2)], t_samples = [4, 3, 1], t_depth = [0, 1, 1],
     t_feature_map = [0]\<rparr>"

definition sample_forest :: iforest where
  "sample_forest = \<lparr>if_features = [''request_rate''], if_threshold = Fin (1 / 4), if_max_samples = 4,
     if_trees = [sample_tree]\<rparr>"

lemma sample_libm_ok: "libm_ok sample_libm"
  by (auto simp: libm_ok_def sample_libm_def intro: exI [of _ "1 / 2"])

lemma sample_tree_wf: "wf_tree 1 sample_tree" and sample_tree_depths: "depths_ok sample_tree"
  by (simp_all add: wf_tree_def depths_ok_def sample_tree_def less_Suc_eq numeral_3_eq_3 Let_def)

lemma sample_forest_wf: "wf_forest sample_forest"
proof -
  have "wf_tree (length (if_features sample_forest)) sample_tree"
    using sample_tree_wf by (simp add: sample_forest_def)
  moreover have "length (t_left sample_tree) \<le> 2 ^ 53" "\<forall>s\<in>set (t_samples sample_tree). s \<le> 2 ^ 53"
    by (simp_all add: sample_tree_def)
  moreover have "if_trees sample_forest = [sample_tree]" "if_max_samples sample_forest = 4"
    by (simp_all add: sample_forest_def)
  ultimately show ?thesis using sample_tree_depths by (simp add: wf_forest_def)
qed

section \<open>Properties\<close>

text \<open>The walk through a well-formed tree ends, whatever the row holds (infinities and
  NaN included): it returns a leaf of the tree without an index error, after exactly as many
  comparisons as the leaf's recorded depth.\<close>

theorem walk_reaches_leaf:
  assumes "wf_tree (length vs) t" and "depths_ok t"
  shows "\<exists>j k. walk t vs 0 = Some (Inr (int j)) \<and> j < length (t_left t) \<and> t_left t ! j = - 1
    \<and> reaches t vs k j \<and> t_depth t ! j = int k"
proof -
  have "0 < length (t_left t)" using assms(1) by (simp add: wf_tree_def Let_def)
  from walk_from [OF assms(1) this reaches.root] reaches_depth [OF assms] show ?thesis by fastforce
qed

theorem walk_reaches_leaf_witness:
  "\<exists>j k. walk sample_tree [NaN] 0 = Some (Inr (int j)) \<and> j < length (t_left sample_tree)
    \<and> t_left sample_tree ! j = - 1 \<and> reaches sample_tree [NaN] k j \<and> t_depth sample_tree ! j = int k"
  by (rule walk_reaches_leaf) (simp_all add: sample_tree_wf [unfolded One_nat_def] sample_tree_depths)

text \<open>C23. A well-formed forest scores every row whose features can be read: the score is a
  finite float in the unit interval, for any \<open>log\<close> and \<open>2 ** x\<close> within the stated bounds.\<close>

theorem forest_score_in_unit:
  assumes "libm_ok lm" and "wf_forest f" and "row_values (if_features f) row = Inr vs"
  shows "\<exists>s. iforest_score lm f row = Some (Inr (Fin s)) \<and> 0 \<le> s \<and> s \<le> 1"
proof -
  have len: "length vs = length (if_features f)"
    using mapE_length assms(3) unfolding row_values_def by blast
  have zero: "nonneg (Fin 0)" by simp
  obtain x where x: "total_path lm vs (if_trees f) (Fin 0) = Some (Inr x)" "nonneg x"
    using total_path_nonneg [OF assms(1) _ zero, of "if_trees f" vs] assms(2) len
    unfolding wf_forest_def by auto
  have f: "if_trees f \<noteq> []" "length (if_trees f) \<le> 2 ^ 40" "if_max_samples f \<le> 2 ^ 53"
    using assms(2) unfolding wf_forest_def by blast+
  obtain s where "final_score lm f x = Inr (Fin s)" "0 \<le> s" "s \<le> 1"
    by (rule final_score_unit [OF assms(1) x(2) f])
  then show ?thesis using assms(3) x(1) by (simp add: iforest_score_def)
qed

theorem forest_score_in_unit_witness:
  "\<exists>s. iforest_score sample_libm sample_forest (PDict [(''request_rate'', PFloat PInf)]) = Some (Inr (Fin s))
    \<and> 0 \<le> s \<and> s \<le> 1"
  by (rule forest_score_in_unit [OF sample_libm_ok sample_forest_wf, where vs = "[PInf]"])
     (simp add: sample_forest_def row_values_def dget_def)

end
