(* ===== verification/Threshold.thy ===== *)
theory Threshold
  imports IForest
begin

text \<open>
  \<open>cote3mon/threshold.py\<close>: the percentile baseline.  \<open>fit\<close> takes a centre and a scale per
  feature from the training rows and calibrates the alert threshold on the scores of the
  validation rows; a window's score is its largest scaled deviation.
\<close>

section \<open>The model\<close>

record percentile_model =
  pm_features :: "string list"
  pm_centres :: "f64 list"
  pm_scales :: "f64 list"
  pm_threshold :: f64

definition feature_value :: "string \<Rightarrow> pyval \<Rightarrow> f64 result" where
  "feature_value name row = bindE (py_subscript row name) py_float"

definition scaled_deviation :: "pyval \<Rightarrow> string \<times> f64 \<times> f64 \<Rightarrow> f64 result" where
  "scaled_deviation row = (\<lambda>(feature, centre, scale).
     bindE (feature_value feature row) (\<lambda>v. fdiv (fabs (fsub v centre)) scale))"

definition percentile_score :: "percentile_model \<Rightarrow> pyval \<Rightarrow> f64 result" where
  "percentile_score m row =
     bindE (mapE (scaled_deviation row) (zip (pm_features m) (zip (pm_centres m) (pm_scales m)))) py_max"

definition percentile_is_anomaly :: "percentile_model \<Rightarrow> pyval \<Rightarrow> bool result" where
  "percentile_is_anomaly m row = mapR (\<lambda>s. flt (pm_threshold m) s) (percentile_score m row)"

section \<open>Fitting\<close>

definition fit_feature :: "pyval list \<Rightarrow> string \<Rightarrow> (f64 \<times> f64) result" where
  "fit_feature rows feature =
     bindE (mapE (feature_value feature) rows) (\<lambda>values.
     bindE (percentile values (of_exact (50 / 100))) (\<lambda>centre.
     bindE (percentile values (of_exact (1 / 100))) (\<lambda>low.
     bindE (percentile values (of_exact (99 / 100))) (\<lambda>high.
     bindE (py_max [fsub centre low, fsub high centre, of_exact (1 / 1000000000)]) (\<lambda>scale.
     Inr (centre, scale))))))"

definition percentile_fit ::
  "pyval list \<Rightarrow> pyval list \<Rightarrow> f64 \<Rightarrow> string list \<Rightarrow> percentile_model result" where
  "percentile_fit training_rows validation_rows false_positive_rate features =
     (if training_rows = [] \<or> validation_rows = [] then Inl ValueError
      else if \<not> (flt (Fin 0) false_positive_rate \<and> flt false_positive_rate (Fin 1)) then Inl ValueError
      else
        bindE (mapE (fit_feature training_rows) features) (\<lambda>fitted.
        let provisional = \<lparr>pm_features = features, pm_centres = map fst fitted,
                           pm_scales = map snd fitted, pm_threshold = Fin 0\<rparr> in
        bindE (mapE (percentile_score provisional) validation_rows) (\<lambda>validation_scores.
        bindE (percentile validation_scores (fsub (Fin 1) false_positive_rate)) (\<lambda>threshold.
        Inr (provisional\<lparr>pm_threshold := threshold\<rparr>)))))"

section \<open>Storing\<close>

definition percentile_to_dict :: "percentile_model \<Rightarrow> pyval" where
  "percentile_to_dict m =
     PDict [(''schema'', PStr ''cote3-mon-percentile-v1''),
            (''features'', PList (map PStr (pm_features m))),
            (''centres'', PList (map PFloat (pm_centres m))),
            (''scales'', PList (map PFloat (pm_scales m))),
            (''threshold'', PFloat (pm_threshold m))]"

text \<open>\<open>load\<close> on the parsed JSON; as for the forest, the types of the arrays are checked
  here and not at their first use.\<close>

definition percentile_load :: "pyval \<Rightarrow> percentile_model result" where
  "percentile_load data =
     bindE (py_get data ''schema'' PNone) (\<lambda>schema.
     if \<not> eq_str schema ''cote3-mon-percentile-v1'' then Inl ValueError
     else
       bindE (field_list (\<lambda>v. Inr (py_str v)) data ''features'') (\<lambda>features.
       bindE (field_list py_float data ''centres'') (\<lambda>centres.
       bindE (field_list py_float data ''scales'') (\<lambda>scales.
       bindE (bindE (py_subscript data ''threshold'') py_float) (\<lambda>threshold.
       Inr \<lparr>pm_features = features, pm_centres = centres, pm_scales = scales,
            pm_threshold = threshold\<rparr>)))))"

section \<open>Lemmas\<close>

lemma mapE_map: "mapE f (map g xs) = mapE (\<lambda>x. f (g x)) xs"
  by (induction xs) simp_all

lemma mapE_Inr [simp]: "mapE Inr xs = Inr xs"
  by (induction xs) simp_all

definition min_scale :: rat where
  "min_scale = rnd (1 / 1000000000)"

lemma min_scale_pos: "0 < min_scale" and min_scale_float: "of_exact (1 / 1000000000) = Fin min_scale"
proof -
  have "(pow2 (- 30) :: rat) = 1 / 2 ^ 30" by (simp add: power_int_def power_divide)
  then have "(pow2 (- 30) :: rat) \<le> 1 / 1000000000" by simp
  then have "(pow2 (- 30) :: rat) \<le> min_scale"
    unfolding min_scale_def by (rule rnd_ge_representable) (rule representable_pow2, simp)
  then show "0 < min_scale" using pow2_pos [of "- 30", where 'a = rat] by linarith
  show "of_exact (1 / 1000000000) = Fin min_scale"
    unfolding min_scale_def by (rule of_exact_small) simp
qed

lemma fsub_Fin_bounded:
  assumes "\<bar>a - b\<bar> \<le> 2 ^ 64"
  shows "fsub (Fin a) (Fin b) = Fin (rnd (a - b))"
  using of_exact_small [OF assms] by (simp add: fsub_def)

text \<open>Feature values of a realistic size: the bound keeps every intermediate result finite.\<close>

definition moderate :: "string list \<Rightarrow> pyval \<Rightarrow> bool" where
  "moderate features row \<longleftrightarrow>
     (\<forall>f\<in>set features. \<exists>x. feature_value f row = Inr (Fin x) \<and> 0 \<le> x \<and> x \<le> 2 ^ 30)"

lemma percentile_bounded:
  assumes "\<forall>v\<in>set values. \<exists>x. v = Fin x \<and> 0 \<le> x \<and> x \<le> 2 ^ k" and "length values \<le> 2 ^ 53"
    and "0 \<le> p" and "p \<le> 1" and "k \<le> 62"
  obtains y where "percentile values (Fin p) = Inr (Fin y)" and "0 \<le> y" and "y \<le> 2 ^ Suc k"
proof -
  have r: "representable (2 ^ k :: rat)" using representable_pow2 [of "int k", where 'a = rat] by simp
  have "(2 :: rat) ^ k \<le> 2 ^ 62" by (rule power_increasing) (use assms(5) in simp_all)
  with percentile_bounds [OF assms(1) r _ _ assms(3,4,2)] that show thesis by auto
qed

text \<open>Python's \<open>max\<close> of numbers without NaN is their maximum.\<close>

lemma py_max_ge:
  assumes "NaN \<notin> set xs" and "x \<in> set xs"
  obtains m where "py_max xs = Inr m" and "x \<le> m" and "m \<in> set xs"
proof -
  from assms(2) obtain y ys where "xs = y # ys" by (cases xs) auto
  then obtain m where m: "py_max xs = Inr m" by (simp add: py_max_def)
  show thesis by (rule that [OF m py_max_upper [OF m assms] py_max_mem [OF m]])
qed

lemma fit_feature_scale:
  assumes vals: "\<forall>row\<in>set rows. moderate [feature] row" and len: "length rows \<le> 2 ^ 53"
  obtains c s where "fit_feature rows feature = Inr (Fin c, Fin s)" and "min_scale \<le> s"
    and "0 \<le> c" and "c \<le> 2 ^ 31"
proof -
  have "is_ok (mapE (feature_value feature) rows)"
    using vals by (intro mapE_is_ok) (fastforce simp: moderate_def)
  then obtain vs where vs: "mapE (feature_value feature) rows = Inr vs" by (rule is_okE)
  have l: "length vs \<le> 2 ^ 53" using mapE_length [OF vs] len by simp
  have b: "\<forall>v\<in>set vs. \<exists>x. v = Fin x \<and> 0 \<le> x \<and> x \<le> 2 ^ 30"
  proof
    fix v
    assume "v \<in> set vs"
    with vs obtain row where "row \<in> set rows" "feature_value feature row = Inr v" by (rule mapE_set_mem)
    with vals show "\<exists>x. v = Fin x \<and> 0 \<le> x \<and> x \<le> 2 ^ 30" by (fastforce simp: moderate_def)
  qed
  have p: "\<exists>y. percentile vs (of_exact p) = Inr (Fin y) \<and> 0 \<le> y \<and> y \<le> 2 ^ 31" if "0 \<le> p" "p \<le> 1" for p
  proof -
    have "of_exact p = Fin (rnd p)" by (rule of_exact_small) (use that in simp)
    then show ?thesis using percentile_bounded [OF b l rnd_unit [OF that]] by auto
  qed
  obtain c where c: "percentile vs (of_exact (50 / 100)) = Inr (Fin c)" "0 \<le> c" "c \<le> 2 ^ 31"
    using p [of "50 / 100"] by auto
  obtain lo where lo: "percentile vs (of_exact (1 / 100)) = Inr (Fin lo)" "0 \<le> lo" "lo \<le> 2 ^ 31"
    using p [of "1 / 100"] by auto
  obtain hi where hi: "percentile vs (of_exact (99 / 100)) = Inr (Fin hi)" "0 \<le> hi" "hi \<le> 2 ^ 31"
    using p [of "99 / 100"] by auto
  have "\<bar>c - lo\<bar> \<le> 2 ^ 64" "\<bar>hi - c\<bar> \<le> 2 ^ 64" using c lo hi by (simp_all add: abs_le_iff)
  note d = this [THEN fsub_Fin_bounded]
  let ?xs = "[Fin (rnd (c - lo)), Fin (rnd (hi - c)), Fin min_scale]"
  obtain m where m: "py_max ?xs = Inr m" "Fin min_scale \<le> m" "m \<in> set ?xs"
    by (rule py_max_ge [of ?xs "Fin min_scale"]) simp_all
  then obtain s where s: "m = Fin s" "min_scale \<le> s" by (cases m) auto
  have "fit_feature rows feature = Inr (Fin c, Fin s)"
    using vs c(1) lo(1) hi(1) m(1) s(1) by (simp add: fit_feature_def d min_scale_float)
  then show thesis using that s(2) c(2,3) by blast
qed

text \<open>Centres and scales as \<open>fit\<close> leaves them.\<close>

definition fitted_ok :: "f64 \<times> f64 \<Rightarrow> bool" where
  "fitted_ok cs \<longleftrightarrow> (\<exists>c s. cs = (Fin c, Fin s) \<and> 0 \<le> c \<and> c \<le> 2 ^ 31 \<and> min_scale \<le> s)"

lemma scale_lower: "pow2 (- 30) \<le> min_scale"
proof -
  have "(pow2 (- 30) :: rat) = 1 / 2 ^ 30" by (simp add: power_int_def power_divide)
  then have "(pow2 (- 30) :: rat) \<le> 1 / 1000000000" by simp
  then show ?thesis unfolding min_scale_def by (rule rnd_ge_representable) (rule representable_pow2, simp)
qed

lemma scaled_deviation_bounded:
  assumes "moderate [f] row" and "fitted_ok (c, s)"
  shows "\<exists>d. scaled_deviation row (f, c, s) = Inr (Fin d) \<and> 0 \<le> d \<and> d \<le> 2 ^ 61"
proof -
  from assms(1) obtain v where v: "feature_value f row = Inr (Fin v)" "0 \<le> v" "v \<le> 2 ^ 30"
    by (auto simp: moderate_def)
  from assms(2) obtain c' s' where cs: "c = Fin c'" "s = Fin s'" "0 \<le> c'" "c' \<le> 2 ^ 31" "min_scale \<le> s'"
    by (auto simp: fitted_ok_def)
  have r31: "representable (2 ^ 31 :: rat)" using representable_pow2 [of 31, where 'a = rat] by simp
  have r61: "representable (2 ^ 61 :: rat)" using representable_pow2 [of 61, where 'a = rat] by simp
  have small: "\<bar>v - c'\<bar> \<le> 2 ^ 31" using v cs by (simp add: abs_le_iff)
  then have "\<bar>v - c'\<bar> \<le> 2 ^ 64" by simp
  note sub = fsub_Fin_bounded [OF this]
  define a where "a = \<bar>rnd (v - c')\<bar>"
  have a: "0 \<le> a" "a \<le> 2 ^ 31" unfolding a_def using abs_rnd_le [OF small r31] by simp_all
  have s: "1 / 2 ^ 30 \<le> s'"
    using scale_lower cs(5) by (simp add: power_int_def power_divide)
  then have pos: "0 < s'" by (rule less_le_trans [rotated]) simp
  have "a \<le> 2 ^ 61 * (1 / 2 ^ 30)" using a(2) by simp
  also have "\<dots> \<le> 2 ^ 61 * s'" using s by (intro mult_left_mono) simp_all
  finally have q: "a / s' \<le> 2 ^ 61" using pos by (simp add: divide_le_eq)
  have q0: "0 \<le> a / s'" using a(1) pos by simp
  have "of_exact (a / s') = Fin (rnd (a / s'))" by (rule of_exact_small) (use q q0 in simp)
  then have "scaled_deviation row (f, c, s) = Inr (Fin (rnd (a / s')))"
    using v(1) pos by (simp add: scaled_deviation_def cs(1,2) sub a_def)
  moreover have "rnd (a / s') \<le> 2 ^ 61" by (rule rnd_le_representable [OF q r61])
  ultimately show ?thesis using rnd_nonneg [OF q0] by blast
qed

lemma percentile_score_bounded:
  assumes "moderate features row" and "features \<noteq> []" and "length fitted = length features"
    and "\<forall>cs\<in>set fitted. fitted_ok cs"
  obtains d where "percentile_score \<lparr>pm_features = features, pm_centres = map fst fitted,
      pm_scales = map snd fitted, pm_threshold = t\<rparr> row = Inr (Fin d)" and "0 \<le> d" and "d \<le> 2 ^ 61"
proof -
  let ?z = "zip features (zip (map fst fitted) (map snd fitted))"
  have each: "\<exists>d. scaled_deviation row x = Inr (Fin d) \<and> 0 \<le> d \<and> d \<le> 2 ^ 61" if x: "x \<in> set ?z" for x
  proof -
    obtain f c s where fcs: "x = (f, c, s)" by (cases x)
    with x have f: "f \<in> set features" and "(c, s) \<in> set (zip (map fst fitted) (map snd fitted))"
      by (auto dest: set_zip_leftD set_zip_rightD)
    then have "(c, s) \<in> set fitted" by (simp add: zip_map_fst_snd)
    with assms(1,4) f show ?thesis
      unfolding fcs by (intro scaled_deviation_bounded) (auto simp: moderate_def)
  qed
  have "is_ok (mapE (scaled_deviation row) ?z)" using each by (intro mapE_is_ok) fastforce
  then obtain ds where ds: "mapE (scaled_deviation row) ?z = Inr ds" by (rule is_okE)
  have bounds: "\<exists>d. x = Fin d \<and> 0 \<le> d \<and> d \<le> 2 ^ 61" if "x \<in> set ds" for x
    using ds that by (rule mapE_set_mem) (use each in fastforce)
  have "length ds = length features" using mapE_length [OF ds] assms(3) by simp
  then obtain x where x: "x \<in> set ds" using assms(2) by (cases ds) auto
  have "NaN \<notin> set ds" using bounds by blast
  then obtain m where m: "py_max ds = Inr m" "m \<in> set ds" using py_max_ge x by blast
  then show thesis using that bounds [OF m(2)] ds by (auto simp: percentile_score_def)
qed

definition sample_training :: "pyval list" where
  "sample_training = [PDict [(''request_rate'', PFloat (Fin 2))]]"

lemma sample_training_moderate: "\<forall>row\<in>set sample_training. moderate [''request_rate''] row"
  by (simp add: sample_training_def moderate_def feature_value_def dget_def)

section \<open>Tied scores\<close>

text \<open>The floats of a calibration on three windows that all score 1.05.\<close>

definition tied_score :: rat where "tied_score = 4728779608739021 / 2 ^ 52"
definition tied_rate :: rat where "tied_rate = 5764607523034235 / 2 ^ 59"
definition tied_p :: rat where "tied_p = 4458563631096791 / 2 ^ 52"
definition tied_threshold :: rat where "tied_threshold = 4728779608739020 / 2 ^ 52"

lemma floor_numeral_ratio [simp]: "\<lfloor>numeral a / numeral b :: rat\<rfloor> = numeral a div numeral b"
  using floor_divide_of_int_eq [of "numeral a" "numeral b", where 'a = rat] by simp

lemma tied_score_rnd: "rnd (105 / 100) = tied_score"
  by (subst rnd_value [where e = 0 and m = 4728779608739021])
     (simp_all add: tied_score_def round_half_even_def power_int_def power_divide Let_def)

lemma tied_rate_rnd: "rnd (1 / 100) = tied_rate"
  by (subst rnd_value [where e = "- 7" and m = 5764607523034235])
     (simp_all add: tied_rate_def round_half_even_def power_int_def power_divide Let_def)

lemma tied_p_rnd: "rnd (1 - tied_rate) = tied_p"
  by (subst rnd_value [where e = "- 1" and m = 8917127262193582])
     (simp_all add: tied_rate_def tied_p_def round_half_even_def power_int_def power_divide Let_def)

lemma tied_steps:
  "rnd (2 * tied_p) = 2 * tied_p"
  "rnd (2 * tied_p - 1) = 2 * tied_p - 1"
  "rnd (2 - 2 * tied_p) = 2 - 2 * tied_p"
  by (rule rnd_id, simp only: tied_p_def,
      rule representableI [where m = 4458563631096791 and e = "- 51"] representableI [where m = 2206763817411543 and e = "- 51"]
        representableI [where m = 45035996273705 and e = "- 51"],
      simp_all add: power_int_def power_divide)+

lemma tied_products:
  "rnd (tied_score * (2 - 2 * tied_p)) = 6052837899185952 / 2 ^ 58"
  "rnd (tied_score * (2 * tied_p - 1)) = 4634204016564240 / 2 ^ 52"
  "rnd (6052837899185952 / 2 ^ 58 + 4634204016564240 / 2 ^ 52) = tied_threshold"
  by (subst rnd_value [where e = "- 6" and m = 6052837899185952],
      simp_all add: tied_score_def tied_p_def round_half_even_def power_int_def power_divide Let_def)
     (subst rnd_value [where e = 0 and m = 4634204016564240],
      simp_all add: tied_score_def tied_p_def round_half_even_def power_int_def power_divide Let_def,
      subst rnd_value [where e = 0 and m = 4728779608739020],
      simp_all add: tied_threshold_def round_half_even_def power_int_def power_divide Let_def)

lemma tied_percentile:
  "percentile (replicate 3 (Fin tied_score)) (Fin tied_p) = Inr (Fin tied_threshold)"
proof -
  have p: "1 < 2 * tied_p" "2 * tied_p < 2" by (simp_all add: tied_p_def)
  have s: "0 < tied_score" "tied_score < 2" by (simp_all add: tied_score_def)
  have fl: "\<lfloor>2 * tied_p\<rfloor> = 1" "\<lceil>2 * tied_p\<rceil> = 2" using p by (simp_all add: floor_eq_iff ceiling_eq_iff)
  have pos: "fmul (Fin 2) (Fin tied_p) = Fin (2 * tied_p)"
    using of_exact_small [of "2 * tied_p"] p tied_steps(1) by simp
  have w: "fsub (Fin (2 * tied_p)) (Fin 1) = Fin (2 * tied_p - 1)"
    using fsub_Fin_bounded [of "2 * tied_p" 1] p tied_steps(2) by simp
  have w1: "fsub (Fin 1) (Fin (2 * tied_p - 1)) = Fin (2 - 2 * tied_p)"
    using fsub_Fin_bounded [of 1 "2 * tied_p - 1"] p tied_steps(3) by simp
  have small: "\<bar>tied_score * c\<bar> \<le> 2 ^ 64" if "0 \<le> c" "c \<le> 1" for c
    using mult_mono [of tied_score 2 c 1] s that by simp
  define A B :: rat where "A = 6052837899185952 / 2 ^ 58" and "B = 4634204016564240 / 2 ^ 52"
  note products = tied_products [folded A_def B_def]
  have a: "fmul (Fin tied_score) (Fin (2 - 2 * tied_p)) = Fin A"
    using of_exact_small [OF small [of "2 - 2 * tied_p"]] p products(1) by simp
  have b: "fmul (Fin tied_score) (Fin (2 * tied_p - 1)) = Fin B"
    using of_exact_small [OF small [of "2 * tied_p - 1"]] p products(2) by simp
  have "\<bar>A + B\<bar> \<le> 2 ^ 64" by (simp add: A_def B_def)
  then have sum: "fadd (Fin A) (Fin B) = Fin tied_threshold"
    using of_exact_small [of "A + B"] products(3) by simp
  have "sort (replicate 3 (Fin tied_score)) = replicate 3 (Fin tied_score)" by (simp add: numeral_3_eq_3)
  then show ?thesis
    by (simp add: percentile_def Let_def float_of_int_small pos float_floor_def float_ceil_def to_int_with_def
        fl w w1 a b sum py_index_def del: fmul.simps fadd.simps)
qed

section \<open>Properties\<close>

text \<open>On moderate feature values \<open>fit\<close> returns a model: one centre and one scale per
  feature, every scale at least the float 1e-9 (so no score divides by zero), a finite
  non-negative threshold; and the model scores every moderate row with a finite,
  non-negative number.\<close>

theorem fit_returns_usable_model:
  assumes "training \<noteq> []" and "validation \<noteq> []" and "features \<noteq> []"
    and "\<forall>row\<in>set training. moderate features row" and "\<forall>row\<in>set validation. moderate features row"
    and "length training \<le> 2 ^ 53" and "length validation \<le> 2 ^ 53" and "0 < fpr" and "fpr < 1"
  shows "\<exists>m t. percentile_fit training validation (Fin fpr) features = Inr m \<and> pm_features m = features
    \<and> length (pm_centres m) = length features \<and> length (pm_scales m) = length features
    \<and> (\<forall>s\<in>set (pm_scales m). Fin min_scale \<le> s) \<and> pm_threshold m = Fin t \<and> 0 \<le> t
    \<and> (\<forall>row. moderate features row \<longrightarrow> (\<exists>d. percentile_score m row = Inr (Fin d) \<and> 0 \<le> d))"
proof -
  have fit: "\<exists>c s. fit_feature training f = Inr (Fin c, Fin s) \<and> fitted_ok (Fin c, Fin s)"
    if "f \<in> set features" for f
  proof -
    have "\<forall>row\<in>set training. moderate [f] row" using assms(4) that by (simp add: moderate_def)
    then obtain c s where "fit_feature training f = Inr (Fin c, Fin s)" "min_scale \<le> s" "0 \<le> c" "c \<le> 2 ^ 31"
      using fit_feature_scale assms(6) by blast
    then show ?thesis by (auto simp: fitted_ok_def)
  qed
  have "is_ok (mapE (fit_feature training) features)" using fit by (intro mapE_is_ok) fastforce
  then obtain fitted where f: "mapE (fit_feature training) features = Inr fitted" by (rule is_okE)
  have len: "length fitted = length features" by (rule mapE_length [OF f])
  have ok: "\<forall>cs\<in>set fitted. fitted_ok cs" by (intro ballI, rule mapE_set_mem [OF f], assumption) (use fit in fastforce)
  define m where "m t = \<lparr>pm_features = features, pm_centres = map fst fitted, pm_scales = map snd fitted,
      pm_threshold = t\<rparr>" for t
  have score: "\<exists>d. percentile_score (m t) row = Inr (Fin d) \<and> 0 \<le> d \<and> d \<le> 2 ^ 61" if "moderate features row" for t row
    unfolding m_def by (rule percentile_score_bounded [OF that assms(3) len ok]) blast
  have "is_ok (mapE (percentile_score (m (Fin 0))) validation)"
  proof (rule mapE_is_ok)
    fix row
    assume "row \<in> set validation"
    with assms(5) have "moderate features row" by blast
    from score [OF this, of "Fin 0"] show "is_ok (percentile_score (m (Fin 0)) row)" by auto
  qed
  then obtain scores where sc: "mapE (percentile_score (m (Fin 0))) validation = Inr scores" by (rule is_okE)
  have bounds: "\<forall>v\<in>set scores. \<exists>x. v = Fin x \<and> 0 \<le> x \<and> x \<le> 2 ^ 61"
  proof
    fix v
    assume "v \<in> set scores"
    with sc obtain row where "row \<in> set validation" "percentile_score (m (Fin 0)) row = Inr v"
      by (rule mapE_set_mem)
    moreover from this(1) assms(5) have "moderate features row" by blast
    ultimately show "\<exists>x. v = Fin x \<and> 0 \<le> x \<and> x \<le> 2 ^ 61" using score [of row "Fin 0"] by auto
  qed
  have len_scores: "length scores \<le> 2 ^ 53" using mapE_length [OF sc] assms(7) by simp
  obtain p where p: "fsub (Fin 1) (Fin fpr) = Fin p" "0 \<le> p" "p \<le> 1"
    using fsub_unit [of fpr 1] assms(8,9) by auto
  obtain t where t: "percentile scores (Fin p) = Inr (Fin t)" "0 \<le> t"
    by (rule percentile_bounded [OF bounds len_scores p(2,3)]) simp_all
  have "percentile_fit training validation (Fin fpr) features = Inr (m (Fin t))"
    using assms(1,2,8,9) f sc t(1) p(1) by (simp add: percentile_fit_def Let_def m_def)
  moreover have "\<forall>s\<in>set (pm_scales (m (Fin t))). Fin min_scale \<le> s"
    using ok by (auto simp: m_def fitted_ok_def)
  moreover have "\<forall>row. moderate features row \<longrightarrow> (\<exists>d. percentile_score (m (Fin t)) row = Inr (Fin d) \<and> 0 \<le> d)"
    using score by blast
  moreover have "pm_features (m (Fin t)) = features" "length (pm_centres (m (Fin t))) = length features"
    "length (pm_scales (m (Fin t))) = length features" "pm_threshold (m (Fin t)) = Fin t"
    by (simp_all add: m_def len)
  ultimately show ?thesis using t(2) by blast
qed

theorem fit_returns_usable_model_witness:
  "\<exists>m t. percentile_fit sample_training sample_training (Fin (1 / 4)) [''request_rate''] = Inr m
    \<and> pm_features m = [''request_rate'']
    \<and> length (pm_centres m) = length [''request_rate''] \<and> length (pm_scales m) = length [''request_rate'']
    \<and> (\<forall>s\<in>set (pm_scales m). Fin min_scale \<le> s) \<and> pm_threshold m = Fin t \<and> 0 \<le> t
    \<and> (\<forall>row. moderate [''request_rate''] row \<longrightarrow> (\<exists>d. percentile_score m row = Inr (Fin d) \<and> 0 \<le> d))"
  by (rule fit_returns_usable_model) (use sample_training_moderate in \<open>simp_all add: sample_training_def\<close>)

text \<open>A model survives saving and loading unchanged, so it scores every row as before.\<close>

theorem percentile_model_round_trip:
  "percentile_load (percentile_to_dict m) = Inr m"
  by (cases m) (simp add: percentile_load_def percentile_to_dict_def field_list_def mapE_map dget_def)


end
