(* ===== verification/Monitor.thy ===== *)
theory Monitor
  imports Audit_TA Features IForest Threshold
begin

text \<open>
  \<open>cote3mon/monitor.py\<close>: the two audit backends, the choice of the detector and
  \<open>monitor_batch\<close>.  An operation on a backend takes its state \<open>'s\<close> and returns a result
  and the new state, also when it raises.  What the monitor needs of a backend is the
  locale \<open>audit_backend\<close>; the local store and the trusted application behind its client
  are its two interpretations.
\<close>

section \<open>Local backend\<close>

text \<open>\<open>LocalAuditBackend\<close> forwards to its store; a call that raises leaves the store as it was.\<close>

definition local_register :: "bytes \<Rightarrow> audit \<Rightarrow> string result \<times> audit" where
  "local_register payload st =
     (case register_model payload st of Inl e \<Rightarrow> (Inl e, st) | Inr (digest, st') \<Rightarrow> (Inr digest, st'))"

definition local_append :: "pyval \<Rightarrow> audit \<Rightarrow> pyval result \<times> audit" where
  "local_append alert st =
     (case append alert st of Inl e \<Rightarrow> (Inl e, st) | Inr (receipt, st') \<Rightarrow> (Inr receipt, st'))"

section \<open>Backend behind the client program\<close>

type_synonym 's client = "string list \<Rightarrow> 's \<Rightarrow> (int \<times> string) \<times> 's"

text \<open>\<open>OpteeAuditBackend._run\<close>: a non-zero exit status raises \<open>CalledProcessError\<close>.\<close>

definition run_client :: "'s client \<Rightarrow> string list \<Rightarrow> 's \<Rightarrow> string result \<times> 's" where
  "run_client client args s =
     (case client args s of ((code, out), s') \<Rightarrow>
        (if code \<noteq> 0 then Inl CalledProcessError else Inr (strip out), s'))"

definition optee_register :: "'s client \<Rightarrow> bytes \<Rightarrow> 's \<Rightarrow> string result \<times> 's" where
  "optee_register client payload s =
     (let digest = bytes_hex (sha256 payload) in
      case run_client client [''register'', digest] s of (r, s') \<Rightarrow> (mapR (\<lambda>_. digest) r, s'))"

definition optee_append :: "'s client \<Rightarrow> pyval \<Rightarrow> 's \<Rightarrow> pyval result \<times> 's" where
  "optee_append client alert s =
     (let digest = bytes_hex (sha256 (canonical_json alert)) in
      case run_client client [''append'', digest] s of (r, s') \<Rightarrow> (bindE r json_loads, s'))"

definition optee_get_head :: "'s client \<Rightarrow> 's \<Rightarrow> pyval result \<times> 's" where
  "optee_get_head client s =
     (case run_client client [''head''] s of (r, s') \<Rightarrow> (bindE r json_loads, s'))"

definition caught :: "py_error \<Rightarrow> bool" where
  "caught e \<longleftrightarrow> e \<in> {KeyError, TypeError, ValueError}"

definition text_field :: "pyval \<Rightarrow> string \<Rightarrow> string result" where
  "text_field d k = mapR py_str (py_subscript d k)"

definition int_field :: "pyval \<Rightarrow> string \<Rightarrow> int result" where
  "int_field d k = bindE (py_subscript d k) py_int"

definition hash_fields :: "pyval \<Rightarrow> (string \<times> string \<times> string \<times> string) result" where
  "hash_fields receipt =
     bindE (text_field receipt ''previous_head'') (\<lambda>p.
     bindE (text_field receipt ''alert_hash'') (\<lambda>a.
     bindE (text_field receipt ''model_hash'') (\<lambda>m.
     bindE (text_field receipt ''head'') (\<lambda>h. Inr (p, a, m, h)))))"

definition verify_arguments :: "pyval \<Rightarrow> string list result" where
  "verify_arguments receipt =
     bindE (int_field receipt ''sequence'') (\<lambda>n.
     bindE (hash_fields receipt) (\<lambda>(p, a, m, h). Inr [''verify'', int_str n, p, a, m, h]))"

definition optee_verify_receipt :: "'s client \<Rightarrow> pyval \<Rightarrow> 's \<Rightarrow> bool result \<times> 's" where
  "optee_verify_receipt client receipt s =
     (case verify_arguments receipt of
        Inl e \<Rightarrow> (if caught e then Inr False else Inl e, s)
      | Inr args \<Rightarrow>
          (case run_client client args s of
             (Inl _, s') \<Rightarrow> (Inr False, s')
           | (Inr out, s') \<Rightarrow> (Inr (out = ''VALID''), s')))"

definition hex_text :: "string \<Rightarrow> bool" where
  "hex_text s \<longleftrightarrow> length s = 64 \<and> list_all (\<lambda>c. c \<in> set ''0123456789abcdef'') s"

text \<open>The tests of one record before the client is asked: the receipt and the texts to
  remember, or \<open>None\<close> for \<open>return False\<close>.  The state of the loop is the previous head, the
  sequence number and the model hash, if one was seen.\<close>

type_synonym chain_state = "string \<times> int \<times> string option"

definition check_record :: "pyval \<Rightarrow> chain_state \<Rightarrow> (pyval \<times> chain_state) option result" where
  "check_record rec = (\<lambda>(previous, sequence0, model_hash).
     bindE (py_subscript rec ''receipt'') (\<lambda>receipt.
     let sequence = sequence0 + 1 in
     bindE (py_subscript rec ''alert'') (\<lambda>alert.
     let alert_hash = bytes_hex (sha256 (canonical_json alert)) in
     bindE (hash_fields receipt) (\<lambda>(p, a, m, h).
     if \<not> list_all hex_text [p, a, m, h] then Inr None
     else bindE (int_field receipt ''sequence'') (\<lambda>n.
       if n \<noteq> sequence \<or> p \<noteq> previous \<or> a \<noteq> alert_hash
          \<or> (case model_hash of None \<Rightarrow> False | Some m' \<Rightarrow> m \<noteq> m') then Inr None
       else Inr (Some (receipt, (h, sequence, Some m))))))))"

fun optee_loop :: "'s client \<Rightarrow> pyval list \<Rightarrow> chain_state \<Rightarrow> 's \<Rightarrow> chain_state option result \<times> 's" where
  "optee_loop client [] acc s = (Inr (Some acc), s)"
| "optee_loop client (rec # records) acc s =
     (case check_record rec acc of
        Inl e \<Rightarrow> (if caught e then Inr None else Inl e, s)
      | Inr None \<Rightarrow> (Inr None, s)
      | Inr (Some (receipt, acc')) \<Rightarrow>
          (case optee_verify_receipt client receipt s of
             (Inl e, s') \<Rightarrow> (if caught e then Inr None else Inl e, s')
           | (Inr False, s') \<Rightarrow> (Inr None, s')
           | (Inr True, s') \<Rightarrow> optee_loop client records acc' s'))"

definition head_matches :: "pyval \<Rightarrow> chain_state \<Rightarrow> bool result" where
  "head_matches current = (\<lambda>(previous, sequence, model_hash).
     bindE (int_field current ''sequence'') (\<lambda>n.
     if n \<noteq> sequence then Inr False
     else bindE (text_field current ''head'') (\<lambda>h.
       if h \<noteq> previous then Inr False
       else if sequence = 0 then Inr True
       else mapR (\<lambda>m. Some m = model_hash) (text_field current ''model_hash''))))"

definition optee_verify_chain :: "'s client \<Rightarrow> pyval list \<Rightarrow> bool \<Rightarrow> 's \<Rightarrow> bool result \<times> 's" where
  "optee_verify_chain client records require_current_head s =
     (case optee_loop client records (concat (replicate 32 ''00''), 0, None) s of
        (Inl e, s') \<Rightarrow> (Inl e, s')
      | (Inr None, s') \<Rightarrow> (Inr False, s')
      | (Inr (Some acc), s') \<Rightarrow>
          if \<not> require_current_head then (Inr True, s')
          else (case optee_get_head client s' of (r, s'') \<Rightarrow>
            (case bindE r (\<lambda>current. head_matches current acc) of
               Inl e \<Rightarrow> if caught e \<or> e = CalledProcessError then Inr False else Inl e
             | Inr ok \<Rightarrow> Inr ok, s'')))"

section \<open>The detector\<close>

datatype detector = Forest iforest | Percentile percentile_model

definition load_detector :: "string \<Rightarrow> detector result" where
  "load_detector model_text =
     bindE (json_loads model_text) (\<lambda>model.
     bindE (py_get model ''schema'' PNone) (\<lambda>schema.
     if eq_str schema ''cote3-mon-iforest-v1'' then mapR Forest (iforest_init model)
     else if eq_str schema ''cote3-mon-percentile-v1'' then mapR Percentile (percentile_load model)
     else Inl ValueError))"

fun detector_score :: "libm \<Rightarrow> detector \<Rightarrow> pyval \<Rightarrow> f64 result option" where
  "detector_score lm (Forest f) row = iforest_score lm f row"
| "detector_score lm (Percentile m) row = Some (percentile_score m row)"

fun detector_threshold :: "detector \<Rightarrow> f64" where
  "detector_threshold (Forest f) = if_threshold f"
| "detector_threshold (Percentile m) = pm_threshold m"

fun detector_features :: "detector \<Rightarrow> string list" where
  "detector_features (Forest f) = if_features f"
| "detector_features (Percentile m) = pm_features m"

section \<open>Batches\<close>

definition alert_of :: "detector \<Rightarrow> pyval \<Rightarrow> pyval \<Rightarrow> f64 \<Rightarrow> pyval result" where
  "alert_of det model_hash row score =
     bindE (py_subscript row ''run_id'') (\<lambda>run_id.
     bindE (py_subscript row ''scenario'') (\<lambda>scenario.
     bindE (py_subscript row ''window_start_ns'') (\<lambda>start.
     bindE (mapE (\<lambda>k. mapR (Pair k) (py_subscript row k)) (detector_features det)) (\<lambda>features.
     Inr (PDict [(''schema'', PStr ''cote3-mon-alert-v1''), (''run_id'', run_id), (''scenario'', scenario),
       (''window_start_ns'', start), (''score'', PFloat score), (''threshold'', PFloat (detector_threshold det)),
       (''model_hash'', model_hash), (''features'', PDict (fold (\<lambda>(k, v). dset k v) features []))])))))"

text \<open>The loop over the rows: the outcome, the state of the backend and the records written so
  far; \<open>None\<close> when a score does not return.\<close>

fun monitor_rows :: "libm \<Rightarrow> detector \<Rightarrow> string \<Rightarrow> (pyval \<Rightarrow> 's \<Rightarrow> pyval result \<times> 's) \<Rightarrow>
    pyval list \<Rightarrow> 's \<Rightarrow> pyval list \<Rightarrow> (unit result \<times> 's \<times> pyval list) option" where
  "monitor_rows lm det model_hash app [] s written = Some (Inr (), s, written)"
| "monitor_rows lm det model_hash app (row # rows) s written =
     (case detector_score lm det row of
        None \<Rightarrow> None
      | Some (Inl e) \<Rightarrow> Some (Inl e, s, written)
      | Some (Inr score) \<Rightarrow>
          if fle score (detector_threshold det) then monitor_rows lm det model_hash app rows s written
          else (case alert_of det (PStr model_hash) row score of
            Inl e \<Rightarrow> Some (Inl e, s, written)
          | Inr alert \<Rightarrow>
              (case app alert s of
                 (Inl e, s') \<Rightarrow> Some (Inl e, s', written)
               | (Inr receipt, s') \<Rightarrow>
                   monitor_rows lm det model_hash app rows s' (written @ [record_of alert receipt]))))"

text \<open>\<open>monitor_batch\<close>: the number of windows and of alerts and the model hash, with the records
  of the alert file, which stays untouched (\<open>None\<close>) when an earlier step raises.\<close>

definition monitor_batch :: "libm \<Rightarrow> (bytes \<Rightarrow> 's \<Rightarrow> string result \<times> 's) \<Rightarrow> (pyval \<Rightarrow> 's \<Rightarrow> pyval result \<times> 's) \<Rightarrow>
    string list list \<Rightarrow> string \<Rightarrow> int \<Rightarrow> int \<Rightarrow> 's \<Rightarrow>
    ((nat \<times> nat \<times> string) result \<times> 's \<times> pyval list option) option" where
  "monitor_batch lm register app telemetry model_text window_seconds warmup_seconds s =
     (case load_detector model_text of
        Inl e \<Rightarrow> Some (Inl e, s, None)
      | Inr det \<Rightarrow>
          (case register (utf8_encode model_text) s of
             (Inl e, s1) \<Rightarrow> Some (Inl e, s1, None)
           | (Inr model_hash, s1) \<Rightarrow>
               (case bindE (read_jsonl telemetry) (\<lambda>events. aggregate_events events window_seconds warmup_seconds) of
                  Inl e \<Rightarrow> Some (Inl e, s1, None)
                | Inr rows \<Rightarrow>
                    map_option
                      (\<lambda>(r, s2, written). (mapR (\<lambda>_. (length rows, length written, model_hash)) r, s2, Some written))
                      (monitor_rows lm det model_hash app rows s1 []))))"

section \<open>What the monitor needs of a backend\<close>

text \<open>\<open>chain s rs\<close>: the records \<open>rs\<close> verify completely against the state \<open>s\<close>; \<open>room n s\<close>: \<open>n\<close>
  more alerts fit.\<close>

locale audit_backend =
  fixes register :: "bytes \<Rightarrow> 's \<Rightarrow> string result \<times> 's"
    and app :: "pyval \<Rightarrow> 's \<Rightarrow> pyval result \<times> 's"
    and room :: "nat \<Rightarrow> 's \<Rightarrow> bool"
    and chain :: "'s \<Rightarrow> pyval list \<Rightarrow> bool"
  assumes register_keeps: "chain s rs \<Longrightarrow> room n s \<Longrightarrow> register p s = (digest, s') \<Longrightarrow> chain s' rs \<and> room n s'"
    and append_extends: "chain s rs \<Longrightarrow> room (Suc n) s \<Longrightarrow> app a s = (Inr r, s') \<Longrightarrow>
      chain s' (rs @ [record_of a r]) \<and> room n s'"
    and append_fails: "chain s rs \<Longrightarrow> app a s = (Inl e, s') \<Longrightarrow> chain s' rs"
    and room_less: "room (Suc n) s \<Longrightarrow> room n s"
begin

lemma rows_extend:
  assumes "chain s (rs @ written)" and "room (length rows) s"
    and "monitor_rows lm det model_hash app rows s written = Some (r, s', written')"
  shows "chain s' (rs @ written')"
  using assms
proof (induction rows arbitrary: s written)
  case (Cons row rows)
  have room: "room (length rows) s" using Cons.prems(2) by (auto intro: room_less)
  from Cons.prems(3) obtain sc where sc: "detector_score lm det row = Some sc" by (auto split: option.splits)
  show ?case
  proof (cases sc)
    case (Inl e)
    with Cons.prems sc show ?thesis by simp
  next
    case (Inr score)
    show ?thesis
    proof (cases "fle score (detector_threshold det)")
      case True
      show ?thesis by (rule Cons.IH [OF Cons.prems(1) room]) (use Cons.prems(3) sc Inr True in simp)
    next
      case False
      show ?thesis
      proof (cases "alert_of det (PStr model_hash) row score")
        case (Inl e)
        with Cons.prems sc Inr False show ?thesis by simp
      next
        case A: (Inr alert)
        obtain ra s1 where app: "app alert s = (ra, s1)" by fastforce
        show ?thesis
        proof (cases ra)
          case E: (Inl e)
          then show ?thesis
            using append_fails [OF Cons.prems(1) app [unfolded E]] Cons.prems(3) sc Inr False A app by simp
        next
          case R: (Inr receipt)
          have "chain s1 ((rs @ written) @ [record_of alert receipt]) \<and> room (length rows) s1"
            by (rule append_extends [OF Cons.prems(1)]) (use Cons.prems(2) app R in simp_all)
          then have "chain s1 (rs @ (written @ [record_of alert receipt]))" "room (length rows) s1" by simp_all
          from Cons.IH [OF this] Cons.prems(3) sc Inr False A app R show ?thesis by simp
        qed
      qed
    qed
  qed
qed simp

lemma batch_extends:
  assumes "chain s rs"
    and "\<And>rows. bindE (read_jsonl telemetry) (\<lambda>es. aggregate_events es window warmup) = Inr rows \<Longrightarrow> room (length rows) s"
    and "room 0 s"
    and "monitor_batch lm register app telemetry model_text window warmup s = Some (r, s', written)"
  shows "chain s' (rs @ (case written of None \<Rightarrow> [] | Some w \<Rightarrow> w))"
proof (cases "load_detector model_text")
  case (Inl e)
  with assms show ?thesis by (auto simp: monitor_batch_def)
next
  case (Inr det)
  obtain rr s1 where reg: "register (utf8_encode model_text) s = (rr, s1)" by fastforce
  have s1: "chain s1 rs" using register_keeps [OF assms(1,3) reg] by simp
  show ?thesis
  proof (cases rr)
    case (Inl e)
    with assms(4) Inr reg s1 show ?thesis by (auto simp: monitor_batch_def)
  next
    case H: (Inr model_hash)
    show ?thesis
    proof (cases "bindE (read_jsonl telemetry) (\<lambda>es. aggregate_events es window warmup)")
      case (Inl e)
      with assms(4) Inr reg s1 H show ?thesis by (auto simp: monitor_batch_def)
    next
      case R: (Inr rows)
      obtain q w where loop: "monitor_rows lm det model_hash app rows s1 [] = Some (q, s', w)" and w: "written = Some w"
        using assms(4) Inr reg H R by (auto simp: monitor_batch_def)
      have "room (length rows) s1" using register_keeps [OF assms(1) assms(2) [OF R] reg] by simp
      from rows_extend [OF _ this loop, of rs] s1 w show ?thesis by simp
    qed
  qed
qed

end

section \<open>The local store as a backend\<close>

lemma verify_loop_append:
  "verify_loop st (rs @ [rec]) acc = bindE (verify_loop st rs acc) (\<lambda>r.
     case r of None \<Rightarrow> Inr None | Some acc' \<Rightarrow> verify_record st rec acc')"
proof (induction rs arbitrary: acc)
  case Nil
  have "bindE m (\<lambda>r. case r of None \<Rightarrow> Inr None | Some a \<Rightarrow> Inr (Some a)) = m" for m :: "(int \<times> string) option result"
    by (cases m) (auto split: option.split)
  moreover have "verify_loop st [] = (\<lambda>acc. Inr (Some acc))" by auto
  ultimately show ?case by simp
next
  case (Cons r rs)
  then show ?case by (auto simp: bindE_assoc split: option.split intro!: arg_cong2 [where f = bindE])
qed

lemma verify_receipt_key:
  assumes "au_key st' = au_key st"
  shows "verify_receipt st' a r = verify_receipt st a r"
  unfolding verify_receipt_def assms by (rule refl)

lemma verify_loop_same:
  "au_key st' = au_key st \<Longrightarrow> au_model st' = au_model st \<Longrightarrow> verify_loop st' rs acc = verify_loop st rs acc"
proof (induction rs arbitrary: acc)
  case (Cons r rs)
  then have "verify_record st' r acc = verify_record st r acc"
    unfolding verify_record_def verify_receipt_key [OF Cons.prems(1)] Cons.prems(2) by blast
  moreover have "verify_loop st' rs = verify_loop st rs" using Cons by blast
  ultimately show ?case by simp
qed simp

lemma verify_loop_counts:
  "verify_loop st rs (n, h) = Inr (Some (m, h')) \<Longrightarrow> m = n + int (length rs)"
proof (induction rs arbitrary: n h)
  case (Cons r rs)
  then obtain acc where acc: "verify_record st r (n, h) = Inr (Some acc)" "verify_loop st rs acc = Inr (Some (m, h'))"
    by (auto simp: bindE_eq_Inr_iff split: option.splits)
  then have "fst acc = n + 1"
    by (auto simp: verify_record_def bindE_eq_Inr_iff mapR_eq_Inr_iff Let_def split: if_splits)
  with Cons.IH [of "n + 1" "snd acc"] acc(2) show ?case by (cases acc) simp
qed simp

definition local_chain :: "audit \<Rightarrow> pyval list \<Rightarrow> bool" where
  "local_chain st rs \<longleftrightarrow> audit_inv st \<and> verify_chain st rs True = Inr True"

lemma local_register_keeps:
  assumes "local_chain st rs" and "local_register p st = (r, st')"
  shows "local_chain st' rs"
proof (cases "register_model p st")
  case (Inl e)
  with assms show ?thesis by (simp add: local_register_def)
next
  case (Inr x)
  then have reg: "register_model p st = Inr (fst x, st')"
    using assms(2) by (cases x) (simp add: local_register_def)
  have inv: "audit_inv st" and loop: "verify_loop st rs (0, bytes_hex ZERO_HASH) = Inr (Some (au_sequence st, au_head st))"
    using assms(1) by (simp_all add: local_chain_def verify_chain_current)
  note r = register_inv [OF inv reg]
  have st': "st' = st\<lparr>au_model := au_model st'\<rparr>" using reg by (auto simp: register_model_def Let_def split: if_splits)
  show ?thesis
  proof (cases "au_sequence st = 0")
    case True
    then have "rs = []" using verify_loop_counts [OF loop] by simp
    then show ?thesis
      using r True audit_inv_zero [of st'] by (simp add: local_chain_def verify_chain_current)
  next
    case False
    then have "st' = st" using r st' by (metis audit.surjective audit.update_convs(2))
    with assms(1) show ?thesis by simp
  qed
qed

lemma local_append_extends:
  assumes "local_chain st rs" and "local_append a st = (Inr r, st')"
  shows "local_chain st' (rs @ [record_of a r])"
proof -
  have app: "append a st = Inr (r, st')" using assms(2) by (auto simp: local_append_def split: sum.splits)
  have inv: "audit_inv st" and loop: "verify_loop st rs (0, bytes_hex ZERO_HASH) = Inr (Some (au_sequence st, au_head st))"
    using assms(1) by (simp_all add: local_chain_def verify_chain_current)
  obtain model ds where h: "holds st model ds"
    using inv append_has_model [OF app] by (auto simp: audit_inv_def)
  note small = append_message_range [OF app h]
  note st' = append_holds [OF h small, of a, unfolded app]
  have eqs: "au_sequence st = int (length ds)" "au_head st = bytes_hex (audit_head (au_key st) model ds)"
    "au_model st = Some (bytes_hex model)"
    using h by (simp_all add: holds_def)
  have "verify_loop st' rs (0, bytes_hex ZERO_HASH) = Inr (Some (au_sequence st, au_head st))"
    using loop verify_loop_same [of st' st] append_inv [OF inv app] by simp
  moreover have "verify_record st' (record_of a r) (au_sequence st, au_head st) = Inr (Some (au_sequence st', au_head st'))"
    using st' verify_record_of [OF small, of st' model _ "audit_head (au_key st) model ds" a] eqs
    by (auto simp del: of_nat_Suc)
  ultimately show ?thesis
    using append_inv [OF inv app] by (simp add: local_chain_def verify_chain_current verify_loop_append)
qed

interpretation local_backend: audit_backend local_register local_append "\<lambda>_ _. True" local_chain
proof
  show "local_chain s rs \<Longrightarrow> local_append a s = (Inl e, s') \<Longrightarrow> local_chain s' rs" for s rs a e s'
    by (auto simp: local_append_def split: sum.splits)
qed (simp_all add: local_register_keeps local_append_extends)

section \<open>The trusted application as a backend\<close>

lemma hex_text_hash: "length b = 32 \<Longrightarrow> hex_text (bytes_hex b)"
proof -
  have digits: "list_all (\<lambda>n. hex_digit n \<in> set ''0123456789abcdef'') [0..<16]" by code_simp
  have "list_all (\<lambda>c. c \<in> set ''0123456789abcdef'') (bytes_hex b)"
  proof (induction b)
    case (Cons x b)
    have "unat x < 2 ^ LENGTH(8)" by (rule unsigned_less)
    then have "unat x div 16 < 16" "unat x mod 16 < 16" by (simp_all add: less_mult_imp_div_less)
    with digits Cons show ?case by (simp add: hex_byte_def list_all_iff)
  qed simp
  then show "length b = 32 \<Longrightarrow> ?thesis" by (simp add: hex_text_def)
qed

lemma hex_char_value: "c \<in> set ''0123456789abcdef'' \<Longrightarrow> \<exists>n<16. c = hex_digit n"
proof -
  have "list_all (\<lambda>c. list_ex (\<lambda>n. c = hex_digit n) [0..<16]) ''0123456789abcdef''" by code_simp
  then show "c \<in> set ''0123456789abcdef'' \<Longrightarrow> ?thesis"
    by (auto simp: list_all_iff list_ex_iff Bex_def)
qed

lemma hex_pairs:
  assumes "list_all (\<lambda>c. c \<in> set ''0123456789abcdef'') s" and "length s = 2 * n"
  shows "\<exists>b. s = bytes_hex b \<and> length b = n"
  using assms
proof (induction n arbitrary: s)
  case (Suc n)
  then obtain c d t where s: "s = c # d # t" by (cases s; cases "tl s") auto
  with Suc.prems(1) have cd: "c \<in> set ''0123456789abcdef''" "d \<in> set ''0123456789abcdef''"
    and t: "list_all (\<lambda>c. c \<in> set ''0123456789abcdef'') t"
    by (simp_all only: list.pred_inject)
  from hex_char_value [OF cd(1)] obtain h where h: "c = hex_digit h" "h < 16" by blast
  from hex_char_value [OF cd(2)] obtain l where l: "d = hex_digit l" "l < 16" by blast
  obtain b where b: "t = bytes_hex b" "length b = n"
    using Suc.IH [OF t] Suc.prems(2) s by auto
  have "unat (word_of_nat (16 * h + l) :: byte) = 16 * h + l"
    using h(2) l(2) by (simp only: unat_of_nat) simp
  then have "hex_byte (word_of_nat (16 * h + l)) = [c, d]"
    unfolding hex_byte_def using h l by (simp del: of_nat_add of_nat_mult)
  then show ?case using s b by (intro exI [of _ "word_of_nat (16 * h + l) # b"]) simp
qed simp

lemma hex_text_obtain:
  assumes "hex_text s"
  obtains b where "s = bytes_hex b" and "length b = 32"
  using hex_pairs [of s 32] assms by (auto simp: hex_text_def)

text \<open>Verification through the client: the arguments are read back and the answer is the test
  of the HMAC.\<close>

lemma client_verify:
  assumes "length p = 32" "length a = 32" "length m = 32" "length h = 32" and "0 \<le> n"
  shows "run_client audit_client [''verify'', int_str n, bytes_hex p, bytes_hex a, bytes_hex m, bytes_hex h] st =
    (if n < 2 ^ 64 \<and> hmac_sha256 (as_key st) (link_msg m (nat n) p a) = h
     then Inr ''VALID'' else Inl CalledProcessError, st)"
proof -
  have strip: "strip (''VALID'' @ [CHR 0x0A]) = ''VALID''" by code_simp
  have seq: "unat (word_of_int n :: 64 word) = nat n" if "n < 2 ^ 64"
    using that assms(5) by (simp add: unsigned_of_int nat_take_bit_eq take_bit_nat_eq_self_iff take_bit_eq_mod nat_less_iff)
  show ?thesis
  proof (cases "n < 2 ^ 64")
    case True
    then have "decode_receipt (int_str n) (bytes_hex p) (bytes_hex a) (bytes_hex m) (bytes_hex h)
        = Some \<lparr>ar_sequence = word_of_int n, ar_previous = p, ar_alert = a, ar_model = m, ar_head = h\<rparr>"
      using assms by (simp add: decode_receipt_def decode_sequence_str decode_hash_hex)
    then show ?thesis
      using True seq [OF True] strip
      by (simp add: run_client_def audit_client.simps ta_verify_def compute_hmac_link exit_code_def)
  next
    case False
    then have "decode_receipt (int_str n) (bytes_hex p) (bytes_hex a) (bytes_hex m) (bytes_hex h) = None"
      using assms(5) by (simp add: decode_receipt_def decode_sequence_str)
    then show ?thesis using False by (simp add: run_client_def audit_client.simps usage_def)
  qed
qed

text \<open>One step of the loop in terms of bytes.\<close>

lemma check_record_hex:
  assumes "check_record rec (previous, n, mo) = Inr (Some (receipt, acc))"
  obtains p m h where "previous = bytes_hex p" "length p = 32" "length m = 32" "length h = 32"
    "acc = (bytes_hex h, n + 1, Some (bytes_hex m))" "mo = None \<or> mo = Some (bytes_hex m)"
    "verify_arguments receipt = Inr [''verify'', int_str (n + 1), previous, bytes_hex (alert_digest (record_alert rec)), bytes_hex m, bytes_hex h]"
proof -
  from assms obtain alert p a m h where
    f: "py_subscript rec ''alert'' = Inr alert" "hash_fields receipt = Inr (p, a, m, h)"
      "list_all hex_text [p, a, m, h]" "int_field receipt ''sequence'' = Inr (n + 1)"
      "p = previous" "a = bytes_hex (sha256 (canonical_json alert))"
      "\<not> (case mo of None \<Rightarrow> False | Some m' \<Rightarrow> m \<noteq> m')"
      "acc = (h, n + 1, Some m)"
    by (auto simp: check_record_def bindE_eq_Inr_iff Let_def split: if_splits)
  have al: "record_alert rec = alert"
    using f(1) by (cases rec) (auto simp: record_alert_def split: option.splits)
  obtain pb where pb: "p = bytes_hex pb" "length pb = 32" using f(3) hex_text_obtain by auto
  obtain mb where mb: "m = bytes_hex mb" "length mb = 32" using f(3) hex_text_obtain by auto
  obtain hb where hb: "h = bytes_hex hb" "length hb = 32" using f(3) hex_text_obtain by auto
  show thesis
    by (rule that [of pb mb hb])
       (use f pb mb hb al in \<open>auto simp: verify_arguments_def alert_digest_def split: option.splits\<close>)
qed

lemma verify_after_check:
  assumes "check_record rec (bytes_hex p, n, mo) = Inr (Some (receipt, acc))" and "0 \<le> n"
  obtains m h where "length m = 32" "length h = 32"
    "acc = (bytes_hex h, n + 1, Some (bytes_hex m))" "mo = None \<or> mo = Some (bytes_hex m)"
    "optee_verify_receipt audit_client receipt st =
       (Inr (n + 1 < 2 ^ 64 \<and> hmac_sha256 (as_key st) (link_msg m (nat n + 1) p (alert_digest (record_alert rec))) = h), st)"
proof (rule check_record_hex [OF assms(1)])
  fix p' m h
  assume p': "bytes_hex p = bytes_hex p'" "length p' = 32"
    and a: "length m = 32" "length h = 32"
      "acc = (bytes_hex h, n + 1, Some (bytes_hex m))" "mo = None \<or> mo = Some (bytes_hex m)"
    and v: "verify_arguments receipt = Inr [''verify'', int_str (n + 1), bytes_hex p,
      bytes_hex (alert_digest (record_alert rec)), bytes_hex m, bytes_hex h]"
  have p: "length p = 32" using p' by simp
  have "optee_verify_receipt audit_client receipt st =
       (Inr (n + 1 < 2 ^ 64 \<and> hmac_sha256 (as_key st) (link_msg m (nat n + 1) p (alert_digest (record_alert rec))) = h), st)"
    using client_verify [OF p length_alert_digest a(1,2), of "n + 1" "record_alert rec" st] assms(2)
    by (simp add: optee_verify_receipt_def v nat_add_distrib)
  with a show thesis by (rule that)
qed

lemma optee_loop_accepted:
  assumes "optee_loop audit_client rs (bytes_hex p, n, mo) st = (Inr (Some (h', n', mo')), st')"
    and "length p = 32" and "0 \<le> n"
  shows "st' = st \<and> n' = n + int (length rs) \<and>
    (if rs = [] then h' = bytes_hex p \<and> mo' = mo
     else \<exists>m. length m = 32 \<and> mo' = Some (bytes_hex m) \<and> (mo = None \<or> mo = mo') \<and>
       h' = bytes_hex (chain_head (link_msg m) (hmac_sha256 (as_key st)) (nat n + 1) p
         (map (\<lambda>r. alert_digest (record_alert r)) rs)))"
  using assms
proof (induction rs arbitrary: p n mo)
  case (Cons r rs)
  let ?d = "\<lambda>r. alert_digest (record_alert r)"
  obtain receipt acc where c: "check_record r (bytes_hex p, n, mo) = Inr (Some (receipt, acc))"
    using Cons.prems(1) by (auto split: sum.splits option.splits if_splits)
  obtain m h where a: "length m = 32" "length h = 32" "acc = (bytes_hex h, n + 1, Some (bytes_hex m))"
      "mo = None \<or> mo = Some (bytes_hex m)"
    and v: "optee_verify_receipt audit_client receipt st =
       (Inr (n + 1 < 2 ^ 64 \<and> hmac_sha256 (as_key st) (link_msg m (nat n + 1) p (?d r)) = h), st)"
    by (rule verify_after_check [OF c Cons.prems(3), of st])
  have ok: "n + 1 < 2 ^ 64" "h = hmac_sha256 (as_key st) (link_msg m (nat n + 1) p (?d r))"
    using Cons.prems(1) c v by (auto split: if_splits bool.splits)
  have rest: "optee_loop audit_client rs (bytes_hex h, n + 1, Some (bytes_hex m)) st = (Inr (Some (h', n', mo')), st')"
    using Cons.prems(1) c v ok a(3) by simp
  have n: "nat (n + 1) = Suc (nat n)" using Cons.prems(3) by simp
  from Cons.IH [OF rest a(2)] Cons.prems(3) show ?case
    using a(1,4) ok(2) n by (auto split: if_splits)
qed simp

lemma client_verify_key:
  assumes "as_key st' = as_key st"
  shows "run_client audit_client [''verify'', s, p, a, m, h] st' = (fst (run_client audit_client [''verify'', s, p, a, m, h] st), st')"
  using assms
  by (auto simp: run_client_def audit_client.simps ta_verify_def compute_hmac_def usage_def split: option.splits)

lemma verify_arguments_shape:
  "verify_arguments receipt = Inr args \<Longrightarrow> \<exists>s p a m h. args = [''verify'', s, p, a, m, h]"
  by (auto simp: verify_arguments_def bindE_eq_Inr_iff)

lemma optee_verify_receipt_key:
  assumes "as_key st' = as_key st"
  shows "optee_verify_receipt audit_client receipt st' = (fst (optee_verify_receipt audit_client receipt st), st')"
proof (cases "verify_arguments receipt")
  case (Inl e)
  then show ?thesis by (simp add: optee_verify_receipt_def)
next
  case (Inr args)
  then obtain s p a m h where "args = [''verify'', s, p, a, m, h]" using verify_arguments_shape by blast
  with Inr client_verify_key [OF assms, of s p a m h] client_verify_key [OF refl, of s p a m h st] show ?thesis
    by (auto simp: optee_verify_receipt_def split: prod.splits sum.splits)
qed

lemma optee_loop_key:
  assumes "as_key st' = as_key st"
  shows "optee_loop audit_client rs acc st' = (fst (optee_loop audit_client rs acc st), st')"
proof (induction rs arbitrary: acc)
  case (Cons r rs)
  have v: "optee_verify_receipt audit_client receipt st = (fst (optee_verify_receipt audit_client receipt st), st)" for receipt
    by (rule optee_verify_receipt_key [OF refl])
  show ?case
  proof (cases "check_record r acc")
    case (Inr x)
    show ?thesis
    proof (cases x)
      case (Some y)
      obtain receipt acc' where y: "y = (receipt, acc')" by (cases y)
      define q where "q = fst (optee_verify_receipt audit_client receipt st)"
      have "optee_verify_receipt audit_client receipt st = (q, st)" "optee_verify_receipt audit_client receipt st' = (q, st')"
        using v optee_verify_receipt_key [OF assms] by (simp_all add: q_def)
      then show ?thesis using Inr Some y Cons.IH [of acc'] by (simp split: sum.split bool.split)
    qed (simp add: Inr)
  qed simp
qed simp

lemma optee_loop_append:
  "optee_loop client (rs @ [rec]) acc s =
     (case optee_loop client rs acc s of
        (Inr (Some acc'), s') \<Rightarrow> optee_loop client [rec] acc' s'
      | x \<Rightarrow> x)"
  by (induction rs arbitrary: acc s) (simp_all split: sum.split option.split prod.split bool.split)

lemma start_head: "concat (replicate 32 ''00'') = bytes_hex ZERO_HASH"
  by code_simp

lemma get_head_client: "optee_get_head audit_client st = (Inr (head_json st), st)"
  by (simp add: optee_get_head_def run_client_def audit_client.simps print_head_read)

lemma head_matches_iff:
  "head_matches (head_json st) (h, n, m) = Inr True \<longleftrightarrow>
     n = uint (as_sequence st) \<and> h = bytes_hex (as_head st) \<and> (n = 0 \<or> m = Some (bytes_hex (as_model st)))"
  by (auto simp: head_matches_def head_json_def int_field_def text_field_def dget_def)

lemma head_matches_ok: "is_ok (head_matches (head_json st) acc)"
  by (cases acc) (auto simp: head_matches_def head_json_def int_field_def text_field_def dget_def)

definition optee_chain :: "audit_state \<Rightarrow> pyval list \<Rightarrow> bool" where
  "optee_chain st rs \<longleftrightarrow> ta_inv st \<and> optee_verify_chain audit_client rs True st = (Inr True, st)"

lemma optee_chain_current:
  "optee_verify_chain audit_client rs True st = (Inr True, st') \<longleftrightarrow> st' = st \<and>
    (\<exists>m. optee_loop audit_client rs (bytes_hex ZERO_HASH, 0, None) st =
        (Inr (Some (bytes_hex (as_head st), uint (as_sequence st), m)), st)
      \<and> (as_sequence st = 0 \<or> m = Some (bytes_hex (as_model st))))"
proof -
  obtain q where q: "optee_loop audit_client rs (bytes_hex ZERO_HASH, 0, None) st = (q, st)"
    using optee_loop_key [OF refl, of rs "(bytes_hex ZERO_HASH, 0, None)" st] by (metis)
  show ?thesis
  proof (cases q)
    case (Inr x)
    show ?thesis
    proof (cases x)
      case (Some acc)
      obtain h n m where acc: "acc = (h, n, m)" by (cases acc)
      obtain b where b: "head_matches (head_json st) acc = Inr b" using head_matches_ok [of st acc] by (rule is_okE)
      then show ?thesis
        using head_matches_iff [of st h n m] acc
        by (auto simp: optee_verify_chain_def start_head q Inr Some get_head_client unsigned_eq_0_iff)
    qed (simp add: optee_verify_chain_def start_head q Inr)
  qed (simp add: optee_verify_chain_def start_head q)
qed

lemma zero_hash_length: "length ZERO_HASH = 32"
  by (simp add: ZERO_HASH_def)

lemma optee_chain_length: "optee_chain st rs \<Longrightarrow> uint (as_sequence st) = int (length rs)"
  unfolding optee_chain_def optee_chain_current
  using optee_loop_accepted [OF _ zero_hash_length, of rs 0 None st] by fastforce

lemma optee_register_keeps:
  assumes "optee_chain st rs" and "optee_register audit_client p st = (d, st')"
  shows "optee_chain st' rs \<and> as_sequence st' = as_sequence st"
proof -
  have inv: "ta_inv st" using assms(1) by (simp add: optee_chain_def)
  obtain r where r: "ta_register (sha256 p) st = (r, st')"
    using assms(2) by (auto simp: optee_register_def run_client_def client_register Let_def split: prod.splits)
  have seq: "as_sequence st' = as_sequence st" by (rule ta_register_seq [OF r])
  have inv': "ta_inv st'" by (rule register_agrees(2) [OF inv r])
  show ?thesis
  proof (cases "as_sequence st = 0")
    case True
    then have "rs = []" using optee_chain_length [OF assms(1)] by simp
    moreover have "as_head st' = as_head st" using r by (auto simp: ta_register_def split: if_splits)
    ultimately show ?thesis
      using assms(1) True seq inv' by (simp add: optee_chain_def optee_chain_current)
  next
    case False
    then have "st' = st" using r inv by (auto simp: ta_register_def ta_inv_def split: if_splits)
    with assms(1) show ?thesis by simp
  qed
qed

lemma optee_append_client:
  "optee_append audit_client a st =
    (case ta_append (alert_digest a) st of
       (r, Some rc, st') \<Rightarrow> (Inr (receipt_json rc), st') | (r, None, st') \<Rightarrow> (Inl CalledProcessError, st'))"
  by (auto simp: optee_append_def run_client_def client_append Let_def ta_append_def exit_code_def print_receipt_read)

lemma check_record_receipt:
  assumes "length p = 32" and "length m = 32" and "length h = 32" and "mo = None \<or> mo = Some (bytes_hex m)"
    and "int (unat w) = n + 1"
  shows "check_record (record_of a (receipt_json \<lparr>ar_sequence = w, ar_previous = p, ar_alert = alert_digest a,
      ar_model = m, ar_head = h\<rparr>)) (bytes_hex p, n, mo)
    = Inr (Some (receipt_json \<lparr>ar_sequence = w, ar_previous = p, ar_alert = alert_digest a,
      ar_model = m, ar_head = h\<rparr>, (bytes_hex h, n + 1, Some (bytes_hex m))))"
proof -
  have "uint w = n + 1" using assms(5) by simp
  then show ?thesis
    using assms(1-4) hex_text_hash [of p] hex_text_hash [of m] hex_text_hash [of h] hex_text_hash [OF length_alert_digest, of a]
    by (auto simp: check_record_def record_of_def receipt_json_def receipt_of_def hash_fields_def text_field_def
        int_field_def dget_def Let_def alert_digest_def)
qed

definition ta_room :: "nat \<Rightarrow> audit_state \<Rightarrow> bool" where
  "ta_room n st \<longleftrightarrow> unat (as_sequence st) + n < 2 ^ 64"

lemma optee_append_extends:
  assumes "optee_chain st rs" and "ta_room (Suc n) st" and "optee_append audit_client a st = (Inr r, st')"
  shows "optee_chain st' (rs @ [record_of a r]) \<and> ta_room n st'"
proof -
  have inv: "ta_inv st" using assms(1) by (simp add: optee_chain_def)
  obtain mo where loop: "optee_loop audit_client rs (bytes_hex ZERO_HASH, 0, None) st =
        (Inr (Some (bytes_hex (as_head st), uint (as_sequence st), mo)), st)"
    and m: "as_sequence st = 0 \<or> mo = Some (bytes_hex (as_model st))"
    using assms(1) by (auto simp: optee_chain_def optee_chain_current)
  have room: "unat (as_sequence st) + 1 < 2 ^ 64" using assms(2) by (simp add: ta_room_def)
  let ?w = "as_sequence st + 1"
  let ?h = "hmac_sha256 (as_key st) (link_msg (as_model st) (unat ?w) (as_head st) (alert_digest a))"
  let ?rc = "\<lparr>ar_sequence = ?w, ar_previous = as_head st, ar_alert = alert_digest a, ar_model = as_model st, ar_head = ?h\<rparr>"
  have reg: "as_registered st" and st': "st' = st\<lparr>as_sequence := ?w, as_head := ?h\<rparr>" and r: "r = receipt_json ?rc"
    using assms(3) by (auto simp: optee_append_client ta_append_def Let_def compute_hmac_link split: if_splits)
  have w: "unat ?w = Suc (unat (as_sequence st))" by (rule unat_plus_one [OF room])
  then have uw: "uint ?w = uint (as_sequence st) + 1" by (metis int_plus_one uint_nat)
  have inv': "ta_inv st'" using inv reg by (simp add: ta_inv_def st')
  have mo: "mo = None \<or> mo = Some (bytes_hex (as_model st))"
  proof (cases "as_sequence st = 0")
    case True
    then have "rs = []" using optee_chain_length [OF assms(1)] by simp
    with loop show ?thesis by simp
  qed (use m in simp)
  have lens: "length (as_head st) = 32" "length (as_model st) = 32" using inv by (simp_all add: ta_inv_def)
  have c: "check_record (record_of a r) (bytes_hex (as_head st), uint (as_sequence st), mo)
      = Inr (Some (r, (bytes_hex ?h, uint (as_sequence st) + 1, Some (bytes_hex (as_model st)))))"
    unfolding r by (rule check_record_receipt) (use lens mo w in simp_all)
  have va: "verify_arguments r = Inr [''verify'', int_str (uint ?w), bytes_hex (as_head st),
      bytes_hex (alert_digest a), bytes_hex (as_model st), bytes_hex ?h]"
    unfolding r by (simp add: verify_arguments_def int_field_def hash_fields_def text_field_def receipt_json_def
        receipt_of_def dget_def)
  have "uint ?w < 2 ^ 64" "nat (uint ?w) = unat ?w" using unsigned_less [of ?w, where ?'a = int] by simp_all
  then have v: "optee_verify_receipt audit_client r st' = (Inr True, st')"
    using client_verify [OF lens(1) length_alert_digest lens(2), of ?h "uint ?w" a st']
    by (simp add: optee_verify_receipt_def va st')
  have "optee_loop audit_client rs (bytes_hex ZERO_HASH, 0, None) st' =
        (Inr (Some (bytes_hex (as_head st), uint (as_sequence st), mo)), st')"
    using optee_loop_key [of st' st] loop by (simp add: st')
  then have "optee_loop audit_client (rs @ [record_of a r]) (bytes_hex ZERO_HASH, 0, None) st' =
        (Inr (Some (bytes_hex (as_head st'), uint (as_sequence st'), Some (bytes_hex (as_model st')))), st')"
    unfolding optee_loop_append by (simp add: c v) (simp add: st' uw)
  then have "optee_chain st' (rs @ [record_of a r])"
    using inv' by (auto simp: optee_chain_def optee_chain_current)
  moreover have "ta_room n st'" using assms(2) w by (simp add: ta_room_def st')
  ultimately show ?thesis by simp
qed

interpretation optee_backend: audit_backend "optee_register audit_client" "optee_append audit_client" ta_room optee_chain
proof
  show "optee_chain s rs \<Longrightarrow> ta_room n s \<Longrightarrow> optee_register audit_client p s = (d, s') \<Longrightarrow> optee_chain s' rs \<and> ta_room n s'"
    for s rs n p d s' using optee_register_keeps [of s rs p d s'] by (simp add: ta_room_def)
  show "optee_chain s rs \<Longrightarrow> optee_append audit_client a s = (Inl e, s') \<Longrightarrow> optee_chain s' rs" for s rs a e s'
    using ta_append_failed [of "alert_digest a" s _ s']
    by (auto simp: optee_append_client split: prod.splits option.splits)
qed (simp_all add: optee_append_extends, simp add: ta_room_def)

lemma optee_chain_fresh: "optee_chain (fresh_state key) []"
  using fresh_inv [of key] unfolding optee_chain_def optee_chain_current
  by (simp add: fresh_state_def)

lemma local_chain_new: "local_chain (new_store key) []"
  by (simp add: local_chain_def audit_inv_new verify_chain_current) (simp add: new_store_def)

section \<open>Which windows are reported\<close>

definition alerting :: "libm \<Rightarrow> detector \<Rightarrow> pyval \<Rightarrow> bool" where
  "alerting lm det row =
     (case detector_score lm det row of Some (Inr score) \<Rightarrow> \<not> fle score (detector_threshold det) | _ \<Rightarrow> False)"

definition reports :: "libm \<Rightarrow> detector \<Rightarrow> pyval \<Rightarrow> pyval \<Rightarrow> pyval \<Rightarrow> bool" where
  "reports lm det model_hash row rec =
     (case detector_score lm det row of
        Some (Inr score) \<Rightarrow> alert_of det model_hash row score = Inr (record_alert rec)
      | _ \<Rightarrow> False)"

lemma record_alert_of [simp]: "record_alert (record_of a r) = a"
  by (simp add: record_alert_def get_record_of)

lemma rows_reported:
  assumes "monitor_rows lm det model_hash app rows s written = Some (Inr (), s', written')"
  shows "\<exists>new. written' = written @ new \<and> list_all2 (reports lm det (PStr model_hash)) (filter (alerting lm det) rows) new"
  using assms
proof (induction rows arbitrary: s written)
  case (Cons row rows)
  then obtain score where sc: "detector_score lm det row = Some (Inr score)"
    by (auto split: option.splits sum.splits)
  show ?case
  proof (cases "fle score (detector_threshold det)")
    case True
    with Cons sc show ?thesis by (simp add: alerting_def)
  next
    case False
    with Cons.prems sc obtain alert receipt s1 where a: "alert_of det (PStr model_hash) row score = Inr alert"
      and rest: "monitor_rows lm det model_hash app rows s1 (written @ [record_of alert receipt]) = Some (Inr (), s', written')"
      by (auto split: sum.splits prod.splits)
    from Cons.IH [OF rest] obtain new where new: "written' = written @ (record_of alert receipt # new)"
      "list_all2 (reports lm det (PStr model_hash)) (filter (alerting lm det) rows) new" by auto
    moreover have "reports lm det (PStr model_hash) row (record_of alert receipt)" "alerting lm det row"
      using sc a False by (simp_all add: reports_def alerting_def)
    ultimately show ?thesis by (intro exI [of _ "record_of alert receipt # new"]) simp
  qed
qed simp

section \<open>A sample batch\<close>

definition sample_model :: string where
  "sample_model = json_dumps (PDict [(''centres'', PList [PInt 0]), (''features'', PList [PStr ''request_rate'']),
     (''scales'', PList [PInt 1]), (''schema'', PStr ''cote3-mon-percentile-v1''), (''threshold'', PInt 0)])"

definition sample_detector :: detector where
  "sample_detector = Percentile \<lparr>pm_features = [''request_rate''], pm_centres = [Fin 0], pm_scales = [Fin 1], pm_threshold = Fin 0\<rparr>"

definition sample_line :: string where
  "sample_line = ''{'' @ join '','' (map member_text [(''ts_unix_ns'', json_dumps (PInt 1500000000)),
     (''run_id'', json_dumps (PStr ''r'')), (''operation'', json_dumps (PStr ''put'')),
     (''result'', json_dumps (PStr ''OK'')), (''input_bytes'', json_dumps (PInt 2))]) @ ''}''"

lemma short_ints: "short_int 0" "short_int 1" "short_int 2" "short_int 1500000000"
  by (simp_all add: short_int_def nat_str.simps)

lemma sample_load: "load_detector sample_model = Inr sample_detector"
proof -
  have "json_loads sample_model = Inr (PDict [(''centres'', PList [PInt 0]), (''features'', PList [PStr ''request_rate'']),
     (''scales'', PList [PInt 1]), (''schema'', PStr ''cote3-mon-percentile-v1''), (''threshold'', PInt 0)])"
    unfolding sample_model_def by (subst json_round_trip) (simp_all add: short_ints)
  then show ?thesis
    by (simp add: load_detector_def percentile_load_def field_list_def dget_def float_of_int_small sample_detector_def)
qed

lemma sample_read: "read_jsonl [[sample_line]] = Inr [single_request]"
proof -
  have line: "json_loads sample_line = Inr single_request"
    unfolding sample_line_def single_request_def
    by (intro json_loads_reads reads_dict) (use reads_dumps [of "PInt 1500000000"] reads_dumps [of "PInt 2"]
      reads_dumps [of "PStr ''r''"] reads_dumps [of "PStr ''put''"] reads_dumps [of "PStr ''OK''"] in
      \<open>simp_all add: short_ints\<close>)
  have "strip sample_line \<noteq> []"
    by (simp add: sample_line_def strip_def braces_not_blank)
  then show ?thesis by (simp add: read_jsonl_def line)
qed

definition batch_row :: pyval where
  "batch_row = make_row ''r'' ''unknown'' False 1000000000
     [Fin 1, Fin 1, Fin 0, Fin 0, Fin 0, Fin 0, Fin 0, Fin 0, Fin 2, Fin 2, Fin 0, Fin 0,
      Fin 0, Fin 0, Fin 0, Fin 0, Fin 0, Fin 0]"

lemma batch_row_score: "detector_score lm sample_detector batch_row = Some (Inr (Fin 1))"
  and batch_row_alert: "is_ok (alert_of sample_detector h batch_row (Fin 1))"
  by (simp_all add: sample_detector_def batch_row_def percentile_score_def scaled_deviation_def feature_value_def
      make_row_def ENHANCED_FEATURE_NAMES_def BASE_FEATURE_NAMES_def REPETITION_FEATURE_NAMES_def
      TEMPORAL_FEATURE_NAMES_def dget_def fsub_def unit_ratios py_max_def alert_of_def)

lemma sample_batch:
  assumes "register (utf8_encode sample_model) s = (Inr h, s1)"
    and "\<And>a. \<exists>r s2. app a s1 = (Inr r, s2)"
  shows "\<exists>rec s2. monitor_batch lm register app [[sample_line]] sample_model 1 0 s = Some (Inr (1, 1, h), s2, Some [rec])"
proof -
  obtain a where a: "alert_of sample_detector (PStr h) batch_row (Fin 1) = Inr a" using batch_row_alert by (rule is_okE)
  obtain r s2 where app: "app a s1 = (Inr r, s2)" using assms(2) by blast
  have rows: "aggregate_events [single_request] 1 0 = Inr [batch_row]" by (simp only: batch_row_def single_request_row)
  have t: "detector_threshold sample_detector = Fin 0" by (simp add: sample_detector_def)
  show ?thesis
    by (simp add: monitor_batch_def sample_load assms(1) sample_read rows batch_row_score a app t fle_def)
qed

lemma append_after_register:
  assumes "local_register p (new_store key) = (Inr h, st)"
  shows "\<exists>r st'. local_append a st = (Inr r, st')"
proof -
  have "holds st (sha256 p) []"
    using assms register_holds(1) [of p key h st] by (auto simp: local_register_def split: sum.splits)
  from append_holds [OF this, of a] show ?thesis by (simp add: local_append_def)
qed

lemma optee_append_after_register:
  assumes "optee_register audit_client p (fresh_state key) = (Inr h, st)"
  shows "\<exists>r st'. optee_append audit_client a st = (Inr r, st')"
  using assms
  by (auto simp: optee_register_def run_client_def client_register Let_def ta_register_def fresh_state_def
      optee_append_client ta_append_def exit_code_def)

lemma register_samples:
  "local_register p (new_store key) = (Inr (bytes_hex (sha256 p)), snd (local_register p (new_store key)))"
  "optee_register audit_client p (fresh_state key) =
     (Inr (bytes_hex (sha256 p)), snd (optee_register audit_client p (fresh_state key)))"
  by (simp_all add: local_register_def register_new optee_register_def run_client_def client_register Let_def
      ta_register_def fresh_state_def exit_code_def)

lemma sample_batches:
  "\<exists>rec st'. monitor_batch sample_libm local_register local_append [[sample_line]] sample_model 1 0 (new_store [7])
     = Some (Inr (1, 1, bytes_hex (sha256 (utf8_encode sample_model))), st', Some [rec])"
  "\<exists>rec st'. monitor_batch sample_libm (optee_register audit_client) (optee_append audit_client) [[sample_line]]
     sample_model 1 0 (fresh_state [7])
     = Some (Inr (1, 1, bytes_hex (sha256 (utf8_encode sample_model))), st', Some [rec])"
  by (rule sample_batch, rule register_samples,
      rule append_after_register optee_append_after_register, rule register_samples)+

section \<open>Properties\<close>

text \<open>With the local store, whatever the telemetry, the model, the detector and the
  outcome of the batch, the records it has written extend the accepted history: history and
  new records together verify against the store with its current head.\<close>

theorem local_alerts_verify:
  assumes "audit_inv st" and "verify_chain st history True = Inr True"
    and "monitor_batch lm local_register local_append telemetry model_text window warmup st = Some (r, st', written)"
  shows "audit_inv st' \<and> verify_chain st' (history @ (case written of None \<Rightarrow> [] | Some w \<Rightarrow> w)) True = Inr True"
  using local_backend.batch_extends [OF _ _ _ assms(3), of history] assms(1,2) by (simp add: local_chain_def)

theorem local_alerts_verify_witness:
  "\<exists>rec st'. monitor_batch sample_libm local_register local_append [[sample_line]] sample_model 1 0 (new_store [7])
      = Some (Inr (1, 1, bytes_hex (sha256 (utf8_encode sample_model))), st', Some [rec])
    \<and> audit_inv st' \<and> verify_chain st' [rec] True = Inr True"
proof -
  obtain rec st' where b: "monitor_batch sample_libm local_register local_append [[sample_line]] sample_model 1 0 (new_store [7])
      = Some (Inr (1, 1, bytes_hex (sha256 (utf8_encode sample_model))), st', Some [rec])"
    using sample_batches(1) by blast
  then show ?thesis
    using local_alerts_verify [OF _ _ b, of "[]"] local_chain_new [of "[7]"] by (auto simp: local_chain_def)
qed

text \<open>C26. With the trusted application behind its client the same holds for the verification
  that \<open>OpteeAuditBackend\<close> does through the client, as long as the 64-bit sequence number has
  room for the windows of the batch.\<close>

theorem optee_alerts_verify:
  assumes "ta_inv st" and "optee_verify_chain audit_client history True st = (Inr True, st)"
    and "\<And>rows. bindE (read_jsonl telemetry) (\<lambda>es. aggregate_events es window warmup) = Inr rows \<Longrightarrow>
      unat (as_sequence st) + length rows < 2 ^ 64"
    and "monitor_batch lm (optee_register audit_client) (optee_append audit_client) telemetry model_text window warmup st
      = Some (r, st', written)"
  shows "ta_inv st' \<and> optee_verify_chain audit_client
      (history @ (case written of None \<Rightarrow> [] | Some w \<Rightarrow> w)) True st' = (Inr True, st')"
proof -
  have "ta_room 0 st" using unsigned_less [of "as_sequence st", where ?'a = nat] by (simp add: ta_room_def)
  from optee_backend.batch_extends [OF _ _ this assms(4), of history] assms(1-3) show ?thesis
    by (simp add: optee_chain_def ta_room_def)
qed

theorem optee_alerts_verify_witness:
  "\<exists>rec st'. monitor_batch sample_libm (optee_register audit_client) (optee_append audit_client) [[sample_line]] sample_model 1 0
      (fresh_state [7]) = Some (Inr (1, 1, bytes_hex (sha256 (utf8_encode sample_model))), st', Some [rec])
    \<and> ta_inv st' \<and> optee_verify_chain audit_client [rec] True st' = (Inr True, st')"
proof -
  obtain rec st' where b: "monitor_batch sample_libm (optee_register audit_client) (optee_append audit_client) [[sample_line]] sample_model 1 0
      (fresh_state [7]) = Some (Inr (1, 1, bytes_hex (sha256 (utf8_encode sample_model))), st', Some [rec])"
    using sample_batches(2) by blast
  have "ta_inv st' \<and> optee_verify_chain audit_client ([] @ (case Some [rec] of None \<Rightarrow> [] | Some w \<Rightarrow> w)) True st' = (Inr True, st')"
    by (rule optee_alerts_verify [OF _ _ _ b])
       (use optee_chain_fresh [of "[7]"] in \<open>auto simp: optee_chain_def sample_read single_request_row fresh_state_def\<close>)
  then show ?thesis using b by auto
qed

text \<open>C5. Binding through the client: two record lists, of any shape, that \<open>verify_chain\<close> of the
  OP-TEE backend accepts against one state of the trusted application have the same length
  and the same canonical JSON of every alert, unless SHA-256 collides on two of the alerts or
  HMAC on two of the messages at one position.\<close>

theorem optee_chain_is_bound:
  assumes "optee_verify_chain audit_client records True st = (Inr True, st1)"
    and "optee_verify_chain audit_client records' True st = (Inr True, st2)"
  defines "texts \<equiv> map (\<lambda>r. canonical_json (record_alert r))"
  defines "msgs \<equiv> \<lambda>rs. audit_links (as_key st) (as_model st) (map (\<lambda>r. alert_digest (record_alert r)) rs)"
  shows "st1 = st \<and> length records = length records' \<and>
    (texts records = texts records' \<or> collide sha256 (texts records) (texts records')
     \<or> collide (hmac_sha256 (as_key st)) (msgs records) (msgs records'))"
proof -
  let ?ds = "map (\<lambda>r. alert_digest (record_alert r))"
  have acc: "uint (as_sequence st) = int (length rs) \<and>
      (rs \<noteq> [] \<longrightarrow> as_head st = audit_head (as_key st) (as_model st) (?ds rs))"
    if "optee_verify_chain audit_client rs True st = (Inr True, st')" for rs st'
  proof -
    obtain mo where l: "optee_loop audit_client rs (bytes_hex ZERO_HASH, 0, None) st =
        (Inr (Some (bytes_hex (as_head st), uint (as_sequence st), mo)), st)"
      and m: "as_sequence st = 0 \<or> mo = Some (bytes_hex (as_model st))"
      using \<open>optee_verify_chain audit_client rs True st = (Inr True, st')\<close> by (auto simp: optee_chain_current)
    note a = optee_loop_accepted [OF l zero_hash_length order_refl]
    have "as_head st = audit_head (as_key st) (as_model st) (?ds rs)" if "rs \<noteq> []"
    proof -
      have "as_sequence st \<noteq> 0" using a that by auto
      with a that m show ?thesis by auto
    qed
    with a show ?thesis by simp
  qed
  have len: "length records = length records'" using acc [OF assms(1)] acc [OF assms(2)] by simp
  have items: "list_all (\<lambda>d. length d = 32) (?ds rs)" for rs by (simp add: list_all_iff)
  have "?ds records = ?ds records' \<or> collide (hmac_sha256 (as_key st)) (msgs records) (msgs records')"
  proof (cases "records = []")
    case False
    then have "records' \<noteq> []" using len by auto
    with False have "audit_head (as_key st) (as_model st) (?ds records) = audit_head (as_key st) (as_model st) (?ds records')"
      using acc [OF assms(1)] acc [OF assms(2)] by metis
    from receipts.head_binds [OF _ items items this] len show ?thesis by (simp add: msgs_def)
  qed (use len in simp)
  moreover have "texts records = texts records' \<or> collide sha256 (texts records) (texts records')"
    if "?ds records = ?ds records'"
    by (rule map_eq_or_collide) (use that in \<open>simp add: texts_def alert_digest_def comp_def\<close>)
  moreover have "st1 = st" using assms(1) by (simp add: optee_chain_current)
  ultimately show ?thesis using len by blast
qed

theorem optee_chain_is_bound_witness:
  "\<exists>rec st. optee_verify_chain audit_client [rec] True st = (Inr True, st) \<and>
    (st = st \<and> length [rec] = length [rec] \<and>
     (map (\<lambda>r. canonical_json (record_alert r)) [rec] = map (\<lambda>r. canonical_json (record_alert r)) [rec]
      \<or> collide sha256 (map (\<lambda>r. canonical_json (record_alert r)) [rec]) (map (\<lambda>r. canonical_json (record_alert r)) [rec])
      \<or> collide (hmac_sha256 (as_key st))
          (audit_links (as_key st) (as_model st) (map (\<lambda>r. alert_digest (record_alert r)) [rec]))
          (audit_links (as_key st) (as_model st) (map (\<lambda>r. alert_digest (record_alert r)) [rec]))))"
proof -
  obtain rec st where "optee_chain st [rec]"
    using optee_backend.batch_extends [OF optee_chain_fresh, of "[[sample_line]]" 1 0 _ sample_libm sample_model]
      sample_batches(2) by (fastforce simp: sample_read single_request_row ta_room_def fresh_state_def)
  then have v: "optee_verify_chain audit_client [rec] True st = (Inr True, st)" by (simp add: optee_chain_def)
  from optee_chain_is_bound [OF v v] v show ?thesis by blast
qed

text \<open>C9. A batch that returns reports exactly the windows whose score is not at most the
  threshold, in their order: each such row has one record, whose alert is built from that row,
  its score and the hash that the registration returned, and the summary counts rows and
  records.\<close>

theorem batch_reports_exactly:
  assumes "monitor_batch lm register app telemetry model_text window warmup s
      = Some (Inr (windows, alerts, model_hash), s', Some written)"
  shows "\<exists>det events rows. load_detector model_text = Inr det \<and> read_jsonl telemetry = Inr events
    \<and> aggregate_events events window warmup = Inr rows \<and> fst (register (utf8_encode model_text) s) = Inr model_hash
    \<and> windows = length rows \<and> alerts = length (filter (alerting lm det) rows)
    \<and> list_all2 (reports lm det (PStr model_hash)) (filter (alerting lm det) rows) written"
proof -
  from assms obtain det s1 events rows where d: "load_detector model_text = Inr det"
    and r: "register (utf8_encode model_text) s = (Inr model_hash, s1)"
    and e: "read_jsonl telemetry = Inr events" "aggregate_events events window warmup = Inr rows"
    and l: "monitor_rows lm det model_hash app rows s1 [] = Some (Inr (), s', written)"
    and n: "windows = length rows" "alerts = length written"
    by (auto simp: monitor_batch_def mapR_eq_Inr_iff bindE_eq_Inr_iff split: sum.splits prod.splits)
  from rows_reported [OF l] have w: "list_all2 (reports lm det (PStr model_hash)) (filter (alerting lm det) rows) written" by simp
  from list_all2_lengthD [OF w] show ?thesis using d r e n w by auto
qed

theorem batch_reports_exactly_witness:
  "\<exists>rec. list_all2 (reports sample_libm sample_detector (PStr (bytes_hex (sha256 (utf8_encode sample_model)))))
     (filter (alerting sample_libm sample_detector) [batch_row]) [rec]"
proof -
  obtain rec st' where "monitor_batch sample_libm local_register local_append [[sample_line]] sample_model 1 0 (new_store [7])
      = Some (Inr (1, 1, bytes_hex (sha256 (utf8_encode sample_model))), st', Some [rec])"
    using sample_batches(1) by blast
  from batch_reports_exactly [OF this] show ?thesis
    by (auto simp: sample_load sample_read single_request_row [folded batch_row_def] simp del: filter.simps)
qed

end
