(* ===== verification/Mock_Gateway.thy ===== *)
theory Mock_Gateway
  imports Protocol Crypto PyVal
begin

text \<open>
  \<open>cote3mon/mock_gateway.py\<close>: the development gateway.  Its state is the object store
  (\<open>self.storage\<close>, a dict), the run's labels, the fingerprint key and the telemetry file,
  kept as the list of the events written to it.  \<open>handle\<close> is \<open>_handle\<close> for one
  connection, \<open>serve\<close> the loop of \<open>_serve\<close> over the connections that are accepted one
  after the other.  The clock readings and the success of \<open>sendall\<close> are inputs of a
  connection.
\<close>

section \<open>The object store interface\<close>

locale object_store =
  fixes put :: "'k \<Rightarrow> 'v \<Rightarrow> 's \<Rightarrow> 's" and get :: "'s \<Rightarrow> 'k \<Rightarrow> 'v option"
    and remove :: "'k \<Rightarrow> 's \<Rightarrow> 's" and inv :: "'s \<Rightarrow> bool"
  assumes get_put: "inv s \<Longrightarrow> get (put k v s) = (get s)(k \<mapsto> v)"
    and get_remove: "inv s \<Longrightarrow> get (remove k s) = (get s)(k := None)"
    and inv_put: "inv s \<Longrightarrow> inv (put k v s)"
    and inv_remove: "inv s \<Longrightarrow> inv (remove k s)"
begin

lemmas store_laws = get_put get_remove inv_put inv_remove

lemma get_put_same: "inv s \<Longrightarrow> get (put k v s) k = Some v"
  by (simp add: get_put)

lemma get_remove_same: "inv s \<Longrightarrow> get (remove k s) k = None"
  by (simp add: get_remove)

lemma put_overwrites: "inv s \<Longrightarrow> get (put k v (put k w s)) = get (put k v s)"
  by (simp add: store_laws)

end

section \<open>State\<close>

type_synonym storage = "(bytes \<times> bytes) list"

record gateway =
  gw_storage :: storage
  gw_run_id :: string
  gw_scenario :: string
  gw_is_attack :: bool
  gw_fingerprint_key :: bytes
  gw_telemetry :: "pyval list"

text \<open>\<open>MockGateway.__init__\<close>; the key is \<open>os.urandom(16)\<close>.\<close>

definition new_gateway :: "string \<Rightarrow> string \<Rightarrow> bool \<Rightarrow> bytes \<Rightarrow> gateway" where
  "new_gateway run_id scenario is_attack urandom16 =
     \<lparr>gw_storage = [], gw_run_id = run_id, gw_scenario = scenario, gw_is_attack = is_attack,
      gw_fingerprint_key = urandom16, gw_telemetry = []\<rparr>"

definition store_remove :: "bytes \<Rightarrow> storage \<Rightarrow> storage" where
  "store_remove k d = AList.delete k d"

interpretation dict_store: object_store
  "dset :: bytes \<Rightarrow> bytes \<Rightarrow> storage \<Rightarrow> storage" dget store_remove "\<lambda>d. distinct (map fst d)"
proof
  fix s :: storage and k v :: bytes
  show "distinct (map fst s) \<Longrightarrow> dget (dset k v s) = (dget s)(k \<mapsto> v)"
    by (rule dget_dset)
  show "distinct (map fst s) \<Longrightarrow> dget (store_remove k s) = (dget s)(k := None)"
    by (simp add: store_remove_def dget_def delete_conv' fun_eq_iff)
  show "distinct (map fst s) \<Longrightarrow> distinct (map fst (dset k v s))"
    by (rule distinct_dset)
  show "distinct (map fst s) \<Longrightarrow> distinct (map fst (store_remove k s))"
    by (simp add: store_remove_def distinct_delete)
qed

section \<open>Fingerprints\<close>

text \<open>\<open>_fingerprint\<close>: every part is hashed after its length, as four bytes.\<close>

definition frame_part :: "bytes \<Rightarrow> bytes" where
  "frame_part part = be_bytes 4 (length part) @ part"

definition fingerprint :: "bytes \<Rightarrow> bytes list \<Rightarrow> string" where
  "fingerprint key parts = bytes_hex (blake2b key 8 (concat (map frame_part parts)))"

section \<open>One connection\<close>

text \<open>The if/elif chain of \<open>_handle\<close> on a parsed request: the status, the value of
  the response and the store afterwards.\<close>

definition perform :: "request \<Rightarrow> storage \<Rightarrow> status \<times> bytes \<times> storage" where
  "perform r d =
     (case req_op r of
        PUT \<Rightarrow> (OK, [], dset (req_key r) (req_value r) d)
      | GET \<Rightarrow> (case dget d (req_key r) of Some v \<Rightarrow> (OK, v, d) | None \<Rightarrow> (NOT_FOUND, [], d))
      | DELETE \<Rightarrow> (case dget d (req_key r) of
                     Some v \<Rightarrow> (OK, [], store_remove (req_key r) d)
                   | None \<Rightarrow> (NOT_FOUND, [], d)))"

fun operation_name :: "operation \<Rightarrow> string" where
  "operation_name PUT = ''PUT''"
| "operation_name GET = ''GET''"
| "operation_name DELETE = ''DELETE''"

fun status_name :: "status \<Rightarrow> string" where
  "status_name OK = ''OK''"
| "status_name INVALID = ''INVALID''"
| "status_name NOT_FOUND = ''NOT_FOUND''"
| "status_name BACKEND_ERROR = ''BACKEND_ERROR''"
| "status_name TOO_LARGE = ''TOO_LARGE''"
| "status_name PROTOCOL_ERROR = ''PROTOCOL_ERROR''"

record 's connection =
  conn_stream :: 's
  conn_send_ok :: bool
  conn_elapsed_ns :: int
  conn_now_ns :: int

text \<open>What \<open>_handle\<close> has in its local variables when it emits the event.\<close>

record outcome =
  out_request :: "request option"
  out_operation :: string
  out_input_bytes :: nat
  out_status :: status
  out_key_fp :: string
  out_request_fp :: string
  out_sent :: bytes
  out_storage :: storage

definition process :: "'s reader \<Rightarrow> gateway \<Rightarrow> 's connection \<Rightarrow> outcome" where
  "process recv g c =
     (case recv_request recv (conn_stream c) of
        Inl e \<Rightarrow>
          \<lparr>out_request = None, out_operation = ''REJECT'', out_input_bytes = 0,
           out_status = PROTOCOL_ERROR, out_key_fp = [], out_request_fp = [], out_sent = [],
           out_storage = gw_storage g\<rparr>
      | Inr (r, s) \<Rightarrow>
          let key = gw_fingerprint_key g;
              operation_bytes = be_bytes 2 (nat (op_code (req_op r)));
              (st, v, d) = perform r (gw_storage g);
              reply = encode_response \<lparr>resp_id = req_id r, resp_status = st, resp_value = v\<rparr>
          in \<lparr>out_request = Some r, out_operation = operation_name (req_op r),
              out_input_bytes = length (req_key r) + length (req_value r),
              out_status = (if is_ok reply \<and> conn_send_ok c then st else PROTOCOL_ERROR),
              out_key_fp = fingerprint key [req_key r],
              out_request_fp = fingerprint key [operation_bytes, req_key r, req_value r],
              out_sent = (if conn_send_ok c then get_ok reply [] else []),
              out_storage = d\<rparr>)"

definition event_of :: "gateway \<Rightarrow> outcome \<Rightarrow> f64 \<Rightarrow> int \<Rightarrow> pyval" where
  "event_of g out latency_us now_ns =
     PDict
       [(''event_type'', PStr ''request''),
        (''ts_unix_ns'', PInt now_ns),
        (''run_id'', PStr (gw_run_id g)),
        (''container_id'', PStr ''mock-container''),
        (''scenario'', PStr (gw_scenario g)),
        (''is_attack'', PBool (gw_is_attack g)),
        (''request_id'', PInt (case out_request out of Some r \<Rightarrow> req_id r | None \<Rightarrow> 0)),
        (''operation'', PStr (out_operation out)),
        (''input_bytes'', PInt (int (out_input_bytes out))),
        (''result'', PStr (status_name (out_status out))),
        (''error_origin'', PStr (if out_status out \<noteq> OK then ''gateway'' else ''none'')),
        (''latency_us'', PFloat latency_us),
        (''key_fingerprint'', PStr (out_key_fp out)),
        (''request_fingerprint'', PStr (out_request_fp out))]"

definition emit :: "pyval \<Rightarrow> gateway \<Rightarrow> gateway" where
  "emit event g = g\<lparr>gw_telemetry := gw_telemetry g @ [event]\<rparr>"

definition elapsed_us :: "int \<Rightarrow> f64 result" where
  "elapsed_us ns = bindE (float_of_int ns) (\<lambda>x. fdiv x (Fin 1000))"

definition handle :: "'s reader \<Rightarrow> 's connection \<Rightarrow> gateway \<Rightarrow> (bytes \<times> gateway) result" where
  "handle recv c g =
     (let out = process recv g c;
          g1 = g\<lparr>gw_storage := out_storage out\<rparr>
      in bindE (elapsed_us (conn_elapsed_ns c)) (\<lambda>latency_us.
         Inr (out_sent out, emit (event_of g1 out latency_us (conn_now_ns c)) g1)))"

text \<open>\<open>_serve\<close>: the connections in the order they are accepted; the result collects
  what was sent on each.\<close>

fun serve :: "'s reader \<Rightarrow> 's connection list \<Rightarrow> gateway \<Rightarrow> (bytes list \<times> gateway) result" where
  "serve recv [] g = Inr ([], g)"
| "serve recv (c # cs) g =
     bindE (handle recv c g) (\<lambda>(sent, g1).
     bindE (serve recv cs g1) (\<lambda>(rest, g2). Inr (sent # rest, g2)))"

section \<open>Invariant\<close>

definition storage_inv :: "storage \<Rightarrow> bool" where
  "storage_inv d \<longleftrightarrow> distinct (map fst d) \<and>
     (\<forall>k v. dget d k = Some v \<longrightarrow> k \<noteq> [] \<and> length k \<le> 64 \<and> length v \<le> 4096)"

lemma storage_inv_dset:
  "storage_inv d \<Longrightarrow> k \<noteq> [] \<Longrightarrow> length k \<le> 64 \<Longrightarrow> length v \<le> 4096 \<Longrightarrow> storage_inv (dset k v d)"
  by (auto simp: storage_inv_def dict_store.store_laws split: if_splits)

lemma storage_inv_remove: "storage_inv d \<Longrightarrow> storage_inv (store_remove k d)"
  by (auto simp: storage_inv_def dict_store.store_laws split: if_splits)

lemma storage_inv_get: "storage_inv d \<Longrightarrow> dget d k = Some v \<Longrightarrow> length v \<le> 4096"
  by (auto simp: storage_inv_def)

lemma perform_inv:
  assumes "perform r d = (st, v, d')" and "storage_inv d"
    and "is_ok (validate_request (req_op r) (req_key r) (req_value r))"
  shows "storage_inv d'" and "length v \<le> 4096"
proof -
  have "storage_inv d' \<and> length v \<le> 4096"
    using assms
    by (cases "req_op r")
       (auto simp: perform_def validate_request_ok split: option.splits
          intro: storage_inv_dset storage_inv_remove storage_inv_get)
  then show "storage_inv d'" and "length v \<le> 4096" by simp_all
qed

text \<open>The specification of the store: a finite map from keys to values.\<close>

fun spec_step :: "request \<Rightarrow> (bytes \<rightharpoonup> bytes) \<Rightarrow> status \<times> bytes \<times> (bytes \<rightharpoonup> bytes)" where
  "spec_step r m =
     (case (req_op r, m (req_key r)) of
        (PUT, _) \<Rightarrow> (OK, [], m(req_key r \<mapsto> req_value r))
      | (GET, Some v) \<Rightarrow> (OK, v, m)
      | (DELETE, Some v) \<Rightarrow> (OK, [], m(req_key r := None))
      | (_, None) \<Rightarrow> (NOT_FOUND, [], m))"

lemma perform_refines:
  assumes "perform r d = (st, v, d')" and "storage_inv d"
  shows "spec_step r (dget d) = (st, v, dget d')"
  using assms
  by (cases "req_op r")
     (auto simp: perform_def storage_inv_def dict_store.store_laws split: option.splits)


section \<open>The loop\<close>

fun spec_run :: "request list \<Rightarrow> (bytes \<rightharpoonup> bytes) \<Rightarrow> (status \<times> bytes) list \<times> (bytes \<rightharpoonup> bytes)" where
  "spec_run [] m = ([], m)"
| "spec_run (r # rs) m =
     (let (st, v, m1) = spec_step r m; (answers, m2) = spec_run rs m1 in ((st, v) # answers, m2))"

text \<open>A connection that delivers exactly the encoding of a request and stays open for
  the answer.\<close>

definition delivers :: "request \<Rightarrow> bytes list connection \<Rightarrow> bool" where
  "delivers r c \<longleftrightarrow> encode_request r = Inr (concat (conn_stream c)) \<and> no_empty (conn_stream c)
     \<and> conn_send_ok c \<and> \<bar>conn_elapsed_ns c\<bar> \<le> 2 ^ 53"

lemma elapsed_us_ok:
  assumes "\<bar>n\<bar> \<le> 2 ^ 53"
  shows "is_ok (elapsed_us n)"
  using assms by (simp add: elapsed_us_def float_of_int_small)

lemma handle_returns:
  assumes "\<bar>conn_elapsed_ns c\<bar> \<le> 2 ^ 53"
  obtains sent g1 where "handle recv c g = Inr (sent, g1)"
  using elapsed_us_ok [OF assms] by (auto simp: handle_def Let_def elim: is_okE)

lemma handle_storage:
  assumes "handle recv c g = Inr (sent, g1)"
  shows "gw_storage g1 = out_storage (process recv g c)" and "sent = out_sent (process recv g c)"
    and "\<exists>lat. gw_telemetry g1 = gw_telemetry g @
      [event_of (g\<lparr>gw_storage := out_storage (process recv g c)\<rparr>) (process recv g c) lat (conn_now_ns c)]"
  using assms by (auto simp: handle_def Let_def emit_def bindE_eq_Inr_iff)

lemma recv_request_valid:
  assumes "recv_request sock_recv segs = Inr (r, segs')" and "no_empty segs"
  shows "is_ok (validate_request (req_op r) (req_key r) (req_value r))"
proof -
  have "recv_request file_read (concat segs) = Inr (r, concat segs')"
    using sock.recv_request_abs [OF assms(2)] assms(1) by simp
  then obtain bs where "encode_request r = Inr bs" using recv_request_file_Inr by blast
  then show ?thesis by (rule encode_requestE)
qed

lemma process_inv:
  assumes "storage_inv (gw_storage g)" and "no_empty (conn_stream c)"
  shows "storage_inv (out_storage (process sock_recv g c))"
proof (cases "recv_request sock_recv (conn_stream c)")
  case (Inr x)
  then obtain r s where rs: "recv_request sock_recv (conn_stream c) = Inr (r, s)" by (cases x) auto
  obtain st v d where p: "perform r (gw_storage g) = (st, v, d)" by (cases "perform r (gw_storage g)")
  have "storage_inv d" using perform_inv(1) [OF p assms(1)] recv_request_valid [OF rs assms(2)] .
  then show ?thesis by (simp add: process_def rs p Let_def)
qed (simp add: process_def assms(1))

lemma encode_request_id_range:
  assumes "encode_request r = Inr bs"
  shows "0 \<le> req_id r" and "req_id r < 256 ^ 8"
  using assms by (auto simp: encode_request_def REQUEST_STRUCT_def bindE_eq_Inr_iff split: if_splits)

lemma reply_ok:
  assumes "encode_request r = Inr bs" and "length v \<le> 4096"
  shows "is_ok (encode_response \<lparr>resp_id = req_id r, resp_status = st, resp_value = v\<rparr>)"
  using encode_request_id_range [OF assms(1)] assms(2) status_code_range [of st]
  by (simp add: encode_response_def bindE_whenE protocol_constants)

lemma process_delivered:
  assumes "delivers r c" and "storage_inv (gw_storage g)"
    and "perform r (gw_storage g) = (st, v, d)"
  shows "encode_response \<lparr>resp_id = req_id r, resp_status = st, resp_value = v\<rparr>
      = Inr (out_sent (process sock_recv g c))"
    and "out_storage (process sock_recv g c) = d"
proof -
  from assms(1) have enc: "encode_request r = Inr (concat (conn_stream c))"
    and ne: "no_empty (conn_stream c)" and ok: "conn_send_ok c"
    by (auto simp: delivers_def)
  obtain s' where rcv: "recv_request sock_recv (conn_stream c) = Inr (r, s')"
    using sock.recv_request_abs [OF ne] decode_encode_request [OF enc, of "[]"]
    by (auto simp: mapR_eq_Inr_iff)
  have "length v \<le> 4096"
    using perform_inv(2) [OF assms(3,2)] recv_request_valid [OF rcv ne] .
  then obtain reply where "encode_response \<lparr>resp_id = req_id r, resp_status = st, resp_value = v\<rparr> = Inr reply"
    using reply_ok [OF enc] by (blast elim: is_okE)
  then show "encode_response \<lparr>resp_id = req_id r, resp_status = st, resp_value = v\<rparr>
      = Inr (out_sent (process sock_recv g c))"
    and "out_storage (process sock_recv g c) = d"
    by (simp_all add: process_def rcv assms(3) ok Let_def)
qed

lemma handle_delivered:
  assumes "delivers r c" and "storage_inv (gw_storage g)"
    and "spec_step r (dget (gw_storage g)) = (st, v, m)"
  obtains sent g1 where "handle sock_recv c g = Inr (sent, g1)"
    and "encode_response \<lparr>resp_id = req_id r, resp_status = st, resp_value = v\<rparr> = Inr sent"
    and "storage_inv (gw_storage g1)" and "dget (gw_storage g1) = m"
proof -
  obtain st' v' d where p: "perform r (gw_storage g) = (st', v', d)"
    by (cases "perform r (gw_storage g)")
  have eq: "st' = st" "v' = v" "dget d = m"
    using perform_refines [OF p assms(2)] assms(3) by simp_all
  note pd = process_delivered [OF assms(1,2) p]
  have ne: "no_empty (conn_stream c)" using assms(1) by (simp add: delivers_def)
  obtain sent g1 where h: "handle sock_recv c g = Inr (sent, g1)"
    by (rule handle_returns [of c]) (use assms(1) in \<open>simp add: delivers_def\<close>)
  note hs = handle_storage [OF h]
  show thesis
  proof (rule that [OF h])
    show "encode_response \<lparr>resp_id = req_id r, resp_status = st, resp_value = v\<rparr> = Inr sent"
      using pd(1) hs(2) eq by simp
    show "storage_inv (gw_storage g1)" using process_inv [OF assms(2) ne] hs(1) by simp
    show "dget (gw_storage g1) = m" using hs(1) pd(2) eq by simp
  qed
qed

lemma frame_parts_inject:
  assumes "concat (map frame_part ps) = concat (map frame_part qs)"
    and "\<forall>p\<in>set ps \<union> set qs. length p < 256 ^ 4"
  shows "ps = qs"
  using assms
proof (induction ps arbitrary: qs)
  case Nil
  then show ?case by (cases qs) (auto simp: frame_part_def)
next
  case (Cons p ps)
  then obtain q qs' where qs: "qs = q # qs'" by (cases qs) (auto simp: frame_part_def)
  have fp: "frame_part x @ ys = be_bytes 4 (length x) @ x @ ys" for x ys
    by (simp only: frame_part_def append_assoc)
  have eq: "be_bytes 4 (length p) @ p @ concat (map frame_part ps)
      = be_bytes 4 (length q) @ q @ concat (map frame_part qs')"
    using Cons.prems(1) by (simp only: qs list.map concat.simps fp)
  have "length (be_bytes 4 (length p)) = length (be_bytes 4 (length q))" by (simp only: length_be_bytes)
  with eq have "be_bytes 4 (length p) = be_bytes 4 (length q)"
    and rest: "p @ concat (map frame_part ps) = q @ concat (map frame_part qs')"
    using append_eq_append_conv by blast+
  then have "length p = length q"
    using be_bytes_inject [of "length p" 4 "length q"] Cons.prems(2) qs by auto
  with rest have "p = q" and "concat (map frame_part ps) = concat (map frame_part qs')"
    by simp_all
  with Cons.IH [of qs'] Cons.prems(2) qs show ?case by auto
qed

section \<open>A sample run\<close>

definition sample_request :: request where
  "sample_request = \<lparr>req_id = 123, req_op = PUT, req_key = [0x6B, 0x65], req_value = [0x76]\<rparr>"

definition sample_connection :: "bytes list connection" where
  "sample_connection =
     \<lparr>conn_stream = [[0x43, 0x33, 0x4D], [0x31, 0, 1, 0, 1, 0, 0, 0, 0, 0, 0, 0, 123, 0, 0, 0, 2, 0],
                    [0, 0, 1, 0x6B, 0x65, 0x76]],
      conn_send_ok = True, conn_elapsed_ns = 81500, conn_now_ns = 1700000000000000000\<rparr>"

definition short_connection :: "bytes list connection" where
  "short_connection = sample_connection\<lparr>conn_stream := [[0x47, 0x45], [0x54]]\<rparr>"

definition sample_gateway :: gateway where
  "sample_gateway = new_gateway ''run-1'' ''benign'' False [7]"

lemma sample_delivers: "delivers sample_request sample_connection"
  unfolding delivers_def sample_request_def sample_request_bytes
  by (simp add: sample_connection_def no_empty_def)

lemma sample_request_fields:
  "req_op sample_request = PUT" "req_key sample_request = [0x6B, 0x65]"
  "req_value sample_request = [0x76]"
  by (simp_all add: sample_request_def)

lemma storage_inv_Nil: "storage_inv []"
  by (simp add: storage_inv_def dget_def)

lemma sample_gateway_storage: "gw_storage sample_gateway = []"
  by (simp add: sample_gateway_def new_gateway_def)

lemma sample_served:
  obtains sents g' where "serve sock_recv [sample_connection] sample_gateway = Inr (sents, g')"
proof -
  obtain sent g1 where "handle sock_recv sample_connection sample_gateway = Inr (sent, g1)"
    by (rule handle_returns [of sample_connection]) (simp add: sample_connection_def)
  with that show thesis by simp
qed

section \<open>Properties\<close>

text \<open>C4. The gateway refines a finite map: serving connections that deliver encoded
  requests answers each of them with the encoding of what the map specification answers,
  under the request's own identifier, and leaves a store that represents the
  specification's final map.\<close>

theorem serve_refines_map:
  assumes "list_all2 delivers rs cs" and "storage_inv (gw_storage g)"
    and "spec_run rs (dget (gw_storage g)) = (answers, m)"
  shows "\<exists>sents g'. serve sock_recv cs g = Inr (sents, g') \<and> dget (gw_storage g') = m
    \<and> storage_inv (gw_storage g')
    \<and> list_all2 (\<lambda>(r, st, v) sent. encode_response \<lparr>resp_id = req_id r, resp_status = st, resp_value = v\<rparr> = Inr sent)
        (zip rs answers) sents"
  using assms
proof (induction rs cs arbitrary: g answers m rule: list_all2_induct)
  case Nil
  then show ?case by simp
next
  case (Cons r rs c cs)
  obtain st v m1 where st: "spec_step r (dget (gw_storage g)) = (st, v, m1)"
    by (metis prod_cases3)
  obtain as m2 where run: "spec_run rs m1 = (as, m2)" by fastforce
  have am: "answers = (st, v) # as" "m = m2" using Cons.prems(2) st run by simp_all
  from handle_delivered [OF Cons.hyps(1) Cons.prems(1) st] obtain sent g1
    where h: "handle sock_recv c g = Inr (sent, g1)"
      and e: "encode_response \<lparr>resp_id = req_id r, resp_status = st, resp_value = v\<rparr> = Inr sent"
      and i: "storage_inv (gw_storage g1)" and d: "dget (gw_storage g1) = m1" .
  from Cons.IH [OF i, of as m2] run d obtain sents g'
    where s: "serve sock_recv cs g1 = Inr (sents, g')" "dget (gw_storage g') = m2"
      "storage_inv (gw_storage g')"
      "list_all2 (\<lambda>(r, st, v) sent. encode_response \<lparr>resp_id = req_id r, resp_status = st, resp_value = v\<rparr> = Inr sent)
        (zip rs as) sents" by auto
  show ?case using h e s am by (intro exI [of _ "sent # sents"] exI [of _ g']) simp
qed

theorem serve_refines_map_witness:
  "\<exists>sents g'. serve sock_recv [sample_connection, sample_connection] sample_gateway = Inr (sents, g')
    \<and> dget (gw_storage g') = [[0x6B, 0x65] \<mapsto> [0x76]] \<and> storage_inv (gw_storage g')
    \<and> list_all2 (\<lambda>(r, st, v) sent. encode_response \<lparr>resp_id = req_id r, resp_status = st, resp_value = v\<rparr> = Inr sent)
        (zip [sample_request, sample_request] [(OK, []), (OK, [])]) sents"
  by (rule serve_refines_map)
     (simp_all add: sample_delivers sample_gateway_storage storage_inv_Nil dget_def fun_eq_iff
      sample_request_fields)



text \<open>A connection whose bytes do not begin with the encoding of a request gets no
  answer and changes nothing in the store; its event says REJECT and PROTOCOL_ERROR,
  with identifier 0, no input bytes and empty fingerprints.\<close>

theorem malformed_connection_rejected:
  assumes "\<not> (\<exists>r bs rest. encode_request r = Inr bs \<and> concat (conn_stream c) = bs @ rest)"
    and "no_empty (conn_stream c)" and "handle sock_recv c g = Inr (sent, g')"
  shows "sent = [] \<and> gw_storage g' = gw_storage g \<and>
    (\<exists>e. gw_telemetry g' = gw_telemetry g @ [e]
      \<and> py_subscript e ''operation'' = Inr (PStr ''REJECT'')
      \<and> py_subscript e ''result'' = Inr (PStr ''PROTOCOL_ERROR'')
      \<and> py_subscript e ''error_origin'' = Inr (PStr ''gateway'')
      \<and> py_subscript e ''request_id'' = Inr (PInt 0) \<and> py_subscript e ''input_bytes'' = Inr (PInt 0)
      \<and> py_subscript e ''key_fingerprint'' = Inr (PStr [])
      \<and> py_subscript e ''request_fingerprint'' = Inr (PStr []))"
proof (cases "recv_request sock_recv (conn_stream c)")
  case (Inr x)
  then have "recv_request file_read (concat (conn_stream c)) = Inr (fst x, concat (snd x))"
    using sock.recv_request_abs [OF assms(2)] by (simp add: map_prod_def split_beta)
  then show ?thesis using recv_request_file_Inr assms(1) by blast
next
  case (Inl e)
  then show ?thesis using handle_storage [OF assms(3)]
    by (auto simp: process_def event_of_def dget_def)
qed

theorem malformed_connection_rejected_witness:
  "\<exists>sent g'. handle sock_recv short_connection sample_gateway = Inr (sent, g') \<and>
    sent = [] \<and> gw_storage g' = gw_storage sample_gateway \<and>
    (\<exists>e. gw_telemetry g' = gw_telemetry sample_gateway @ [e]
      \<and> py_subscript e ''operation'' = Inr (PStr ''REJECT'')
      \<and> py_subscript e ''result'' = Inr (PStr ''PROTOCOL_ERROR'')
      \<and> py_subscript e ''error_origin'' = Inr (PStr ''gateway'')
      \<and> py_subscript e ''request_id'' = Inr (PInt 0) \<and> py_subscript e ''input_bytes'' = Inr (PInt 0)
      \<and> py_subscript e ''key_fingerprint'' = Inr (PStr [])
      \<and> py_subscript e ''request_fingerprint'' = Inr (PStr []))"
proof -
  have short: "\<not> (\<exists>r bs rest. encode_request r = Inr bs \<and> concat (conn_stream short_connection) = bs @ rest)"
  proof clarify
    fix r bs rest
    assume e: "encode_request r = Inr bs" and c: "concat (conn_stream short_connection) = bs @ rest"
    from e have "24 \<le> length bs" by (rule encode_requestE) simp
    moreover have "length (bs @ rest) = 3" unfolding c [symmetric] by (simp add: short_connection_def)
    ultimately show False by simp
  qed
  obtain sent g' where h: "handle sock_recv short_connection sample_gateway = Inr (sent, g')"
    by (rule handle_returns [of short_connection]) (simp add: short_connection_def sample_connection_def)
  show ?thesis
    using malformed_connection_rejected [OF short _ h] h
    by (simp add: short_connection_def no_empty_def)
qed

text \<open>Two lists of parts have one fingerprint exactly when they are equal or collide
  under keyed BLAKE2b: the length framing itself loses nothing, so moving a byte from one
  part to the next is always a different message.\<close>

theorem fingerprint_collision:
  assumes "\<forall>p\<in>set ps \<union> set qs. length p < 256 ^ 4"
  shows "fingerprint key ps = fingerprint key qs \<longleftrightarrow>
    ps = qs \<or> (concat (map frame_part ps) \<noteq> concat (map frame_part qs)
      \<and> blake2b key 8 (concat (map frame_part ps)) = blake2b key 8 (concat (map frame_part qs)))"
  using frame_parts_inject [OF _ assms] by (auto simp: fingerprint_def)

theorem fingerprint_collision_witness:
  "fingerprint [7] [[1], [2, 3]] = fingerprint [7] [[1, 2], [3]] \<longleftrightarrow>
    (concat (map frame_part [[1], [2, 3]]) \<noteq> concat (map frame_part [[1, 2], [3]])
      \<and> blake2b [7] 8 (concat (map frame_part [[1], [2, 3]]))
        = blake2b [7] 8 (concat (map frame_part [[1, 2], [3]])))"
  using fingerprint_collision [of "[[1], [2, 3]]" "[[1, 2], [3]]" "[7]"] by simp

end
