(* ===== verification/Online_Monitor.thy ===== *)
theory Online_Monitor
  imports Monitor Mock_Gateway
begin

text \<open>
  \<open>scripts/guest-online-monitor.py\<close>: windows are scored while the telemetry files are still
  being written.  The program polls; a poll is what one turn of its main loop finds: the lines
  that can be read from the two files, the time, and whether the marker file exists.  The
  measured times are parameters.  An exception is not caught anywhere and ends the program.
\<close>

section \<open>State\<close>

record online =
  om_first :: "int option"
  om_buckets :: "(int \<times> pyval list) list"
  om_processed :: "int list"
  om_inference :: "f64 list"
  om_audit :: "f64 list"
  om_records :: "pyval list"

definition online_start :: online where
  "online_start = \<lparr>om_first = None, om_buckets = [], om_processed = [], om_inference = [],
     om_audit = [], om_records = []\<rparr>"

section \<open>Reading\<close>

text \<open>One line of \<open>ingest\<close>: whether it was counted, and the new state.\<close>

definition ingest_line :: "int \<Rightarrow> int \<Rightarrow> string \<Rightarrow> nat \<times> online \<Rightarrow> (nat \<times> online) result" where
  "ingest_line window_ns warmup_ns line = (\<lambda>(added, st).
     if strip line = [] then Inr (added, st)
     else
       bindE (json_loads line) (\<lambda>event.
       bindE (event_time event) (\<lambda>timestamp.
       bindE (is_request event) (\<lambda>request.
       let st1 = (if request \<and> om_first st = None then st\<lparr>om_first := Some timestamp\<rparr> else st) in
       case om_first st1 of
         None \<Rightarrow> Inr (added, st1)
       | Some first \<Rightarrow>
           if timestamp < first + warmup_ns then Inr (added, st1)
           else if window_ns = 0 then Inl ZeroDivisionError
           else Inr (Suc added,
             st1\<lparr>om_buckets := group_append (window_start window_ns timestamp) event (om_buckets st1)\<rparr>)))))"

definition ingest :: "int \<Rightarrow> int \<Rightarrow> string list \<Rightarrow> online \<Rightarrow> (nat \<times> online) result" where
  "ingest window_ns warmup_ns lines st = foldE (ingest_line window_ns warmup_ns) lines (0, st)"

section \<open>Scoring\<close>

definition ready :: "int \<Rightarrow> bool \<Rightarrow> int \<Rightarrow> online \<Rightarrow> int list" where
  "ready window_ns force now st =
     sort (filter (\<lambda>start. start \<notin> set (om_processed st) \<and> (force \<or> start + window_ns + 250000000 \<le> now))
       (map fst (om_buckets st)))"

text \<open>The audit backend is optional; the receipt is \<open>None\<close> without one.\<close>

record 's monitoring =
  mo_libm :: libm
  mo_forest :: iforest
  mo_hash :: pyval
  mo_append :: "(pyval \<Rightarrow> 's \<Rightarrow> pyval result \<times> 's) option"
  mo_window :: int
  mo_inference_ns :: "nat \<Rightarrow> int"
  mo_audit_ns :: "nat \<Rightarrow> int"

definition file_alert :: "'s monitoring \<Rightarrow> pyval \<Rightarrow> online \<Rightarrow> 's \<Rightarrow> (online \<times> 's) result" where
  "file_alert mo alert st s =
     (case mo_append mo of
        None \<Rightarrow> Inr (st\<lparr>om_records := om_records st @ [record_of alert PNone]\<rparr>, s)
      | Some app \<Rightarrow>
          (case app alert s of
             (Inl e, s') \<Rightarrow> Inl e
           | (Inr receipt, s') \<Rightarrow>
               bindE (elapsed_us (mo_audit_ns mo (length (om_audit st)))) (\<lambda>t.
               Inr (st\<lparr>om_audit := om_audit st @ [t], om_records := om_records st @ [record_of alert receipt]\<rparr>, s'))))"

definition get_bucket :: "(int \<times> pyval list) list \<Rightarrow> int \<Rightarrow> pyval list" where
  "get_bucket buckets start = (case dget buckets start of None \<Rightarrow> [] | Some b \<Rightarrow> b)"

text \<open>The body of the loop over the ready windows; \<open>None\<close> when a score does not return.\<close>

definition score_window :: "'s monitoring \<Rightarrow> int \<Rightarrow> online \<times> 's \<Rightarrow> (online \<times> 's) result option" where
  "score_window mo start = (\<lambda>(st, s).
     case aggregate_events (get_bucket (om_buckets st) start) (mo_window mo) 0 of
       Inl e \<Rightarrow> Some (Inl e)
     | Inr rows \<Rightarrow>
         let st1 = st\<lparr>om_processed := om_processed st @ [start]\<rparr> in
         if rows = [] then Some (Inr (st1, s))
         else
           (case iforest_score (mo_libm mo) (mo_forest mo) (hd rows) of
              None \<Rightarrow> None
            | Some (Inl e) \<Rightarrow> Some (Inl e)
            | Some (Inr score) \<Rightarrow>
                Some (bindE (elapsed_us (mo_inference_ns mo (length (om_inference st1)))) (\<lambda>t.
                let st2 = st1\<lparr>om_inference := om_inference st1 @ [t]\<rparr> in
                if fle score (if_threshold (mo_forest mo)) then Inr (st2, s)
                else bindE (alert_of (Forest (mo_forest mo)) (mo_hash mo) (hd rows) score) (\<lambda>alert.
                     file_alert mo alert st2 s)))))"

fun score_windows :: "'s monitoring \<Rightarrow> int list \<Rightarrow> online \<times> 's \<Rightarrow> (online \<times> 's) result option" where
  "score_windows mo [] x = Some (Inr x)"
| "score_windows mo (start # starts) x =
     (case score_window mo start x of
        None \<Rightarrow> None
      | Some (Inl e) \<Rightarrow> Some (Inl e)
      | Some (Inr x') \<Rightarrow> score_windows mo starts x')"

definition score_ready :: "'s monitoring \<Rightarrow> bool \<Rightarrow> int \<Rightarrow> online \<times> 's \<Rightarrow> (online \<times> 's) result option" where
  "score_ready mo force now x = score_windows mo (ready (mo_window mo * 1000000000) force now (fst x)) x"

section \<open>Main loop\<close>

record poll =
  po_requests :: "string list"
  po_resources :: "string list"
  po_now :: int
  po_done :: bool

text \<open>The loop ends with the third poll in a row that finds the marker and no new event
  (polls without the marker do not reset the counter).  \<open>None\<close>: the polls given do not end
  it, or a score does not return.\<close>

fun poll_loop :: "'s monitoring \<Rightarrow> int \<Rightarrow> poll list \<Rightarrow> nat \<Rightarrow> online \<times> 's \<Rightarrow> (online \<times> 's) result option" where
  "poll_loop mo warmup_ns [] quiet x = None"
| "poll_loop mo warmup_ns (p # ps) quiet (st, s) =
     (case bindE (ingest (mo_window mo * 1000000000) warmup_ns (po_requests p) st) (\<lambda>(n, st1).
           bindE (ingest (mo_window mo * 1000000000) warmup_ns (po_resources p) st1) (\<lambda>(m, st2). Inr (n + m, st2))) of
        Inl e \<Rightarrow> Some (Inl e)
      | Inr (added, st2) \<Rightarrow>
          (case score_ready mo False (po_now p) (st2, s) of
             None \<Rightarrow> None
           | Some (Inl e) \<Rightarrow> Some (Inl e)
           | Some (Inr x) \<Rightarrow>
               if \<not> po_done p then poll_loop mo warmup_ns ps quiet x
               else let quiet' = (if added = 0 then Suc quiet else 0) in
                 if 3 \<le> quiet' then Some (Inr x) else poll_loop mo warmup_ns ps quiet' x))"

definition latency_summary :: "f64 list \<Rightarrow> pyval result" where
  "latency_summary values =
     bindE (fmean_or_zero values) (\<lambda>mean.
     bindE (percentile values (of_exact (50 / 100))) (\<lambda>p50.
     bindE (percentile values (of_exact (95 / 100))) (\<lambda>p95.
     bindE (percentile values (of_exact (99 / 100))) (\<lambda>p99.
     Inr (PDict [(''count'', PInt (int (length values))), (''mean_us'', PFloat mean), (''p50_us'', PFloat p50),
       (''p95_us'', PFloat p95), (''p99_us'', PFloat p99)])))))"

definition online_result :: "'s monitoring \<Rightarrow> f64 \<Rightarrow> online \<Rightarrow> pyval result" where
  "online_result mo register_us st =
     bindE (latency_summary (om_inference st)) (\<lambda>inference.
     bindE (latency_summary (om_audit st)) (\<lambda>audit.
     Inr (PDict [(''schema'', PStr ''cote3-mon-online-monitor-v1''), (''status'', PStr ''PASS''),
       (''windows'', PInt (int (length (om_inference st)))), (''alerts'', PInt (int (length (om_records st)))),
       (''model_sha256'', mo_hash mo), (''audit_enabled'', PBool (mo_append mo \<noteq> None)),
       (''inference_latency'', inference), (''audit_register_us'', PFloat register_us),
       (''audit_append_latency'', audit)])))"

text \<open>The state when the program writes its files: the polls, then every window still open.\<close>

definition monitor_run :: "'s monitoring \<Rightarrow> int \<Rightarrow> poll list \<Rightarrow> int \<Rightarrow> 's \<Rightarrow> (online \<times> 's) result option" where
  "monitor_run mo warmup_seconds polls last_now s =
     (case poll_loop mo (warmup_seconds * 1000000000) polls 0 (online_start, s) of
        None \<Rightarrow> None
      | Some (Inl e) \<Rightarrow> Some (Inl e)
      | Some (Inr x) \<Rightarrow> score_ready mo True last_now x)"

text \<open>\<open>main\<close> after the arguments are parsed: the alert records, the result file and the state
  of the audit backend.\<close>

record 's backend =
  be_register :: "bytes \<Rightarrow> 's \<Rightarrow> string result \<times> 's"
  be_append :: "pyval \<Rightarrow> 's \<Rightarrow> pyval result \<times> 's"

definition start_audit :: "'s backend option \<Rightarrow> string \<Rightarrow> int \<Rightarrow> 's \<Rightarrow> (pyval \<times> f64 \<times> 's) result" where
  "start_audit audit model_text register_ns s =
     (case audit of
        None \<Rightarrow> Inr (PNone, Fin 0, s)
      | Some b \<Rightarrow>
          (case be_register b (utf8_encode model_text) s of
             (Inl e, s') \<Rightarrow> Inl e
           | (Inr model_hash, s') \<Rightarrow> bindE (elapsed_us register_ns) (\<lambda>t. Inr (PStr model_hash, t, s'))))"

definition online_main :: "libm \<Rightarrow> 's backend option \<Rightarrow> string \<Rightarrow> int \<Rightarrow> int \<Rightarrow> int \<Rightarrow> (nat \<Rightarrow> int) \<Rightarrow> (nat \<Rightarrow> int) \<Rightarrow>
    poll list \<Rightarrow> int \<Rightarrow> 's \<Rightarrow> (pyval list \<times> pyval \<times> 's) result option" where
  "online_main lm audit model_text window_seconds warmup_seconds register_ns inference_ns audit_ns polls last_now s =
     (case bindE (bindE (json_loads model_text) iforest_init) (\<lambda>forest.
           bindE (start_audit audit model_text register_ns s) (\<lambda>started. Inr (forest, started))) of
        Inl e \<Rightarrow> Some (Inl e)
      | Inr (forest, model_hash, register_us, s1) \<Rightarrow>
          let mo = \<lparr>mo_libm = lm, mo_forest = forest, mo_hash = model_hash, mo_append = map_option be_append audit,
                    mo_window = window_seconds, mo_inference_ns = inference_ns, mo_audit_ns = audit_ns\<rparr> in
          map_option (\<lambda>r. bindE r (\<lambda>(st, s2).
              mapR (\<lambda>result. (om_records st, result, s2)) (online_result mo register_us st)))
            (monitor_run mo warmup_seconds polls last_now s1))"

section \<open>Reading keeps what was scored\<close>

lemma get_bucket_append:
  "get_bucket (group_append k x d) j = (if j = k then get_bucket d k @ [x] else get_bucket d j)"
  by (simp add: get_bucket_def dget_group_append)

text \<open>Reading changes the first request and the buckets, and those only outside \<open>scored\<close>.\<close>

definition grown :: "int set \<Rightarrow> online \<Rightarrow> online \<Rightarrow> bool" where
  "grown scored st st' \<longleftrightarrow> om_processed st' = om_processed st \<and> om_records st' = om_records st
     \<and> om_inference st' = om_inference st \<and> om_audit st' = om_audit st
     \<and> fst ` set (om_buckets st) \<subseteq> fst ` set (om_buckets st')
     \<and> (distinct (map fst (om_buckets st)) \<longrightarrow> distinct (map fst (om_buckets st')))
     \<and> (\<forall>k\<in>scored. get_bucket (om_buckets st') k = get_bucket (om_buckets st) k)"

lemma grown_refl: "grown scored st st"
  by (simp add: grown_def)

lemma grown_trans: "grown scored a b \<Longrightarrow> grown scored b c \<Longrightarrow> grown scored a c"
  by (auto simp: grown_def)

text \<open>The event of a line belongs to no window of \<open>scored\<close>.\<close>

definition open_line :: "int \<Rightarrow> int set \<Rightarrow> string \<Rightarrow> bool" where
  "open_line window_ns scored line \<longleftrightarrow>
     (\<forall>event t. json_loads line = Inr event \<longrightarrow> event_time event = Inr t \<longrightarrow> window_start window_ns t \<notin> scored)"

lemma keys_group_append: "fst ` set (group_append k x d) = insert k (fst ` set d)"
  by (simp add: group_append_def keys_dset)

lemma distinct_group_append: "distinct (map fst d) \<Longrightarrow> distinct (map fst (group_append k x d))"
  by (simp add: group_append_def distinct_dset)

lemma grown_append:
  "grown scored a st \<Longrightarrow> k \<notin> scored \<Longrightarrow> grown scored a (st\<lparr>om_buckets := group_append k e (om_buckets st)\<rparr>)"
  by (simp add: grown_def keys_group_append get_bucket_append distinct_group_append) blast

lemma grown_first: "grown scored st (st\<lparr>om_first := f\<rparr>)"
  by (simp add: grown_def)

lemma ingest_line_grown:
  assumes "ingest_line w u line (n, st) = Inr (n', st')" and "open_line w scored line"
  shows "grown scored st st'"
proof (cases "strip line = []")
  case True
  with assms show ?thesis by (simp add: ingest_line_def grown_refl)
next
  case False
  then obtain event t request where e: "json_loads line = Inr event" "event_time event = Inr t" "is_request event = Inr request"
    using assms(1) by (auto simp: ingest_line_def bindE_eq_Inr_iff)
  define st1 where "st1 = (if request \<and> om_first st = None then st\<lparr>om_first := Some t\<rparr> else st)"
  have "grown scored st st1" by (simp add: st1_def grown_first grown_refl)
  moreover have "window_start w t \<notin> scored" using assms(2) e by (simp add: open_line_def)
  moreover have "st' = st1 \<or> st' = st1\<lparr>om_buckets := group_append (window_start w t) event (om_buckets st1)\<rparr>"
    using assms(1) False e by (auto simp: ingest_line_def st1_def [symmetric] Let_def split: option.splits if_splits)
  ultimately show ?thesis using grown_append by metis
qed

lemma ingest_grown:
  assumes "ingest w u lines st = Inr (n, st')" and "\<forall>line\<in>set lines. open_line w scored line"
  shows "grown scored st st'"
proof -
  have "grown scored (snd x) (snd y)" if "foldE (ingest_line w u) lines x = Inr y" for x y
    using that assms(2)
  proof (induction lines arbitrary: x)
    case (Cons line lines)
    then obtain z where z: "ingest_line w u line x = Inr z" and y: "foldE (ingest_line w u) lines z = Inr y"
      by (auto simp: bindE_eq_Inr_iff)
    have "grown scored (snd x) (snd z)"
      using ingest_line_grown [of w u line "fst x" "snd x" "fst z" "snd z" scored] z Cons.prems(2) by simp
    with Cons.IH [OF y] Cons.prems(2) show ?case by (auto intro: grown_trans)
  qed (simp add: grown_refl)
  from this [of "(0, st)" "(n, st')"] assms(1) show ?thesis by (simp add: ingest_def)
qed

section \<open>Scoring\<close>

text \<open>The alert for a window with this bucket, if it is anomalous.\<close>

definition alerts_of :: "'s monitoring \<Rightarrow> pyval list \<Rightarrow> pyval list" where
  "alerts_of mo bucket =
     (case aggregate_events bucket (mo_window mo) 0 of
        Inr (row # _) \<Rightarrow>
          (case iforest_score (mo_libm mo) (mo_forest mo) row of
             Some (Inr score) \<Rightarrow>
               if fle score (if_threshold (mo_forest mo)) then []
               else (case alert_of (Forest (mo_forest mo)) (mo_hash mo) row score of Inr alert \<Rightarrow> [alert] | Inl _ \<Rightarrow> [])
           | _ \<Rightarrow> [])
      | _ \<Rightarrow> [])"

abbreviation alerts_filed :: "online \<Rightarrow> pyval list" where
  "alerts_filed st \<equiv> map record_alert (om_records st)"

lemma file_alert_effect:
  "file_alert mo alert st s = Inr (st', s') \<Longrightarrow> alerts_filed st' = alerts_filed st @ [alert]
    \<and> om_buckets st' = om_buckets st \<and> om_processed st' = om_processed st \<and> om_first st' = om_first st"
  by (auto simp: file_alert_def bindE_eq_Inr_iff split: option.splits prod.splits sum.splits)

lemma score_window_effect:
  assumes "score_window mo start (st, s) = Some (Inr (st', s'))"
  shows "om_buckets st' = om_buckets st \<and> om_first st' = om_first st \<and> om_processed st' = om_processed st @ [start]
    \<and> alerts_filed st' = alerts_filed st @ alerts_of mo (get_bucket (om_buckets st) start)"
proof -
  obtain rows where rows: "aggregate_events (get_bucket (om_buckets st) start) (mo_window mo) 0 = Inr rows"
    using assms by (auto simp: score_window_def split: sum.splits)
  show ?thesis
  proof (cases rows)
    case Nil
    with assms rows show ?thesis by (auto simp: score_window_def Let_def alerts_of_def)
  next
    case (Cons row more)
    then obtain score where "iforest_score (mo_libm mo) (mo_forest mo) row = Some (Inr score)"
      using assms rows by (auto simp: score_window_def Let_def split: option.splits sum.splits)
    then show ?thesis
      using assms rows Cons
      by (auto simp: score_window_def Let_def alerts_of_def bindE_eq_Inr_iff split: if_splits dest!: file_alert_effect)
  qed
qed

lemma score_windows_effect:
  assumes "score_windows mo starts (st, s) = Some (Inr (st', s'))"
  shows "om_buckets st' = om_buckets st \<and> om_first st' = om_first st \<and> om_processed st' = om_processed st @ starts
    \<and> alerts_filed st' = alerts_filed st @ concat (map (\<lambda>k. alerts_of mo (get_bucket (om_buckets st) k)) starts)"
  using assms
proof (induction starts arbitrary: st s)
  case (Cons start starts)
  from Cons.prems obtain st1 s1 where s1: "score_window mo start (st, s) = Some (Inr (st1, s1))"
    and rest: "score_windows mo starts (st1, s1) = Some (Inr (st', s'))"
    by (auto split: option.splits sum.splits)
  from score_window_effect [OF s1] Cons.IH [OF rest] show ?case by simp
qed simp

lemma ready_in: "start \<in> set (ready w force now st) \<longleftrightarrow> start \<in> fst ` set (om_buckets st) \<and> start \<notin> set (om_processed st)
    \<and> (force \<or> start + w + 250000000 \<le> now)"
  by (auto simp: ready_def)

lemma ready_forced: "set (ready w True now st) = fst ` set (om_buckets st) - set (om_processed st)"
  by (simp add: set_eq_iff ready_in)

lemma ready_distinct: "distinct (map fst (om_buckets st)) \<Longrightarrow> distinct (ready w force now st)"
  by (simp add: ready_def)

section \<open>Polls\<close>

definition poll_lines :: "poll \<Rightarrow> string list" where
  "poll_lines p = po_requests p @ po_resources p"

text \<open>No line arrives for a window that was ready at an earlier poll.\<close>

definition line_after :: "int \<Rightarrow> int list \<Rightarrow> string \<Rightarrow> bool" where
  "line_after window_ns past line \<longleftrightarrow>
     (\<forall>event t. json_loads line = Inr event \<longrightarrow> event_time event = Inr t \<longrightarrow>
       list_all (\<lambda>now. now < window_start window_ns t + window_ns + 250000000) past)"

fun punctual :: "int \<Rightarrow> int list \<Rightarrow> poll list \<Rightarrow> bool" where
  "punctual window_ns past [] \<longleftrightarrow> True"
| "punctual window_ns past (p # ps) \<longleftrightarrow>
     list_all (line_after window_ns past) (poll_lines p) \<and> punctual window_ns (po_now p # past) ps"

text \<open>Every scored window was ready at an earlier poll, and its alert is the one of its bucket.\<close>

definition scored_well :: "'s monitoring \<Rightarrow> online \<Rightarrow> bool" where
  "scored_well mo st \<longleftrightarrow> distinct (map fst (om_buckets st)) \<and> distinct (om_processed st)
     \<and> set (om_processed st) \<subseteq> fst ` set (om_buckets st)
     \<and> alerts_filed st = concat (map (\<lambda>k. alerts_of mo (get_bucket (om_buckets st) k)) (om_processed st))"

definition scored_before :: "int \<Rightarrow> int list \<Rightarrow> online \<Rightarrow> bool" where
  "scored_before window_ns past st \<longleftrightarrow> (\<forall>k\<in>set (om_processed st). \<exists>now\<in>set past. k + window_ns + 250000000 \<le> now)"

lemma line_after_open:
  "line_after w past line \<Longrightarrow> scored_before w past st \<Longrightarrow> open_line w (set (om_processed st)) line"
  by (fastforce simp: line_after_def scored_before_def open_line_def list_all_iff)

lemma scored_well_grown:
  assumes "scored_well mo st" and "grown (set (om_processed st)) st st'"
  shows "scored_well mo st' \<and> om_processed st' = om_processed st"
proof -
  have same: "om_processed st' = om_processed st" "om_records st' = om_records st" using assms(2) by (simp_all add: grown_def)
  have alerts: "map (\<lambda>k. alerts_of mo (get_bucket (om_buckets st') k)) (om_processed st)
      = map (\<lambda>k. alerts_of mo (get_bucket (om_buckets st) k)) (om_processed st)"
    using assms(2) by (simp add: grown_def)
  show ?thesis using assms by (simp add: scored_well_def same alerts) (auto simp: grown_def)
qed

lemma score_ready_effect:
  assumes "score_ready mo force now (st, s) = Some (Inr (st', s'))" and "scored_well mo st"
  shows "scored_well mo st' \<and> om_buckets st' = om_buckets st \<and> om_first st' = om_first st
    \<and> om_processed st' = om_processed st @ ready (mo_window mo * 1000000000) force now st"
proof -
  let ?r = "ready (mo_window mo * 1000000000) force now st"
  have e: "om_buckets st' = om_buckets st \<and> om_first st' = om_first st \<and> om_processed st' = om_processed st @ ?r
      \<and> alerts_filed st' = alerts_filed st @ concat (map (\<lambda>k. alerts_of mo (get_bucket (om_buckets st) k)) ?r)"
    using score_windows_effect [of mo ?r st s st' s'] assms(1) by (simp add: score_ready_def)
  moreover have "distinct (om_processed st @ ?r)"
    using assms(2) ready_distinct [of st] by (auto simp: scored_well_def ready_in)
  moreover have "set ?r \<subseteq> fst ` set (om_buckets st)" by (auto simp: ready_in)
  ultimately show ?thesis using assms(2) by (simp add: scored_well_def)
qed

lemma poll_step:
  assumes "ingest w u (po_requests p) st = Inr (n, st1)" and "ingest w u (po_resources p) st1 = Inr (m, st2)"
    and "list_all (line_after w past) (poll_lines p)" and "scored_well mo st" and "scored_before w past st"
  shows "scored_well mo st2 \<and> om_processed st2 = om_processed st"
proof -
  have o: "\<forall>line\<in>set (poll_lines p). open_line w (set (om_processed st)) line"
    using assms(3,5) line_after_open by (auto simp: list_all_iff)
  have "grown (set (om_processed st)) st st1" "grown (set (om_processed st)) st1 st2"
    by (rule ingest_grown [OF assms(1)], use o in \<open>simp add: poll_lines_def\<close>)
      (rule ingest_grown [OF assms(2)], use o in \<open>simp add: poll_lines_def\<close>)
  then have "grown (set (om_processed st)) st st2" by (rule grown_trans)
  from scored_well_grown [OF assms(4) this] show ?thesis .
qed

lemma poll_loop_scored:
  assumes "poll_loop mo u polls quiet (st, s) = Some (Inr (st', s'))"
    and "punctual (mo_window mo * 1000000000) past polls" and "scored_well mo st"
    and "scored_before (mo_window mo * 1000000000) past st"
  shows "scored_well mo st'"
  using assms
proof (induction polls arbitrary: past quiet st s)
  case (Cons p ps)
  let ?w = "mo_window mo * 1000000000"
  from Cons.prems(1) obtain n st1 m st2 where i: "ingest ?w u (po_requests p) st = Inr (n, st1)" "ingest ?w u (po_resources p) st1 = Inr (m, st2)"
    by (auto simp: bindE_eq_Inr_iff split: sum.splits)
  from Cons.prems(1) i obtain st3 s3 where r: "score_ready mo False (po_now p) (st2, s) = Some (Inr (st3, s3))"
    by (auto split: option.splits sum.splits)
  from poll_step [OF i _ Cons.prems(3,4)] Cons.prems(2) have w2: "scored_well mo st2" "om_processed st2 = om_processed st" by simp_all
  note r3 = score_ready_effect [OF r w2(1)]
  have b3: "scored_before ?w (po_now p # past) st3"
    using r3 Cons.prems(4) w2(2) by (auto simp: scored_before_def ready_in)
  have p: "punctual ?w (po_now p # past) ps" using Cons.prems(2) by simp
  show ?case
  proof (cases "st' = st3 \<and> s' = s3")
    case True
    with r3 show ?thesis by simp
  next
    case False
    then obtain quiet' where "poll_loop mo u ps quiet' (st3, s3) = Some (Inr (st', s'))"
      using Cons.prems(1) i r by (auto simp: Let_def split: if_splits)
    from Cons.IH [OF this p] r3 b3 show ?thesis by blast
  qed
qed simp

section \<open>Rows of a bucket\<close>

lemma group_by_one: "xs \<noteq> [] \<Longrightarrow> \<forall>x\<in>set xs. key x = k \<Longrightarrow> group_by key xs = [(k, xs)]"
proof (induction xs rule: rev_induct)
  case (snoc x xs)
  then show ?case
    by (cases "xs = []") (simp_all add: group_by_snoc group_append_def dget_def dset_def group_by_def)
qed simp

lemma make_buckets_all:
  assumes "\<forall>e\<in>set events. is_ok (event_time e) \<and> is_ok (event_run e) \<and> \<not> in_warmup first u e"
  shows "make_buckets first w u events = Inr (group_by (event_key w) events)"
  using assms
proof (induction events rule: rev_induct)
  case (snoc e events)
  then have "make_buckets first w u events = Inr (group_by (event_key w) events)" by simp
  moreover have "add_to_bucket first w u e b = Inr (group_append (event_key w e) e b)" for b
    using snoc.prems by (simp add: add_to_bucket_Inr)
  ultimately show ?case by (simp add: make_buckets_def foldE_append group_by_snoc)
qed (simp add: make_buckets_def group_by_def)

lemma first_sample:
  "first_requests [single_request] = Inr [(''r'', 1500000000)]"
  by (rule single_request_loops)

section \<open>A sample run\<close>

definition sample_monitoring :: "unit monitoring" where
  "sample_monitoring = \<lparr>mo_libm = sample_libm, mo_forest = sample_forest, mo_hash = PNone, mo_append = None,
     mo_window = 1, mo_inference_ns = (\<lambda>_. 5000), mo_audit_ns = (\<lambda>_. 5000)\<rparr>"

definition sample_polls :: "poll list" where
  "sample_polls = \<lparr>po_requests = [sample_line], po_resources = [], po_now = 0, po_done = True\<rparr>
     # replicate 3 \<lparr>po_requests = [], po_resources = [], po_now = 0, po_done = True\<rparr>"

lemma sample_line_event: "strip sample_line \<noteq> []" "json_loads sample_line = Inr single_request"
  using sample_read by (auto simp: read_jsonl_def bindE_eq_Inr_iff split: if_splits)

lemma sample_event: "event_time single_request = Inr 1500000000" "is_request single_request = Inr True"
  by (simp_all add: single_request_def event_readers)

lemma sample_polls_punctual: "punctual w [] sample_polls"
  by (simp add: sample_polls_def poll_lines_def line_after_def numeral_3_eq_3)

lemma batch_row_score_forest:
  obtains score where "iforest_score sample_libm sample_forest batch_row = Some (Inr score)"
proof -
  have v: "row_values (if_features sample_forest) batch_row = Inr [Fin 1]"
    by (simp add: row_values_def sample_forest_def batch_row_def make_row_def ENHANCED_FEATURE_NAMES_def
        BASE_FEATURE_NAMES_def dget_def)
  have len: "length [Fin 1] = length (if_features sample_forest)" by (simp add: sample_forest_def)
  have zero: "nonneg (Fin 0)" by simp
  obtain x where x: "total_path sample_libm [Fin 1] (if_trees sample_forest) (Fin 0) = Some (Inr x)" "nonneg x"
    using total_path_nonneg [OF sample_libm_ok _ zero, of "if_trees sample_forest" "[Fin 1]"] sample_forest_wf len
    unfolding wf_forest_def by auto
  have f: "if_trees sample_forest \<noteq> []" "length (if_trees sample_forest) \<le> 2 ^ 40" "if_max_samples sample_forest \<le> 2 ^ 53"
    by (simp_all add: sample_forest_def)
  obtain score where "final_score sample_libm sample_forest x = Inr (Fin score)"
    by (rule final_score_unit [OF sample_libm_ok x(2) f])
  then show thesis using that v x(1) by (simp add: iforest_score_def)
qed

lemma elapsed_sample: "is_ok (elapsed_us 5000)"
  by (simp add: elapsed_us_def float_of_int_small is_ok_def)

lemma sample_run:
  obtains st s where "monitor_run sample_monitoring 0 sample_polls 0 () = Some (Inr (st, s))"
proof -
  let ?st = "online_start\<lparr>om_first := Some 1500000000, om_buckets := [(1000000000, [single_request])]\<rparr>"
  obtain score where sc: "iforest_score sample_libm sample_forest batch_row = Some (Inr score)"
    by (rule batch_row_score_forest)
  obtain a where a: "alert_of (Forest sample_forest) PNone batch_row score = Inr a"
    by (simp add: alert_of_def sample_forest_def batch_row_def make_row_def ENHANCED_FEATURE_NAMES_def
        BASE_FEATURE_NAMES_def dget_def)
  obtain t where t: "elapsed_us 5000 = Inr t" using elapsed_sample by (auto simp: is_ok_def split: sum.splits)
  have ing: "ingest 1000000000 0 [sample_line] online_start = Inr (1, ?st)" "ingest 1000000000 0 [] st = Inr (0, st)" for st
    by (simp_all add: ingest_def ingest_line_def sample_line_event sample_event Let_def online_start_def
        window_start_def group_append_def dget_def dset_def)
  have idle: "score_ready sample_monitoring False 0 (?st, ()) = Some (Inr (?st, ()))"
    by (simp add: score_ready_def ready_def sample_monitoring_def online_start_def)
  have loop: "poll_loop sample_monitoring 0 sample_polls 0 (online_start, ()) = Some (Inr (?st, ()))"
    by (simp add: sample_polls_def numeral_3_eq_3 ing idle [simplified] sample_monitoring_def [THEN arg_cong [where f = mo_window]])
  have rows: "aggregate_events [single_request] 1 0 = Inr [batch_row]" by (simp only: batch_row_def single_request_row)
  have "\<exists>st. score_window sample_monitoring 1000000000 (?st, ()) = Some (Inr (st, ()))"
    by (simp add: score_window_def get_bucket_def dget_def sample_monitoring_def rows sc t a file_alert_def Let_def)
  then have "\<exists>st s. score_ready sample_monitoring True 0 (?st, ()) = Some (Inr (st, s))"
    by (auto simp: score_ready_def ready_def online_start_def)
  with loop show thesis using that by (auto simp: monitor_run_def)
qed

section \<open>The loop ends\<close>

lemma forest_score_returns:
  assumes "libm_ok lm" and "wf_forest f"
  shows "iforest_score lm f row \<noteq> None"
proof (cases "row_values (if_features f) row")
  case (Inr vs)
  then have "length vs = length (if_features f)" using mapE_length by (auto simp: row_values_def)
  then obtain p where "total_path lm vs (if_trees f) (Fin 0) = Some (Inr p)"
    using total_path_nonneg [OF assms(1), of "if_trees f" vs "Fin 0"] assms(2) by (auto simp: wf_forest_def)
  then show ?thesis by (simp add: iforest_score_def Inr)
qed (simp add: iforest_score_def)

lemma score_ready_returns:
  assumes "libm_ok (mo_libm mo)" and "wf_forest (mo_forest mo)"
  shows "score_ready mo force now x \<noteq> None"
proof -
  have "score_window mo start y \<noteq> None" for start y
    by (auto simp: score_window_def Let_def split: prod.splits sum.splits option.splits elim: notE [OF forest_score_returns [OF assms]])
  then have "score_windows mo starts y \<noteq> None" for starts y
    by (induction starts arbitrary: y) (auto split: option.splits sum.splits)
  then show ?thesis by (simp add: score_ready_def)
qed

text \<open>A poll that finds the marker and no line.\<close>

definition quiet_poll :: "poll \<Rightarrow> bool" where
  "quiet_poll p \<longleftrightarrow> po_done p \<and> list_all (\<lambda>l. strip l = []) (po_requests p @ po_resources p)"

lemma ingest_blank: "list_all (\<lambda>l. strip l = []) ls \<Longrightarrow> ingest w u ls st = Inr (0, st)"
proof -
  have "list_all (\<lambda>l. strip l = []) ls \<Longrightarrow> foldE (ingest_line w u) ls (n, st) = Inr (n, st)" for n
    by (induction ls) (simp_all add: ingest_line_def)
  then show "list_all (\<lambda>l. strip l = []) ls \<Longrightarrow> ingest w u ls st = Inr (0, st)" by (simp add: ingest_def)
qed

lemma poll_loop_quiet:
  assumes "quiet_poll p" and "libm_ok (mo_libm mo)" and "wf_forest (mo_forest mo)"
  shows "poll_loop mo u (p # ps) q x = None \<Longrightarrow> q < 2 \<and> (\<exists>y. poll_loop mo u ps (Suc q) y = None)"
  using assms(1)
  by (cases x) (auto simp: quiet_poll_def ingest_blank Let_def split: option.splits sum.splits if_splits
      elim: notE [OF score_ready_returns [OF assms(2,3)]])

lemma poll_loop_ends:
  assumes "libm_ok (mo_libm mo)" and "wf_forest (mo_forest mo)" and "quiet_poll p1" and "quiet_poll p2" and "quiet_poll p3"
  shows "poll_loop mo u (before @ p1 # p2 # p3 # rest) q x \<noteq> None"
proof (induction before arbitrary: q x)
  case Nil
  show ?case
  proof
    assume none: "poll_loop mo u ([] @ p1 # p2 # p3 # rest) q x = None"
    obtain y where "poll_loop mo u (p2 # p3 # rest) (Suc q) y = None"
      using poll_loop_quiet [OF assms(3,1,2) none [unfolded append_Nil]] by blast
    then obtain z where z: "poll_loop mo u (p3 # rest) (Suc (Suc q)) z = None"
      using poll_loop_quiet [OF assms(4,1,2)] by blast
    from poll_loop_quiet [OF assms(5,1,2) z] show False by simp
  qed
next
  case (Cons p ps)
  then show ?case
    by (cases x) (auto simp: Let_def split: option.splits sum.splits elim: notE [OF score_ready_returns [OF assms(1,2)]])
qed

section \<open>Properties\<close>






definition early_sample :: pyval where
  "early_sample = PDict [(''event_type'', PStr ''resource''), (''ts_unix_ns'', PInt 1200000000), (''run_id'', PStr ''r''),
     (''cpu_percent'', PFloat (Fin 50)), (''rss_kb'', PInt 900)]"


text \<open>C16. The online monitor ends: with a well-formed forest, once the marker of the end is there and
  three polls in a row bring no line, the run returns a result or an error, whatever the polls
  before have brought, however late they were and whatever the audit backend answered.\<close>

theorem monitor_ends_when_quiet:
  assumes "libm_ok (mo_libm mo)" and "wf_forest (mo_forest mo)" and "list_all quiet_poll [p1, p2, p3]"
  shows "\<exists>r. monitor_run mo warmup_seconds (before @ p1 # p2 # p3 # rest) last_now s = Some r"
proof -
  obtain r where r: "poll_loop mo (warmup_seconds * 1000000000) (before @ p1 # p2 # p3 # rest) 0 (online_start, s) = Some r"
    using poll_loop_ends [OF assms(1,2)] assms(3) by fastforce
  then show ?thesis
    using score_ready_returns [OF assms(1,2)] by (cases r) (auto simp: monitor_run_def)
qed

theorem monitor_ends_when_quiet_witness:
  "\<exists>r. monitor_run sample_monitoring 0 (sample_polls @ replicate 3 \<lparr>po_requests = [], po_resources = [], po_now = 5, po_done = True\<rparr>) 0 ()
    = Some r"
proof -
  let ?p = "\<lparr>po_requests = [], po_resources = [], po_now = 5, po_done = True\<rparr>"
  have "libm_ok (mo_libm sample_monitoring)" "wf_forest (mo_forest sample_monitoring)"
    by (simp_all add: sample_monitoring_def sample_libm_ok sample_forest_wf)
  moreover have "list_all quiet_poll [?p, ?p, ?p]" by (simp add: quiet_poll_def)
  ultimately show ?thesis
    using monitor_ends_when_quiet [of sample_monitoring ?p ?p ?p 0 sample_polls "[]" 0 "()"] by (simp add: numeral_3_eq_3)
qed

end
