(* ===== verification/Evaluation.thy ===== *)
theory Evaluation
  imports Features
begin

text \<open>
  \<open>cote3mon/evaluation.py\<close>: the detection metrics, the bootstrap intervals and the
  detection delays, in the arithmetic of the program (integer true division and binary64).
  The random generator is an argument: \<open>randbelow n s\<close> is the draw \<open>rng.randrange(n)\<close>
  makes in state \<open>s\<close>, with the state after it; what is proved holds for every generator
  whose draws are below their bound, hence for every seed.
\<close>

section \<open>Metrics\<close>

record metrics =
  m_tp :: int
  m_fp :: int
  m_tn :: int
  m_fn :: int
  m_precision :: f64
  m_recall :: f64
  m_f1 :: f64
  m_fpr :: f64
  m_auprc :: f64

definition predict :: "f64 \<Rightarrow> f64 \<Rightarrow> int" where
  "predict threshold score = of_bool (flt threshold score)"

definition count_pairs :: "int \<Rightarrow> int \<Rightarrow> (int \<times> int) list \<Rightarrow> int" where
  "count_pairs l p ps = int (length (filter (\<lambda>(label, prediction). label = l \<and> prediction = p) ps))"

text \<open>\<open>a / b if b else 0.0\<close>\<close>

definition ratio_or_zero :: "int \<Rightarrow> int \<Rightarrow> f64 result" where
  "ratio_or_zero a b = (if b \<noteq> 0 then int_truediv a b else Inr (Fin 0))"

definition f1_score :: "f64 \<Rightarrow> f64 \<Rightarrow> f64 result" where
  "f1_score precision recall =
     (if fadd precision recall \<noteq> Fin 0
      then fdiv (fmul (fmul (Fin 2) precision) recall) (fadd precision recall)
      else Inr (Fin 0))"

text \<open>\<open>sorted(..., reverse=True)\<close> keeps the order of items with equal keys.\<close>

definition rank_by_score :: "(f64 \<times> int) list \<Rightarrow> (f64 \<times> int) list" where
  "rank_by_score xs = rev (sort_key fst (rev xs))"

definition precision_step ::
  "int \<Rightarrow> int \<times> int \<Rightarrow> int \<times> f64 \<times> f64 \<Rightarrow> (int \<times> f64 \<times> f64) result" where
  "precision_step positives = (\<lambda>(rank, label) (true_positives, area, previous_recall).
     if label \<noteq> 0
     then bindE (int_truediv (true_positives + 1) positives) (\<lambda>recall.
          bindE (int_truediv (true_positives + 1) rank) (\<lambda>precision.
          Inr (true_positives + 1, fadd area (fmul (fsub recall previous_recall) precision), recall)))
     else Inr (true_positives, area, previous_recall))"

definition enumerate1 :: "'a list \<Rightarrow> (int \<times> 'a) list" where
  "enumerate1 xs = zip (map int [1..<length xs + 1]) xs"

definition average_precision :: "int list \<Rightarrow> f64 list \<Rightarrow> f64 result" where
  "average_precision labels scores =
     (let positives = sum_list labels in
      if positives = 0 then Inr (Fin 0)
      else mapR (\<lambda>(true_positives, area, previous_recall). area)
        (foldE (precision_step positives)
           (enumerate1 (map snd (rank_by_score (zip scores labels)))) (0, Fin 0, Fin 0)))"

definition classification_metrics :: "int list \<Rightarrow> f64 list \<Rightarrow> f64 \<Rightarrow> metrics result" where
  "classification_metrics labels scores threshold =
     (if length labels \<noteq> length scores \<or> labels = [] then Inl ValueError
      else
        let pairs = zip labels (map (predict threshold) scores);
            tp = count_pairs 1 1 pairs; fp = count_pairs 0 1 pairs;
            tn = count_pairs 0 0 pairs; fn = count_pairs 1 0 pairs in
        bindE (ratio_or_zero tp (tp + fp)) (\<lambda>precision.
        bindE (ratio_or_zero tp (tp + fn)) (\<lambda>recall.
        bindE (f1_score precision recall) (\<lambda>f1.
        bindE (ratio_or_zero fp (tn + fp)) (\<lambda>fpr.
        bindE (average_precision labels scores) (\<lambda>auprc.
        Inr \<lparr>m_tp = tp, m_fp = fp, m_tn = tn, m_fn = fn, m_precision = precision,
             m_recall = recall, m_f1 = f1, m_fpr = fpr, m_auprc = auprc\<rparr>))))))"

text \<open>\<open>float(metrics[name])\<close>\<close>

definition metric_value :: "metrics \<Rightarrow> string \<Rightarrow> f64 result" where
  "metric_value m name =
     (if name = ''tp'' then float_of_int (m_tp m)
      else if name = ''fp'' then float_of_int (m_fp m)
      else if name = ''tn'' then float_of_int (m_tn m)
      else if name = ''fn'' then float_of_int (m_fn m)
      else if name = ''precision'' then Inr (m_precision m)
      else if name = ''recall'' then Inr (m_recall m)
      else if name = ''f1'' then Inr (m_f1 m)
      else if name = ''false_positive_rate'' then Inr (m_fpr m)
      else if name = ''auprc'' then Inr (m_auprc m)
      else Inl KeyError)"

section \<open>Bootstrap\<close>

type_synonym 's randbelow = "nat \<Rightarrow> 's \<Rightarrow> nat \<times> 's"

text \<open>\<open>[rng.randrange(n) for _ in range(k)]\<close>\<close>

fun draws :: "'s randbelow \<Rightarrow> nat \<Rightarrow> nat \<Rightarrow> 's \<Rightarrow> nat list \<times> 's" where
  "draws rb n 0 s = ([], s)"
| "draws rb n (Suc k) s =
     (let (i, s1) = rb n s; (is, s2) = draws rb n k s1 in (i # is, s2))"

definition interval_of :: "f64 list \<Rightarrow> (f64 \<times> f64) result" where
  "interval_of values =
     (if values = [] then Inr (Fin 0, Fin 0)
      else
        let ordered = sort values;
            pick = (\<lambda>q. bindE (float_of_int (int (length ordered) - 1)) (\<lambda>n.
                        bindE (float_trunc (fmul q n)) (py_index ordered)))
        in bindE (pick (of_exact (25 / 1000))) (\<lambda>low.
           bindE (pick (of_exact (975 / 1000))) (\<lambda>high. Inr (low, high))))"

definition single_class :: "int list \<Rightarrow> bool" where
  "single_class labels \<longleftrightarrow> list_all (\<lambda>l. l = 0) labels \<or> list_all (\<lambda>l. l \<noteq> 0) labels"

text \<open>\<open>float(classification_metrics(labels, scores, threshold)[metric])\<close>\<close>

definition resampled_metric :: "int list \<Rightarrow> f64 list \<Rightarrow> f64 \<Rightarrow> string \<Rightarrow> f64 result" where
  "resampled_metric labels scores threshold metric =
     bindE (classification_metrics labels scores threshold) (\<lambda>m. metric_value m metric)"

definition bootstrap_step ::
  "'s randbelow \<Rightarrow> int list \<Rightarrow> f64 list \<Rightarrow> f64 \<Rightarrow> string \<Rightarrow> nat \<Rightarrow> 's \<times> f64 list \<Rightarrow> ('s \<times> f64 list) result" where
  "bootstrap_step rb labels scores threshold metric = (\<lambda>_ (s, values).
     let (indices, s1) = draws rb (length labels) (length labels) s in
     bindE (mapE (\<lambda>i. py_index labels (int i)) indices) (\<lambda>sampled_labels.
     if single_class sampled_labels then Inr (s1, values)
     else bindE (mapE (\<lambda>i. py_index scores (int i)) indices) (\<lambda>sampled_scores.
          bindE (resampled_metric sampled_labels sampled_scores threshold metric) (\<lambda>v.
          Inr (s1, values @ [v])))))"

definition bootstrap_metric_interval ::
  "'s randbelow \<Rightarrow> int list \<Rightarrow> f64 list \<Rightarrow> f64 \<Rightarrow> string \<Rightarrow> nat \<Rightarrow> 's \<Rightarrow> (f64 \<times> f64) result" where
  "bootstrap_metric_interval rb labels scores threshold metric iterations seed =
     bindE (foldE (bootstrap_step rb labels scores threshold metric) [0..<iterations] (seed, []))
       (\<lambda>(s, values). interval_of values)"

text \<open>\<open>bootstrap_run_metric_interval\<close>: whole runs are drawn.  \<open>run_groups\<close> are the indices of
  the rows of each run.\<close>

definition run_groups :: "pyval list \<Rightarrow> (string \<times> nat list) list result" where
  "run_groups rows =
     mapR (\<lambda>ids. map (map_prod id (map snd)) (group_by fst (zip ids [0..<length ids])))
       (mapE (\<lambda>row. mapR py_str (py_subscript row ''run_id'')) rows)"

definition sampled_indices :: "(string \<times> nat list) list \<Rightarrow> string list \<Rightarrow> nat list \<Rightarrow> nat list" where
  "sampled_indices groups run_ids draw =
     concat (map (\<lambda>j. case dget groups (run_ids ! j) of None \<Rightarrow> [] | Some is \<Rightarrow> is) draw)"

definition run_bootstrap_step ::
  "'s randbelow \<Rightarrow> pyval list \<Rightarrow> f64 list \<Rightarrow> (string \<times> nat list) list \<Rightarrow> string list \<Rightarrow> f64 \<Rightarrow> string \<Rightarrow>
   nat \<Rightarrow> 's \<times> f64 list \<Rightarrow> ('s \<times> f64 list) result" where
  "run_bootstrap_step rb rows scores groups run_ids threshold metric = (\<lambda>_ (s, values).
     let (draw, s1) = draws rb (length run_ids) (length run_ids) s;
         indices = sampled_indices groups run_ids draw in
     bindE (mapE (\<lambda>i. bindE (py_index rows (int i)) (\<lambda>row.
                      bindE (py_subscript row ''is_attack'') py_int)) indices) (\<lambda>labels.
     if single_class labels then Inr (s1, values)
     else bindE (mapE (\<lambda>i. py_index scores (int i)) indices) (\<lambda>sampled_scores.
          bindE (resampled_metric labels sampled_scores threshold metric) (\<lambda>v.
          Inr (s1, values @ [v])))))"

definition bootstrap_run_metric_interval ::
  "'s randbelow \<Rightarrow> pyval list \<Rightarrow> f64 list \<Rightarrow> f64 \<Rightarrow> string \<Rightarrow> nat \<Rightarrow> 's \<Rightarrow> (f64 \<times> f64) result" where
  "bootstrap_run_metric_interval rb rows scores threshold metric iterations seed =
     (if length rows \<noteq> length scores \<or> rows = [] then Inl ValueError
      else bindE (run_groups rows) (\<lambda>groups.
           let run_ids = sort (map fst groups) in
           if length run_ids < 2 then Inl ValueError
           else bindE (foldE (run_bootstrap_step rb rows scores groups run_ids threshold metric)
                        [0..<iterations] (seed, []))
                  (\<lambda>(s, values). interval_of values)))"

section \<open>Detection delays\<close>

definition note_attack ::
  "pyval \<times> f64 \<Rightarrow> (string \<times> (int \<times> f64) list) list \<Rightarrow> (string \<times> (int \<times> f64) list) list result" where
  "note_attack = (\<lambda>(row, score) grouped.
     bindE (bindE (py_subscript row ''is_attack'') py_int) (\<lambda>attack.
     if attack = 0 then Inr grouped
     else bindE (mapR py_str (py_subscript row ''run_id'')) (\<lambda>run_id.
          bindE (bindE (py_subscript row ''window_start_ns'') py_int) (\<lambda>start.
          Inr (group_append run_id (start, score) grouped)))))"

definition delay_of :: "f64 \<Rightarrow> (int \<times> f64) list \<Rightarrow> f64 option result" where
  "delay_of threshold values =
     (let ordered = sort values in
      case find (\<lambda>(timestamp, score). flt threshold score) ordered of
        None \<Rightarrow> Inr None
      | Some (first_alert, _) \<Rightarrow>
          mapR Some (int_truediv (first_alert - fst (hd ordered)) 1000000000))"

definition attack_detection_delays ::
  "pyval list \<Rightarrow> f64 list \<Rightarrow> f64 \<Rightarrow> (string \<times> f64 option) list result" where
  "attack_detection_delays rows scores threshold =
     (if length rows \<noteq> length scores then Inl ValueError
      else bindE (foldE note_attack (zip rows scores) []) (\<lambda>grouped.
           mapE (\<lambda>(run_id, values). mapR (\<lambda>d. (run_id, d)) (delay_of threshold values))
             (sort_key fst grouped)))"

section \<open>Unit intervals\<close>

abbreviation unit_float :: "f64 \<Rightarrow> bool" where
  "unit_float x \<equiv> (\<exists>q. x = Fin q \<and> 0 \<le> q \<and> q \<le> 1 \<and> representable q)"

lemma unit_of_exact:
  assumes "0 \<le> x" and "x \<le> 1"
  shows "of_exact x = Fin (rnd x)" and "unit_float (of_exact x)"
proof -
  have "\<bar>x\<bar> \<le> 2 ^ 64" using assms by simp
  then show eq: "of_exact x = Fin (rnd x)" by (rule of_exact_small)
  show "unit_float (of_exact x)" unfolding eq using rnd_unit [OF assms] by auto
qed

lemma ratio_or_zero_unit:
  assumes "0 \<le> a" and "a \<le> b"
  obtains x where "ratio_or_zero a b = Inr x" and "unit_float x"
proof (cases "b = 0")
  case True
  then show ?thesis using that [of "Fin 0"] by (simp add: ratio_or_zero_def)
next
  case False
  then have "0 < b" using assms by simp
  note r = int_truediv_ratio [OF assms this]
  show ?thesis using that [of "Fin (rnd (of_int a / of_int b))"] r False by (simp add: ratio_or_zero_def)
qed

lemma f1_score_unit:
  assumes "unit_float p" and "unit_float r"
  obtains x where "f1_score p r = Inr x" and "unit_float x"
proof -
  from assms obtain a b where a: "p = Fin a" "0 \<le> a" "a \<le> 1" "representable a"
    and b: "r = Fin b" "0 \<le> b" "b \<le> 1" by blast
  have small: "\<bar>a + b\<bar> \<le> 2 ^ 64" "\<bar>2 * a\<bar> \<le> 2 ^ 64" "\<bar>2 * a * b\<bar> \<le> 2 ^ 64"
    using a b mult_mono [of a 1 b 1] by simp_all
  have sum: "fadd p r = Fin (rnd (a + b))" by (simp add: a b of_exact_small [OF small(1)])
  have "rnd (2 * a) = 2 * a" by (rule rnd_id [OF representable_double [OF a(4)]])
  then have prod: "fmul (fmul (Fin 2) p) r = Fin (rnd (2 * a * b))"
    by (simp add: a b of_exact_small [OF small(2)] of_exact_small [OF small(3)])
  show thesis
  proof (cases "rnd (a + b) = 0")
    case True
    then show ?thesis using that [of "Fin 0"] by (simp add: f1_score_def sum)
  next
    case False
    have "a * b \<le> a * 1" "b * a \<le> b * 1" using a b by (intro mult_left_mono; simp)+
    moreover have "b * a = a * b" by (rule mult.commute)
    ultimately have "a * b + a * b \<le> a + b" by linarith
    then have "2 * a * b \<le> a + b" by (simp only: mult_2 distrib_right)
    then have le: "rnd (2 * a * b) \<le> rnd (a + b)" by (rule rnd_mono)
    have nn: "0 \<le> rnd (2 * a * b)" using a b by (intro rnd_nonneg) simp
    have pos: "0 < rnd (a + b)" using False rnd_nonneg [of "a + b"] a b by simp
    have q: "0 \<le> rnd (2 * a * b) / rnd (a + b)" "rnd (2 * a * b) / rnd (a + b) \<le> 1"
      using le nn pos by simp_all
    show ?thesis
      using that [of "of_exact (rnd (2 * a * b) / rnd (a + b))"] unit_of_exact(2) [OF q] False
      by (simp add: f1_score_def sum prod del: fmul.simps fadd.simps)
  qed
qed

section \<open>Average precision\<close>

definition recall_at :: "int \<Rightarrow> int \<Rightarrow> rat" where
  "recall_at k positives = rnd (of_int k / of_int positives)"

lemma recall_at_props:
  assumes "0 \<le> k" and "k \<le> P" and "0 < P"
  shows "0 \<le> recall_at k P" and "recall_at k P \<le> 1" and "representable (recall_at k P)"
    and "int_truediv k P = Inr (Fin (recall_at k P))"
  using int_truediv_ratio [OF assms] by (simp_all add: recall_at_def)

text \<open>The step between two recall values is computed without rounding.\<close>

lemma recall_difference:
  assumes "0 \<le> k" and "k + 1 \<le> P" and "0 < P" and "P \<le> 2 ^ 53"
  shows "representable (recall_at (k + 1) P - recall_at k P)"
    and "0 \<le> recall_at (k + 1) P - recall_at k P"
proof -
  have mono: "recall_at k P \<le> recall_at (k + 1) P"
    unfolding recall_at_def using assms(3) by (intro rnd_mono divide_right_mono) simp_all
  then show "0 \<le> recall_at (k + 1) P - recall_at k P" by simp
  have r: "representable (recall_at (k + 1) P)" "representable (recall_at k P)"
    by (simp_all add: recall_at_def)
  show "representable (recall_at (k + 1) P - recall_at k P)"
  proof (cases "k = 0")
    case True
    then show ?thesis by (simp add: recall_at_def)
  next
    case False
    then have k: "1 \<le> k" using assms(1) by simp
    have "(of_int P :: rat) \<le> of_int (2 ^ 53)" using assms(4) by (simp only: of_int_le_iff)
    then have "1 / 2 ^ 53 \<le> 1 / (of_int P :: rat)" using assms(3) by (intro divide_left_mono) simp_all
    also have "1 / (of_int P :: rat) \<le> of_int k / of_int P" using k assms(3) by (intro divide_right_mono) simp_all
    finally have low: "1 / 2 ^ 53 \<le> (of_int k / of_int P :: rat)" .
    have "(pow2 (- 1022) :: rat) \<le> pow2 (- 53)" by (rule pow2_mono) simp
    also have "(pow2 (- 53) :: rat) = 1 / 2 ^ 53" by (simp add: power_int_def power_divide)
    also note low
    finally have normal: "pow2 (- 1022) \<le> (of_int k / of_int P :: rat)" .
    have "(of_int (k + 1) / of_int P :: rat) \<le> 2 * (of_int k / of_int P)"
      using k assms(3) by (simp add: field_simps)
    then have "recall_at (k + 1) P \<le> 2 * recall_at k P"
      unfolding recall_at_def by (rule rnd_le_double [OF _ normal])
    then show ?thesis using mono recall_at_props(1) [of k P] assms r
      by (intro sterbenz) linarith+
  qed
qed

lemma precision_step_bounds:
  assumes "0 \<le> k" and "k + 1 \<le> P" and "P \<le> 2 ^ 53" and "k + 1 \<le> rank" and "label \<noteq> 0"
    and "0 \<le> A" and "A \<le> recall_at k P"
  obtains A' where "precision_step P (rank, label) (k, Fin A, Fin (recall_at k P))
      = Inr (k + 1, Fin A', Fin (recall_at (k + 1) P))"
    and "0 \<le> A'" and "A' \<le> recall_at (k + 1) P"
    and "rank = k + 1 \<Longrightarrow> A = recall_at k P \<Longrightarrow> A' = recall_at (k + 1) P"
proof -
  let ?d = "recall_at (k + 1) P - recall_at k P"
  have P: "0 < P" using assms(1,2) by simp
  note r0 = recall_at_props [OF assms(1) _ P] and r1 = recall_at_props [OF _ assms(2) P]
  have R: "0 \<le> recall_at k P" "recall_at k P \<le> 1" "0 \<le> recall_at (k + 1) P" "recall_at (k + 1) P \<le> 1"
    using r0 r1 assms(1,2) by simp_all
  note d = recall_difference [OF assms(1,2) P assms(3)]
  define p where "p = rnd (of_int (k + 1) / of_int rank :: rat)"
  have p: "int_truediv (k + 1) rank = Inr (Fin p)" "0 \<le> p" "p \<le> 1"
    using int_truediv_ratio [of "k + 1" rank] assms(1,4) by (simp_all add: p_def)
  have d1: "?d \<le> 1" using R by linarith
  have sub: "fsub (Fin (recall_at (k + 1) P)) (Fin (recall_at k P)) = Fin ?d"
    using unit_of_exact(1) [OF d(2) d1] d(1) by (simp add: fsub_def)
  have dp: "0 \<le> ?d * p" "?d * p \<le> ?d" using d(2) p(2,3) by (simp_all add: mult_left_le)
  define t where "t = rnd (?d * p)"
  have t: "0 \<le> t" "t \<le> ?d" using dp d(1) by (simp_all add: t_def rnd_nonneg rnd_le_representable)
  have "?d * p \<le> 1" using dp(2) d1 by linarith
  then have mul: "fmul (Fin ?d) (Fin p) = Fin t"
    using unit_of_exact(1) [OF dp(1)] by (simp add: t_def)
  define A' where "A' = rnd (A + t)"
  have sum: "A + t \<le> recall_at (k + 1) P" "0 \<le> A + t" using assms(6,7) t by linarith+
  then have "A + t \<le> 1" using R by linarith
  then have add: "fadd (Fin A) (Fin t) = Fin A'" using unit_of_exact(1) [OF sum(2)] by (simp add: A'_def)
  show thesis
  proof (rule that [of A'])
    have "int_truediv (k + 1) P = Inr (Fin (recall_at (k + 1) P))"
      using r1(4) assms(1) by simp
    then show "precision_step P (rank, label) (k, Fin A, Fin (recall_at k P))
        = Inr (k + 1, Fin A', Fin (recall_at (k + 1) P))"
      using assms(5) p(1) by (simp add: precision_step_def sub mul add del: fmul.simps fadd.simps)
    show "0 \<le> A'" using sum(2) by (simp add: A'_def rnd_nonneg)
    show "A' \<le> recall_at (k + 1) P"
      unfolding A'_def by (rule rnd_le_representable [OF sum(1)]) (simp add: recall_at_def)
    assume eq: "rank = k + 1" "A = recall_at k P"
    then have "p = 1" using assms(1) by (simp add: p_def)
    then have "t = ?d" using d(1) by (simp add: t_def)
    then have "A + t = recall_at (k + 1) P" by (simp add: eq(2))
    then show "A' = recall_at (k + 1) P" using r1(3) assms(1) by (simp add: A'_def)
  qed
qed

definition binary :: "int list \<Rightarrow> bool" where
  "binary labels \<longleftrightarrow> set labels \<subseteq> {0, 1}"

lemma binary_simps [simp]: "binary []" "binary (l # ls) \<longleftrightarrow> (l = 0 \<or> l = 1) \<and> binary ls"
  by (auto simp: binary_def)

lemma binary_sum_bounds: "binary ls \<Longrightarrow> 0 \<le> sum_list ls \<and> sum_list ls \<le> int (length ls)"
  by (induction ls) auto

text \<open>The ranked items from position \<open>r + 1\<close> on.\<close>

fun ranks_from :: "nat \<Rightarrow> int list \<Rightarrow> (int \<times> int) list" where
  "ranks_from r [] = []"
| "ranks_from r (l # ls) = (int r + 1, l) # ranks_from (Suc r) ls"

lemma ranks_from_append: "ranks_from r (xs @ ys) = ranks_from r xs @ ranks_from (r + length xs) ys"
  by (induction xs arbitrary: r) simp_all

lemma zip_ranks_from: "zip (map int [Suc r..<Suc (r + length ls)]) ls = ranks_from r ls"
proof (induction ls arbitrary: r)
  case (Cons l ls)
  have "[Suc r..<Suc (r + length (l # ls))] = Suc r # [Suc (Suc r)..<Suc (Suc r + length ls)]"
    by (simp add: upt_rec)
  then show ?case using Cons [of "Suc r"] by (simp del: upt_Suc)
qed simp

lemma enumerate1_ranks: "enumerate1 ls = ranks_from 0 ls"
  using zip_ranks_from [of 0 ls] by (simp add: enumerate1_def)

lemma ap_loop:
  assumes "binary ls" and "0 \<le> k" and "k \<le> int r" and "k + sum_list ls \<le> P" and "P \<le> 2 ^ 53"
    and "0 \<le> A" and "A \<le> recall_at k P"
  shows "\<exists>A'. foldE (precision_step P) (ranks_from r ls) (k, Fin A, Fin (recall_at k P))
      = Inr (k + sum_list ls, Fin A', Fin (recall_at (k + sum_list ls) P))
    \<and> 0 \<le> A' \<and> A' \<le> recall_at (k + sum_list ls) P"
  using assms
proof (induction ls arbitrary: r k A)
  case Nil
  then show ?case by simp
next
  case (Cons l ls)
  have sum: "0 \<le> sum_list ls" using binary_sum_bounds Cons.prems(1) by simp
  show ?case
  proof (cases "l = 0")
    case True
    then have "precision_step P (int r + 1, l) s = Inr s" for s by (simp add: precision_step_def split_beta)
    then show ?thesis
      using Cons.IH [of k "Suc r" A] Cons.prems True by simp
  next
    case False
    then have l: "l = 1" using Cons.prems(1) by simp
    obtain A1 where step: "precision_step P (int r + 1, l) (k, Fin A, Fin (recall_at k P))
        = Inr (k + 1, Fin A1, Fin (recall_at (k + 1) P))" "0 \<le> A1" "A1 \<le> recall_at (k + 1) P"
      by (rule precision_step_bounds [where rank = "int r + 1", OF Cons.prems(2) _ Cons.prems(5) _ False
            Cons.prems(6,7)])
         (use Cons.prems sum l in auto)
    have "\<exists>A'. foldE (precision_step P) (ranks_from (Suc r) ls) (k + 1, Fin A1, Fin (recall_at (k + 1) P))
      = Inr (k + 1 + sum_list ls, Fin A', Fin (recall_at (k + 1 + sum_list ls) P))
      \<and> 0 \<le> A' \<and> A' \<le> recall_at (k + 1 + sum_list ls) P"
      by (rule Cons.IH) (use Cons.prems step l in auto)
    then show ?thesis using l step(1) by (simp add: add.assoc)
  qed
qed

lemma ap_loop_perfect:
  assumes "0 \<le> k" and "k + int n \<le> P" and "P \<le> 2 ^ 53"
  shows "foldE (precision_step P) (ranks_from (nat k) (replicate n 1)) (k, Fin (recall_at k P), Fin (recall_at k P))
      = Inr (k + int n, Fin (recall_at (k + int n) P), Fin (recall_at (k + int n) P))"
  using assms
proof (induction n arbitrary: k)
  case 0
  then show ?case by simp
next
  case (Suc n)
  have P: "0 < P" using Suc.prems(1,2) by simp
  have R: "0 \<le> recall_at k P" using recall_at_props(1) [OF Suc.prems(1) _ P] Suc.prems(2) by simp
  obtain A1 where step: "precision_step P (k + 1, 1) (k, Fin (recall_at k P), Fin (recall_at k P))
        = Inr (k + 1, Fin A1, Fin (recall_at (k + 1) P))" "A1 = recall_at (k + 1) P"
    by (rule precision_step_bounds [OF Suc.prems(1) _ Suc.prems(3) order_refl one_neq_zero R order_refl])
       (use Suc.prems in auto)
  have "Suc (nat k) = nat (k + 1)" using Suc.prems(1) by simp
  then show ?case
    using Suc.IH [of "k + 1"] Suc.prems step
    by (simp add: add.assoc)
qed

lemma ap_loop_zeros:
  "foldE (precision_step P) (ranks_from r (replicate n 0)) s = Inr s"
proof (induction n arbitrary: r)
  case (Suc n)
  have "precision_step P (int r + 1, 0) s = Inr s" by (simp add: precision_step_def split_beta)
  with Suc show ?case by simp
qed simp

lemma mset_rank_by_score [simp]: "mset (rank_by_score xs) = mset xs"
  by (simp add: rank_by_score_def)

lemma sorted_rank_by_score: "sorted_wrt (\<lambda>x y. fst y \<le> fst x) (rank_by_score xs)"
proof -
  have "sorted (map fst (sort_key fst (rev xs)))" by simp
  then show ?thesis by (simp add: rank_by_score_def sorted_wrt_rev sorted_map)
qed

lemma ranked_labels:
  assumes "length labels = length scores"
  shows "mset (map snd (rank_by_score (zip scores labels))) = mset labels"
  using assms by (metis map_snd_zip mset_map mset_rank_by_score)

lemma recall_at_0 [simp]: "recall_at 0 P = 0"
  by (simp add: recall_at_def)

lemma average_precision_unit:
  assumes "binary labels" and "length labels = length scores" and "length labels \<le> 2 ^ 53"
  obtains q where "average_precision labels scores = Inr (Fin q)" and "0 \<le> q" and "q \<le> 1"
proof (cases "sum_list labels = 0")
  case True
  then show ?thesis using that [of 0] by (simp add: average_precision_def)
next
  case False
  define ls where "ls = map snd (rank_by_score (zip scores labels))"
  have m: "mset ls = mset labels" unfolding ls_def by (rule ranked_labels [OF assms(2)])
  have "set ls = set labels" using m by (rule mset_eq_setD)
  then have b: "binary ls" using assms(1) by (simp add: binary_def)
  have s: "sum_list ls = sum_list labels" using m by (metis sum_mset_sum_list)
  have P: "0 < sum_list labels" "sum_list labels \<le> int (length labels)"
    using binary_sum_bounds [OF assms(1)] False by linarith+
  have "int (length labels) \<le> 2 ^ 53" using assms(3) by simp
  with P have P53: "sum_list labels \<le> 2 ^ 53" by linarith
  obtain A where A: "foldE (precision_step (sum_list labels)) (ranks_from 0 ls) (0, Fin 0, Fin (recall_at 0 (sum_list labels)))
      = Inr (0 + sum_list ls, Fin A, Fin (recall_at (0 + sum_list ls) (sum_list labels)))"
    "0 \<le> A" "A \<le> recall_at (0 + sum_list ls) (sum_list labels)"
    using ap_loop [OF b order_refl, of 0 "sum_list labels" 0] P P53 s by auto
  have "average_precision labels scores = Inr (Fin A)"
    using A(1) False by (simp add: average_precision_def Let_def enumerate1_ranks ls_def [symmetric])
  moreover have "A \<le> 1"
    using A(3) s recall_at_props(2) [of "sum_list labels" "sum_list labels"] P(1) by simp
  ultimately show ?thesis using that A(2) by blast
qed

text \<open>When every positive item has a higher score than every negative one, the ranking is
  the positives followed by the negatives.\<close>

lemma separated_labels:
  assumes "sorted_wrt (\<lambda>x y. fst y \<le> fst x) xs" and "binary (map snd xs)"
    and "\<And>x y. x \<in> set xs \<Longrightarrow> y \<in> set xs \<Longrightarrow> snd x = 1 \<Longrightarrow> snd y = 0 \<Longrightarrow> fst y < (fst x :: f64)"
  shows "\<exists>p n. map snd xs = replicate p 1 @ replicate n (0 :: int)"
  using assms
proof (induction xs)
  case Nil
  then show ?case by simp
next
  case (Cons x xs)
  show ?case
  proof (cases "snd x = 1")
    case True
    obtain p n where "map snd xs = replicate p 1 @ replicate n 0"
      using Cons.IH Cons.prems by auto
    then have "map snd (x # xs) = replicate (Suc p) 1 @ replicate n 0" using True by simp
    then show ?thesis by blast
  next
    case False
    then have x0: "snd x = 0" using Cons.prems(2) by simp
    have "snd y = 0" if "y \<in> set xs" for y
    proof (rule ccontr)
      assume "snd y \<noteq> 0"
      then have "snd y = 1" using Cons.prems(2) that by (auto simp: binary_def)
      then have "fst x < fst y" using Cons.prems(3) [of y x] that x0 by simp
      moreover have "fst y \<le> fst x" using Cons.prems(1) that by simp
      ultimately show False by simp
    qed
    then have "map snd (x # xs) = replicate 0 1 @ replicate (Suc (length xs)) 0"
      using x0 by (auto simp: list_eq_iff_nth_eq nth_Cons split: nat.splits)
    then show ?thesis by blast
  qed
qed

lemma average_precision_perfect:
  assumes "binary labels" and "length labels = length scores" and "length labels \<le> 2 ^ 53"
    and "1 \<in> set labels"
    and "\<And>i j. i < length labels \<Longrightarrow> j < length labels \<Longrightarrow> labels ! i = 1 \<Longrightarrow> labels ! j = 0 \<Longrightarrow>
      scores ! j < scores ! i"
  shows "average_precision labels scores = Inr (Fin 1)"
proof -
  define xs where "xs = rank_by_score (zip scores labels)"
  have m: "mset (map snd xs) = mset labels" unfolding xs_def by (rule ranked_labels [OF assms(2)])
  have set: "set xs = set (zip scores labels)"
    unfolding xs_def by (rule mset_eq_setD) (rule mset_rank_by_score)
  have b: "binary (map snd xs)" using mset_eq_setD [OF m] assms(1) by (simp add: binary_def)
  have "\<exists>p n. map snd xs = replicate p 1 @ replicate n (0 :: int)"
  proof (rule separated_labels [OF _ b])
    show "sorted_wrt (\<lambda>x y. fst y \<le> fst x) xs" unfolding xs_def by (rule sorted_rank_by_score)
    fix x y
    assume "x \<in> set xs" "y \<in> set xs" and lab: "snd x = 1" "snd y = 0"
    then obtain i j where ij: "i < length labels" "j < length labels" "fst x = scores ! i" "snd x = labels ! i"
      "fst y = scores ! j" "snd y = labels ! j"
      by (auto simp: set in_set_zip)
    show "fst y < fst x" unfolding ij(3,5) by (rule assms(5)) (use ij lab in simp_all)
  qed
  then obtain p n where pn: "map snd xs = replicate p 1 @ replicate n (0 :: int)" by blast
  have s: "sum_list labels = int p"
    using m pn by (metis sum_mset_sum_list sum_list_append sum_list_replicate add.right_neutral
        mult.right_neutral mult_zero_right of_nat_mult semiring_1_class.of_nat_1 mult.commute)
  have "1 \<in> set (replicate p 1 @ replicate n (0 :: int))"
    using assms(4) mset_eq_setD [OF m] unfolding pn by blast
  then have "p \<noteq> 0" by (auto simp: set_replicate_conv_if split: if_splits)
  moreover have "p + n = length labels" using arg_cong [OF m, of size] arg_cong [OF pn, of length] by simp
  then have "int p \<le> 2 ^ 53" using assms(3) by simp
  ultimately show ?thesis
    using ap_loop_perfect [of 0 p "int p"] s recall_at_props(2) [of "int p" "int p"]
    by (simp add: average_precision_def Let_def enumerate1_ranks xs_def [symmetric] pn ranks_from_append
        foldE_append ap_loop_zeros) (simp add: recall_at_def)
qed

section \<open>Confusion counts\<close>

abbreviation predicted :: "f64 \<Rightarrow> int list \<Rightarrow> f64 list \<Rightarrow> (int \<times> int) list" where
  "predicted threshold labels scores \<equiv> zip labels (map (predict threshold) scores)"

lemma predict_binary: "predict t s = 0 \<or> predict t s = 1"
  by (simp add: predict_def)

lemma count_pairs_Cons:
  "count_pairs l p (x # ps) = of_bool (x = (l, p)) + count_pairs l p ps"
  by (cases x) (simp add: count_pairs_def)

lemma count_pairs_nonneg [simp]: "0 \<le> count_pairs l p ps"
  by (simp add: count_pairs_def)

lemma count_pairs_totals:
  assumes "length labels = length scores" and "binary labels"
  shows "count_pairs 1 1 (predicted t labels scores) + count_pairs 1 0 (predicted t labels scores) = sum_list labels
    \<and> count_pairs 0 1 (predicted t labels scores) + count_pairs 0 0 (predicted t labels scores)
      = int (length labels) - sum_list labels"
  using assms
proof (induction labels scores rule: list_induct2)
  case Nil
  then show ?case by (simp add: count_pairs_def)
next
  case (Cons l ls s ss)
  then show ?case using predict_binary [of t s] by (auto simp: count_pairs_Cons)
qed

definition in_unit :: "f64 \<Rightarrow> bool" where
  "in_unit x \<longleftrightarrow> (\<exists>q. x = Fin q \<and> 0 \<le> q \<and> q \<le> 1)"

definition rates_in_unit :: "metrics \<Rightarrow> bool" where
  "rates_in_unit m \<longleftrightarrow>
     list_all in_unit [m_precision m, m_recall m, m_f1 m, m_fpr m, m_auprc m]"

lemma in_unitI: "unit_float x \<Longrightarrow> in_unit x" and in_unit_Fin [simp]: "in_unit (Fin q) \<longleftrightarrow> 0 \<le> q \<and> q \<le> 1"
  by (auto simp: in_unit_def)

lemma metrics_of:
  assumes "length labels = length scores" and "labels \<noteq> []" and "binary labels" and "length labels \<le> 2 ^ 53"
  obtains m where "classification_metrics labels scores t = Inr m"
    and "m_tp m + m_fn m = sum_list labels"
    and "m_fp m + m_tn m = int (length labels) - sum_list labels"
    and "0 \<le> m_tp m" "0 \<le> m_fp m" "0 \<le> m_tn m" "0 \<le> m_fn m" and "rates_in_unit m"
proof -
  let ?c = "\<lambda>l p. count_pairs l p (predicted t labels scores)"
  obtain precision where p: "ratio_or_zero (?c 1 1) (?c 1 1 + ?c 0 1) = Inr precision" "unit_float precision"
    by (rule ratio_or_zero_unit [of "?c 1 1" "?c 1 1 + ?c 0 1"]) simp_all
  obtain recall where r: "ratio_or_zero (?c 1 1) (?c 1 1 + ?c 1 0) = Inr recall" "unit_float recall"
    by (rule ratio_or_zero_unit [of "?c 1 1" "?c 1 1 + ?c 1 0"]) simp_all
  obtain f1 where f: "f1_score precision recall = Inr f1" "unit_float f1"
    by (rule f1_score_unit [OF p(2) r(2)])
  obtain fpr where fp: "ratio_or_zero (?c 0 1) (?c 0 0 + ?c 0 1) = Inr fpr" "unit_float fpr"
    by (rule ratio_or_zero_unit [of "?c 0 1" "?c 0 0 + ?c 0 1"]) simp_all
  obtain q where ap: "average_precision labels scores = Inr (Fin q)" "0 \<le> q" "q \<le> 1"
    by (rule average_precision_unit [OF assms(3,1,4)])
  have m: "classification_metrics labels scores t = Inr \<lparr>m_tp = ?c 1 1, m_fp = ?c 0 1, m_tn = ?c 0 0,
      m_fn = ?c 1 0, m_precision = precision, m_recall = recall, m_f1 = f1, m_fpr = fpr, m_auprc = Fin q\<rparr>"
    using assms(1,2) p(1) r(1) f(1) fp(1) ap(1) by (simp add: classification_metrics_def Let_def)
  note u = in_unitI [OF p(2)] in_unitI [OF r(2)] in_unitI [OF f(2)] in_unitI [OF fp(2)]
  show thesis
    by (rule that [OF m]) (use count_pairs_totals [OF assms(1,3), of t] u ap(2,3) in
        \<open>simp_all add: rates_in_unit_def\<close>)
qed

section \<open>Intervals\<close>

lemma pick_index:
  assumes "0 \<le> q" and "q \<le> 1" and "0 < n" and "n \<le> 2 ^ 53"
  obtains i where "bindE (float_of_int (int n - 1)) (\<lambda>x. bindE (float_trunc (fmul (Fin q) x)) f) = f i"
    and "0 \<le> i" and "i < int n" and "i = \<lfloor>rnd (q * of_int (int n - 1))\<rfloor>"
proof -
  obtain y where f: "float_of_int (int n - 1) = Inr (Fin (of_int (int n - 1)))"
    and y: "fmul (Fin (of_int (int n - 1))) (Fin q) = Fin y" "0 \<le> y" "y \<le> of_int (int n - 1)"
    by (rule position_in_range [OF assms])
  have c: "fmul (Fin q) (Fin (of_int (int n - 1))) = Fin y" using y(1) by (simp add: mult.commute)
  then have "y = rnd (q * of_int (int n - 1))"
    by (auto simp: of_exact_def Let_def split: if_splits)
  moreover have "\<lfloor>y\<rfloor> \<le> int n - 1" using y(3) by linarith
  ultimately show thesis
    using that [of "\<lfloor>y\<rfloor>"] y(2) c f
    by (simp add: float_trunc_def to_int_with_def rat_trunc_def del: fmul.simps)
qed

text \<open>The interval picks two of the values, the lower one first.\<close>

lemma interval_picks:
  assumes "values \<noteq> []" and "length values \<le> 2 ^ 53"
  obtains lo hi where "interval_of values = Inr (lo, hi)" and "lo \<le> hi" and "lo \<in> set values" and "hi \<in> set values"
proof -
  let ?n = "length values"
  define q1 q2 :: rat where "q1 = rnd (25 / 1000)" and "q2 = rnd (975 / 1000)"
  have q: "0 \<le> q1" "q1 \<le> 1" "0 \<le> q2" "q2 \<le> 1" "q1 \<le> q2"
    unfolding q1_def q2_def by (rule rnd_unit rnd_mono; simp)+
  have of: "of_exact (25 / 1000) = Fin q1" "of_exact (975 / 1000) = Fin q2"
    unfolding q1_def q2_def by (rule unit_of_exact(1); simp)+
  have n: "0 < ?n" using assms(1) by simp
  obtain i where i: "bindE (float_of_int (int ?n - 1)) (\<lambda>x. bindE (float_trunc (fmul (Fin q1) x))
      (py_index (sort values))) = py_index (sort values) i"
    "0 \<le> i" "i < int ?n" "i = \<lfloor>rnd (q1 * of_int (int ?n - 1))\<rfloor>"
    by (rule pick_index [OF q(1,2) n assms(2)])
  obtain j where j: "bindE (float_of_int (int ?n - 1)) (\<lambda>x. bindE (float_trunc (fmul (Fin q2) x))
      (py_index (sort values))) = py_index (sort values) j"
    "0 \<le> j" "j < int ?n" "j = \<lfloor>rnd (q2 * of_int (int ?n - 1))\<rfloor>"
    by (rule pick_index [OF q(3,4) n assms(2)])
  have "0 \<le> int ?n - 1" using n by linarith
  then have "(0 :: rat) \<le> of_int (int ?n - 1)" by (simp only: of_int_0_le_iff)
  with q(5) have "q1 * of_int (int ?n - 1) \<le> q2 * of_int (int ?n - 1)" by (rule mult_right_mono)
  then have ij: "i \<le> j" unfolding i(4) j(4) by (intro floor_mono rnd_mono)
  have mem: "sort values ! nat k \<in> set values" if "0 \<le> k" "k < int ?n" for k
    using nth_mem [of "nat k" "sort values"] that by simp
  have "sort values ! nat i \<le> sort values ! nat j"
  proof (rule sorted_nth_mono)
    show "nat i \<le> nat j" using ij by (rule nat_mono)
    show "nat j < length (sort values)" using j(2,3) unfolding length_sort by linarith
  qed simp
  moreover have "interval_of values = bindE (py_index (sort values) i) (\<lambda>low.
      bindE (py_index (sort values) j) (\<lambda>high. Inr (low, high)))"
    by (simp only: interval_of_def Let_def if_not_P [OF assms(1)] length_sort of i(1) j(1))
  then have "interval_of values = Inr (sort values ! nat i, sort values ! nat j)"
    using i(2,3) j(2,3) by (simp add: py_index_nonneg)
  ultimately show thesis using that mem [OF i(2,3)] mem [OF j(2,3)] by blast
qed

lemma interval_of_unit:
  assumes "\<forall>x\<in>set values. in_unit x" and "length values \<le> 2 ^ 53"
  obtains lo hi where "interval_of values = Inr (Fin lo, Fin hi)" and "0 \<le> lo" and "lo \<le> hi" and "hi \<le> 1"
proof (cases "values = []")
  case True
  then show ?thesis using that [of 0 0] by (simp add: interval_of_def)
next
  case False
  obtain lo hi where picked: "interval_of values = Inr (lo, hi)" "lo \<le> hi" "lo \<in> set values" "hi \<in> set values"
    by (rule interval_picks [OF False assms(2)])
  have "in_unit lo" "in_unit hi" using assms(1) picked(3,4) by blast+
  then obtain x y where "lo = Fin x" "hi = Fin y" "0 \<le> x" "y \<le> 1" by (auto simp: in_unit_def)
  then show ?thesis using that [of x y] picked(1,2) by simp
qed

section \<open>Resampling\<close>

definition bounded_draws :: "'s randbelow \<Rightarrow> bool" where
  "bounded_draws rb \<longleftrightarrow> (\<forall>n s. 0 < n \<longrightarrow> fst (rb n s) < n)"

lemma draws_bounds:
  assumes "bounded_draws rb" and "draws rb n k s = (is, s')" and "k = 0 \<or> 0 < n"
  shows "length is = k \<and> (\<forall>i\<in>set is. i < n)"
  using assms(2,3)
proof (induction k arbitrary: s "is" s')
  case (Suc k)
  obtain i s1 where r: "rb n s = (i, s1)" by fastforce
  obtain js s2 where d: "draws rb n k s1 = (js, s2)" by fastforce
  have "i < n" using assms(1) r Suc.prems(2) by (metis bounded_draws_def fst_conv nat.simps(3))
  with Suc.IH [OF d] Suc.prems r d show ?case by auto
qed simp

lemma mapE_py_index:
  assumes "\<forall>i\<in>set is. i < length xs"
  shows "mapE (\<lambda>i. py_index xs (int i)) is = Inr (map ((!) xs) is)"
  using assms by (intro mapE_total) simp

definition rate_names :: "string list" where
  "rate_names = [''precision'', ''recall'', ''f1'', ''false_positive_rate'', ''auprc'']"

lemma metric_value_rate:
  assumes "metric \<in> set rate_names" and "rates_in_unit m"
  obtains x where "metric_value m metric = Inr x" and "in_unit x"
  using assms by (auto simp: rate_names_def rates_in_unit_def metric_value_def)

lemma resampled_metric_unit:
  assumes "metric \<in> set rate_names" and "length labels = length scores" and "labels \<noteq> []"
    and "binary labels" and "length labels \<le> 2 ^ 53"
  obtains x where "resampled_metric labels scores t metric = Inr x" and "in_unit x"
proof -
  obtain m where m: "classification_metrics labels scores t = Inr m" "rates_in_unit m"
    by (rule metrics_of [OF assms(2-5)])
  obtain x where "metric_value m metric = Inr x" "in_unit x"
    by (rule metric_value_rate [OF assms(1) m(2)])
  with m(1) that show thesis by (simp add: resampled_metric_def)
qed

lemma binary_map_nth:
  assumes "binary labels" and "\<forall>i\<in>set is. i < length labels"
  shows "binary (map ((!) labels) is)"
proof -
  have "set (map ((!) labels) is) \<subseteq> set labels" using assms(2) by auto
  with assms(1) show ?thesis unfolding binary_def by blast
qed

lemma not_single_class_ne: "\<not> single_class labels \<Longrightarrow> labels \<noteq> []"
  by (auto simp: single_class_def)

lemma bootstrap_step_unit:
  assumes rb: "bounded_draws rb" and metric: "metric \<in> set rate_names" and len: "length labels = length scores"
    and bin: "binary labels" and small: "length labels \<le> 2 ^ 53" and vals: "\<forall>x\<in>set values. in_unit x"
  obtains s' values' where "bootstrap_step rb labels scores t metric k (s, values) = Inr (s', values')"
    and "\<forall>x\<in>set values'. in_unit x" and "length values' \<le> Suc (length values)"
proof -
  obtain "is" s1 where d: "draws rb (length labels) (length labels) s = (is, s1)" by fastforce
  have b: "length is = length labels" "\<forall>i\<in>set is. i < length labels"
    using draws_bounds [OF rb d] by auto
  have l: "mapE (\<lambda>i. py_index labels (int i)) is = Inr (map ((!) labels) is)"
    by (rule mapE_py_index [OF b(2)])
  have s: "mapE (\<lambda>i. py_index scores (int i)) is = Inr (map ((!) scores) is)"
    by (rule mapE_py_index) (use b(2) len in simp)
  show thesis
  proof (cases "single_class (map ((!) labels) is)")
    case True
    then show ?thesis
      by (intro that [of s1 "values"]) (use vals in \<open>simp_all add: bootstrap_step_def d l\<close>)
  next
    case False
    have sizes: "length (map ((!) labels) is) = length (map ((!) scores) is)"
      "length (map ((!) labels) is) \<le> 2 ^ 53"
      using b(1) small by (simp_all only: length_map)
    obtain x where "resampled_metric (map ((!) labels) is) (map ((!) scores) is) t metric = Inr x" "in_unit x"
      by (rule resampled_metric_unit [OF metric sizes(1) not_single_class_ne [OF False]
            binary_map_nth [OF bin b(2)] sizes(2)])
    with False show ?thesis
      by (intro that [of s1 "values @ [x]"]) (use vals in \<open>auto simp: bootstrap_step_def d l s\<close>)
  qed
qed

lemma bootstrap_loop_unit:
  assumes "bounded_draws rb" and "metric \<in> set rate_names" and "length labels = length scores"
    and "binary labels" and "length labels \<le> 2 ^ 53" and "\<forall>x\<in>set vs. in_unit x"
  obtains s' vs' where "foldE (bootstrap_step rb labels scores t metric) ks (s, vs) = Inr (s', vs')"
    and "\<forall>x\<in>set vs'. in_unit x" and "length vs' \<le> length vs + length ks"
  using assms(6)
proof (induction ks arbitrary: s vs thesis)
  case Nil
  then show ?case by simp
next
  case (Cons k ks)
  obtain s1 v1 where st: "bootstrap_step rb labels scores t metric k (s, vs) = Inr (s1, v1)"
    "\<forall>x\<in>set v1. in_unit x" "length v1 \<le> Suc (length vs)"
    by (rule bootstrap_step_unit [OF assms(1-5) Cons.prems(2)])
  obtain s' v' where "foldE (bootstrap_step rb labels scores t metric) ks (s1, v1) = Inr (s', v')"
    "\<forall>x\<in>set v'. in_unit x" "length v' \<le> length v1 + length ks"
    by (rule Cons.IH [OF _ st(2)])
  with st(1,3) show ?case by (intro Cons.prems(1) [of s' v']) simp_all
qed

section \<open>Runs\<close>

lemma count_list_concat: "count_list (concat xss) x = sum_list (map (\<lambda>xs. count_list xs x) xss)"
  by (induction xss) simp_all

lemma dget_map_snd: "dget (map (map_prod id f) d) k = map_option f (dget d k)"
  unfolding dget_def by (induction d) auto

text \<open>The group of a run is the list of the indices of its rows.\<close>

abbreviation run_ids_of :: "pyval list \<Rightarrow> string list result" where
  "run_ids_of rows \<equiv> mapE (\<lambda>row. mapR py_str (py_subscript row ''run_id'')) rows"

lemma run_groups_of_ids:
  assumes "run_ids_of rows = Inr ids" and "run_groups rows = Inr groups"
  shows "distinct (map fst groups)" and "fst ` set groups = set ids"
    and "r \<in> set ids \<Longrightarrow> dget groups r = Some (filter (\<lambda>i. ids ! i = r) [0..<length rows])"
proof -
  have g: "groups = map (map_prod id (map snd)) (group_by fst (zip ids [0..<length ids]))"
    using assms by (simp add: run_groups_def)
  let ?z = "zip ids [0..<length ids]"
  have len: "length ids = length rows" by (rule mapE_length [OF assms(1)])
  have keys: "map fst groups = map fst (group_by fst ?z)" unfolding g by simp
  have "map fst ?z = ids" by simp
  then have fst_z: "fst ` set ?z = set ids" by (metis set_map)
  have z: "?z = map (\<lambda>i. (ids ! i, i)) [0..<length ids]" by (rule nth_equalityI) simp_all
  show "distinct (map fst groups)" unfolding keys by (rule distinct_group_by)
  have "fst ` set groups = fst ` set (group_by fst ?z)" using keys by (metis set_map)
  also have "\<dots> = fst ` set ?z" by (rule keys_group_by)
  also note fst_z
  finally show "fst ` set groups = set ids" .
  assume "r \<in> set ids"
  then have "r \<in> fst ` set ?z" by (simp only: fst_z)
  then have d: "dget groups r = Some (map snd (filter (\<lambda>x. fst x = r) ?z))"
    by (simp add: g dget_map_snd dget_group_by)
  show "dget groups r = Some (filter (\<lambda>i. ids ! i = r) [0..<length rows])"
    unfolding d z by (simp add: filter_map comp_def len)
qed

lemma run_groups_Inr:
  assumes "run_groups rows = Inr groups"
  obtains ids where "run_ids_of rows = Inr ids"
  using assms by (auto simp: run_groups_def mapR_eq_Inr_iff)

lemma count_list_filter_upt:
  "count_list (filter P [0..<n]) i = (if i < n \<and> P i then 1 else 0)"
  by (induction n) auto

lemma sampled_indices_count:
  assumes "run_ids_of rows = Inr ids" and "run_groups rows = Inr groups"
    and "\<forall>j\<in>set draw. j < length run_ids" and "set run_ids = fst ` set groups" and "i < length rows"
  shows "count_list (sampled_indices groups run_ids draw) i = count_list (map ((!) run_ids) draw) (ids ! i)"
  using assms(3)
proof (induction draw)
  case (Cons j draw)
  have "run_ids ! j \<in> set ids"
    using Cons.prems assms(4) run_groups_of_ids(2) [OF assms(1,2)] nth_mem [of j run_ids] by simp
  note get = run_groups_of_ids(3) [OF assms(1,2) this]
  show ?case using Cons assms(5) by (auto simp: sampled_indices_def count_list_filter_upt get)
qed (simp add: sampled_indices_def)

section \<open>Delays\<close>

lemma hd_sort_fst_least:
  fixes vs :: "(int \<times> f64) list"
  assumes "v \<in> set vs"
  shows "fst (hd (sort vs)) \<le> fst v"
proof -
  have ne: "sort vs \<noteq> []" using assms by (metis set_sort empty_iff list.set(1))
  have "sorted (sort vs)" by simp
  then have "hd (sort vs) \<le> v"
    using assms ne by (metis hd_Cons_tl list.set_cases list.sel(1) order_refl set_ConsD set_sort sorted_simps(2))
  then show ?thesis by (auto simp: less_eq_prod_def)
qed

lemma find_sorted_least:
  assumes "sorted xs" and "find P xs = Some v" and "u \<in> set xs" and "P u"
  shows "v \<le> u"
  using assms by (induction xs) (auto split: if_splits)

lemma find_SomeD: "find P xs = Some x \<Longrightarrow> x \<in> set xs \<and> P x"
  by (induction xs) (auto split: if_splits)

lemma mapE_map_eq:
  assumes "mapE f xs = Inr ys" and "\<And>x y. f x = Inr y \<Longrightarrow> g y = h x"
  shows "map g ys = map h xs"
  using assms(1)
proof (induction xs arbitrary: ys)
  case (Cons x xs)
  then show ?case using assms(2) by (auto simp: bindE_eq_Inr_iff)
qed simp

lemma find_sort_least:
  fixes vs :: "(int \<times> f64) list"
  assumes "find P (sort vs) = Some v" and "u \<in> set vs" and "P u"
  shows "fst v \<le> fst u"
proof -
  have "v \<le> u" by (rule find_sorted_least [OF _ assms(1) _ assms(3)]) (use assms(2) in simp_all)
  then show ?thesis by (auto simp: less_eq_prod_def)
qed

lemma note_attack_Inr:
  assumes "note_attack (row, score) g = Inr g'"
  obtains "bindE (py_subscript row ''is_attack'') py_int = Inr 0" and "g' = g"
  | a r t where "bindE (py_subscript row ''is_attack'') py_int = Inr a" and "a \<noteq> 0"
    and "mapR py_str (py_subscript row ''run_id'') = Inr r"
    and "bindE (py_subscript row ''window_start_ns'') py_int = Inr t"
    and "g' = group_append r (t, score) g"
  using assms by (auto simp: note_attack_def bindE_eq_Inr_iff split: if_splits)

text \<open>The windows of an attack run, with their scores.\<close>

fun attack_windows :: "string \<Rightarrow> (pyval \<times> f64) list \<Rightarrow> (int \<times> f64) list" where
  "attack_windows run [] = []"
| "attack_windows run ((row, score) # rest) =
     (if bindE (py_subscript row ''is_attack'') py_int \<noteq> Inr 0
         \<and> mapR py_str (py_subscript row ''run_id'') = Inr run
      then (get_ok (bindE (py_subscript row ''window_start_ns'') py_int) 0, score) # attack_windows run rest
      else attack_windows run rest)"

lemma attack_windows_append:
  "attack_windows run (xs @ ys) = attack_windows run xs @ attack_windows run ys"
  by (induction run xs rule: attack_windows.induct) simp_all

lemma grouped_attacks:
  assumes "foldE note_attack items [] = Inr g"
  shows "distinct (map fst g) \<and> (\<forall>run. dget g run =
    (if attack_windows run items = [] then None else Some (attack_windows run items)))"
  using assms
proof (induction items arbitrary: g rule: rev_induct)
  case Nil
  then show ?case by (simp add: dget_def)
next
  case (snoc x items)
  obtain row score where x: "x = (row, score)" by (cases x)
  from snoc.prems obtain g0 where g0: "foldE note_attack items [] = Inr g0"
    and st: "note_attack (row, score) g0 = Inr g"
    by (auto simp: foldE_append bindE_eq_Inr_iff x)
  note IH = snoc.IH [OF g0]
  from st show ?case
  proof (cases rule: note_attack_Inr)
    case 1
    then show ?thesis using IH by (simp add: x attack_windows_append)
  next
    case (2 a r t)
    then have w: "attack_windows run (items @ [x]) = attack_windows run items @ (if run = r then [(t, score)] else [])"
      for run by (auto simp: x attack_windows_append)
    have "distinct (map fst g)" unfolding 2 group_append_def by (rule distinct_dset) (use IH in blast)
    then show ?thesis using IH by (auto simp: w 2(5) dget_group_append)
  qed
qed

lemma delay_of_cases:
  assumes "delay_of threshold vs = Inr d" and "vs \<noteq> []"
  shows "case d of
      None \<Rightarrow> \<forall>v\<in>set vs. \<not> flt threshold (snd v)
    | Some x \<Rightarrow> Fin 0 \<le> x \<and> (\<exists>a\<in>set vs. \<exists>f\<in>set vs. flt threshold (snd a)
        \<and> (\<forall>v\<in>set vs. fst f \<le> fst v) \<and> (\<forall>v\<in>set vs. flt threshold (snd v) \<longrightarrow> fst a \<le> fst v)
        \<and> int_truediv (fst a - fst f) 1000000000 = Inr x)"
proof (cases "find (\<lambda>(timestamp, score). flt threshold score) (sort vs)")
  case None
  then have "d = None" using assms(1) by (simp add: delay_of_def Let_def)
  then show ?thesis using None by (auto simp: find_None_iff)
next
  case (Some a)
  let ?f = "hd (sort vs)"
  obtain x where x: "int_truediv (fst a - fst ?f) 1000000000 = Inr x" and d: "d = Some x"
    using assms(1) Some by (auto simp: delay_of_def Let_def mapR_eq_Inr_iff split: prod.splits)
  have "sort vs \<noteq> []" using assms(2) by (metis set_sort set_empty)
  then have f: "?f \<in> set vs" using hd_in_set [of "sort vs"] by simp
  have a: "a \<in> set vs" "flt threshold (snd a)"
    using find_SomeD [OF Some] by (simp_all add: split_beta)
  have "fst ?f \<le> fst a" by (rule hd_sort_fst_least [OF a(1)])
  then have "Fin 0 \<le> x" using int_truediv_nonneg [OF x] by simp
  moreover have "\<forall>v\<in>set vs. flt threshold (snd v) \<longrightarrow> fst a \<le> fst v"
    using find_sort_least [OF Some] by (auto simp: case_prod_beta)
  moreover have "\<forall>v\<in>set vs. fst ?f \<le> fst v" using hd_sort_fst_least by blast
  ultimately show ?thesis using a f x unfolding d option.case by blast
qed

section \<open>Sample windows\<close>

definition sample_row :: "string \<Rightarrow> int \<Rightarrow> pyval" where
  "sample_row run t = PDict [(''run_id'', PStr run), (''is_attack'', PInt 1), (''window_start_ns'', PInt t)]"

lemma sample_delays:
  "attack_detection_delays [sample_row ''b'' 5, sample_row ''a'' 7] [Fin 1, Fin 9] (Fin 2)
    = Inr [(''a'', Some (Fin 0)), (''b'', None)]"
  by (simp add: attack_detection_delays_def note_attack_def sample_row_def dget_def group_append_def
      dset_def delay_of_def int_truediv_def exact_or_overflow_small)

section \<open>Properties\<close>

text \<open>C32. On binary labels \<open>classification_metrics\<close> never raises; its four counts are
  those of a confusion matrix (non-negative, true positives and false negatives add up to
  the positives, the other two to the negatives), and precision, recall, F1, false positive
  rate and average precision are floats in the unit interval, rounding included.\<close>

theorem metrics_well_formed:
  assumes "length labels = length scores" and "labels \<noteq> []" and "set labels \<subseteq> {0, 1}"
    and "length labels \<le> 2 ^ 53"
  shows "\<exists>m. classification_metrics labels scores t = Inr m \<and> rates_in_unit m
    \<and> m_tp m + m_fn m = sum_list labels \<and> m_fp m + m_tn m = int (length labels) - sum_list labels
    \<and> 0 \<le> m_tp m \<and> 0 \<le> m_fp m \<and> 0 \<le> m_tn m \<and> 0 \<le> m_fn m"
  using metrics_of [OF assms(1,2) assms(3) [folded binary_def] assms(4)] by metis

theorem metrics_well_formed_witness:
  "\<exists>m. classification_metrics [1, 0, 1] [Fin 3, Fin 2, NaN] (Fin 1) = Inr m \<and> rates_in_unit m
    \<and> m_tp m + m_fn m = sum_list [1, 0, 1] \<and> m_fp m + m_tn m = int (length [1 :: int, 0, 1]) - sum_list [1, 0, 1]
    \<and> 0 \<le> m_tp m \<and> 0 \<le> m_fp m \<and> 0 \<le> m_tn m \<and> 0 \<le> m_fn m"
  by (rule metrics_well_formed) simp_all

text \<open>A detector that scores every attack window above every benign one has an average
  precision of exactly 1.0: the sum of the rounded steps loses nothing.\<close>

theorem perfect_ranking_scores_one:
  assumes "set labels \<subseteq> {0, 1}" and "length labels = length scores" and "length labels \<le> 2 ^ 53"
    and "1 \<in> set labels" and "NaN \<notin> set scores"
    and "\<forall>(l, s) \<in> set (zip labels scores). \<forall>(m, u) \<in> set (zip labels scores). l = 1 \<and> m = 0 \<longrightarrow> u < s"
  shows "average_precision labels scores = Inr (Fin 1)"
proof (rule average_precision_perfect [OF assms(1) [folded binary_def] assms(2-4)])
  fix i j
  assume "i < length labels" "j < length labels" and l: "labels ! i = 1" "labels ! j = 0"
  then have "(labels ! i, scores ! i) \<in> set (zip labels scores)" "(labels ! j, scores ! j) \<in> set (zip labels scores)"
    using assms(2) by (auto simp: in_set_zip)
  with assms(6) l show "scores ! j < scores ! i" by fastforce
qed

theorem perfect_ranking_scores_one_witness:
  "average_precision [0, 1, 0, 1, 1] [Fin 1, Fin 5, Fin 2, PInf, Fin 3] = Inr (Fin 1)"
  by (rule perfect_ranking_scores_one) simp_all

text \<open>For every seed and every generator whose draws respect their bound, the bootstrap
  of a rate returns, and its two ends satisfy \<open>0 \<le> low \<le> high \<le> 1\<close>.\<close>

theorem bootstrap_interval_ordered:
  assumes "bounded_draws rb" and "metric \<in> set rate_names" and "length labels = length scores"
    and "set labels \<subseteq> {0, 1}" and "length labels \<le> 2 ^ 53" and "iterations \<le> 2 ^ 53"
  shows "\<exists>low high. bootstrap_metric_interval rb labels scores t metric iterations seed = Inr (Fin low, Fin high)
    \<and> 0 \<le> low \<and> low \<le> high \<and> high \<le> 1"
proof -
  obtain s' vs where loop: "foldE (bootstrap_step rb labels scores t metric) [0..<iterations] (seed, [])
      = Inr (s', vs)" and unit: "\<forall>x\<in>set vs. in_unit x" and len: "length vs \<le> iterations"
    by (rule bootstrap_loop_unit [where ks = "[0..<iterations]" and s = seed and t = t and vs = "[]",
          OF assms(1-3) assms(4) [folded binary_def] assms(5)]) simp_all
  have "length vs \<le> 2 ^ 53" using len assms(6) by (rule le_trans)
  from interval_of_unit [OF unit this] show ?thesis
    by (metis (no_types, lifting) bindE_simps(2) bootstrap_metric_interval_def loop old.prod.case)
qed

theorem bootstrap_interval_ordered_witness:
  "\<exists>low high. bootstrap_metric_interval (\<lambda>n s. (s mod n, 5 * s + 3)) [1, 0, 1] [Fin 3, Fin 2, Fin 1] (Fin 1)
      ''f1'' 20 42 = Inr (Fin low, Fin high) \<and> 0 \<le> low \<and> low \<le> high \<and> high \<le> 1"
  by (rule bootstrap_interval_ordered) (simp_all add: bounded_draws_def rate_names_def)

text \<open>The run-level bootstrap draws whole runs: in a resample, each window of a run
  occurs exactly as often as its run was drawn, so windows of one run are never separated.\<close>

theorem runs_resampled_whole:
  assumes "run_ids_of rows = Inr ids" and "run_groups rows = Inr groups"
    and "bounded_draws rb" and "draws rb (length groups) k s = (draw, s')" and "groups \<noteq> []"
    and "i < length rows"
  shows "count_list (sampled_indices groups (sort (map fst groups)) draw) i =
    count_list (map ((!) (sort (map fst groups))) draw) (ids ! i)"
proof (rule sampled_indices_count [OF assms(1,2) _ _ assms(6)])
  show "\<forall>j\<in>set draw. j < length (sort (map fst groups))"
    using draws_bounds [OF assms(3,4)] assms(5) by simp
qed simp

theorem runs_resampled_whole_witness:
  "count_list (sampled_indices [(''a'', [0, 2]), (''b'', [1])]
     (sort (map fst [(''a'', [0 :: nat, 2]), (''b'', [1])])) [0, 0]) 2 =
   count_list (map ((!) (sort (map fst [(''a'', [0 :: nat, 2]), (''b'', [1])]))) [0, 0])
     ([''a'', ''b'', ''a''] ! 2)"
  by (rule runs_resampled_whole [where rb = "\<lambda>n s. (0, s)" and k = 2 and s = "()" and s' = "()" and
       rows = "map (\<lambda>r. PDict [(''run_id'', PStr r)]) [''a'', ''b'', ''a'']"])
     (simp_all add: dget_def run_groups_def group_by_def group_append_def dset_def bounded_draws_def
      numeral_2_eq_2 upt_rec)

text \<open>Detection delays: one entry per attack run, in sorted order; it is \<open>None\<close> exactly
  when no window of the run scores above the threshold, otherwise the time from the run's
  earliest window to its earliest window above the threshold, in seconds and never
  negative.\<close>

theorem delays_correct:
  assumes "attack_detection_delays rows scores threshold = Inr delays"
  shows "sorted_wrt (<) (map fst delays) \<and> (\<forall>(run, d) \<in> set delays.
    attack_windows run (zip rows scores) \<noteq> [] \<and> (case d of
      None \<Rightarrow> \<forall>v\<in>set (attack_windows run (zip rows scores)). \<not> flt threshold (snd v)
    | Some x \<Rightarrow> Fin 0 \<le> x \<and> (\<exists>a\<in>set (attack_windows run (zip rows scores)).
        \<exists>f\<in>set (attack_windows run (zip rows scores)). flt threshold (snd a)
        \<and> (\<forall>v\<in>set (attack_windows run (zip rows scores)). fst f \<le> fst v)
        \<and> (\<forall>v\<in>set (attack_windows run (zip rows scores)). flt threshold (snd v) \<longrightarrow> fst a \<le> fst v)
        \<and> int_truediv (fst a - fst f) 1000000000 = Inr x)))"
proof -
  from assms obtain g where g: "foldE note_attack (zip rows scores) [] = Inr g"
    and m: "mapE (\<lambda>(run_id, vs). mapR (\<lambda>d. (run_id, d)) (delay_of threshold vs)) (sort_key fst g) = Inr delays"
    by (auto simp: attack_detection_delays_def bindE_eq_Inr_iff split: if_splits)
  note ga = grouped_attacks [OF g]
  have "map fst delays = map fst (sort_key fst g)"
    by (rule mapE_map_eq [OF m]) (auto simp: mapR_eq_Inr_iff)
  moreover have "sorted_wrt (<) (map fst (sort_key fst g))" by (rule sorted_wrt_sort_key_fst) (use ga in blast)
  moreover have "attack_windows run (zip rows scores) \<noteq> []
      \<and> delay_of threshold (attack_windows run (zip rows scores)) = Inr d"
    if mem: "(run, d) \<in> set delays" for run d
  proof -
    obtain vs where vs: "(run, vs) \<in> set g" "delay_of threshold vs = Inr d"
      by (rule mapE_set_mem [OF m mem]) (auto simp: mapR_eq_Inr_iff)
    then have "dget g run = Some vs" unfolding dget_def by (intro map_of_is_SomeI conjunct1 [OF ga])
    then have "vs = attack_windows run (zip rows scores)" "vs \<noteq> []"
      using ga by (auto split: if_splits)
    with vs(2) show ?thesis by simp
  qed
  ultimately show ?thesis using delay_of_cases by (fastforce simp del: split_paired_Ex)
qed

theorem delays_correct_witness:
  "\<not> flt (Fin 2) (Fin 1) \<and> (\<exists>a\<in>set (attack_windows ''a'' (zip [sample_row ''b'' 5, sample_row ''a'' 7] [Fin 1, Fin 9])).
     flt (Fin 2) (snd a) \<and> int_truediv (fst a - 7) 1000000000 = Inr (Fin 0))"
  using delays_correct [OF sample_delays]
  by (simp add: sample_row_def dget_def)

end
