(* ===== verification/Workload.thy ===== *)
theory Workload
  imports Mock_Gateway Evaluation
begin

text \<open>
  \<open>cote3mon/workload.py\<close>: the benign and attack workloads.  The world a workload runs in
  (clock, sleep and the connection to the gateway) and its random generator are parameters:
  \<open>w_exchange\<close> sends the bytes on a fresh connection and gives the segments that come back.
  The loop may run forever when the clock stands still, so it is a partial function.
\<close>

section \<open>The world\<close>

record 'e world =
  w_monotonic :: "'e \<Rightarrow> f64 \<times> 'e"
  w_exchange :: "bytes \<Rightarrow> 'e \<Rightarrow> bytes list \<times> 'e"
  w_sleep :: "f64 \<Rightarrow> 'e \<Rightarrow> 'e"

record 'r rng =
  rg_below :: "'r randbelow"
  rg_bytes :: "nat \<Rightarrow> 'r \<Rightarrow> bytes \<times> 'r"

definition BENIGN_SCENARIOS :: "string list" where
  "BENIGN_SCENARIOS = [''steady'', ''bursty'', ''large_value'']"

definition ATTACK_SCENARIOS :: "string list" where
  "ATTACK_SCENARIOS = [''flood'', ''malformed'', ''error_storm'', ''replay'']"

definition ALL_SCENARIOS :: "string list" where
  "ALL_SCENARIOS = BENIGN_SCENARIOS @ ATTACK_SCENARIOS"

section \<open>Single messages\<close>

definition send_request :: "'e world \<Rightarrow> int \<Rightarrow> operation \<Rightarrow> bytes \<Rightarrow> bytes \<Rightarrow> 'e \<Rightarrow> status result \<times> 'e" where
  "send_request w request_id op key value e =
     (let r = \<lparr>req_id = request_id, req_op = op, req_key = key, req_value = value\<rparr> in
      case encode_request r of
        Inl err \<Rightarrow> (Inl err, e)
      | Inr sent \<Rightarrow>
          (case w_exchange w sent e of (segments, e') \<Rightarrow>
             (mapR resp_status (call sock_recv (\<lambda>_. segments) r), e')))"

text \<open>\<open>_malformed\<close>: the header of a \<open>PUT\<close> that declares an over-limit value, and one byte; what
  comes back is ignored.\<close>

definition malformed_header :: "int \<Rightarrow> bytes result" where
  "malformed_header request_id =
     pack_fields (zip REQUEST_STRUCT [MAGIC, VERSION, op_code PUT, request_id, 1, int MAX_VALUE_BYTES + 1])"

definition send_malformed :: "'e world \<Rightarrow> int \<Rightarrow> 'e \<Rightarrow> unit result \<times> 'e" where
  "send_malformed w request_id e =
     (case malformed_header request_id of
        Inl err \<Rightarrow> (Inl err, e)
      | Inr header \<Rightarrow> (case w_exchange w (header @ utf8_encode ''k'') e of (_, e') \<Rightarrow> (Inr (), e')))"

section \<open>One turn of the loop\<close>

text \<open>\<open>f"key-{n:02d}"\<close> for a number below 100.\<close>

definition key_text :: "nat \<Rightarrow> bytes" where
  "key_text n = utf8_encode (''key-'' @ [digit_char (n div 10), digit_char (n mod 10)])"

text \<open>The request of a turn in the scenarios that send one.\<close>

definition next_request :: "'r rng \<Rightarrow> string \<Rightarrow> bytes \<Rightarrow> int \<Rightarrow> 'r \<Rightarrow> (operation \<times> bytes \<times> bytes) \<times> 'r" where
  "next_request rg scenario key request_id r =
     (if scenario = ''steady'' then
        let op = [PUT, GET, GET, DELETE] ! nat (request_id mod 4) in
        if op = PUT then (case rg_bytes rg 64 r of (v, r') \<Rightarrow> ((op, key, v), r')) else ((op, key, []), r)
      else if scenario = ''large_value'' then (case rg_bytes rg 3072 r of (v, r') \<Rightarrow> ((PUT, key, v), r'))
      else if scenario = ''flood'' then ((PUT, key, replicate 32 (byte_of_char (CHR ''F''))), r)
      else if scenario = ''error_storm'' then ((GET, utf8_encode ''never-created'', []), r)
      else ((PUT, utf8_encode ''replayed-key'', replicate 128 (byte_of_char (CHR ''R''))), r))"

definition pause_of :: "string \<Rightarrow> f64 option" where
  "pause_of scenario =
     (if scenario = ''steady'' then Some (of_exact (1 / 100))
      else if scenario = ''bursty'' then Some (of_exact (8 / 100))
      else if scenario = ''large_value'' then Some (of_exact (2 / 100))
      else if scenario = ''flood'' then None
      else Some (of_exact (2 / 1000)))"

definition sleep_for :: "'e world \<Rightarrow> string \<Rightarrow> f64 \<Rightarrow> 'e \<Rightarrow> unit result \<times> 'e" where
  "sleep_for w scenario sleep_scale e =
     (case pause_of scenario of
        None \<Rightarrow> (Inr (), e)
      | Some base \<Rightarrow>
          let t = fmul base sleep_scale in
          (case sleep_check t of Inl err \<Rightarrow> (Inl err, e) | Inr _ \<Rightarrow> (Inr (), w_sleep w t e)))"

fun burst :: "'e world \<Rightarrow> 'r rng \<Rightarrow> bytes \<Rightarrow> f64 \<Rightarrow> nat \<Rightarrow> int \<Rightarrow> 'r \<Rightarrow> 'e \<Rightarrow> int result \<times> 'r \<times> 'e" where
  "burst w rg key deadline 0 request_id r e = (Inr request_id, r, e)"
| "burst w rg key deadline (Suc n) request_id r e =
     (case w_monotonic w e of (now, e1) \<Rightarrow>
        if fle deadline now then (Inr request_id, r, e1)
        else (case rg_bytes rg 96 r of (v, r1) \<Rightarrow>
          (case send_request w request_id PUT key v e1 of
             (Inl err, e2) \<Rightarrow> (Inl err, r1, e2)
           | (Inr _, e2) \<Rightarrow> burst w rg key deadline n (request_id + 1) r1 e2)))"

text \<open>The messages of one turn; the result is the next identifier.\<close>

definition turn_messages ::
  "'e world \<Rightarrow> 'r rng \<Rightarrow> string \<Rightarrow> f64 \<Rightarrow> bytes \<Rightarrow> int \<Rightarrow> 'r \<Rightarrow> 'e \<Rightarrow> int result \<times> 'r \<times> 'e" where
  "turn_messages w rg scenario deadline key request_id r e =
     (if scenario = ''bursty'' then burst w rg key deadline 8 request_id r e
      else if scenario = ''malformed'' then
        (case send_malformed w request_id e of (res, e') \<Rightarrow> (mapR (\<lambda>_. request_id + 1) res, r, e'))
      else
        (case next_request rg scenario key request_id r of ((op, k, v), r1) \<Rightarrow>
          (case send_request w request_id op k v e of (res, e') \<Rightarrow> (mapR (\<lambda>_. request_id + 1) res, r1, e'))))"

definition turn ::
  "'e world \<Rightarrow> 'r rng \<Rightarrow> string \<Rightarrow> f64 \<Rightarrow> f64 \<Rightarrow> int \<Rightarrow> 'r \<Rightarrow> 'e \<Rightarrow> int result \<times> 'r \<times> 'e" where
  "turn w rg scenario sleep_scale deadline request_id r e =
     (case rg_below rg 32 r of (n, r1) \<Rightarrow>
       (case turn_messages w rg scenario deadline (key_text n) request_id r1 e of
          (Inl err, r2, e1) \<Rightarrow> (Inl err, r2, e1)
        | (Inr next, r2, e1) \<Rightarrow>
            (case sleep_for w scenario sleep_scale e1 of (res, e2) \<Rightarrow> (mapR (\<lambda>_. next) res, r2, e2))))"

partial_function (option) workload_loop ::
  "'e world \<Rightarrow> 'r rng \<Rightarrow> string \<Rightarrow> f64 \<Rightarrow> f64 \<Rightarrow> int \<Rightarrow> 'r \<Rightarrow> 'e \<Rightarrow> (int result \<times> 'e) option" where
  "workload_loop w rg scenario sleep_scale deadline request_id r e =
     (case w_monotonic w e of (now, e1) \<Rightarrow>
        if \<not> flt now deadline then Some (Inr (request_id - 1), e1)
        else (case turn w rg scenario sleep_scale deadline request_id r e1 of
                (Inl err, r1, e2) \<Rightarrow> Some (Inl err, e2)
              | (Inr next, r1, e2) \<Rightarrow> workload_loop w rg scenario sleep_scale deadline next r1 e2))"

declare workload_loop.simps [code]

definition run_workload ::
  "'e world \<Rightarrow> 'r rng \<Rightarrow> string \<Rightarrow> f64 \<Rightarrow> 'r \<Rightarrow> f64 \<Rightarrow> 'e \<Rightarrow> (int result \<times> 'e) option" where
  "run_workload w rg scenario duration_seconds seed sleep_scale e =
     (if scenario \<notin> set ALL_SCENARIOS then Some (Inl ValueError, e)
      else if fle duration_seconds (Fin 0) then Some (Inl ValueError, e)
      else (case w_monotonic w e of (start, e1) \<Rightarrow>
        workload_loop w rg scenario sleep_scale (fadd start duration_seconds) 1 seed e1))"

section \<open>Invariants of the world\<close>

text \<open>What the clock, the sleep and every exchange keep is kept by a whole run.\<close>

locale world_invariant =
  fixes w :: "'e world" and I :: "'e \<Rightarrow> bool"
  assumes clock_keeps: "I e \<Longrightarrow> I (snd (w_monotonic w e))"
    and exchange_keeps: "I e \<Longrightarrow> I (snd (w_exchange w bs e))"
    and sleep_keeps: "I e \<Longrightarrow> I (w_sleep w t e)"
begin

lemma clock_inv: "w_monotonic w e = (t, e') \<Longrightarrow> I e \<Longrightarrow> I e'"
  using clock_keeps [of e] by simp

lemma send_request_inv: "send_request w n op k v e = (res, e') \<Longrightarrow> I e \<Longrightarrow> I e'"
  using exchange_keeps [of e] by (auto simp: send_request_def Let_def split: sum.splits prod.splits) (metis snd_conv)

lemma send_malformed_inv: "send_malformed w n e = (res, e') \<Longrightarrow> I e \<Longrightarrow> I e'"
  using exchange_keeps [of e] by (auto simp: send_malformed_def split: sum.splits prod.splits) (metis snd_conv)

lemma burst_inv: "burst w rg key dl k n r e = (res, r', e') \<Longrightarrow> I e \<Longrightarrow> I e'"
proof (induction k arbitrary: n r e)
  case (Suc k)
  from Suc.prems show ?case
    by (auto split: sum.splits prod.splits if_splits dest!: clock_inv send_request_inv dest: Suc.IH)
qed simp

lemma turn_messages_inv: "turn_messages w rg sc dl key n r e = (res, r', e') \<Longrightarrow> I e \<Longrightarrow> I e'"
  by (auto simp: turn_messages_def dest: burst_inv send_request_inv send_malformed_inv split: prod.splits if_splits)

lemma sleep_inv: "sleep_for w sc scale e = (res, e') \<Longrightarrow> I e \<Longrightarrow> I e'"
  by (auto simp: sleep_for_def Let_def intro: sleep_keeps split: option.splits sum.splits)

lemma turn_inv: "turn w rg sc scale dl n r e = (res, r', e') \<Longrightarrow> I e \<Longrightarrow> I e'"
  by (auto simp: turn_def dest: turn_messages_inv sleep_inv split: prod.splits sum.splits)

lemma loop_inv:
  assumes "workload_loop w rg sc scale dl n r e = Some (res, e')" and "I e"
  shows "I e'"
proof -
  have "x = w \<longrightarrow> I e \<longrightarrow> I (snd y)"
    if "workload_loop x rg sc scale dl n r e = Some y" for x rg scale dl n r e y
  proof (rule workload_loop.raw_induct [where P = "\<lambda>x rg sc scale dl n r e y. x = w \<longrightarrow> I e \<longrightarrow> I (snd y)",
      OF _ that], goal_cases)
    case (1 loop x rg sc scale dl n r e y)
    then show ?case
      by (cases y) (auto split: prod.splits sum.splits if_splits dest!: clock_inv turn_inv)
  qed
  from this [OF assms(1)] assms(2) show ?thesis by simp
qed

lemma run_inv: "run_workload w rg sc duration seed scale e = Some (res, e') \<Longrightarrow> I e \<Longrightarrow> I e'"
  by (auto simp: run_workload_def dest: clock_inv loop_inv split: prod.splits if_splits)

end

section \<open>The messages of a run\<close>

text \<open>The same world with a log of the messages sent.\<close>

definition logging :: "'e world \<Rightarrow> ('e \<times> bytes list) world" where
  "logging w = \<lparr>w_monotonic = (\<lambda>(e, l). case w_monotonic w e of (t, e') \<Rightarrow> (t, (e', l))),
     w_exchange = (\<lambda>bs (e, l). case w_exchange w bs e of (segments, e') \<Rightarrow> (segments, (e', l @ [bs]))),
     w_sleep = (\<lambda>t (e, l). (w_sleep w t e, l))\<rparr>"

text \<open>What the \<open>n\<close>-th message of a scenario is.\<close>

definition message_ok :: "string \<Rightarrow> int \<Rightarrow> bytes \<Rightarrow> bool" where
  "message_ok scenario n bs =
     (if scenario = ''malformed'' then
        (case malformed_header n of Inr h \<Rightarrow> bs = h @ utf8_encode ''k'' | Inl _ \<Rightarrow> False)
      else (case recv_request file_read bs of
              Inr (r, rest) \<Rightarrow> rest = [] \<and> req_id r = n
                \<and> (scenario \<in> {''bursty'', ''large_value'', ''flood'', ''replay''} \<longrightarrow> req_op r = PUT)
                \<and> (scenario = ''error_storm'' \<longrightarrow> req_op r = GET)
            | Inl _ \<Rightarrow> False))"

definition messages_ok :: "string \<Rightarrow> bytes list \<Rightarrow> bool" where
  "messages_ok scenario l \<longleftrightarrow> list_all (\<lambda>(n, bs). message_ok scenario (int n) bs) (enumerate 1 l)"

lemma messages_ok_snoc:
  "messages_ok sc (l @ [bs]) \<longleftrightarrow> messages_ok sc l \<and> message_ok sc (int (length l) + 1) bs"
  by (simp add: messages_ok_def enumerate_append_eq add.commute)

definition logged :: "string \<Rightarrow> int \<Rightarrow> bytes list \<Rightarrow> bool" where
  "logged sc next l \<longleftrightarrow> messages_ok sc l \<and> next = int (length l) + 1"

lemma logged_snoc: "logged sc n l \<Longrightarrow> message_ok sc n bs \<Longrightarrow> logged sc (n + 1) (l @ [bs])"
  by (simp add: logged_def messages_ok_snoc)

lemma send_request_logged:
  assumes "send_request (logging w) n op k v (e, l) = (Inr st, e', l')"
    and "logged sc n l" and "sc \<noteq> ''malformed''"
    and "sc \<in> {''bursty'', ''large_value'', ''flood'', ''replay''} \<Longrightarrow> op = PUT"
    and "sc = ''error_storm'' \<Longrightarrow> op = GET"
  shows "logged sc (n + 1) l'"
proof -
  let ?r = "\<lparr>req_id = n, req_op = op, req_key = k, req_value = v\<rparr>"
  from assms(1) obtain sent where sent: "encode_request ?r = Inr sent" and l': "l' = l @ [sent]"
    by (auto simp: send_request_def logging_def Let_def mapR_eq_Inr_iff split: sum.splits prod.splits)
  have "recv_request file_read (sent @ []) = Inr (?r, [])" by (rule decode_encode_request [OF sent])
  then have "message_ok sc n sent" using assms(3-5) by (auto simp: message_ok_def)
  then show ?thesis unfolding l' by (rule logged_snoc [OF assms(2)])
qed

lemma send_malformed_logged:
  assumes "send_malformed (logging w) n (e, l) = (Inr u, e', l')" and "logged ''malformed'' n l"
  shows "logged ''malformed'' (n + 1) l'"
proof -
  from assms(1) obtain h where h: "malformed_header n = Inr h" and l': "l' = l @ [h @ utf8_encode ''k'']"
    by (auto simp: send_malformed_def logging_def split: sum.splits prod.splits)
  show ?thesis unfolding l' by (rule logged_snoc [OF assms(2)]) (simp add: message_ok_def h)
qed

lemma logging_clock: "w_monotonic (logging w) (e, l) = (t, x) \<Longrightarrow> snd x = l"
  by (auto simp: logging_def split: prod.splits)

lemma burst_logged:
  assumes "burst (logging w) rg key dl k n r (e, l) = (Inr next, r', e', l')" and "logged ''bursty'' n l"
  shows "logged ''bursty'' next l'"
  using assms
proof (induction k arbitrary: n r e l)
  case (Suc k)
  obtain t e1 where t: "w_monotonic (logging w) (e, l) = (t, e1, l)"
    using logging_clock [of w e l] by (metis surj_pair snd_conv)
  show ?case
  proof (cases "fle dl t")
    case True
    with Suc.prems t show ?thesis by simp
  next
    case False
    obtain v r1 where v: "rg_bytes rg 96 r = (v, r1)" by fastforce
    obtain res e2 l2 where s: "send_request (logging w) n PUT key v (e1, l) = (res, e2, l2)"
      by (metis surj_pair)
    with Suc.prems(1) t False v obtain st where res: "res = Inr st" by (auto split: sum.splits)
    have "logged ''bursty'' (n + 1) l2"
      by (rule send_request_logged [OF s [unfolded res] Suc.prems(2)]) simp_all
    with Suc.IH [of "n + 1" r1 e2 l2] Suc.prems(1) t False v s res show ?thesis by simp
  qed
qed simp

lemma turn_logged:
  assumes "turn (logging w) rg sc scale dl n r (e, l) = (Inr next, r', e', l')"
    and "logged sc n l" and "sc \<in> set ALL_SCENARIOS"
  shows "logged sc next l'"
proof -
  obtain m r1 where m: "rg_below rg 32 r = (m, r1)" by fastforce
  obtain res r2 e2 l2 where t: "turn_messages (logging w) rg sc dl (key_text m) n r1 (e, l) = (res, r2, e2, l2)"
    by (metis surj_pair)
  with assms(1) m have res: "res = Inr next" and l': "l' = l2"
    by (auto simp: turn_def sleep_for_def logging_def Let_def mapR_eq_Inr_iff split: sum.splits prod.splits option.splits if_splits)
  note t = t [unfolded res]
  have "logged sc next l2"
  proof (cases "sc = ''bursty''")
    case True
    with t burst_logged assms(2) show ?thesis by (fastforce simp: turn_messages_def)
  next
    case b: False
    show ?thesis
    proof (cases "sc = ''malformed''")
      case True
      with t b obtain u where "send_malformed (logging w) n (e, l) = (Inr u, e2, l2)" and "next = n + 1"
        by (auto simp: turn_messages_def mapR_eq_Inr_iff split: prod.splits)
      with send_malformed_logged assms(2) True show ?thesis by simp
    next
      case False
      obtain op k v r3 where nx: "next_request rg sc (key_text m) n r1 = ((op, k, v), r3)" by (metis surj_pair)
      with t b False obtain st where s: "send_request (logging w) n op k v (e, l) = (Inr st, e2, l2)" and nn: "next = n + 1"
        by (auto simp: turn_messages_def mapR_eq_Inr_iff split: prod.splits)
      have "op = PUT" if "sc \<in> {''bursty'', ''large_value'', ''flood'', ''replay''}"
        using nx that by (auto simp: next_request_def split: prod.splits)
      moreover have "op = GET" if "sc = ''error_storm''" using nx that by (auto simp: next_request_def)
      ultimately show ?thesis using send_request_logged [OF s assms(2) False] nn by simp
    qed
  qed
  then show ?thesis by (simp only: l')
qed

lemma loop_logged:
  assumes "workload_loop (logging w) rg sc scale dl n r (e, l) = Some (Inr m, e', l')"
    and "logged sc n l" and "sc \<in> set ALL_SCENARIOS"
  shows "logged sc (m + 1) l'"
proof -
  have "x = logging w \<longrightarrow> sc \<in> set ALL_SCENARIOS \<longrightarrow> logged sc n (snd el) \<longrightarrow>
      (\<forall>m e' l'. y = (Inr m, e', l') \<longrightarrow> logged sc (m + 1) l')"
    if "workload_loop x rg sc scale dl n r el = Some y" for x rg scale dl n r el y
  proof (rule workload_loop.raw_induct [where P = "\<lambda>x rg sc scale dl n r el y. x = logging w \<longrightarrow>
      sc \<in> set ALL_SCENARIOS \<longrightarrow> logged sc n (snd el) \<longrightarrow>
      (\<forall>m e' l'. y = (Inr m, e', l') \<longrightarrow> logged sc (m + 1) l')", OF _ that], goal_cases)
    case (1 loop x rg sc scale dl n r el y)
    show ?case
    proof (intro impI allI)
      fix m e' l'
      assume x: "x = logging w" and sc: "sc \<in> set ALL_SCENARIOS" and good: "logged sc n (snd el)"
        and y: "y = (Inr m, e', l')"
      obtain e0 l0 where el: "el = (e0, l0)" by (cases el)
      obtain t e1 where t: "w_monotonic (logging w) (e0, l0) = (t, e1, l0)"
        using logging_clock [of w e0 l0] by (metis surj_pair snd_conv)
      show "logged sc (m + 1) l'"
      proof (cases "flt t dl")
        case False
        with 1(2) x y el t good show ?thesis by auto
      next
        case True
        obtain res r1 e2 l2 where u: "turn (logging w) rg sc scale dl n r (e1, l0) = (res, r1, e2, l2)"
          by (metis surj_pair)
        show ?thesis
        proof (cases res)
          case (Inl err)
          with 1(2) x y el t True u show ?thesis by simp
        next
          case (Inr k)
          have "loop x rg sc scale dl k r1 (e2, l2) = Some y"
            using 1(2) x el t True u Inr by simp
          from 1(1) [OF this] turn_logged [OF u [unfolded Inr]] good el sc x y show ?thesis by simp
        qed
      qed
    qed
  qed
  from this [OF assms(1)] assms(2,3) show ?thesis by simp
qed

section \<open>Against the gateway\<close>

lemma malformed_message:
  assumes "message_ok ''malformed'' n bs"
  shows "recv_request file_read bs = Inl ValueError"
proof -
  obtain h where h: "malformed_header n = Inr h" and bs: "bs = h @ utf8_encode ''k''"
    using assms by (auto simp: message_ok_def split: sum.splits)
  have len: "length h = 24"
    using pack_fields_length [OF h [unfolded malformed_header_def]] by (simp add: REQUEST_STRUCT_def)
  have "unpack_fields REQUEST_STRUCT h = [MAGIC, VERSION, op_code PUT, n, 1, int MAX_VALUE_BYTES + 1]"
    using unpack_pack [OF h [unfolded malformed_header_def], of "[]"] by (simp add: REQUEST_STRUCT_def)
  then have "parse_request_header h = Inl ValueError"
    by (simp add: parse_request_header_def bindE_whenE protocol_constants operation_of_def)
  then show ?thesis
    using len by (simp add: recv_request_def recv_exact_file bs protocol_constants)
qed

lemma handle_rejects:
  assumes "recv_request file_read (concat (conn_stream c)) = Inl err" and "no_empty (conn_stream c)"
    and "handle sock_recv c g = Inr (sent, g')"
  shows "sent = [] \<and> gw_storage g' = gw_storage g \<and> (\<exists>e. gw_telemetry g' = gw_telemetry g @ [e]
    \<and> py_subscript e ''result'' = Inr (PStr ''PROTOCOL_ERROR'') \<and> py_subscript e ''operation'' = Inr (PStr ''REJECT''))"
proof -
  have "mapR (map_prod id concat) (recv_request sock_recv (conn_stream c)) = Inl err"
    using sock.recv_request_abs [OF assms(2)] assms(1) by simp
  then obtain e where "recv_request sock_recv (conn_stream c) = Inl e"
    by (cases "recv_request sock_recv (conn_stream c)") auto
  then show ?thesis
    using assms(3)
    by (auto simp: handle_def process_def event_of_def emit_def dget_def Let_def bindE_eq_Inr_iff)
qed

section \<open>A sample world\<close>

definition ticking :: "nat world" where
  "ticking = \<lparr>w_monotonic = (\<lambda>n. (Fin (of_nat n), Suc n)), w_exchange = (\<lambda>_ n. ([], n)), w_sleep = (\<lambda>_ n. n)\<rparr>"

definition constant_rng :: "unit rng" where
  "constant_rng = \<lparr>rg_below = (\<lambda>_ s. (0, s)), rg_bytes = (\<lambda>n s. (replicate n 0, s))\<rparr>"

lemma malformed_turn:
  "\<exists>msg. turn (logging ticking) constant_rng ''malformed'' (Fin 0) dl 1 () (n, []) = (Inr 2, (), (n, [msg]))"
proof -
  obtain x where x: "pause_of ''malformed'' = Some (Fin x)" by (simp add: pause_of_def of_exact_small)
  obtain h where h: "malformed_header 1 = Inr h"
    by (simp add: malformed_header_def protocol_constants del: be_bytes_numeral)
  show ?thesis
    by (simp add: turn_def turn_messages_def send_malformed_def sleep_for_def h x sleep_check_short logging_def ticking_def
        constant_rng_def)
qed

lemma ticking_run:
  "\<exists>msg. run_workload (logging ticking) constant_rng ''malformed'' (Fin 2) () (Fin 0) (0, []) = Some (Inr 1, (3, [msg]))"
proof -
  obtain msg where t: "turn (logging ticking) constant_rng ''malformed'' (Fin 0) (Fin 2) 1 () (2, []) = (Inr 2, (), (2, [msg]))"
    using malformed_turn by blast
  have d: "fadd (Fin 0) (Fin 2) = Fin 2" by (simp add: of_exact_small representable_numeral)
  have m: "w_monotonic (logging ticking) (n, l) = (Fin (of_nat n), Suc n, l)" for n l
    by (simp add: logging_def ticking_def)
  have "workload_loop (logging ticking) constant_rng ''malformed'' (Fin 0) (Fin 2) 2 () (2, [msg]) = Some (Inr 1, (3, [msg]))"
    by (subst workload_loop.simps) (simp add: m flt_def numeral_3_eq_3)
  then have "workload_loop (logging ticking) constant_rng ''malformed'' (Fin 0) (Fin 2) 1 () (1, []) = Some (Inr 1, (3, [msg]))"
    using t by (subst workload_loop.simps) (simp add: m flt_def numeral_2_eq_2)
  then show ?thesis
    by (simp add: run_workload_def ALL_SCENARIOS_def ATTACK_SCENARIOS_def m d [simplified] fle_def of_exact_small representable_numeral)
qed

section \<open>Properties\<close>

text \<open>C28. Whatever the gateway answers, the clock and the generator: when a run returns \<open>n\<close>, it
  has sent exactly \<open>n\<close> messages, and the \<open>k\<close>-th is the encoding of a valid request with the
  identifier \<open>k\<close> and the operation of the scenario (for \<open>malformed\<close>, the over-limit header with
  that identifier); bursts number their requests the same way.\<close>

theorem workload_numbers_requests:
  assumes "run_workload (logging w) rg scenario duration seed scale (e, []) = Some (Inr n, e', msgs)"
  shows "n = int (length msgs) \<and> messages_ok scenario msgs"
proof -
  have sc: "scenario \<in> set ALL_SCENARIOS" using assms by (auto simp: run_workload_def split: if_splits)
  obtain t e1 where t: "w_monotonic (logging w) (e, []) = (t, e1, [])"
    using logging_clock [of w e "[]"] by (metis surj_pair snd_conv)
  have "logged scenario 1 []" by (simp add: logged_def messages_ok_def)
  then have "logged scenario (n + 1) msgs"
    by (rule loop_logged [rotated, OF _ sc]) (use assms t in \<open>auto simp: run_workload_def split: if_splits\<close>)
  then show ?thesis by (simp add: logged_def)
qed

theorem workload_numbers_requests_witness:
  "\<exists>msg. (1 :: int) = int (length [msg]) \<and> messages_ok ''malformed'' [msg]"
proof -
  obtain msg where "run_workload (logging ticking) constant_rng ''malformed'' (Fin 2) () (Fin 0) (0, []) = Some (Inr 1, (3, [msg]))"
    using ticking_run by blast
  from workload_numbers_requests [OF this] show ?thesis by blast
qed

text \<open>The malformed workload never gets through: served on connections that deliver its
  messages, the gateway answers none of them, keeps its store, and writes one REJECT event with
  \<open>PROTOCOL_ERROR\<close> for each.\<close>

theorem malformed_workload_rejected:
  assumes "messages_ok ''malformed'' msgs" and "list_all2 (\<lambda>c bs. no_empty (conn_stream c) \<and> concat (conn_stream c) = bs) cs msgs"
    and "serve sock_recv cs g = Inr (sents, g')"
  shows "set sents \<subseteq> {[]} \<and> gw_storage g' = gw_storage g \<and> (\<exists>events. gw_telemetry g' = gw_telemetry g @ events
    \<and> length events = length msgs \<and> (\<forall>e\<in>set events. py_subscript e ''result'' = Inr (PStr ''PROTOCOL_ERROR'')
      \<and> py_subscript e ''operation'' = Inr (PStr ''REJECT'')))"
proof -
  have "message_ok ''malformed'' (int (Suc i)) (msgs ! i)" if "i < length msgs" for i
    using assms(1) that by (auto simp: messages_ok_def list_all_length nth_enumerate_eq)
  then have "list_all (\<lambda>bs. recv_request file_read bs = Inl ValueError) msgs"
    using malformed_message by (auto simp: list_all_length)
  with assms(2,3) show ?thesis
  proof (induction arbitrary: g sents rule: list_all2_induct)
    case (Cons c cs bs msgs)
    from Cons.prems(1) obtain sent g1 rest where h: "handle sock_recv c g = Inr (sent, g1)"
      and s: "serve sock_recv cs g1 = Inr (rest, g')" and sents: "sents = sent # rest"
      by (auto simp: bindE_eq_Inr_iff)
    have r: "sent = []" "gw_storage g1 = gw_storage g"
      "\<exists>e. gw_telemetry g1 = gw_telemetry g @ [e] \<and> py_subscript e ''result'' = Inr (PStr ''PROTOCOL_ERROR'')
        \<and> py_subscript e ''operation'' = Inr (PStr ''REJECT'')"
      using handle_rejects [OF _ _ h] Cons.hyps(1) Cons.prems(2) by simp_all
    from Cons.IH [OF s] Cons.prems(2) obtain events where "set rest \<subseteq> {[]}" "gw_storage g' = gw_storage g1"
      "gw_telemetry g' = gw_telemetry g1 @ events" "length events = length msgs"
      "\<forall>e\<in>set events. py_subscript e ''result'' = Inr (PStr ''PROTOCOL_ERROR'') \<and> py_subscript e ''operation'' = Inr (PStr ''REJECT'')"
      by auto
    with r sents show ?case by fastforce
  qed simp
qed

theorem malformed_workload_rejected_witness:
  "\<exists>msg sents g'. messages_ok ''malformed'' [msg]
    \<and> serve sock_recv [\<lparr>conn_stream = [msg], conn_send_ok = True, conn_elapsed_ns = 5000, conn_now_ns = 7\<rparr>] sample_gateway
        = Inr (sents, g')
    \<and> set sents \<subseteq> {[]} \<and> gw_storage g' = gw_storage sample_gateway"
proof -
  obtain msg where "run_workload (logging ticking) constant_rng ''malformed'' (Fin 2) () (Fin 0) (0, []) = Some (Inr 1, (3, [msg]))"
    using ticking_run by blast
  then have "logged ''malformed'' (1 + 1) [msg]"
    using loop_logged [of ticking constant_rng "''malformed''" "Fin 0" "fadd (Fin 0) (Fin 2)" 1 "()" 1 "[]" 1 3 "[msg]"]
    by (simp add: run_workload_def ALL_SCENARIOS_def ATTACK_SCENARIOS_def logging_def ticking_def fle_def logged_def messages_ok_def)
  then have m: "messages_ok ''malformed'' [msg]" by (simp add: logged_def)
  then have "message_ok ''malformed'' 1 msg" by (simp add: messages_ok_def)
  then have ne: "msg \<noteq> []" by (auto simp: message_ok_def utf8_encode_def split: sum.splits)
  let ?c = "\<lparr>conn_stream = [msg], conn_send_ok = True, conn_elapsed_ns = 5000, conn_now_ns = 7\<rparr>"
  obtain sents g' where s: "serve sock_recv [?c] sample_gateway = Inr (sents, g')"
    by (simp add: handle_def elapsed_us_def float_of_int_small of_exact_small Let_def)
  have "set sents \<subseteq> {[]} \<and> gw_storage g' = gw_storage sample_gateway"
    using malformed_workload_rejected [OF m _ s] ne by (simp add: no_empty_def)
  with m s show ?thesis by blast
qed

end
