(* ===== verification/Experiment.thy ===== *)
theory Experiment
  imports Workload Json Features
begin

text \<open>
  \<open>cote3mon/experiment.py\<close>: every scenario is run against a fresh gateway, all gateways append
  to one telemetry file, and the feature table is computed from that file.  The workload meets
  the modelled gateway: \<open>gateway_world\<close> hands each message to \<open>handle\<close> and returns what the
  gateway sent.  The readings of the clocks are parameters, indexed by a counter.
\<close>

section \<open>The gateway as the world of a workload\<close>

record clocks =
  ck_monotonic :: "nat \<Rightarrow> f64"
  ck_elapsed_ns :: "nat \<Rightarrow> int"
  ck_time_ns :: "nat \<Rightarrow> int"

definition connection_of :: "clocks \<Rightarrow> nat \<Rightarrow> bytes \<Rightarrow> bytes list connection" where
  "connection_of ck n bs = \<lparr>conn_stream = (if bs = [] then [] else [bs]), conn_send_ok = True,
     conn_elapsed_ns = ck_elapsed_ns ck n, conn_now_ns = ck_time_ns ck n\<rparr>"

text \<open>When \<open>handle\<close> raises (a time that is no float), the connection is closed without an answer.\<close>

definition exchange :: "clocks \<Rightarrow> bytes \<Rightarrow> gateway \<times> nat \<Rightarrow> bytes list \<times> gateway \<times> nat" where
  "exchange ck bs = (\<lambda>(g, n).
     case handle sock_recv (connection_of ck n bs) g of
       Inl _ \<Rightarrow> ([], g, Suc n)
     | Inr (sent, g') \<Rightarrow> (if sent = [] then [] else [sent], g', Suc n))"

definition gateway_world :: "clocks \<Rightarrow> (gateway \<times> nat) world" where
  "gateway_world ck = \<lparr>w_monotonic = (\<lambda>(g, n). (ck_monotonic ck n, (g, Suc n))),
     w_exchange = exchange ck, w_sleep = (\<lambda>_ x. x)\<rparr>"

section \<open>Sessions\<close>

text \<open>\<open>f"{scenario}-{repeat:02d}"\<close>\<close>

definition run_name :: "string \<Rightarrow> nat \<Rightarrow> string" where
  "run_name scenario repeat =
     scenario @ ''-'' @ (let ds = nat_str repeat in if length ds < 2 then CHR ''0'' # ds else ds)"

record 'r lab =
  lb_clocks :: clocks
  lb_rng :: "'r rng"
  lb_seeded :: "int \<Rightarrow> 'r"
  lb_urandom :: "nat \<Rightarrow> bytes"

text \<open>One \<open>with MockGateway(...)\<close> block: the events it appends to the telemetry file, and the
  counter of the clocks.\<close>

definition run_session :: "'r lab \<Rightarrow> f64 \<Rightarrow> string \<times> nat \<Rightarrow> nat \<Rightarrow> (pyval list \<times> nat) result option" where
  "run_session lb duration_seconds = (\<lambda>(scenario, repeat) n.
     let g = new_gateway (run_name scenario repeat) scenario (scenario \<in> set ATTACK_SCENARIOS) (lb_urandom lb n) in
     case run_workload (gateway_world (lb_clocks lb)) (lb_rng lb) scenario duration_seconds
            (lb_seeded lb (42 + int repeat)) (of_exact (5 / 100)) (g, n) of
       None \<Rightarrow> None
     | Some (Inl e, _) \<Rightarrow> Some (Inl e)
     | Some (Inr _, (g', n')) \<Rightarrow> Some (Inr (gw_telemetry g', n')))"

fun run_sessions :: "'r lab \<Rightarrow> f64 \<Rightarrow> (string \<times> nat) list \<Rightarrow> nat \<Rightarrow> pyval list result option" where
  "run_sessions lb duration_seconds [] n = Some (Inr [])"
| "run_sessions lb duration_seconds (x # xs) n =
     (case run_session lb duration_seconds x n of
        None \<Rightarrow> None
      | Some (Inl e) \<Rightarrow> Some (Inl e)
      | Some (Inr (events, n')) \<Rightarrow>
          map_option (mapR (\<lambda>more. events @ more)) (run_sessions lb duration_seconds xs n'))"

definition sessions :: "nat \<Rightarrow> (string \<times> nat) list" where
  "sessions repeats = List.product ALL_SCENARIOS [0..<repeats]"

text \<open>\<open>run_mock_experiment\<close>: the feature table it writes.\<close>

definition run_mock_experiment :: "'r lab \<Rightarrow> nat \<Rightarrow> f64 \<Rightarrow> int \<Rightarrow> string list list result option" where
  "run_mock_experiment lb repeats duration_seconds window_seconds =
     map_option (\<lambda>r. bindE r (\<lambda>events.
         bindE (read_jsonl [map json_dumps events]) (\<lambda>loaded.
         bindE (aggregate_events loaded window_seconds 0) (\<lambda>rows. write_csv rows BASE_FEATURE_NAMES))))
       (run_sessions lb duration_seconds (sessions repeats) 0)"

section \<open>Labels\<close>

text \<open>The event names the run, the scenario and the label of its session.\<close>

definition labelled :: "string \<times> nat \<Rightarrow> pyval \<Rightarrow> bool" where
  "labelled = (\<lambda>(scenario, repeat) e.
     py_subscript e ''run_id'' = Inr (PStr (run_name scenario repeat))
     \<and> py_subscript e ''scenario'' = Inr (PStr scenario)
     \<and> py_subscript e ''is_attack'' = Inr (PBool (scenario \<in> set ATTACK_SCENARIOS)))"

definition session_state :: "string \<times> nat \<Rightarrow> gateway \<Rightarrow> bool" where
  "session_state x g \<longleftrightarrow> gw_run_id g = run_name (fst x) (snd x) \<and> gw_scenario g = fst x
     \<and> gw_is_attack g = (fst x \<in> set ATTACK_SCENARIOS) \<and> list_all (labelled x) (gw_telemetry g)"

lemma handle_session:
  assumes "handle recv c g = Inr (sent, g')" and "session_state x g"
  shows "session_state x g'"
  using assms
  by (cases x) (auto simp: handle_def session_state_def emit_def event_of_def labelled_def dget_def Let_def
      bindE_eq_Inr_iff)

lemma exchange_session: "session_state x (fst e) \<Longrightarrow> session_state x (fst (snd (exchange ck bs e)))"
  by (cases e) (auto simp: exchange_def dest: handle_session split: sum.splits)

interpretation session: world_invariant "gateway_world ck" "\<lambda>e. session_state x (fst e)" for ck x
  by unfold_locales (auto simp: gateway_world_def exchange_session split: prod.splits)

lemma new_session_state:
  "session_state x (new_gateway (run_name (fst x) (snd x)) (fst x) (fst x \<in> set ATTACK_SCENARIOS) key)"
  by (simp add: session_state_def new_gateway_def)

lemma run_session_labelled:
  assumes "run_session lb duration x n = Some (Inr (events, n'))"
  shows "list_all (labelled x) events"
proof -
  let ?g = "new_gateway (run_name (fst x) (snd x)) (fst x) (fst x \<in> set ATTACK_SCENARIOS) (lb_urandom lb n)"
  from assms obtain res e' where
    "run_workload (gateway_world (lb_clocks lb)) (lb_rng lb) (fst x) duration
       (lb_seeded lb (42 + int (snd x))) (of_exact (5 / 100)) (?g, n) = Some (res, e')"
    and ev: "events = gw_telemetry (fst e')"
    by (auto simp: run_session_def Let_def split: option.splits sum.splits prod.splits)
  from session.run_inv [where x = x, OF this(1)] have "session_state x (fst e')" by (simp add: new_session_state)
  then show ?thesis by (simp add: session_state_def ev)
qed

section \<open>A sample run\<close>

definition sample_lab :: "unit lab" where
  "sample_lab = \<lparr>lb_clocks = \<lparr>ck_monotonic = (\<lambda>n. Fin (of_nat n)), ck_elapsed_ns = (\<lambda>_. 5000),
     ck_time_ns = int\<rparr>, lb_rng = constant_rng, lb_seeded = (\<lambda>_. ()), lb_urandom = (\<lambda>_. [7])\<rparr>"

lemma scaled_pause:
  obtains y where "fmul (of_exact (2 / 1000)) (of_exact (5 / 100)) = Fin y" and "0 \<le> y" and "y \<le> 1"
proof -
  have u: "0 \<le> rnd (2 / 1000 :: rat)" "rnd (2 / 1000 :: rat) \<le> 1" "0 \<le> rnd (5 / 100 :: rat)" "rnd (5 / 100 :: rat) \<le> 1"
    using rnd_unit [of "2 / 1000 :: rat"] rnd_unit [of "5 / 100 :: rat"] by simp_all
  let ?p = "rnd (2 / 1000 :: rat) * rnd (5 / 100)"
  have p: "0 \<le> ?p" "?p \<le> 1" using u by (simp_all add: mult_le_one)
  then have "fmul (of_exact (2 / 1000)) (of_exact (5 / 100)) = Fin (rnd ?p)" by (simp add: of_exact_small)
  moreover have "0 \<le> rnd ?p" "rnd ?p \<le> 1" using rnd_unit [of ?p] p by simp_all
  ultimately show thesis by (rule that)
qed

lemma sample_session:
  obtains events n' where "run_session sample_lab (Fin 2) (''malformed'', 0) 0 = Some (Inr (events, n'))"
proof -
  let ?w = "gateway_world (lb_clocks sample_lab)"
  let ?g = "new_gateway (run_name ''malformed'' 0) ''malformed'' (''malformed'' \<in> set ATTACK_SCENARIOS) [7]"
  obtain y where y: "fmul (of_exact (2 / 1000)) (of_exact (5 / 100)) = Fin y" "0 \<le> y" "y \<le> 1" by (rule scaled_pause)
  obtain h where h: "malformed_header 1 = Inr h"
    by (simp add: malformed_header_def protocol_constants del: be_bytes_numeral)
  obtain segs g1 where x: "exchange (lb_clocks sample_lab) (h @ utf8_encode ''k'') (?g, 2) = (segs, g1, 3)"
    by (cases "exchange (lb_clocks sample_lab) (h @ utf8_encode ''k'') (?g, 2)")
      (auto simp: exchange_def split: sum.splits)
  have t: "turn ?w constant_rng ''malformed'' (of_exact (5 / 100)) (Fin 2) 1 () (?g, 2) = (Inr 2, (), (g1, 3))"
    using x y by (simp add: turn_def turn_messages_def send_malformed_def sleep_for_def sleep_check_short h gateway_world_def
        constant_rng_def pause_of_def Let_def)
  have m: "w_monotonic ?w (g, n) = (Fin (of_nat n), g, Suc n)" for g n
    by (simp add: gateway_world_def sample_lab_def)
  have "workload_loop ?w constant_rng ''malformed'' (of_exact (5 / 100)) (Fin 2) 2 () (g1, 3) = Some (Inr 1, (g1, 4))"
    by (subst workload_loop.simps) (simp add: m flt_def)
  then have l: "workload_loop ?w constant_rng ''malformed'' (of_exact (5 / 100)) (Fin 2) 1 () (?g, 1) = Some (Inr 1, (g1, 4))"
    using t by (subst workload_loop.simps) (simp add: m flt_def numeral_2_eq_2)
  have d: "fadd (Fin 0) (Fin 2) = Fin 2" by (simp add: of_exact_small representable_numeral)
  have sc: "''malformed'' \<in> set ALL_SCENARIOS" and a: "''malformed'' \<in> set ATTACK_SCENARIOS"
    by (simp_all add: ALL_SCENARIOS_def ATTACK_SCENARIOS_def)
  have p: "\<not> fle (Fin 2) (Fin 0)" by (simp add: fle_def)
  have w: "run_workload ?w constant_rng ''malformed'' (Fin 2) () (of_exact (5 / 100)) (?g, 0) = Some (Inr 1, (g1, 4))"
    unfolding run_workload_def m prod.case using l by (simp only: sc p d of_nat_0 One_nat_def) (simp add: d [simplified])
  have "lb_rng sample_lab = constant_rng" "lb_seeded sample_lab i = ()" "lb_urandom sample_lab k = [7]" for i k
    by (simp_all add: sample_lab_def)
  then have "run_session sample_lab (Fin 2) (''malformed'', 0) 0 = Some (Inr (gw_telemetry g1, 4))"
    unfolding run_session_def Let_def prod.case by (simp only: w option.case prod.case sum.case)
  then show thesis by (rule that)
qed

section \<open>Properties\<close>

text \<open>Every event of the telemetry file belongs to its session: the file is the sessions'
  blocks in order, and each event of a block carries the run identifier, the scenario and the
  attack label of that session, whatever the clocks, the generator and the workload did.\<close>

theorem sessions_labelled:
  assumes "run_sessions lb duration xs n = Some (Inr events)"
  shows "\<exists>blocks. events = concat blocks \<and> list_all2 (\<lambda>x. list_all (labelled x)) xs blocks"
  using assms
proof (induction xs arbitrary: n events)
  case (Cons x xs)
  from Cons.prems obtain block n' more where b: "run_session lb duration x n = Some (Inr (block, n'))"
    and m: "run_sessions lb duration xs n' = Some (Inr more)" and e: "events = block @ more"
    by (auto simp: mapR_eq_Inr_iff split: option.splits sum.splits)
  from Cons.IH [OF m] obtain blocks where "more = concat blocks" "list_all2 (\<lambda>x. list_all (labelled x)) xs blocks"
    by blast
  with run_session_labelled [OF b] e have "events = concat (block # blocks)
      \<and> list_all2 (\<lambda>x. list_all (labelled x)) (x # xs) (block # blocks)" by simp
  then show ?case by blast
qed simp

theorem sessions_labelled_witness:
  "\<exists>events blocks. run_sessions sample_lab (Fin 2) [(''malformed'', 0)] 0 = Some (Inr events)
    \<and> events = concat blocks \<and> list_all2 (\<lambda>x. list_all (labelled x)) [(''malformed'', 0)] blocks"
proof -
  obtain events n' where "run_session sample_lab (Fin 2) (''malformed'', 0) 0 = Some (Inr (events, n'))"
    by (rule sample_session)
  then have r: "run_sessions sample_lab (Fin 2) [(''malformed'', 0)] 0 = Some (Inr events)" by simp
  from sessions_labelled [OF r] r show ?thesis by blast
qed

end
