(* ===== verification/Training.thy ===== *)
theory Training
  imports Evaluation Threshold
begin

text \<open>
  \<open>cote3mon/training.py\<close>: the splits of the benign runs and the export of a fitted forest.
  The forest itself is scikit-learn's, an argument here: \<open>sk_forest\<close> has the attributes the
  exporter reads, and its scoring function.  The generator behind \<open>random.Random(seed)\<close> is
  an argument as in \<open>Evaluation\<close>; \<open>shuffle\<close> is the loop of \<open>random.shuffle\<close>.
\<close>

section \<open>Shuffling\<close>

definition swap_items :: "nat \<Rightarrow> nat \<Rightarrow> 'a list \<Rightarrow> 'a list" where
  "swap_items i j xs = xs[i := xs ! j, j := xs ! i]"

fun shuffle_from :: "'s randbelow \<Rightarrow> nat \<Rightarrow> 'a list \<Rightarrow> 's \<Rightarrow> 'a list \<times> 's" where
  "shuffle_from rb 0 xs s = (xs, s)"
| "shuffle_from rb (Suc i) xs s =
     (let (j, s1) = rb (Suc (Suc i)) s in shuffle_from rb i (swap_items (Suc i) j xs) s1)"

definition shuffle :: "'s randbelow \<Rightarrow> 'a list \<Rightarrow> 's \<Rightarrow> 'a list" where
  "shuffle rb xs s = fst (shuffle_from rb (length xs - 1) xs s)"

section \<open>Splitting the benign runs\<close>

definition benign_rows :: "pyval list \<Rightarrow> pyval list result" where
  "benign_rows rows =
     filterE (\<lambda>row. mapR (\<lambda>a. a = 0) (bindE (py_subscript row ''is_attack'') py_int)) rows"

definition str_field :: "string \<Rightarrow> pyval \<Rightarrow> string result" where
  "str_field k row = mapR py_str (py_subscript row k)"

text \<open>\<open>sorted({str(row["run_id"]) for row in rows})\<close>\<close>

definition sorted_field :: "string \<Rightarrow> pyval list \<Rightarrow> string list result" where
  "sorted_field k rows = mapR (\<lambda>ids. sort (remdups ids)) (mapE (str_field k) rows)"

text \<open>\<open>int(n * fraction)\<close>\<close>

definition int_fraction :: "nat \<Rightarrow> rat \<Rightarrow> int result" where
  "int_fraction n q = bindE (float_of_int (int n)) (\<lambda>x. float_trunc (fmul x (of_exact q)))"

definition split_ends :: "nat \<Rightarrow> (nat \<times> nat) result" where
  "split_ends n =
     bindE (int_fraction n (60 / 100)) (\<lambda>a.
     bindE (int_fraction n (80 / 100)) (\<lambda>b.
     let train_end = max 1 a; validation_end = max (train_end + 1) b in
     Inr (nat train_end, nat validation_end)))"

definition rows_of_runs :: "string list \<Rightarrow> pyval list \<Rightarrow> pyval list result" where
  "rows_of_runs ids rows = filterE (\<lambda>row. mapR (\<lambda>r. r \<in> set ids) (str_field ''run_id'' row)) rows"

definition three_way ::
  "string list \<Rightarrow> string list \<Rightarrow> string list \<Rightarrow> pyval list \<Rightarrow> (pyval list \<times> pyval list \<times> pyval list) result" where
  "three_way train_ids validation_ids test_ids benign =
     bindE (rows_of_runs train_ids benign) (\<lambda>train.
     bindE (rows_of_runs validation_ids benign) (\<lambda>validation.
     bindE (rows_of_runs test_ids benign) (\<lambda>test. Inr (train, validation, test))))"

definition split_benign_runs ::
  "'s randbelow \<Rightarrow> 's \<Rightarrow> pyval list \<Rightarrow> (pyval list \<times> pyval list \<times> pyval list) result" where
  "split_benign_runs rb seed rows =
     bindE (benign_rows rows) (\<lambda>benign.
     bindE (sorted_field ''run_id'' benign) (\<lambda>sorted_ids.
     if length sorted_ids < 5 then Inl ValueError
     else
       let run_ids = shuffle rb sorted_ids seed in
       bindE (split_ends (length run_ids)) (\<lambda>(train_end, validation_end).
       three_way (take train_end run_ids)
         (drop train_end (take validation_end run_ids)) (drop validation_end run_ids) benign)))"

text \<open>\<open>split_benign_runs_stratified\<close>: the runs of each scenario are split on their own, with a
  generator seeded by the text \<open>seed:scenario\<close>; \<open>seed_of\<close> is that seeding.\<close>

definition scenario_runs :: "string \<Rightarrow> pyval list \<Rightarrow> string list result" where
  "scenario_runs scenario benign =
     bindE (filterE (\<lambda>row. mapR (\<lambda>s. s = scenario) (str_field ''scenario'' row)) benign)
       (sorted_field ''run_id'')"

definition stratum ::
  "'s randbelow \<Rightarrow> (string \<Rightarrow> 's) \<Rightarrow> int \<Rightarrow> pyval list \<Rightarrow> string \<Rightarrow>
   string list \<times> string list \<times> string list \<Rightarrow> (string list \<times> string list \<times> string list) result" where
  "stratum rb seed_of seed benign scenario = (\<lambda>(train_ids, validation_ids, test_ids).
     bindE (scenario_runs scenario benign) (\<lambda>sorted_ids.
     if length sorted_ids < 5 then Inl ValueError
     else
       let run_ids = shuffle rb sorted_ids (seed_of (int_str seed @ '':'' @ scenario)) in
       bindE (split_ends (length run_ids)) (\<lambda>(train_end, validation_end).
       if length run_ids \<le> validation_end then Inl ValueError
       else Inr (train_ids @ take train_end run_ids,
                 validation_ids @ drop train_end (take validation_end run_ids),
                 test_ids @ drop validation_end run_ids))))"

definition split_benign_runs_stratified ::
  "'s randbelow \<Rightarrow> (string \<Rightarrow> 's) \<Rightarrow> int \<Rightarrow> string list option \<Rightarrow> pyval list \<Rightarrow>
   (pyval list \<times> pyval list \<times> pyval list) result" where
  "split_benign_runs_stratified rb seed_of seed scenarios rows =
     bindE (benign_rows rows) (\<lambda>benign.
     bindE (sorted_field ''scenario'' benign) (\<lambda>observed.
     let expected = (case scenarios of Some ss \<Rightarrow> sort (remdups ss) | None \<Rightarrow> observed) in
     if set observed \<noteq> set expected then Inl ValueError
     else
       bindE (foldE (stratum rb seed_of seed benign) expected ([], [], []))
         (\<lambda>(train_ids, validation_ids, test_ids). three_way train_ids validation_ids test_ids benign)))"

section \<open>Exporting a forest\<close>

record sk_tree =
  sk_left :: "int list"
  sk_right :: "int list"
  sk_feature :: "int list"
  sk_threshold :: "f64 list"
  sk_samples :: "int list"

record sk_forest =
  sk_max_samples :: int
  sk_estimators :: "(sk_tree \<times> int list) list"
  sk_score_samples :: "f64 list list \<Rightarrow> f64 list"

text \<open>\<open>xs[i] = v\<close>\<close>

definition py_update :: "'a list \<Rightarrow> int \<Rightarrow> 'a \<Rightarrow> 'a list result" where
  "py_update xs i v =
     (let n = int (length xs)
      in if 0 \<le> i \<and> i < n then Inr (xs[nat i := v])
         else if - n \<le> i \<and> i < 0 then Inr (xs[nat (n + i) := v])
         else Inl IndexError)"

text \<open>The loop over \<open>stack\<close>, whose last element is popped; the model keeps the top first.\<close>

partial_function (option) fill_depths ::
  "sk_tree \<Rightarrow> (int \<times> int) list \<Rightarrow> int list \<Rightarrow> int list result option" where
  "fill_depths t stack depths =
     (case stack of
        [] \<Rightarrow> Some (Inr depths)
      | (node, depth) # rest \<Rightarrow>
          (case bindE (py_update depths node depth) (\<lambda>ds.
                bindE (py_index (sk_left t) node) (\<lambda>left.
                if left = - 1 then Inr (ds, rest)
                else bindE (py_index (sk_right t) node) (\<lambda>right.
                     Inr (ds, (right, depth + 1) # (left, depth + 1) # rest)))) of
             Inl e \<Rightarrow> Some (Inl e)
           | Inr (ds, stack') \<Rightarrow> fill_depths t stack' ds))"

declare fill_depths.simps [code]

definition export_tree :: "sk_tree \<Rightarrow> int list \<Rightarrow> tree result option" where
  "export_tree t feature_map =
     map_option (mapR (\<lambda>depths.
       \<lparr>t_left = sk_left t, t_right = sk_right t, t_feature = sk_feature t, t_threshold = sk_threshold t,
        t_samples = sk_samples t, t_depth = depths, t_feature_map = feature_map\<rparr>))
      (fill_depths t [(0, 0)] (replicate (length (sk_left t)) 0))"

fun export_trees :: "(sk_tree \<times> int list) list \<Rightarrow> tree list result option" where
  "export_trees [] = Some (Inr [])"
| "export_trees ((t, feature_map) # ts) =
     (case export_tree t feature_map of
        None \<Rightarrow> None
      | Some (Inl e) \<Rightarrow> Some (Inl e)
      | Some (Inr x) \<Rightarrow> map_option (mapR (\<lambda>xs. x # xs)) (export_trees ts))"

definition calibrated_threshold ::
  "sk_forest \<Rightarrow> pyval list \<Rightarrow> f64 \<Rightarrow> string list \<Rightarrow> f64 result" where
  "calibrated_threshold forest validation_rows false_positive_rate features =
     (if \<not> (flt (Fin 0) false_positive_rate \<and> flt false_positive_rate (Fin 1)) then Inl ValueError
      else
        bindE (mapE (row_values features) validation_rows) (\<lambda>x_validation.
        if x_validation = [] then Inl ValueError
        else percentile (map fneg (sk_score_samples forest x_validation))
               (fsub (Fin 1) false_positive_rate)))"

definition export_isolation_forest ::
  "sk_forest \<Rightarrow> pyval list \<Rightarrow> f64 \<Rightarrow> string list \<Rightarrow> iforest result option" where
  "export_isolation_forest forest validation_rows false_positive_rate features =
     (case calibrated_threshold forest validation_rows false_positive_rate features of
        Inl e \<Rightarrow> Some (Inl e)
      | Inr threshold \<Rightarrow>
          map_option (mapR (\<lambda>trees.
            \<lparr>if_features = features, if_threshold = threshold, if_max_samples = sk_max_samples forest,
             if_trees = trees\<rparr>)) (export_trees (sk_estimators forest)))"

text \<open>\<open>fit_isolation_forest\<close>: \<open>None\<close> for \<open>sk_fit\<close> is a machine without scikit-learn.\<close>

definition fit_isolation_forest ::
  "(f64 list list \<Rightarrow> int \<Rightarrow> sk_forest) option \<Rightarrow> pyval list \<Rightarrow> int \<Rightarrow> string list \<Rightarrow> sk_forest result" where
  "fit_isolation_forest sk_fit training_rows seed features =
     (case sk_fit of
        None \<Rightarrow> Inl RuntimeError
      | Some fit \<Rightarrow>
          bindE (mapE (row_values features) training_rows) (\<lambda>x_train.
          if x_train = [] then Inl ValueError else Inr (fit x_train seed)))"

definition train_and_export ::
  "(f64 list list \<Rightarrow> int \<Rightarrow> sk_forest) option \<Rightarrow> pyval list \<Rightarrow> pyval list \<Rightarrow> f64 \<Rightarrow> int \<Rightarrow> string list \<Rightarrow>
   iforest result option" where
  "train_and_export sk_fit training_rows validation_rows false_positive_rate seed features =
     (case fit_isolation_forest sk_fit training_rows seed features of
        Inl e \<Rightarrow> Some (Inl e)
      | Inr forest \<Rightarrow> export_isolation_forest forest validation_rows false_positive_rate features)"

text \<open>The JSON of an exported model, as \<open>output_path\<close> receives it.\<close>

definition tree_to_json :: "tree \<Rightarrow> pyval" where
  "tree_to_json t =
     PDict [(''left'', PList (map PInt (t_left t))), (''right'', PList (map PInt (t_right t))),
            (''feature'', PList (map PInt (t_feature t))),
            (''threshold'', PList (map PFloat (t_threshold t))),
            (''samples'', PList (map PInt (t_samples t))), (''depth'', PList (map PInt (t_depth t))),
            (''feature_map'', PList (map PInt (t_feature_map t)))]"

definition model_to_json :: "iforest \<Rightarrow> int \<Rightarrow> pyval" where
  "model_to_json f seed =
     PDict [(''schema'', PStr ''cote3-mon-iforest-v1''),
            (''features'', PList (map PStr (if_features f))),
            (''max_samples'', PInt (if_max_samples f)),
            (''threshold'', PFloat (if_threshold f)),
            (''seed'', PInt seed),
            (''trees'', PList (map tree_to_json (if_trees f)))]"

section \<open>Shuffling permutes\<close>

lemma length_swap_items [simp]: "length (swap_items i j xs) = length xs"
  by (simp add: swap_items_def)

lemma mset_swap_items:
  "i < length xs \<Longrightarrow> j < length xs \<Longrightarrow> mset (swap_items i j xs) = mset xs"
  unfolding swap_items_def using mset_swap [of j xs i] by simp

lemma shuffle_from_mset:
  assumes "bounded_draws rb" and "i < length xs \<or> i = 0"
  shows "mset (fst (shuffle_from rb i xs s)) = mset xs"
  using assms(2)
proof (induction i arbitrary: xs s)
  case (Suc i)
  obtain j s1 where r: "rb (Suc (Suc i)) s = (j, s1)" by fastforce
  have "j < Suc (Suc i)" using assms(1) r by (metis bounded_draws_def fst_conv zero_less_Suc)
  then have j: "j < length xs" "Suc i < length xs" using Suc.prems by auto
  have "mset (fst (shuffle_from rb i (swap_items (Suc i) j xs) s1)) = mset (swap_items (Suc i) j xs)"
    by (rule Suc.IH) (use j in simp)
  then show ?case using mset_swap_items [OF j(2,1)] by (simp add: r)
qed simp

lemma mset_shuffle [simp]:
  assumes "bounded_draws rb"
  shows "mset (shuffle rb xs s) = mset xs"
  unfolding shuffle_def by (rule shuffle_from_mset [OF assms]) auto

lemma shuffle_props:
  assumes "bounded_draws rb"
  shows "set (shuffle rb xs s) = set xs" and "length (shuffle rb xs s) = length xs"
    and "distinct (shuffle rb xs s) \<longleftrightarrow> distinct xs"
  using mset_shuffle [OF assms, of xs s]
  by (auto dest: mset_eq_setD mset_eq_length mset_eq_imp_distinct_iff)

section \<open>Where the splits end\<close>

definition six_tenths :: rat where "six_tenths = 5404319552844595 / 2 ^ 53"
definition eight_tenths :: rat where "eight_tenths = 7205759403792794 / 2 ^ 53"

lemma tenths_rnd: "rnd (60 / 100) = six_tenths" "rnd (80 / 100) = eight_tenths"
  by (subst rnd_value [where e = "- 1" and m = 5404319552844595],
      simp_all add: six_tenths_def round_half_even_def power_int_def power_divide Let_def)
     (subst rnd_value [where e = "- 1" and m = 7205759403792794],
      simp_all add: eight_tenths_def round_half_even_def power_int_def power_divide Let_def)

lemma five_times_eight_tenths: "rnd (5 * eight_tenths) = 4"
  by (subst rnd_value [where e = 2 and m = 4503599627370496])
     (simp_all add: eight_tenths_def round_half_even_def power_int_def power_divide Let_def)

lemma int_fraction_floor:
  assumes "of_exact q = Fin c" and "0 \<le> c" and "c \<le> 1" and "0 < n" and "n \<le> 2 ^ 53"
  shows "int_fraction n q = Inr \<lfloor>rnd (of_nat n * c)\<rfloor>"
proof -
  have "int n \<le> int (2 ^ 53)" using assms(5) by (simp only: of_nat_le_iff)
  then have f: "float_of_int (int n) = Inr (Fin (of_nat n))" using float_of_int_small [of "int n"] by simp
  have "(of_nat n :: rat) \<le> of_nat (2 ^ 53)" using assms(5) by (simp only: of_nat_le_iff)
  then have "of_nat n * c \<le> 2 ^ 53 * 1" using assms(2,3) by (intro mult_mono) simp_all
  then have "\<bar>of_nat n * c\<bar> \<le> 2 ^ 64" using assms(2) by simp
  then have "fmul (Fin (of_nat n)) (Fin c) = Fin (rnd (of_nat n * c))" by (simp add: of_exact_small)
  moreover have "0 \<le> rnd (of_nat n * c)" using assms(2) by (simp add: rnd_nonneg)
  ultimately show ?thesis using f assms(1)
    by (simp add: int_fraction_def float_trunc_def to_int_with_def rat_trunc_def del: fmul.simps)
qed

lemma rnd_floor_le:
  assumes "x \<le> of_int k" and "\<bar>k\<bar> \<le> 2 ^ 53"
  shows "\<lfloor>rnd x :: rat\<rfloor> \<le> k"
proof -
  have "rnd x \<le> of_int k" by (rule rnd_le_representable [OF assms(1) representable_of_int [OF assms(2)]])
  then show ?thesis by linarith
qed

lemma split_ends_bounds:
  assumes "5 \<le> n" and "n \<le> 2 ^ 53"
  obtains a b where "split_ends n = Inr (a, b)" and "1 \<le> a" and "a < b" and "b < n"
proof -
  have n53: "int n \<le> 2 ^ 53"
  proof -
    have "int n \<le> int (2 ^ 53)" using assms(2) by (simp only: of_nat_le_iff)
    then show ?thesis by simp
  qed
  have n0: "0 < n" using assms(1) by simp
  have c: "0 \<le> six_tenths" "six_tenths \<le> 3 / 5" "0 \<le> eight_tenths" "eight_tenths \<le> 5 / 6"
    by (simp_all add: six_tenths_def eight_tenths_def)
  have of: "of_exact (60 / 100) = Fin six_tenths" "of_exact (80 / 100) = Fin eight_tenths"
    using tenths_rnd of_exact_small [of "60 / 100"] of_exact_small [of "80 / 100"] by simp_all
  define a b where "a = \<lfloor>rnd (of_nat n * six_tenths)\<rfloor>" and "b = \<lfloor>rnd (of_nat n * eight_tenths)\<rfloor>"
  have ends: "int_fraction n (60 / 100) = Inr a" "int_fraction n (80 / 100) = Inr b"
    unfolding a_def b_def by (rule int_fraction_floor [OF of(1) c(1) _ n0 assms(2)], use c in simp)
      (rule int_fraction_floor [OF of(2) c(3) _ n0 assms(2)], use c in simp)
  have n5: "(5 :: rat) \<le> of_nat n" using assms(1) by simp
  have "of_nat n * six_tenths \<le> of_nat n * (3 / 5)" using c(2) by (intro mult_left_mono) simp_all
  also have "\<dots> \<le> of_int (int n - 2)" using n5 by simp
  finally have a: "a \<le> int n - 2"
    unfolding a_def by (rule rnd_floor_le) (use assms(1) n53 in linarith)
  have b: "b \<le> int n - 1"
  proof (cases "n = 5")
    case True
    then show ?thesis by (simp add: b_def five_times_eight_tenths)
  next
    case False
    then have n6: "(6 :: rat) \<le> of_nat n" using assms(1) by simp
    have "of_nat n * eight_tenths \<le> of_nat n * (5 / 6)" using c(4) by (intro mult_left_mono) simp_all
    also have "\<dots> \<le> of_int (int n - 1)" using n6 by simp
    finally show ?thesis unfolding b_def by (rule rnd_floor_le) (use assms(1) n53 in linarith)
  qed
  have "split_ends n = Inr (nat (max 1 a), nat (max (max 1 a + 1) b))"
    by (simp only: split_ends_def ends bindE_simps Let_def)
  moreover have "1 \<le> nat (max 1 a)" "nat (max 1 a) < nat (max (max 1 a + 1) b)"
    "nat (max (max 1 a + 1) b) < n"
    using a b assms(1) by linarith+
  ultimately show thesis using that by blast
qed

section \<open>Rows of a set of runs\<close>

lemma filterE_Inr:
  assumes "filterE p xs = Inr ys"
  shows "ys = filter (\<lambda>x. p x = Inr True) xs" and "x \<in> set xs \<Longrightarrow> is_ok (p x)"
proof -
  have "ys = filter (\<lambda>x. p x = Inr True) xs \<and> (\<forall>x\<in>set xs. is_ok (p x))"
    using assms by (induction xs arbitrary: ys) (auto simp: bindE_eq_Inr_iff)
  then show "ys = filter (\<lambda>x. p x = Inr True) xs" and "x \<in> set xs \<Longrightarrow> is_ok (p x)" by blast+
qed

definition of_run :: "string list \<Rightarrow> pyval \<Rightarrow> bool" where
  "of_run ids row \<longleftrightarrow> (\<exists>r\<in>set ids. str_field ''run_id'' row = Inr r)"

lemma rows_of_runs_Inr:
  assumes "rows_of_runs ids rows = Inr ys"
  shows "ys = filter (of_run ids) rows"
proof -
  have "mapR (\<lambda>r. r \<in> set ids) (str_field ''run_id'' x) = Inr True \<longleftrightarrow> of_run ids x" for x
    by (auto simp: mapR_eq_Inr_iff of_run_def)
  then show ?thesis using filterE_Inr(1) [OF assms [unfolded rows_of_runs_def]] by simp
qed

lemma sorted_field_Inr:
  assumes "sorted_field k rows = Inr ids"
  shows "distinct ids" and "x \<in> set rows \<Longrightarrow> \<exists>r\<in>set ids. str_field k x = Inr r"
    and "r \<in> set ids \<Longrightarrow> \<exists>x\<in>set rows. str_field k x = Inr r"
proof -
  obtain vs where m: "mapE (str_field k) rows = Inr vs" and ids: "ids = sort (remdups vs)"
    using assms by (auto simp: sorted_field_def mapR_eq_Inr_iff)
  show "distinct ids" by (simp add: ids)
  show "x \<in> set rows \<Longrightarrow> \<exists>r\<in>set ids. str_field k x = Inr r"
    using mapE_set_source [OF m] by (metis ids set_remdups set_sort)
  show "r \<in> set ids \<Longrightarrow> \<exists>x\<in>set rows. str_field k x = Inr r"
    using mapE_set_mem [OF m] by (metis ids set_remdups set_sort)
qed

lemma three_way_Inr:
  assumes "three_way A B C benign = Inr (a, b, c)"
  shows "a = filter (of_run A) benign" and "b = filter (of_run B) benign" and "c = filter (of_run C) benign"
  using assms by (auto simp: three_way_def bindE_eq_Inr_iff dest: rows_of_runs_Inr)

lemma filter_of_run_ne:
  assumes "ids \<noteq> []" and "\<And>r. r \<in> set ids \<Longrightarrow> \<exists>x\<in>set rows. str_field ''run_id'' x = Inr r"
  shows "filter (of_run ids) rows \<noteq> []"
proof -
  obtain r where "r \<in> set ids" using assms(1) by (cases ids) auto
  with assms(2) show ?thesis by (force simp: filter_empty_conv of_run_def)
qed

text \<open>Disjoint sets of runs that cover all runs partition the rows.\<close>

lemma of_run_partition:
  assumes "distinct (A @ B @ C)" and "\<And>x. x \<in> set rows \<Longrightarrow> \<exists>r\<in>set (A @ B @ C). str_field ''run_id'' x = Inr r"
  shows "mset (filter (of_run A) rows) + mset (filter (of_run B) rows) + mset (filter (of_run C) rows) = mset rows"
  using assms(2)
proof (induction rows)
  case (Cons x rows)
  then obtain r where r: "r \<in> set (A @ B @ C)" "str_field ''run_id'' x = Inr r" by auto
  have in_iff: "of_run ids x \<longleftrightarrow> r \<in> set ids" for ids using r(2) by (auto simp: of_run_def)
  have "mset (filter (of_run A) rows) + mset (filter (of_run B) rows) + mset (filter (of_run C) rows) = mset rows"
    by (rule Cons.IH) (use Cons.prems in simp)
  with r(1) assms(1) show ?case by (auto simp: in_iff)
qed simp

lemma split_pieces:
  assumes "a \<le> b" and "b \<le> length xs"
  shows "take a xs @ drop a (take b xs) @ drop b xs = xs"
  using assms by (metis append.assoc append_take_drop_id min.absorb1 take_take)

text \<open>What a split of the rows is: whole runs, each in exactly one part, no part empty.\<close>

definition whole_run_split ::
  "pyval list \<Rightarrow> pyval list \<Rightarrow> pyval list \<Rightarrow> pyval list \<Rightarrow> bool" where
  "whole_run_split benign train validation test \<longleftrightarrow>
     (\<exists>A B C. train = filter (of_run A) benign \<and> validation = filter (of_run B) benign
        \<and> test = filter (of_run C) benign \<and> distinct (A @ B @ C))
     \<and> train \<noteq> [] \<and> validation \<noteq> [] \<and> test \<noteq> []
     \<and> mset train + mset validation + mset test = mset benign"

lemma split_whole_runs:
  assumes rb: "bounded_draws rb" and ids: "sorted_field ''run_id'' benign = Inr ids"
    and perm: "set run_ids = set ids" "distinct run_ids"
    and ends: "1 \<le> a" "a < b" "b < length run_ids"
    and split: "three_way (take a run_ids) (drop a (take b run_ids)) (drop b run_ids) benign = Inr (tr, va, te)"
  shows "whole_run_split benign tr va te"
proof -
  let ?A = "take a run_ids" and ?B = "drop a (take b run_ids)" and ?C = "drop b run_ids"
  have all: "?A @ ?B @ ?C = run_ids" by (rule split_pieces) (use ends in simp_all)
  note s = three_way_Inr [OF split] and f = sorted_field_Inr [OF ids]
  have sub: "set ?A \<subseteq> set ids" "set ?B \<subseteq> set ids" "set ?C \<subseteq> set ids"
    using arg_cong [OF all, of set] perm(1) by auto
  have ne: "?A \<noteq> []" "?B \<noteq> []" "?C \<noteq> []" using ends by auto
  have "tr \<noteq> []" "va \<noteq> []" "te \<noteq> []"
    unfolding s using f(3) sub by (intro filter_of_run_ne ne; blast)+
  moreover have "distinct (?A @ ?B @ ?C)" unfolding all by (rule perm(2))
  moreover from this have "mset tr + mset va + mset te = mset benign"
    unfolding s by (rule of_run_partition) (use f(2) in \<open>unfold all perm(1), blast\<close>)
  ultimately show ?thesis unfolding whole_run_split_def using s by blast
qed

section \<open>Depths of an exported tree\<close>

text \<open>A tree as scikit-learn stores it: arrays of one length, the children of an inner node
  after it, every node but the root a child, and levels \<open>D\<close> that grow by one along edges.\<close>

definition sk_tree_ok :: "sk_tree \<Rightarrow> (nat \<Rightarrow> int) \<Rightarrow> bool" where
  "sk_tree_ok t D \<longleftrightarrow>
     (let n = length (sk_left t) in
      0 < n \<and> length (sk_right t) = n \<and> D 0 = 0
      \<and> (\<forall>i<n. sk_left t ! i \<noteq> - 1 \<longrightarrow>
           int i < sk_left t ! i \<and> sk_left t ! i < int n \<and> int i < sk_right t ! i \<and> sk_right t ! i < int n
           \<and> D (nat (sk_left t ! i)) = D i + 1 \<and> D (nat (sk_right t ! i)) = D i + 1)
      \<and> (\<forall>j<n. j \<noteq> 0 \<longrightarrow> (\<exists>i<n. sk_left t ! i \<noteq> - 1 \<and> (sk_left t ! i = int j \<or> sk_right t ! i = int j))))"

text \<open>The nodes below \<open>i\<close>.\<close>

inductive below :: "sk_tree \<Rightarrow> nat \<Rightarrow> nat \<Rightarrow> bool" for t where
  refl: "below t i i"
| left: "below t i j" if "i < length (sk_left t)" "sk_left t ! i \<noteq> - 1" "below t (nat (sk_left t ! i)) j"
| right: "below t i j" if "i < length (sk_left t)" "sk_left t ! i \<noteq> - 1" "below t (nat (sk_right t ! i)) j"

lemma below_trans: "below t i j \<Longrightarrow> below t j k \<Longrightarrow> below t i k"
  by (induction rule: below.induct) (auto intro: below.intros)

lemma below_root:
  assumes "sk_tree_ok t D" and "j < length (sk_left t)"
  shows "below t 0 j"
  using assms(2)
proof (induction j rule: less_induct)
  case (less j)
  show ?case
  proof (cases "j = 0")
    case True
    then show ?thesis by (simp add: below.refl)
  next
    case False
    with assms(1) less.prems obtain i where i: "i < length (sk_left t)" "sk_left t ! i \<noteq> - 1"
      "sk_left t ! i = int j \<or> sk_right t ! i = int j" "i < j"
      by (fastforce simp: sk_tree_ok_def Let_def)
    have "below t i j" using i(1-3) by (metis below.left below.refl below.right nat_int)
    with less.IH [OF i(4,1)] show ?thesis by (rule below_trans)
  qed
qed

lemma fill_Nil: "fill_depths t [] ds = Some (Inr ds)"
  by (subst fill_depths.simps) simp

lemma fill_step:
  assumes "node < length ds" and "node < length (sk_left t)" and "length (sk_right t) = length (sk_left t)"
  shows "fill_depths t ((int node, d) # rest) ds =
    (if sk_left t ! node = - 1 then fill_depths t rest (ds[node := d])
     else fill_depths t ((sk_right t ! node, d + 1) # (sk_left t ! node, d + 1) # rest) (ds[node := d]))"
  by (subst fill_depths.simps) (use assms in \<open>simp add: py_update_def\<close>)

inductive_simps below_iff: "below t i j"

lemma below_leaf: "sk_left t ! i = - 1 \<Longrightarrow> below t i j \<longleftrightarrow> j = i"
  by (subst below_iff) auto

lemma below_inner:
  "i < length (sk_left t) \<Longrightarrow> sk_left t ! i \<noteq> - 1 \<Longrightarrow>
     below t i j \<longleftrightarrow> j = i \<or> below t (nat (sk_left t ! i)) j \<or> below t (nat (sk_right t ! i)) j"
  by (subst below_iff) auto

abbreviation stack_of :: "(nat \<Rightarrow> int) \<Rightarrow> nat list \<Rightarrow> (int \<times> int) list" where
  "stack_of D nodes \<equiv> map (\<lambda>i. (int i, D i)) nodes"

lemma fill_depths_correct:
  assumes "sk_tree_ok t D" and "length ds = length (sk_left t)" and "\<forall>i\<in>set nodes. i < length (sk_left t)"
  shows "\<exists>ds'. fill_depths t (stack_of D nodes) ds = Some (Inr ds') \<and> length ds' = length (sk_left t)
    \<and> (\<forall>j<length (sk_left t). ds' ! j = (if \<exists>i\<in>set nodes. below t i j then D j else ds ! j))"
  using assms(2,3)
proof (induction "sum_list (map (\<lambda>i. 3 ^ (length (sk_left t) - i)) nodes) :: nat" arbitrary: nodes ds
    rule: less_induct)
  case less
  let ?n = "length (sk_left t)"
  show ?case
  proof (cases nodes)
    case Nil
    then show ?thesis using less.prems(1) by (simp add: fill_Nil)
  next
    case (Cons i rest)
    then have i: "i < ?n" and rest: "\<forall>i\<in>set rest. i < ?n" using less.prems(2) by simp_all
    have lr: "length (sk_right t) = ?n" using assms(1) by (simp add: sk_tree_ok_def Let_def)
    let ?ds = "ds[i := D i]"
    have len: "length ?ds = ?n" using less.prems(1) by simp
    have step: "fill_depths t (stack_of D nodes) ds =
      (if sk_left t ! i = - 1 then fill_depths t (stack_of D rest) ?ds
       else fill_depths t ((sk_right t ! i, D i + 1) # (sk_left t ! i, D i + 1) # stack_of D rest) ?ds)"
      using fill_step [of i ds t "D i" "stack_of D rest"] i lr less.prems(1) by (simp add: Cons)
    show ?thesis
    proof (cases "sk_left t ! i = - 1")
      case True
      have "sum_list (map (\<lambda>i. 3 ^ (?n - i)) rest) < (sum_list (map (\<lambda>i. 3 ^ (?n - i)) nodes) :: nat)"
        by (simp add: Cons)
      from less.hyps [OF this len rest] obtain ds' where
        ds': "fill_depths t (stack_of D rest) ?ds = Some (Inr ds')" "length ds' = ?n"
        and v: "\<And>j. j < ?n \<Longrightarrow> ds' ! j = (if \<exists>i\<in>set rest. below t i j then D j else ?ds ! j)" by blast
      have "ds' ! j = (if \<exists>i\<in>set nodes. below t i j then D j else ds ! j)" if "j < ?n" for j
        using v [OF that] i less.prems(1) by (auto simp: Cons below_leaf [OF True] nth_list_update)
      then show ?thesis using ds' step True by simp
    next
      case False
      define l r where "l = nat (sk_left t ! i)" and "r = nat (sk_right t ! i)"
      have "i < l" "l < ?n" "i < r" "r < ?n" "sk_left t ! i = int l" "sk_right t ! i = int r"
        "D l = D i + 1" "D r = D i + 1"
        using assms(1) i False by (auto simp: sk_tree_ok_def Let_def l_def r_def)
      note lr = this
      have "Suc (?n - l) \<le> ?n - i" "Suc (?n - r) \<le> ?n - i" using lr(1-4) by linarith+
      then have "(3 :: nat) ^ Suc (?n - l) \<le> 3 ^ (?n - i)" "(3 :: nat) ^ Suc (?n - r) \<le> 3 ^ (?n - i)"
        by (simp_all only: power_increasing one_le_numeral)
      then have "3 * 3 ^ (?n - l) \<le> (3 :: nat) ^ (?n - i)" "3 * 3 ^ (?n - r) \<le> (3 :: nat) ^ (?n - i)"
        by (simp_all only: power_Suc)
      moreover have "(0 :: nat) < 3 ^ (?n - i)" by simp
      ultimately have "sum_list (map (\<lambda>i. 3 ^ (?n - i)) (r # l # rest))
          < (sum_list (map (\<lambda>i. 3 ^ (?n - i)) nodes) :: nat)"
        unfolding Cons list.map sum_list.Cons by linarith
      from less.hyps [OF this len] rest lr obtain ds' where
        ds': "fill_depths t (stack_of D (r # l # rest)) ?ds = Some (Inr ds')" "length ds' = ?n"
        and v: "\<And>j. j < ?n \<Longrightarrow> ds' ! j = (if \<exists>i\<in>set (r # l # rest). below t i j then D j else ?ds ! j)"
        by auto
      have "ds' ! j = (if \<exists>i\<in>set nodes. below t i j then D j else ds ! j)" if "j < ?n" for j
        using v [OF that] i less.prems(1)
        by (auto simp: Cons below_inner [OF i False] l_def [symmetric] r_def [symmetric] nth_list_update)
      then show ?thesis using ds' step False lr by simp
    qed
  qed
qed

lemma export_tree_correct:
  assumes "sk_tree_ok t D" and "0 < length (sk_left t)"
  obtains x where "export_tree t fm = Some (Inr x)" and "t_left x = sk_left t" and "t_right x = sk_right t"
    and "t_feature x = sk_feature t" and "t_threshold x = sk_threshold t" and "t_samples x = sk_samples t"
    and "t_feature_map x = fm" and "t_depth x = map D [0..<length (sk_left t)]"
proof -
  let ?n = "length (sk_left t)"
  have D0: "D 0 = 0" using assms(1) by (simp add: sk_tree_ok_def Let_def)
  obtain ds where ds: "fill_depths t (stack_of D [0]) (replicate ?n 0) = Some (Inr ds)" "length ds = ?n"
    and v: "\<And>j. j < ?n \<Longrightarrow> ds ! j = (if \<exists>i\<in>set [0]. below t i j then D j else replicate ?n 0 ! j)"
    using fill_depths_correct [OF assms(1), of "replicate ?n 0" "[0]"] assms(2) by auto
  have "ds = map D [0..<?n]"
    by (rule nth_equalityI) (use ds(2) v below_root [OF assms(1)] in auto)
  with ds(1) D0 have e: "export_tree t fm = Some (Inr \<lparr>t_left = sk_left t, t_right = sk_right t,
      t_feature = sk_feature t, t_threshold = sk_threshold t, t_samples = sk_samples t,
      t_depth = map D [0..<?n], t_feature_map = fm\<rparr>)"
    by (simp add: export_tree_def)
  show thesis by (rule that [OF e]) simp_all
qed

section \<open>The splits return\<close>

lemma filterE_total: "(\<And>x. x \<in> set xs \<Longrightarrow> p x = Inr (q x)) \<Longrightarrow> filterE p xs = Inr (filter q xs)"
  by (induction xs) auto

lemma rows_of_runs_total:
  assumes "\<And>x. x \<in> set rows \<Longrightarrow> is_ok (str_field ''run_id'' x)"
  shows "rows_of_runs ids rows = Inr (filter (of_run ids) rows)"
  unfolding rows_of_runs_def
proof (rule filterE_total)
  fix x
  assume "x \<in> set rows"
  then obtain r where "str_field ''run_id'' x = Inr r" using assms by (blast elim: is_okE)
  then show "mapR (\<lambda>r. r \<in> set ids) (str_field ''run_id'' x) = Inr (of_run ids x)"
    by (simp add: of_run_def)
qed

lemma three_way_total:
  assumes "\<And>x. x \<in> set rows \<Longrightarrow> is_ok (str_field ''run_id'' x)"
  shows "three_way A B C rows = Inr (filter (of_run A) rows, filter (of_run B) rows, filter (of_run C) rows)"
  by (simp add: three_way_def rows_of_runs_total assms)

lemma split_benign_runs_cases:
  assumes rb: "bounded_draws rb" and benign: "benign_rows rows = Inr benign"
    and ids: "sorted_field ''run_id'' benign = Inr ids" and small: "length ids \<le> 2 ^ 53"
  shows "if length ids < 5 then split_benign_runs rb seed rows = Inl ValueError
    else \<exists>tr va te. split_benign_runs rb seed rows = Inr (tr, va, te) \<and> whole_run_split benign tr va te"
proof (cases "length ids < 5")
  case True
  then show ?thesis by (simp add: split_benign_runs_def benign ids)
next
  case False
  let ?ids = "shuffle rb ids seed"
  note p = shuffle_props [OF rb, of ids seed]
  have ok: "is_ok (str_field ''run_id'' x)" if "x \<in> set benign" for x
    using sorted_field_Inr(2) [OF ids that] by auto
  obtain a b where ab: "split_ends (length ids) = Inr (a, b)" "1 \<le> a" "a < b" "b < length ids"
    using split_ends_bounds [OF _ small] False by (metis not_less)
  obtain tr va te where t: "three_way (take a ?ids) (drop a (take b ?ids)) (drop b ?ids) benign = Inr (tr, va, te)"
    by (simp only: three_way_total [OF ok])
  have "whole_run_split benign tr va te"
    by (rule split_whole_runs [OF rb ids p(1) _ ab(2,3) _ t])
       (use p ab(4) sorted_field_Inr(1) [OF ids] in simp_all)
  moreover have "split_benign_runs rb seed rows = Inr (tr, va, te)"
    using False ab(1) t by (simp add: split_benign_runs_def benign ids p(2))
  ultimately show ?thesis using False by simp
qed

lemma exported_tree_ok:
  assumes "sk_tree_ok t D" and "length (sk_feature t) = length (sk_left t)"
    and "length (sk_threshold t) = length (sk_left t)" and "length (sk_samples t) = length (sk_left t)"
    and "\<forall>m\<in>set fm. 0 \<le> m \<and> m < int k"
    and "\<forall>i<length (sk_left t). sk_left t ! i \<noteq> - 1 \<longrightarrow> 0 \<le> sk_feature t ! i \<and> sk_feature t ! i < int (length fm)"
  obtains x where "export_tree t fm = Some (Inr x)" and "wf_tree k x" and "depths_ok x"
proof -
  have n: "0 < length (sk_left t)" using assms(1) by (simp add: sk_tree_ok_def Let_def)
  obtain x where x: "export_tree t fm = Some (Inr x)" "t_left x = sk_left t" "t_right x = sk_right t"
    "t_feature x = sk_feature t" "t_threshold x = sk_threshold t" "t_samples x = sk_samples t"
    "t_feature_map x = fm" "t_depth x = map D [0..<length (sk_left t)]"
    by (rule export_tree_correct [OF assms(1) n])
  have inner: "int i < sk_left t ! i \<and> sk_left t ! i < int (length (sk_left t)) \<and> int i < sk_right t ! i
      \<and> sk_right t ! i < int (length (sk_left t))
      \<and> D (nat (sk_left t ! i)) = D i + 1 \<and> D (nat (sk_right t ! i)) = D i + 1"
    if "i < length (sk_left t)" "sk_left t ! i \<noteq> - 1" for i
    using assms(1) that by (simp add: sk_tree_ok_def Let_def)
  have "wf_tree k x" using assms inner n by (simp add: wf_tree_def x Let_def sk_tree_ok_def)
  moreover have "depths_ok x"
    unfolding depths_ok_def x
  proof (intro conjI allI impI)
    show "map D [0..<length (sk_left t)] ! 0 = 0" using n assms(1) by (simp add: sk_tree_ok_def Let_def)
    fix i
    assume i: "i < length (sk_left t)" "sk_left t ! i \<noteq> - 1"
    from inner [OF i] have "nat (sk_left t ! i) < length (sk_left t)" "nat (sk_right t ! i) < length (sk_left t)"
      by linarith+
    with inner [OF i] i(1)
    show "map D [0..<length (sk_left t)] ! nat (sk_left t ! i) = map D [0..<length (sk_left t)] ! i + 1"
      and "map D [0..<length (sk_left t)] ! nat (sk_right t ! i) = map D [0..<length (sk_left t)] ! i + 1"
      by simp_all
  qed
  ultimately show thesis using that x(1) by blast
qed

lemma tree_json_round_trip: "tree_of_json (tree_to_json t) = Inr t"
  by (cases t) (simp add: tree_of_json_def tree_to_json_def field_list_def mapE_map dget_def)

lemma model_json_round_trip: "if_trees f \<noteq> [] \<Longrightarrow> iforest_init (model_to_json f seed) = Inr f"
  by (cases f) (simp add: iforest_init_def model_to_json_def field_list_def mapE_map tree_json_round_trip dget_def)

section \<open>Samples\<close>

definition benign_row :: "string \<Rightarrow> pyval" where
  "benign_row run = PDict [(''run_id'', PStr run), (''scenario'', PStr ''steady''), (''is_attack'', PInt 0)]"

definition five_runs :: "pyval list" where
  "five_runs = map benign_row [''a'', ''b'', ''c'', ''d'', ''e'', ''a'']"

lemma five_runs_benign: "benign_rows five_runs = Inr five_runs"
  by (simp add: benign_rows_def five_runs_def benign_row_def dget_def)

lemma five_runs_ids: "sorted_field ''run_id'' five_runs = Inr [''a'', ''b'', ''c'', ''d'', ''e'']"
  by (simp add: sorted_field_def five_runs_def benign_row_def str_field_def dget_def)

definition sample_sk_tree :: sk_tree where
  "sample_sk_tree = \<lparr>sk_left = [1, -1, -1], sk_right = [2, -1, -1], sk_feature = [0, -2, -2],
     sk_threshold = [Fin 5, Fin (-2), Fin (-2)], sk_samples = [4, 3, 1]\<rparr>"

lemma sample_sk_tree_ok: "sk_tree_ok sample_sk_tree (\<lambda>i. if i = 0 then 0 else 1)"
  by (auto simp: sk_tree_ok_def sample_sk_tree_def Let_def less_Suc_eq numeral_3_eq_3 intro: exI [of _ 0])

section \<open>Properties\<close>

text \<open>C21. The benign split returns exactly when there are at least five benign runs, for every
  seed and generator; it then puts every benign row in exactly one of three non-empty parts,
  in the original order, and whole runs only: no run has rows in two parts.\<close>

theorem benign_split_by_whole_runs:
  assumes "bounded_draws rb" and "benign_rows rows = Inr benign"
    and "sorted_field ''run_id'' benign = Inr ids" and "length ids \<le> 2 ^ 53"
  shows "if length ids < 5 then split_benign_runs rb seed rows = Inl ValueError
    else \<exists>tr va te. split_benign_runs rb seed rows = Inr (tr, va, te) \<and> whole_run_split benign tr va te"
  using split_benign_runs_cases [OF assms] .

theorem benign_split_by_whole_runs_witness:
  "\<exists>tr va te. split_benign_runs (\<lambda>n s. (s mod n, 5 * s + 3)) 42 five_runs = Inr (tr, va, te)
    \<and> whole_run_split five_runs tr va te"
  using benign_split_by_whole_runs [OF _ five_runs_benign five_runs_ids, of "\<lambda>n s. (s mod n, 5 * s + 3)" 42]
  by (simp add: bounded_draws_def)

text \<open>C17. Exporting a tree ends and writes arrays that the inference accepts: the exported
  tree is well-formed and its depth array counts the edges from the root, although it is
  filled by an iterative traversal with an explicit stack.\<close>

theorem exported_tree_well_formed:
  assumes "sk_tree_ok t D" and "length (sk_feature t) = length (sk_left t)"
    and "length (sk_threshold t) = length (sk_left t)" and "length (sk_samples t) = length (sk_left t)"
    and "\<forall>m\<in>set fm. 0 \<le> m \<and> m < int k"
    and "\<forall>i<length (sk_left t). sk_left t ! i \<noteq> - 1 \<longrightarrow> 0 \<le> sk_feature t ! i \<and> sk_feature t ! i < int (length fm)"
  shows "\<exists>x. export_tree t fm = Some (Inr x) \<and> wf_tree k x \<and> depths_ok x
    \<and> t_depth x = map D [0..<length (sk_left t)]"
proof -
  have "0 < length (sk_left t)" using assms(1) by (simp add: sk_tree_ok_def Let_def)
  then obtain x where "export_tree t fm = Some (Inr x)" "t_depth x = map D [0..<length (sk_left t)]"
    by (rule export_tree_correct [OF assms(1)])
  then show ?thesis using exported_tree_ok [OF assms] by (metis option.inject sum.inject(2))
qed

theorem exported_tree_well_formed_witness:
  "\<exists>x. export_tree sample_sk_tree [0] = Some (Inr x) \<and> wf_tree 1 x \<and> depths_ok x
    \<and> t_depth x = map (\<lambda>i. if i = 0 then 0 else 1) [0..<length (sk_left sample_sk_tree)]"
  by (rule exported_tree_well_formed [OF sample_sk_tree_ok])
     (simp_all add: sample_sk_tree_def less_Suc_eq numeral_3_eq_3)

text \<open>The model file that the exporter writes is read back by the runtime as the same
  forest, so the guest scores with exactly the trees and the threshold that were calibrated.\<close>

theorem exported_model_loads:
  assumes "if_trees f \<noteq> []"
  shows "iforest_init (model_to_json f seed) = Inr f"
  using assms by (rule model_json_round_trip)

theorem exported_model_loads_witness:
  "iforest_init (model_to_json sample_forest 42) = Inr sample_forest"
  by (rule exported_model_loads) (simp add: sample_forest_def)

end
