(* ===== verification/Resource.thy ===== *)
theory Resource
  imports Json Mock_Gateway
begin

text \<open>
  \<open>cote3mon/resource.py\<close>: the sampler of a process's CPU time and memory.  The two files under
  \<open>/proc\<close>, the clocks and the sleep are a record of functions on the state of the machine; a
  file that cannot be read is an error of its reader.
\<close>

section \<open>The machine\<close>

record 'e machine =
  pm_stat :: "'e \<Rightarrow> string result \<times> 'e"
  pm_status :: "'e \<Rightarrow> string result \<times> 'e"
  pm_monotonic_ns :: "'e \<Rightarrow> int \<times> 'e"
  pm_monotonic :: "'e \<Rightarrow> f64 \<times> 'e"
  pm_time_ns :: "'e \<Rightarrow> int \<times> 'e"
  pm_sleep :: "f64 \<Rightarrow> 'e \<Rightarrow> 'e"

section \<open>Texts\<close>

text \<open>\<open>str.split()\<close>\<close>

function split_fields :: "string \<Rightarrow> string list" where
  "split_fields s =
     (let t = dropWhile is_blank s in
      if t = [] then []
      else takeWhile (\<lambda>c. \<not> is_blank c) t # split_fields (dropWhile (\<lambda>c. \<not> is_blank c) t))"
  by pat_completeness auto
termination
proof (relation "measure length", simp)
  fix s t :: string
  assume t: "t = dropWhile is_blank s" and "t \<noteq> []"
  then obtain c u where cu: "t = c # u" and "\<not> is_blank c"
    by (metis dropWhile_eq_Cons_conv list.exhaust)
  then have "length (dropWhile (\<lambda>c. \<not> is_blank c) t) < length t"
    using length_dropWhile_le [of "\<lambda>c. \<not> is_blank c" u] by simp
  also have "length t \<le> length s" unfolding t by (rule length_dropWhile_le)
  finally show "(dropWhile (\<lambda>c. \<not> is_blank c) t, s) \<in> measure length" by simp
qed

declare split_fields.simps [simp del]

text \<open>\<open>str.splitlines()\<close>; a carriage return and the newline after it are one line break.\<close>

definition is_line_break :: "char \<Rightarrow> bool" where
  "is_line_break c = (let n = of_char c :: nat in (10 \<le> n \<and> n \<le> 13) \<or> (28 \<le> n \<and> n \<le> 30))"

fun lines_from :: "string \<Rightarrow> string \<Rightarrow> string list" where
  "lines_from cur [] = (if cur = [] then [] else [cur])"
| "lines_from cur (c # cs) =
     (if c = CHR 0x0D \<and> take 1 cs = [CHR 0x0A] then lines_from cur cs
      else if is_line_break c then cur # lines_from [] cs
      else lines_from (cur @ [c]) cs)"

definition splitlines :: "string \<Rightarrow> string list" where
  "splitlines s = lines_from [] s"

section \<open>The sampler\<close>

record sampler =
  sa_clock_ticks :: int
  sa_previous_cpu :: "int option"
  sa_previous_time :: "int option"

definition new_sampler :: "int \<Rightarrow> sampler" where
  "new_sampler clock_ticks = \<lparr>sa_clock_ticks = clock_ticks, sa_previous_cpu = None, sa_previous_time = None\<rparr>"

definition stat_int :: "string list \<Rightarrow> int \<Rightarrow> int result" where
  "stat_int columns i = bindE (py_index columns i) parse_int"

definition cpu_ticks_of :: "string \<Rightarrow> int result" where
  "cpu_ticks_of stat =
     (let columns = split_fields stat in
      bindE (stat_int columns 13) (\<lambda>user. bindE (stat_int columns 14) (\<lambda>system. Inr (user + system))))"

definition cpu_percent_of :: "sampler \<Rightarrow> int \<Rightarrow> int \<Rightarrow> f64 result" where
  "cpu_percent_of sa cpu_ticks now =
     (case (sa_previous_cpu sa, sa_previous_time sa) of
        (Some cpu0, Some time0) \<Rightarrow>
          bindE (int_truediv (cpu_ticks - cpu0) (sa_clock_ticks sa)) (\<lambda>cpu_seconds.
          bindE (int_truediv (now - time0) 1000000000) (\<lambda>wall_seconds.
          if feq wall_seconds (Fin 0) then Inr (Fin 0)
          else fdiv (fmul (Fin 100) cpu_seconds) wall_seconds))
      | _ \<Rightarrow> Inr (Fin 0))"

fun rss_of :: "string list \<Rightarrow> int result" where
  "rss_of [] = Inr 0"
| "rss_of (line # lines) =
     (if take 6 line = ''VmRSS:'' then stat_int (split_fields line) 1 else rss_of lines)"

text \<open>\<open>sample\<close> keeps what it remembered when the second file cannot be read.\<close>

definition sample :: "'e machine \<Rightarrow> sampler \<Rightarrow> 'e \<Rightarrow> (f64 \<times> int) result \<times> sampler \<times> 'e" where
  "sample m sa e =
     (case pm_stat m e of (stat, e1) \<Rightarrow>
       (case bindE stat cpu_ticks_of of
          Inl err \<Rightarrow> (Inl err, sa, e1)
        | Inr cpu_ticks \<Rightarrow>
            (case pm_monotonic_ns m e1 of (now, e2) \<Rightarrow>
              (case cpu_percent_of sa cpu_ticks now of
                 Inl err \<Rightarrow> (Inl err, sa, e2)
               | Inr cpu_percent \<Rightarrow>
                   (case pm_status m e2 of (status, e3) \<Rightarrow>
                      (bindE status (\<lambda>text. mapR (Pair cpu_percent) (rss_of (splitlines text))),
                       sa\<lparr>sa_previous_cpu := Some cpu_ticks, sa_previous_time := Some now\<rparr>, e3))))))"

section \<open>The telemetry of a process\<close>

definition resource_event :: "string \<Rightarrow> string \<Rightarrow> bool \<Rightarrow> int \<Rightarrow> f64 \<times> int \<Rightarrow> pyval" where
  "resource_event run_id scenario is_attack now = (\<lambda>(cpu, rss).
     PDict [(''event_type'', PStr ''resource''), (''ts_unix_ns'', PInt now), (''run_id'', PStr run_id),
       (''scenario'', PStr scenario), (''is_attack'', PBool is_attack), (''cpu_percent'', PFloat cpu),
       (''rss_kb'', PInt rss)])"

text \<open>The loop of \<open>sample_to_jsonl\<close>: the result with the lines written so far.  The events are
  made by \<open>mk\<close> from the time and the sample.  It may run forever when the clock stands still.\<close>

partial_function (option) sample_loop ::
  "'e machine \<Rightarrow> (int \<Rightarrow> f64 \<times> int \<Rightarrow> pyval) \<Rightarrow> f64 \<Rightarrow> f64 \<Rightarrow> sampler \<Rightarrow> string list \<Rightarrow> 'e \<Rightarrow>
   (nat result \<times> string list \<times> 'e) option" where
  "sample_loop m mk deadline interval sa written e =
     (case pm_monotonic m e of (clock, e1) \<Rightarrow>
        if \<not> flt clock deadline then Some (Inr (length written), written, e1)
        else (case sample m sa e1 of
          (Inl err, sa', e2) \<Rightarrow>
            Some (if err = FileNotFoundError \<or> err = ProcessLookupError then Inr (length written) else Inl err,
              written, e2)
        | (Inr reading, sa', e2) \<Rightarrow>
            (case pm_time_ns m e2 of (now, e3) \<Rightarrow>
              let written' = written @ [json_dumps (mk now reading)] in
              (case sleep_check interval of
                 Inl err \<Rightarrow> Some (Inl err, written', e3)
               | Inr _ \<Rightarrow> sample_loop m mk deadline interval sa' written' (pm_sleep m interval e3)))))"

declare sample_loop.simps [code]

definition sample_to_jsonl ::
  "'e machine \<Rightarrow> int \<Rightarrow> string \<Rightarrow> string \<Rightarrow> bool \<Rightarrow> f64 \<Rightarrow> f64 \<Rightarrow> 'e \<Rightarrow> (nat result \<times> string list \<times> 'e) option" where
  "sample_to_jsonl m clock_ticks run_id scenario is_attack duration_seconds interval_seconds e =
     (if fle duration_seconds (Fin 0) then Some (Inl ValueError, [], e)
      else if fle interval_seconds (Fin 0) then Some (Inl ValueError, [], e)
      else (case pm_monotonic m e of (start, e1) \<Rightarrow>
        sample_loop m (resource_event run_id scenario is_attack) (fadd start duration_seconds) interval_seconds
          (new_sampler clock_ticks) [] e1))"

section \<open>Columns\<close>

definition word :: "string \<Rightarrow> bool" where
  "word w \<longleftrightarrow> w \<noteq> [] \<and> (\<forall>c\<in>set w. \<not> is_blank c)"

lemma split_fields_Nil [simp]: "split_fields [] = []"
  by (simp add: split_fields.simps)

lemma split_fields_blank: "is_blank c \<Longrightarrow> split_fields (c # s) = split_fields s"
  by (subst (1 2) split_fields.simps) simp

lemma split_fields_word:
  assumes "word w" and "s = [] \<or> is_blank (hd s)"
  shows "split_fields (w @ s) = w # split_fields s"
proof -
  have d: "dropWhile is_blank (w @ s) = w @ s" using assms(1) by (cases w) (auto simp: word_def)
  have t: "takeWhile (\<lambda>c. \<not> is_blank c) (w @ s) = w" and r: "dropWhile (\<lambda>c. \<not> is_blank c) (w @ s) = s"
    using assms by (cases s; auto simp: word_def takeWhile_append dropWhile_append)+
  show ?thesis using assms(1) by (subst split_fields.simps) (simp add: d t r Let_def word_def)
qed

lemma is_blank_space [simp]: "is_blank (CHR '' '')"
  by code_simp

lemma is_blank_newline [simp]: "is_blank (CHR 0x0A)"
  by code_simp

lemma split_fields_join:
  "list_all word ws \<Longrightarrow> split_fields (join '' '' ws @ [CHR 0x0A]) = ws"
proof (induction ws)
  case (Cons w ws)
  then show ?case by (cases ws) (simp_all add: split_fields_blank split_fields_word)
qed (simp add: split_fields_blank)

lemma word_nat_str: "word (nat_str n)"
  using nat_str_digits [of n] not_blank_digit by (auto simp: word_def list_all_iff)

lemma word_int_str: "word (int_str n)"
  using word_nat_str by (simp add: int_str_def word_def is_digit_minus)

text \<open>The line the kernel writes: the number, the command in parentheses and the columns from
  the state on.\<close>

definition stat_line :: "nat \<Rightarrow> string \<Rightarrow> string list \<Rightarrow> string" where
  "stat_line pid comm columns = join '' '' (nat_str pid # (''('' @ comm @ '')'') # columns) @ [CHR 0x0A]"

lemma split_stat_line:
  assumes "\<forall>c\<in>set comm. \<not> is_blank c" and "list_all word columns"
  shows "split_fields (stat_line pid comm columns) = nat_str pid # (''('' @ comm @ '')'') # columns"
proof -
  have "word (''('' @ comm @ '')'')" using assms(1) by (simp add: word_def) code_simp
  then show ?thesis
    using assms(2) word_nat_str by (simp add: stat_line_def split_fields_join del: join.simps)
qed

text \<open>A command with a blank shifts every column behind it by one.\<close>

lemma stat_line_blank:
  "stat_line pid (a @ CHR '' '' # b) columns
     = join '' '' (nat_str pid # (CHR ''('' # a) # (b @ '')'') # columns) @ [CHR 0x0A]"
  by (cases columns) (simp_all add: stat_line_def)

lemma split_stat_line_blank:
  assumes "\<forall>c\<in>set (a @ b). \<not> is_blank c" and "list_all word columns"
  shows "split_fields (stat_line pid (a @ CHR '' '' # b) columns) = nat_str pid # (CHR ''('' # a) # (b @ '')'') # columns"
proof -
  have "word (CHR ''('' # a)" "word (b @ '')'')" using assms(1) by (auto simp: word_def) (code_simp+)
  then show ?thesis
    unfolding stat_line_blank using assms(2) word_nat_str by (simp add: split_fields_join del: join.simps)
qed

lemma stat_int_nth: "i < length columns \<Longrightarrow> columns ! i = int_str n \<Longrightarrow> short_int n \<Longrightarrow> stat_int columns (int i) = Inr n"
  by (simp add: stat_int_def py_index_def parse_int_str)

section \<open>Properties\<close>

text \<open>The ticks \<open>sample\<close> adds up are the user and the system time of the process, the 14th
  and 15th column of the kernel's line, for every command without white space.\<close>

theorem cpu_ticks_of_stat_line:
  assumes "\<forall>c\<in>set comm. \<not> is_blank c" and "list_all word before" and "length before = 11"
    and "short_int user" and "short_int system" and "list_all word behind"
  shows "cpu_ticks_of (stat_line pid comm (before @ [int_str user, int_str system] @ behind)) = Inr (user + system)"
proof -
  let ?c = "nat_str pid # (''('' @ comm @ '')'') # before @ [int_str user, int_str system] @ behind"
  have "split_fields (stat_line pid comm (before @ [int_str user, int_str system] @ behind)) = ?c"
    by (rule split_stat_line [OF assms(1)]) (use assms(2,6) word_int_str in simp)
  moreover have "stat_int ?c (int 13) = Inr user" "stat_int ?c (int 14) = Inr system"
    by (rule stat_int_nth; use assms(3-5) in \<open>simp add: nth_append numeral_eq_Suc\<close>)+
  ultimately show ?thesis by (simp add: cpu_ticks_of_def)
qed

theorem cpu_ticks_of_stat_line_witness:
  "cpu_ticks_of (stat_line 7 ''gateway''
     ([''S'', ''1'', ''1'', ''1'', ''0'', ''0'', ''0'', ''90'', ''0'', ''4'', ''0''] @ [int_str 250, int_str 50] @ [''0'']))
   = Inr (250 + 50)"
  by (rule cpu_ticks_of_stat_line; code_simp)

text \<open>With a blank in the command the sampler adds the major faults of the children to the user
  time and leaves the system time out.\<close>

lemma cpu_ticks_shifted:
  assumes "\<forall>c\<in>set (a @ b). \<not> is_blank c" and "list_all word before" and "length before = 10"
    and "short_int faults" and "short_int user" and "list_all word behind"
  shows "cpu_ticks_of (stat_line pid (a @ CHR '' '' # b) (before @ [int_str faults, int_str user] @ behind))
    = Inr (faults + user)"
proof -
  let ?c = "nat_str pid # (CHR ''('' # a) # (b @ '')'') # before @ [int_str faults, int_str user] @ behind"
  have "split_fields (stat_line pid (a @ CHR '' '' # b) (before @ [int_str faults, int_str user] @ behind)) = ?c"
    by (rule split_stat_line_blank [OF assms(1)]) (use assms(2,6) word_int_str in simp)
  moreover have "stat_int ?c (int 13) = Inr faults" "stat_int ?c (int 14) = Inr user"
    by (rule stat_int_nth; use assms(3-5) in \<open>simp add: nth_append numeral_eq_Suc\<close>)+
  ultimately show ?thesis by (simp add: cpu_ticks_of_def)
qed

end
