(* ===== verification/Cli.thy ===== *)
theory Cli
  imports Monitor Training Workload Resource
begin

text \<open>
  \<open>cote3mon/cli.py\<close>: the commands, after \<open>argparse\<close> has read their arguments (these are the
  parameters).  A file is its text or its lines; the result of a command is what it writes and
  its exit status.
\<close>

section \<open>Features\<close>

definition features_main :: "string list list \<Rightarrow> int \<Rightarrow> int \<Rightarrow> (nat \<times> string list list) result" where
  "features_main inputs window_seconds warmup_seconds =
     bindE (read_jsonl inputs) (\<lambda>events.
     bindE (aggregate_events events window_seconds warmup_seconds) (\<lambda>rows.
     mapR (Pair (length rows)) (write_csv rows BASE_FEATURE_NAMES)))"

section \<open>Training\<close>

text \<open>The file of the percentile model, if it was written, and the forest, if one was asked for;
  \<open>None\<close> when the export of a tree does not end.\<close>

definition train_main ::
  "'s randbelow \<Rightarrow> 's \<Rightarrow> (f64 list list \<Rightarrow> int \<Rightarrow> sk_forest) option \<Rightarrow> string list list \<Rightarrow> f64 \<Rightarrow> bool \<Rightarrow>
   (pyval option \<times> iforest option result) option" where
  "train_main rb seed42 sk_fit table fpr baseline_only =
     (case bindE (read_feature_csv table BASE_FEATURE_NAMES) (\<lambda>rows.
           bindE (split_benign_runs rb seed42 rows) (\<lambda>(training, validation, _).
           bindE (percentile_fit training validation fpr BASE_FEATURE_NAMES) (\<lambda>baseline.
           Inr (training, validation, percentile_to_dict baseline)))) of
        Inl e \<Rightarrow> Some (None, Inl e)
      | Inr (training, validation, saved) \<Rightarrow>
          if baseline_only then Some (Some saved, Inr None)
          else map_option (\<lambda>r. (Some saved, mapR Some r))
                 (train_and_export sk_fit training validation fpr 42 BASE_FEATURE_NAMES))"

section \<open>Evaluation\<close>

definition metrics_dict :: "metrics \<Rightarrow> (string \<times> pyval) list" where
  "metrics_dict m =
     [(''tp'', PInt (m_tp m)), (''fp'', PInt (m_fp m)), (''tn'', PInt (m_tn m)), (''fn'', PInt (m_fn m)),
      (''precision'', PFloat (m_precision m)), (''recall'', PFloat (m_recall m)), (''f1'', PFloat (m_f1 m)),
      (''false_positive_rate'', PFloat (m_fpr m)), (''auprc'', PFloat (m_auprc m))]"

fun detector_scores :: "libm \<Rightarrow> detector \<Rightarrow> pyval list \<Rightarrow> f64 list result option" where
  "detector_scores lm det [] = Some (Inr [])"
| "detector_scores lm det (row # rows) =
     (case detector_score lm det row of
        None \<Rightarrow> None
      | Some (Inl e) \<Rightarrow> Some (Inl e)
      | Some (Inr score) \<Rightarrow> map_option (mapR (\<lambda>scores. score # scores)) (detector_scores lm det rows))"

text \<open>The metrics it prints, with the two intervals.\<close>

definition evaluate_report :: "'s randbelow \<Rightarrow> 's \<Rightarrow> f64 \<Rightarrow> int list \<Rightarrow> f64 list \<Rightarrow> pyval result" where
  "evaluate_report rb seed42 threshold labels scores =
     bindE (classification_metrics labels scores threshold) (\<lambda>m.
     bindE (mapE (\<lambda>name. mapR (\<lambda>(low, high). (name @ ''_ci95'', PList [PFloat low, PFloat high]))
             (bootstrap_metric_interval rb labels scores threshold name 1000 seed42)) [''f1'', ''auprc'']) (\<lambda>intervals.
     Inr (PDict (metrics_dict m @ intervals))))"

definition evaluate_main :: "'s randbelow \<Rightarrow> 's \<Rightarrow> libm \<Rightarrow> string list list \<Rightarrow> string \<Rightarrow> pyval result option" where
  "evaluate_main rb seed42 lm table model_text =
     (case bindE (read_feature_csv table BASE_FEATURE_NAMES) (\<lambda>rows.
           bindE (load_detector model_text) (\<lambda>det.
           bindE (mapE (\<lambda>row. int_field row ''is_attack'') rows) (\<lambda>labels. Inr (rows, det, labels)))) of
        Inl e \<Rightarrow> Some (Inl e)
      | Inr (rows, det, labels) \<Rightarrow>
          map_option (\<lambda>r. bindE r (evaluate_report rb seed42 (detector_threshold det) labels))
            (detector_scores lm det rows))"

section \<open>Workload and resources\<close>

definition workload_main :: "'e world \<Rightarrow> 'r rng \<Rightarrow> (int \<Rightarrow> 'r) \<Rightarrow> string \<Rightarrow> f64 \<Rightarrow> int \<Rightarrow> 'e \<Rightarrow>
    (int result \<times> 'e) option" where
  "workload_main w rg seeded scenario duration seed e =
     run_workload w rg scenario duration (seeded seed) (Fin 1) e"

definition resource_main :: "'e machine \<Rightarrow> int \<Rightarrow> string \<Rightarrow> string \<Rightarrow> bool \<Rightarrow> f64 \<Rightarrow> f64 \<Rightarrow> 'e \<Rightarrow>
    (nat result \<times> string list \<times> 'e) option" where
  "resource_main m clock_ticks run_id scenario attack duration interval e =
     sample_to_jsonl m clock_ticks run_id scenario attack duration interval e"

section \<open>Audit\<close>

datatype audit_command = RegisterModel bytes | AppendAlert string | VerifyRecords string

text \<open>What is printed, the exit status and the store.\<close>

definition audit_main :: "audit_command \<Rightarrow> audit \<Rightarrow> (pyval \<times> int) result \<times> audit" where
  "audit_main command st =
     (case command of
        RegisterModel model \<Rightarrow> (case local_register model st of (r, st') \<Rightarrow> (mapR (\<lambda>h. (PStr h, 0)) r, st'))
      | AppendAlert alert_json \<Rightarrow>
          (case json_loads alert_json of
             Inl e \<Rightarrow> (Inl e, st)
           | Inr alert \<Rightarrow> (case local_append alert st of (r, st') \<Rightarrow> (mapR (\<lambda>receipt. (receipt, 0)) r, st')))
      | VerifyRecords records_jsonl \<Rightarrow>
          (bindE (mapE json_loads (filter (\<lambda>line. line \<noteq> []) (splitlines records_jsonl))) (\<lambda>records.
           mapR (\<lambda>valid. if valid then (PStr ''valid'', 0) else (PStr ''invalid'', 1))
             (verify_chain st records True)), st))"

section \<open>Monitor\<close>

text \<open>\<open>monitor_main\<close> for the chosen backend: the summary it prints, the backend and the alert
  file.\<close>

definition monitor_main :: "libm \<Rightarrow> 's client \<Rightarrow> audit \<Rightarrow> 's \<Rightarrow> bool \<Rightarrow> string list list \<Rightarrow> string \<Rightarrow> int \<Rightarrow> int \<Rightarrow>
    (pyval result \<times> (audit \<times> 's) \<times> string list option) option" where
  "monitor_main lm client store trusted optee inputs model_text window_seconds warmup_seconds =
     (let summary = mapR (\<lambda>(windows, alerts, model_hash). PDict [(''windows'', PInt (int windows)),
            (''alerts'', PInt (int alerts)), (''model_hash'', PStr model_hash)]) in
      if \<not> optee then
        map_option (\<lambda>(r, st, written). (summary r, (st, trusted), map_option (map json_dumps) written))
          (monitor_batch lm local_register local_append inputs model_text window_seconds warmup_seconds store)
      else
        map_option (\<lambda>(r, s, written). (summary r, (store, s), map_option (map json_dumps) written))
          (monitor_batch lm (optee_register client) (optee_append client) inputs model_text window_seconds
             warmup_seconds trusted))"

end
