(* ===== verification/Float_Text.thy ===== *)
theory Float_Text
  imports Json
begin

text \<open>
  Every finite float is the value of its own text: seventeen significant digits determine it,
  and the four shapes \<open>repr\<close> prints are read back by \<open>json.loads\<close>.  So a JSON text keeps the
  floats it is made from.
\<close>

section \<open>Seventeen digits suffice\<close>

abbreviation tiny :: rat where
  "tiny \<equiv> 1 / (2 * 10 ^ 16)"

lemma quantum_ilog2: "quantum x = ilog2 x - 52 \<or> quantum x = - 1074" "ilog2 x - 52 \<le> quantum x" if "0 < x"
  using that by (auto simp: quantum_def)

lemma tiny_half_unit:
  fixes x :: rat
  assumes "0 < x" and "x < pow2 (k + 1)" and "k - 52 \<le> q"
  shows "x * (1 / (2 * 10 ^ 16 - 1)) < pow2 q / 2"
proof -
  have "x * (1 / (2 * 10 ^ 16 - 1)) < pow2 (k + 1) * (1 / (2 * 10 ^ 16 - 1))" using assms(2) by simp
  also have "\<dots> \<le> pow2 (k + 1) * pow2 (- 54)" by (simp add: power_int_minus)
  also have "\<dots> = pow2 (k - 53)" by (simp only: pow2_add [symmetric]) simp
  also have "\<dots> \<le> pow2 (q - 1)" by (rule pow2_mono) (use assms(3) in simp)
  finally show ?thesis by (simp add: pow2_diff)
qed

lemma multiple_of_unit:
  fixes x :: rat
  assumes "representable x" and "0 < x" and "q \<le> quantum x"
  shows "\<exists>k. x = of_int k * pow2 q"
proof -
  obtain k where k: "x = of_int k * pow2 (quantum x)" using representable_multiple [OF assms(1)] assms(2) by auto
  obtain n where "pow2 (quantum x - q) = (of_int n :: rat)" using pow2_int [of "quantum x - q"] assms(3) by auto
  then have "pow2 (quantum x) = (of_int n :: rat) * pow2 q" using pow2_add [of "quantum x - q" q, where 'a = rat] by simp
  then show ?thesis using k by (intro exI [of _ "k * n"]) simp
qed

lemma round_near_multiple: "\<bar>y / u - of_int k\<bar> < 1 / 2 \<Longrightarrow> round_half_even (y / u :: rat) = k"
proof -
  assume "\<bar>y / u - of_int k\<bar> < 1 / 2"
  then have d: "of_int k - 1 / 2 < y / u" "y / u < of_int k + 1 / 2" by linarith+
  show ?thesis
  proof (cases "of_int k \<le> y / u")
    case True
    then have "\<lfloor>y / u\<rfloor> = k" using d by (intro floor_unique) linarith+
    with d show ?thesis by (simp add: round_half_even_def Let_def)
  next
    case False
    then have "\<lfloor>y / u\<rfloor> = k - 1" using d by (intro floor_unique) (simp, linarith)+
    with d show ?thesis by (simp add: round_half_even_def Let_def)
  qed
qed

lemma rnd_near:
  fixes x y :: rat
  assumes x: "representable x" "0 < x" and near: "\<bar>y - x\<bar> \<le> x * tiny"
  shows "rnd y = x"
proof -
  have "x * tiny < x * (1 / 2)" using x(2) by simp
  then have y: "0 < y" using near by linarith
  have half: "\<bar>y - x\<bar> < pow2 (quantum x) / 2"
    using tiny_half_unit [OF x(2) ilog2_bounds(2) [OF x(2)] quantum_ilog2(2) [OF x(2)]] near x(2) by simp
  have qle: "quantum y \<le> quantum x"
  proof (rule ccontr)
    assume "\<not> quantum y \<le> quantum x"
    then have q: "quantum x < quantum y" by simp
    then have qy: "quantum y = ilog2 y - 52"
      using quantum_ilog2(1) [OF y] by (auto simp: quantum_def)
    have "ilog2 x < ilog2 y" using q qy quantum_ilog2(2) [OF x(2)] by linarith
    then have "pow2 (ilog2 x + 1) \<le> (pow2 (ilog2 y) :: rat)" by (intro pow2_mono) simp
    then have lt: "x < pow2 (ilog2 y)" using ilog2_bounds(2) [OF x(2)] by linarith
    obtain k where k: "x = of_int k * pow2 (quantum x)" using multiple_of_unit [OF x order_refl] by blast
    obtain n where "pow2 (ilog2 y - quantum x) = (of_int n :: rat)" using pow2_int [of "ilog2 y - quantum x"] q qy by auto
    then have n: "pow2 (ilog2 y) = (of_int n :: rat) * pow2 (quantum x)"
      using pow2_add [of "ilog2 y - quantum x" "quantum x", where 'a = rat] by simp
    have "of_int k * pow2 (quantum x) < (of_int n :: rat) * pow2 (quantum x)" using lt k n by linarith
    then have "k < n" by (simp add: mult_less_cancel_right)
    then have "of_int k + 1 \<le> (of_int n :: rat)" by (metis of_int_1 of_int_add of_int_le_iff zless_imp_add1_zle)
    then have "(of_int k + 1) * pow2 (quantum x) \<le> (of_int n :: rat) * pow2 (quantum x)"
      by (intro mult_right_mono) simp_all
    then have "x + pow2 (quantum x) \<le> pow2 (ilog2 y)" using k n by (simp only: distrib_right mult_1)
    moreover have "y - x < pow2 (quantum x) / 2" using half abs_ge_self [of "y - x"] by linarith
    moreover have "(0 :: rat) < pow2 (quantum x)" by simp
    ultimately show False using ilog2_bounds(1) [OF y] by linarith
  qed
  let ?u = "pow2 (quantum y) :: rat"
  have "x * (1 - tiny) \<le> y" using near by (simp add: algebra_simps abs_if split: if_splits)
  then have "x * tiny \<le> y * (1 / (2 * 10 ^ 16 - 1))" by simp
  then have close: "\<bar>y - x\<bar> < ?u / 2"
    using tiny_half_unit [OF y ilog2_bounds(2) [OF y] quantum_ilog2(2) [OF y]] near by linarith
  obtain k where k: "x = of_int k * ?u" using multiple_of_unit [OF x qle] by blast
  have "(y - x) / ?u = y / ?u - x / ?u" by (rule diff_divide_distrib)
  also have "x / ?u = of_int k" using k by (simp add: divide_eq_eq)
  finally have "y / ?u - of_int k = (y - x) / ?u" by simp
  then have "\<bar>y / ?u - of_int k\<bar> < 1 / 2" using close by (simp add: abs_divide field_simps)
  from round_near_multiple [OF this] y show ?thesis using k by (simp add: rnd_def)
qed

text \<open>The search for the shortest text succeeds with 17 digits at the latest.\<close>

lemma ilog10_bounds: "0 < x \<Longrightarrow> 10 powi (ilog10 x) \<le> x \<and> x < 10 powi (ilog10 x + 1)"
  using floorlog_exponent [of 10 x] by (simp add: ilog10_def)

lemma short_candidate_sound:
  assumes "short_candidate x p = Some (n, e)" and "0 < x"
  shows "rnd (of_nat n * 10 powi e) = x" and "0 < n"
proof -
  obtain m where m: "rnd (of_int m * 10 powi e) = x" and n: "n = nat m"
    using assms(1) by (auto simp: short_candidate_def Let_def find_Some_iff)
  have "0 < m"
  proof (rule ccontr)
    assume "\<not> 0 < m"
    then have "of_int m * 10 powi e \<le> (0 :: rat)" by (intro mult_nonpos_nonneg) simp_all
    from rnd_mono [OF this] m assms(2) show False by simp
  qed
  then show "0 < n" and "rnd (of_nat n * 10 powi e) = x" using m n by simp_all
qed

lemma near_neighbour:
  fixes q l :: rat
  assumes "l \<le> q" and "q < l + 1"
  shows "2 * (q - l) \<le> 1 \<Longrightarrow> \<bar>q - l\<bar> \<le> 1 / 2" and "\<not> 2 * (q - l) \<le> 1 \<Longrightarrow> \<bar>q - (l + 1)\<bar> \<le> 1 / 2"
  using assms by (simp_all add: abs_if)

lemma short_candidate_17:
  assumes x: "representable x" "0 < x"
  shows "short_candidate x 17 \<noteq> None"
proof -
  let ?e = "ilog10 x - int 17 + 1"
  let ?s = "10 powi ?e :: rat"
  let ?q = "x / ?s" and ?lo = "\<lfloor>x / ?s\<rfloor>"
  have s: "0 < ?s" by simp
  have "?s * 10 ^ 16 = 10 powi (ilog10 x)" using power_int_add [of "10 :: rat" ?e 16] by simp
  then have sx: "?s * 10 ^ 16 \<le> x" using ilog10_bounds [OF x(2)] by simp
  have ok: "rnd (of_int n * ?s) = x" if "\<bar>?q - of_int n\<bar> \<le> 1 / 2" for n
  proof (rule rnd_near [OF x])
    have "of_int n * ?s - x = (of_int n - ?q) * ?s" by (simp add: left_diff_distrib)
    then have "\<bar>of_int n * ?s - x\<bar> = \<bar>?q - of_int n\<bar> * ?s" by (simp add: abs_mult abs_minus_commute)
    also have "\<dots> \<le> (1 / 2) * ?s" by (rule mult_right_mono [OF that]) simp
    also have "\<dots> \<le> x * tiny" using sx by simp
    finally show "\<bar>of_int n * ?s - x\<bar> \<le> x * tiny" .
  qed
  have fl: "of_int ?lo \<le> ?q" "?q < of_int ?lo + 1" using floor_correct [of ?q] by simp_all
  have "rnd (of_int ?lo * ?s) = x \<or> rnd (of_int (?lo + 1) * ?s) = x"
  proof (cases "2 * (?q - of_int ?lo) \<le> 1")
    case True
    then have "\<bar>?q - of_int ?lo\<bar> \<le> 1 / 2" by (rule near_neighbour(1) [OF fl])
    from ok [OF this] show ?thesis by blast
  next
    case False
    then have "\<bar>?q - of_int (?lo + 1)\<bar> \<le> 1 / 2" unfolding of_int_add of_int_1 by (rule near_neighbour(2) [OF fl])
    from ok [OF this] show ?thesis by blast
  qed
  then show ?thesis unfolding short_candidate_def Let_def by (auto simp: find_None_iff)
qed

lemma shortest_decimal_sound:
  assumes x: "representable x" "0 < x" and "shortest_decimal x = (n, e)"
  shows "rnd (of_nat n * 10 powi e) = x" and "0 < n"
proof -
  have "\<exists>p. short_candidate x p = Some (shortest_from x ps)" if "17 \<in> set ps" for ps
    using that
  proof (induction ps)
    case (Cons p ps)
    then show ?case using short_candidate_17 [OF x] by (auto split: option.split)
  qed simp
  from this [of "[1..<18]"] obtain p where "short_candidate x p = Some (n, e)"
    using assms(3) unfolding shortest_decimal_def by auto
  from short_candidate_sound [OF this x(2)] show "rnd (of_nat n * 10 powi e) = x" and "0 < n" .
qed


section \<open>Texts of floats\<close>

definition fraction_text :: "string \<Rightarrow> string" where
  "fraction_text fp = (if fp = [] then [] else CHR ''.'' # fp)"

definition exponent_text :: "string \<Rightarrow> int \<Rightarrow> bool" where
  "exponent_text ex v \<longleftrightarrow> ex = [] \<and> v = 0 \<or>
     (\<exists>ds. ds \<noteq> [] \<and> list_all is_digit ds \<and>
       (ex = CHR ''e'' # CHR ''+'' # ds \<and> v = int (digits_value ds) \<or> ex = CHR ''e'' # CHR ''-'' # ds \<and> v = - int (digits_value ds)))"

lemma fraction_text_Nil [simp]: "fraction_text fp = [] \<longleftrightarrow> fp = []"
  by (simp add: fraction_text_def)

lemma plain_chars: "\<not> is_digit (CHR ''.'')" "\<not> is_digit (CHR ''e'')" "\<not> is_digit (CHR ''_'')" "\<not> is_digit (CHR ''i'')"
  "\<not> is_digit (CHR ''n'')"
  by (simp_all add: is_digit_def)

lemma digit_chars: "is_digit (CHR ''0'')"
  by (simp add: is_digit_def)

lemma take_digits_span:
  assumes "list_all is_digit ds" and "rest = [] \<or> \<not> is_digit (hd rest) \<and> hd rest \<noteq> CHR ''_''"
  shows "take_digits (ds @ rest) = (ds, rest)"
  using assms(1)
proof (induction ds)
  case Nil
  show ?case by (cases rest) (use assms(2) in auto)
next
  case (Cons d ds)
  then have IH: "take_digits (ds @ rest) = (ds, rest)" and d: "is_digit d" by simp_all
  show ?case
  proof (cases "ds @ rest")
    case (Cons c t)
    then have "c \<noteq> CHR ''_''" using assms(2) Cons.prems plain_chars by (cases ds) auto
    then show ?thesis using IH d Cons by (cases t) auto
  qed (use IH d in auto)
qed

lemma take_exponent_text: "exponent_text ex v \<Longrightarrow> take_exponent ex = Some (v, [])"
  by (auto simp: exponent_text_def take_exponent_def take_sign_def take_digits_all)

lemma exponent_part_text: "exponent_text ex v \<Longrightarrow> exponent_part ex = (ex, [])"
  by (auto simp: exponent_text_def exponent_part_def list_all_hd_last takeWhile_eq_all_conv list_all_iff)

lemma exponent_head: "exponent_text ex v \<Longrightarrow> ex = [] \<or> hd ex = CHR ''e''"
  by (auto simp: exponent_text_def)

lemma fraction_part_text:
  assumes "list_all is_digit fp" and "exponent_text ex v"
  shows "fraction_part (fraction_text fp @ ex) = (fraction_text fp, ex)"
proof (cases fp)
  case Nil
  then show ?thesis using exponent_head [OF assms(2)] by (auto simp: fraction_text_def fraction_part_def split: list.splits)
next
  case (Cons d t)
  have "ex = [] \<or> \<not> is_digit (hd ex)" using exponent_head [OF assms(2)] plain_chars by auto
  from takeWhile_digits [OF assms(1) this] assms(1) Cons show ?thesis by (simp add: fraction_text_def fraction_part_def)
qed

lemma fraction_exponent_head: "exponent_text ex v \<Longrightarrow> r = fraction_text fp @ ex \<Longrightarrow> r = [] \<or> \<not> is_digit (hd r) \<and> hd r \<noteq> CHR ''_''"
  using exponent_head [of ex v] plain_chars by (auto simp: fraction_text_def)

lemma parse_decimal_text:
  assumes w: "list_all is_digit w" "w \<noteq> []" and fp: "list_all is_digit fp" and ex: "exponent_text ex v"
  shows "parse_decimal (w @ fraction_text fp @ ex)
    = Some (of_nat (digits_value (w @ fp)) * 10 powi (v - int (length fp)))"
proof -
  have t: "take_digits (w @ fraction_text fp @ ex) = (w, fraction_text fp @ ex)"
    by (rule take_digits_span [OF w(1)]) (rule fraction_exponent_head [OF ex refl])
  have "ex = [] \<or> \<not> is_digit (hd ex) \<and> hd ex \<noteq> CHR ''_''" using exponent_head [OF ex] plain_chars by auto
  from take_digits_span [OF fp this] have f: "take_digits (fp @ ex) = (fp, ex)" .
  show ?thesis
  proof (cases "fp = []")
    case True
    have "(case ex of [] \<Rightarrow> ([], []) | c # t \<Rightarrow> if c = CHR ''.'' then take_digits t else ([], ex)) = ([], ex)"
      using exponent_head [OF ex] by (cases ex) auto
    then show ?thesis using t take_exponent_text [OF ex] w(2) True by (simp add: parse_decimal_def fraction_text_def)
  next
    case False
    then show ?thesis using t f take_exponent_text [OF ex] w(2) by (simp add: parse_decimal_def fraction_text_def)
  qed
qed

definition sign_text :: "string \<Rightarrow> int \<Rightarrow> bool" where
  "sign_text sg k \<longleftrightarrow> sg = [] \<and> k = 1 \<or> sg = ''-'' \<and> k = - 1"

lemma last_text:
  assumes "list_all is_digit w" "w \<noteq> []" "list_all is_digit fp" "exponent_text ex v"
  shows "is_digit (last (w @ fraction_text fp @ ex))"
  using assms by (auto simp: exponent_text_def fraction_text_def list_all_hd_last last_append)

lemma lower_digit: "is_digit c \<Longrightarrow> lower (c # t) \<noteq> CHR ''i'' # u \<and> lower (c # t) \<noteq> CHR ''n'' # u"
  using plain_chars by (auto simp: lower_def is_digit_def Let_def)

lemma parse_float_text:
  assumes w: "list_all is_digit w" "w \<noteq> []" and fp: "list_all is_digit fp" and ex: "exponent_text ex v" and sg: "sign_text sg k"
  shows "parse_float (sg @ w @ fraction_text fp @ ex)
    = Inr (of_exact (of_int k * (of_nat (digits_value (w @ fp)) * 10 powi (v - int (length fp)))))"
proof -
  let ?t = "w @ fraction_text fp @ ex"
  obtain c u where c: "w = c # u" "is_digit c" using w by (cases w) auto
  have "strip (sg @ ?t) = sg @ ?t"
    by (rule strip_id) (use last_text [OF w fp ex] c sg not_blank_digit is_digit_minus in \<open>auto simp: sign_text_def hd_append\<close>)
  moreover have "take_sign (sg @ ?t) = (k, ?t)"
    using c sg is_digit_minus by (auto simp: sign_text_def take_sign_def)
  moreover have "lower ?t \<noteq> ''inf'' \<and> lower ?t \<noteq> ''infinity'' \<and> lower ?t \<noteq> ''nan''"
    using lower_digit [OF c(2)] c(1) by simp
  ultimately show ?thesis by (simp add: parse_float_def parse_decimal_text [OF w fp ex])
qed

lemma json_number_text:
  assumes w: "list_all is_digit w" "w = ''0'' \<or> w \<noteq> [] \<and> hd w \<noteq> CHR ''0''" and fp: "list_all is_digit fp"
    and ex: "exponent_text ex v" and sg: "sign_text sg k" and some: "fp \<noteq> [] \<or> ex \<noteq> []"
  shows "json_number (sg @ w @ fraction_text fp @ ex)
    = Some (PFloat (of_exact (of_int k * (of_nat (digits_value (w @ fp)) * 10 powi (v - int (length fp))))), [])"
proof -
  let ?t = "w @ fraction_text fp @ ex"
  have ne: "w \<noteq> []" using w(2) by auto
  then have hd: "hd ?t \<noteq> CHR ''-''" using w(1) list_all_hd_last [of is_digit w] is_digit_minus by auto
  have m: "minus_part (sg @ ?t) = (sg, ?t)" using sg hd ne by (auto simp: sign_text_def minus_part_def)
  have r: "fraction_text fp @ ex = [] \<or> \<not> is_digit (hd (fraction_text fp @ ex))"
    using fraction_exponent_head [OF ex refl] by blast
  have wp: "whole_part ?t = Some (w, fraction_text fp @ ex)"
    using w(2)
  proof
    assume "w \<noteq> [] \<and> hd w \<noteq> CHR ''0''"
    then obtain c u where "w = c # u" "c \<noteq> CHR ''0''" "is_digit c" using w(1) by (cases w) auto
    with takeWhile_digits [OF w(1) r] show ?thesis by (simp add: whole_part_def)
  qed (simp add: whole_part_def)
  have c: "(fraction_text fp = [] \<and> ex = []) = False" using some by auto
  show ?thesis
    unfolding json_number_def m prod.case wp option.case fraction_part_text [OF fp ex] exponent_part_text [OF ex]
      c if_False parse_float_text [OF w(1) ne fp ex sg] sum.case by (rule refl)
qed

section \<open>The shapes of \<open>repr\<close>\<close>

lemma digits_value_append: "digits_value (a @ b) = digits_value a * 10 ^ length b + digits_value b"
proof (induction b rule: rev_induct)
  case (snoc c b)
  have "digits_value (a @ b @ [c]) = 10 * digits_value (a @ b) + (of_char c - 48)"
    using digits_value_snoc [of "a @ b" c] by simp
  with snoc show ?case by (simp add: digits_value_snoc)
qed (simp add: digits_value_def)

lemma digits_value_zeros [simp]: "digits_value (replicate n (CHR ''0'')) = 0"
  by (induction n) (simp_all add: digits_value_append [of "[c]" for c, simplified] digits_value_def)

lemma digits_zeros [simp]: "list_all is_digit (replicate n (CHR ''0''))"
  by (simp add: list_all_iff is_digit_def)

lemma exponent_str_text: "exponent_text (exponent_str e) e"
proof -
  let ?ds = "nat_str (nat \<bar>e\<bar>)"
  let ?p = "if length ?ds < 2 then CHR ''0'' # ?ds else ?ds"
  have d: "list_all is_digit ?ds" "?ds \<noteq> []" "digits_value ?ds = nat \<bar>e\<bar>" using nat_str_digits by auto
  have "digits_value (CHR ''0'' # ?ds) = digits_value ?ds" by (simp add: digits_value_def)
  then have "digits_value ?p = nat \<bar>e\<bar>" "list_all is_digit ?p" "?p \<noteq> []" using d digit_chars by simp_all
  then show ?thesis by (auto simp: exponent_text_def exponent_str_def Let_def)
qed

lemma power_int_shift: "0 \<le> j \<Longrightarrow> of_nat (m * 10 ^ nat j) * (10 :: rat) powi i = of_nat m * 10 powi (i + j)"
  by (simp add: power_int_add power_int_nonneg_exp)

lemma format_decimal_read:
  assumes s: "list_all is_digit s" "s \<noteq> []" "hd s \<noteq> CHR ''0''" and sg: "sign_text sg k"
  shows "json_number (sg @ format_decimal s point)
    = Some (PFloat (of_exact (of_int k * (of_nat (digits_value s) * 10 powi (point - int (length s))))), [])"
proof -
  note read = json_number_text [OF _ _ _ _ sg]
  have e0: "exponent_text [] 0" by (simp add: exponent_text_def)
  consider (small) "- 4 < point" "point \<le> 0" | (whole) "0 < point" "point \<le> 16" "int (length s) \<le> point"
    | (split) "0 < point" "point \<le> 16" "point < int (length s)" | (exponent) "\<not> (- 4 < point \<and> point \<le> 16)"
    by linarith
  then show ?thesis
  proof cases
    case small
    let ?fp = "replicate (nat (- point)) (CHR ''0'') @ s"
    have "json_number (sg @ ''0'' @ fraction_text ?fp @ [])
      = Some (PFloat (of_exact (of_int k * (of_nat (digits_value (''0'' @ ?fp)) * 10 powi (0 - int (length ?fp))))), [])"
      by (rule read [OF _ _ _ e0]) (use s digit_chars in simp_all)
    moreover have "digits_value (''0'' @ ?fp) = digits_value s"
      using digits_value_append [of "replicate (Suc (nat (- point))) (CHR ''0'')" s]
      unfolding digits_value_zeros by simp
    moreover have "0 - int (length ?fp) = point - int (length s)" using small by simp
    ultimately show ?thesis using small s(2) by (simp add: format_decimal_def fraction_text_def)
  next
    case whole
    let ?w = "s @ replicate (nat (point - int (length s))) (CHR ''0'')"
    have "json_number (sg @ ?w @ fraction_text ''0'' @ [])
      = Some (PFloat (of_exact (of_int k * (of_nat (digits_value (?w @ ''0'')) * 10 powi (0 - int (length ''0''))))), [])"
      by (rule read [OF _ _ _ e0]) (use s digit_chars in simp_all)
    moreover have "?w @ ''0'' = s @ replicate (nat (point - int (length s) + 1)) (CHR ''0'')"
      using whole by (simp add: replicate_append_same nat_add_distrib)
    then have "digits_value (?w @ ''0'') = digits_value s * 10 ^ nat (point - int (length s) + 1)"
      by (simp only: digits_value_append [of s]) simp
    then have "of_nat (digits_value (?w @ ''0'')) * 10 powi (0 - int (length ''0''))
        = of_nat (digits_value s) * (10 :: rat) powi (point - int (length s))"
      using power_int_shift [of "point - int (length s) + 1" "digits_value s" "- 1"] whole by simp
    ultimately show ?thesis using whole by (simp add: format_decimal_def fraction_text_def)
  next
    case split
    let ?w = "take (nat point) s" and ?fp = "drop (nat point) s"
    have w: "?w \<noteq> []" "hd ?w \<noteq> CHR ''0''" using split s by simp_all
    have "json_number (sg @ ?w @ fraction_text ?fp @ [])
      = Some (PFloat (of_exact (of_int k * (of_nat (digits_value (?w @ ?fp)) * 10 powi (0 - int (length ?fp))))), [])"
      by (rule read [OF _ _ _ e0]) (use s w split in \<open>auto simp: list_all_iff dest: in_set_takeD in_set_dropD\<close>)
    moreover have "0 - int (length ?fp) = point - int (length s)" using split by simp
    moreover have "\<not> length s \<le> nat point" using split by linarith
    ultimately show ?thesis using split by (simp add: format_decimal_def fraction_text_def)
  next
    case exponent
    obtain c t where c: "s = c # t" using s(2) by (cases s) auto
    have "json_number (sg @ [c] @ fraction_text t @ exponent_str (point - 1))
      = Some (PFloat (of_exact (of_int k * (of_nat (digits_value ([c] @ t)) * 10 powi ((point - 1) - int (length t))))), [])"
      by (rule read [OF _ _ _ exponent_str_text]) (use s c in \<open>simp_all add: exponent_str_def Let_def\<close>)
    moreover have "(point - 1) - int (length t) = point - int (length s)" by (simp add: c)
    moreover have "format_decimal s point = [c] @ fraction_text t @ exponent_str (point - 1)"
      using exponent by (auto simp: format_decimal_def fraction_text_def c)
    ultimately show ?thesis by (simp add: c)
  qed
qed

lemma strip_zeros_split:
  assumes "list_all is_digit ds" and "hd ds \<noteq> CHR ''0''" and "ds \<noteq> []"
  obtains z where "ds = strip_zeros ds @ replicate z (CHR ''0'')" and "strip_zeros ds \<noteq> []" and "hd (strip_zeros ds) = hd ds"
    and "list_all is_digit (strip_zeros ds)"
proof -
  let ?p = "\<lambda>c. c = CHR ''0''"
  have "ds = rev (dropWhile ?p (rev ds)) @ rev (takeWhile ?p (rev ds))"
    by (metis rev_append rev_rev_ident takeWhile_dropWhile_id)
  moreover have "takeWhile ?p (rev ds) = replicate (length (takeWhile ?p (rev ds))) (CHR ''0'')"
    by (rule replicate_length_same [symmetric]) (auto dest: set_takeWhileD)
  ultimately have eq: "ds = strip_zeros ds @ replicate (length (takeWhile ?p (rev ds))) (CHR ''0'')"
    by (metis rev_replicate strip_zeros_def)
  moreover have ne: "strip_zeros ds \<noteq> []"
    using assms(2,3) eq by (metis append_Nil hd_replicate length_0_conv replicate_0)
  moreover have "hd (strip_zeros ds) = hd ds" using eq ne by (metis hd_append2)
  moreover have "list_all is_digit (strip_zeros ds)" using assms(1) eq by (metis list_all_append)
  ultimately show thesis by (rule that)
qed

lemma pos_float_read:
  assumes x: "representable x" "0 < x" "x < max64" and sg: "sign_text sg k"
  shows "json_number (sg @ pos_float_str x) = Some (PFloat (Fin (of_int k * x)), [])"
proof -
  obtain n e where ne: "shortest_decimal x = (n, e)" by (cases "shortest_decimal x")
  note snd = shortest_decimal_sound [OF x(1,2) ne]
  let ?ds = "nat_str n"
  have d: "list_all is_digit ?ds" "?ds \<noteq> []" "digits_value ?ds = n" using nat_str_digits by auto
  obtain z where z: "?ds = strip_zeros ?ds @ replicate z (CHR ''0'')" and s: "strip_zeros ?ds \<noteq> []"
      "hd (strip_zeros ?ds) = hd ?ds" "list_all is_digit (strip_zeros ?ds)"
    by (rule strip_zeros_split [OF d(1) nat_str_zero [OF snd(2)] d(2)])
  let ?s = "strip_zeros ?ds"
  have len: "length ?ds = length ?s + z" using arg_cong [OF z, of length] by simp
  have n: "n = digits_value ?s * 10 ^ z"
    using d(3) digits_value_append [of ?s "replicate z (CHR ''0'')"] z by simp
  let ?y = "of_nat (digits_value ?s) * 10 powi (int (length ?ds) + e - int (length ?s)) :: rat"
  have "json_number (sg @ pos_float_str x) = Some (PFloat (of_exact (of_int k * ?y)), [])"
    using format_decimal_read [OF s(3,1) _ sg] s(2) nat_str_zero [OF snd(2)]
    by (simp add: pos_float_str_def ne Let_def)
  moreover have "?y = of_nat n * 10 powi e"
    using power_int_shift [of "int z" "digits_value ?s" e] len n by (simp add: add.commute)
  then have "rnd ?y = x" using snd(1) by simp
  then have "rnd (of_int k * ?y) = of_int k * x"
    using sg rnd_minus [of ?y] by (auto simp: sign_text_def)
  then have "of_exact (of_int k * ?y) = Fin (of_int k * x)"
    using x(2,3) sg by (auto simp: of_exact_def Let_def sign_text_def)
  ultimately show ?thesis by simp
qed

text \<open>Every float is the value of its text.\<close>

lemma float_reads_back:
  assumes "is_f64 x"
  shows "reads_back x"
proof (cases x)
  case (Fin r)
  have r: "representable r" "\<bar>r\<bar> < max64" using assms Fin representable_rnd [of r] by simp_all
  consider "r = 0" | "0 < r" | "r < 0" by linarith
  then show ?thesis
  proof cases
    case 1
    have "json_number (''0.0'') = Some (PFloat (Fin 0), [])"
      using json_number_text [of "''0''" "''0''" "[]" 0 "[]" 1] digit_chars
      by (simp add: sign_text_def exponent_text_def fraction_text_def) (simp add: digits_value_def)
    then show ?thesis by (simp add: Fin 1)
  next
    case 2
    with pos_float_read [OF r(1) 2, of "[]" 1] r(2) show ?thesis by (simp add: Fin sign_text_def)
  next
    case 3
    with pos_float_read [of "- r" "''-''" "- 1"] r show ?thesis by (simp add: Fin sign_text_def)
  qed
qed (simp_all)

section \<open>Values that a text keeps\<close>

text \<open>Distinct keys, integers the interpreter converts, and floats.\<close>

primrec storable :: "pyval \<Rightarrow> bool" where
  "storable PNone \<longleftrightarrow> True"
| "storable (PBool b) \<longleftrightarrow> True"
| "storable (PInt n) \<longleftrightarrow> short_int n"
| "storable (PFloat x) \<longleftrightarrow> is_f64 x"
| "storable (PStr s) \<longleftrightarrow> True"
| "storable (PList xs) \<longleftrightarrow> list_all (\<lambda>b. b) (map storable xs)"
| "storable (PDict d) \<longleftrightarrow> distinct (map fst d) \<and> list_all snd (map (map_prod id storable) d)"

lemma storable_good: "storable v \<Longrightarrow> good_json v"
  by (induction v) (auto simp: float_reads_back list_all_iff)

lemma storable_loads: "storable v \<Longrightarrow> json_loads (json_dumps v) = Inr (sorted_json v)"
  by (rule json_round_trip [OF storable_good])

lemma map_fst_map_prod [simp]: "map fst (map (map_prod id f) d) = map fst d"
  by (induction d) auto

lemma insort_map_prod: "insort_key fst (map_prod id f x) (map (map_prod id f) ys) = map (map_prod id f) (insort_key fst x ys)"
  by (induction ys) auto

lemma sort_key_map_prod: "sort_key fst (map (map_prod id f) d) = map (map_prod id f) (sort_key fst d)"
  by (induction d) (simp_all only: list.map sort_key_simps insort_map_prod)

text \<open>The text of a value that was read is the text it was read from.\<close>

lemma dumps_sorted: "json_dumps (sorted_json v) = json_dumps v"
proof (induction v)
  case (PList xs)
  then have "map json_dumps (map sorted_json xs) = map json_dumps xs" by (auto simp: comp_def)
  then show ?case by (simp only: sorted_json.simps json_dumps.simps)
next
  case (PDict d)
  let ?s = "sort_key fst (map (map_prod id sorted_json) d)"
  have "map (map_prod id json_dumps) (map (map_prod id sorted_json) d) = map (map_prod id json_dumps) d"
    using PDict by (auto simp: snds.simps)
  then have "sort_key fst (map (map_prod id json_dumps) ?s) = sort_key fst (map (map_prod id json_dumps) d)"
    by (simp only: sort_key_map_prod [symmetric] sort_key_id_if_sorted [OF sorted_sort_key] flip: sort_key_map_prod)
  then show ?case by (simp only: sorted_json.simps json_dumps.simps)
qed simp_all

end
