(* ===== verification/Alert_File.thy ===== *)
theory Alert_File
  imports Cli Float_Text
begin

text \<open>
  The file between \<open>monitor_main\<close> and \<open>audit_main\<close>: the monitor writes one line of JSON per
  record, the auditor reads the lines back, with the keys of every object sorted, and verifies
  them against the store.
\<close>

section \<open>Lines\<close>

definition printable :: "string \<Rightarrow> bool" where
  "printable s \<longleftrightarrow> (\<forall>c\<in>set s. 32 \<le> (of_char c :: nat))"

lemma printable_append [simp]: "printable (s @ t) \<longleftrightarrow> printable s \<and> printable t"
  by (auto simp: printable_def)

lemma printable_Nil [simp]: "printable []"
  by (simp add: printable_def)

lemma printable_Cons [simp]: "printable (c # s) \<longleftrightarrow> 32 \<le> (of_char c :: nat) \<and> printable s"
  by (simp add: printable_def)

lemma printable_digits: "list_all is_digit s \<Longrightarrow> printable s"
  by (auto simp: printable_def list_all_iff is_digit_def)

lemma printable_join: "printable sep \<Longrightarrow> list_all printable xs \<Longrightarrow> printable (join sep xs)"
proof (induction xs)
  case (Cons x xs)
  then show ?case by (cases xs) simp_all
qed simp

lemma printable_concat: "list_all printable xs \<Longrightarrow> printable (concat xs)"
  by (induction xs) simp_all

lemma printable_sub: "set s \<subseteq> set t \<Longrightarrow> printable t \<Longrightarrow> printable s"
  by (auto simp: printable_def)

lemma printable_replicate: "printable (replicate n (CHR ''0''))"
  by (simp add: printable_def)

lemma printable_nat_str: "printable (nat_str n)"
  using nat_str_digits [of n] printable_digits by blast

lemma printable_int_str: "printable (int_str n)"
  by (simp add: int_str_def printable_nat_str)

lemma printable_escape: "printable (json_escape c)"
proof -
  have "list_all (\<lambda>n. printable (hex2 n)) [0..<32]" by code_simp
  then have "printable (hex2 n)" if "n < 32" for n using that by (simp add: list_all_iff)
  then show ?thesis by (simp add: json_escape_def Let_def)
qed

lemma printable_string: "printable (json_string s)"
  by (simp add: json_string_def printable_concat printable_escape list_all_iff)

lemma strip_zeros_subset: "set (strip_zeros s) \<subseteq> set s"
  unfolding strip_zeros_def by (auto dest: set_dropWhileD)

lemma printable_float: "printable (json_float x)"
proof -
  have e: "printable (exponent_str e)" for e by (simp add: exponent_str_def Let_def printable_nat_str)
  have f: "printable (format_decimal s p)" if "printable s" for s p
    using that printable_sub [OF set_take_subset that] printable_sub [OF set_drop_subset that]
    by (simp add: format_decimal_def e printable_replicate)
  have "printable (pos_float_str r)" for r
    by (auto simp: pos_float_str_def Let_def split: prod.split intro!: f
        intro: printable_sub [OF strip_zeros_subset printable_nat_str])
  then show ?thesis by (cases x) simp_all
qed

lemma printable_dumps: "printable (json_dumps v)"
proof (induction v)
  case (PList xs)
  then show ?case by (auto simp: list_all_iff intro!: printable_join)
next
  case (PDict d)
  then show ?case by (auto simp: list_all_iff printable_string intro!: printable_join)
qed (simp_all add: printable_int_str printable_float printable_string)

lemma lines_from_line: "printable l \<Longrightarrow> lines_from cur (l @ CHR 0x0A # rest) = (cur @ l) # lines_from [] rest"
proof (induction l arbitrary: cur)
  case (Cons c l)
  then have "\<not> is_line_break c" "c \<noteq> CHR 0x0D" by (auto simp: is_line_break_def Let_def)
  with Cons show ?case by simp
qed (simp add: is_line_break_def)

definition jsonl :: "string list \<Rightarrow> string" where
  "jsonl lines = concat (map (\<lambda>l. l @ [CHR 0x0A]) lines)"

lemma splitlines_jsonl: "list_all printable lines \<Longrightarrow> splitlines (jsonl lines) = lines"
  unfolding splitlines_def jsonl_def by (induction lines) (simp_all add: lines_from_line)

lemma read_back:
  assumes "list_all storable vs"
  shows "mapE json_loads (filter (\<lambda>line. line \<noteq> []) (splitlines (jsonl (map json_dumps vs)))) = Inr (map sorted_json vs)"
proof -
  have ne: "json_dumps v \<noteq> []" if "storable v" for v
    using starts_dumps [OF storable_good [OF that]] by (auto simp: starts_value_def)
  then have "filter (\<lambda>line. line \<noteq> []) (map json_dumps vs) = map json_dumps vs"
    using assms by (auto simp: list_all_iff filter_id_conv)
  moreover have "mapE json_loads (map json_dumps vs) = Inr (map sorted_json vs)"
    using assms by (induction vs) (simp_all add: storable_loads)
  moreover have "splitlines (jsonl (map json_dumps vs)) = map json_dumps vs"
    by (rule splitlines_jsonl) (simp add: list_all_iff printable_dumps)
  ultimately show ?thesis by simp
qed

lemma not_blank_line:
  assumes "storable v"
  shows "strip (json_dumps v) \<noteq> []"
proof -
  obtain c t where c: "json_dumps v = c # t" "\<not> is_ws c"
    using starts_dumps [OF storable_good [OF assms]] by (cases "json_dumps v") (auto simp: starts_value_def)
  then have "32 \<le> (of_char c :: nat)" using printable_dumps [of v] by simp
  with c(2) have b: "\<not> is_blank c" by (auto simp: is_blank_def is_space_def is_ws_def Let_def)
  then have "dropWhile is_blank (json_dumps v) = c # t" by (simp add: c)
  then show ?thesis using b by (simp add: strip_def dropWhile_eq_Nil_conv)
qed

lemma read_written_lines:
  assumes "list_all (list_all storable) files"
  shows "read_jsonl (map (map json_dumps) files) = Inr (map sorted_json (concat files))"
proof -
  have all: "list_all storable (concat files)" using assms by (auto simp: list_all_iff)
  then have "filter (\<lambda>line. strip line \<noteq> []) (map json_dumps (concat files)) = map json_dumps (concat files)"
    using not_blank_line by (auto simp: filter_id_conv list_all_iff)
  moreover have "mapE json_loads (map json_dumps vs) = Inr (map sorted_json vs)" if "list_all storable vs" for vs
    using that by (induction vs) (simp_all add: storable_loads)
  ultimately show ?thesis using all by (simp add: read_jsonl_def map_concat [symmetric])
qed

section \<open>Records that were read back\<close>

definition local_record :: "pyval \<Rightarrow> int \<Rightarrow> bool" where
  "local_record rec n \<longleftrightarrow> (\<exists>a p ah m h. rec = record_of a (receipt_of n p ah m h))"

lemma sorted_receipt:
  "sorted_json (receipt_of n p ah m h) = PDict [(''alert_hash'', PStr (bytes_hex ah)), (''head'', PStr (bytes_hex h)),
     (''model_hash'', PStr (bytes_hex m)), (''previous_head'', PStr (bytes_hex p)), (''sequence'', PInt n)]"
  by (simp add: receipt_of_def)

lemma sorted_record: "sorted_json (record_of a r) = record_of (sorted_json a) (sorted_json r)"
  by (simp add: record_of_def)

lemma local_recordI: "local_record (record_of a (receipt_of n p ah m h)) n"
  unfolding local_record_def by blast

lemma verify_receipt_sorted:
  "verify_receipt st (sorted_json a) (sorted_json (receipt_of n p ah m h)) = verify_receipt st a (receipt_of n p ah m h)"
  unfolding sorted_receipt
  by (simp add: verify_receipt_def receipt_fields_def receipt_hex_def receipt_of_def dget_def canonical_json_def dumps_sorted)

lemma receipt_lookups:
  "k \<in> {''sequence'', ''previous_head'', ''alert_hash'', ''model_hash'', ''head''} \<Longrightarrow>
     py_get (sorted_json (receipt_of n p ah m h)) k d = py_get (receipt_of n p ah m h) k d
     \<and> py_subscript (sorted_json (receipt_of n p ah m h)) k = py_subscript (receipt_of n p ah m h) k"
  unfolding sorted_receipt by (auto simp: receipt_of_def dget_def)

lemma record_lookups:
  "py_get (record_of a r) ''receipt'' d = Inr r" "py_get (record_of a r) ''alert'' d = Inr a"
  by (simp_all add: record_of_def dget_def)

lemma verify_record_sorted:
  "verify_record st (sorted_json (record_of a (receipt_of n p ah m h))) acc
    = verify_record st (record_of a (receipt_of n p ah m h)) acc"
  by (cases acc) (simp add: verify_record_def sorted_record record_lookups receipt_lookups verify_receipt_sorted Let_def cong: if_cong)

lemma verify_loop_sorted:
  "list_all (\<lambda>rec. \<exists>n. local_record rec n) rs \<Longrightarrow> verify_loop st (map sorted_json rs) acc = verify_loop st rs acc"
proof (induction rs arbitrary: acc)
  case (Cons r rs)
  then have "verify_record st (sorted_json r) acc = verify_record st r acc"
    by (auto simp: local_record_def verify_record_sorted)
  moreover have "verify_loop st (map sorted_json rs) = verify_loop st rs" using Cons by auto
  ultimately show ?case by simp
qed simp

section \<open>The records of a batch\<close>

text \<open>From a store with \<open>n0\<close> alerts the local backend issues receipts numbered from \<open>n0 + 1\<close>.\<close>

definition numbered_from :: "int \<Rightarrow> audit \<Rightarrow> pyval list \<Rightarrow> bool" where
  "numbered_from n0 st rs \<longleftrightarrow> au_sequence st = n0 + int (length rs)
     \<and> (\<forall>i<length rs. local_record (rs ! i) (n0 + int i + 1))"

lemma append_numbered:
  assumes "append a st = Inr (r, st')"
  shows "au_sequence st' = au_sequence st + 1 \<and> local_record (record_of a r) (au_sequence st + 1)"
  using assms by (auto simp: append_def Let_def bindE_eq_Inr_iff local_recordI split: option.splits if_splits)

lemma numbered_append:
  assumes "numbered_from n0 st rs" and "local_append a st = (Inr r, st')"
  shows "numbered_from n0 st' (rs @ [record_of a r])"
proof -
  have "append a st = Inr (r, st')" using assms(2) by (auto simp: local_append_def split: sum.splits)
  from append_numbered [OF this] assms(1) show ?thesis
    by (auto simp: numbered_from_def nth_append less_Suc_eq)
qed

lemma register_sequence: "local_register p st = (r, st') \<Longrightarrow> au_sequence st' = au_sequence st"
  by (auto simp: local_register_def register_model_def Let_def split: sum.splits if_splits)

interpretation numbered_backend: audit_backend local_register local_append "\<lambda>_ _. True" "numbered_from n0" for n0
proof
  show "numbered_from n0 s rs \<Longrightarrow> local_append a s = (Inl e, s') \<Longrightarrow> numbered_from n0 s' rs" for s rs a e s'
    by (auto simp: local_append_def split: sum.splits)
  show "numbered_from n0 s rs \<Longrightarrow> True \<Longrightarrow> local_append a s = (Inr r, s') \<Longrightarrow>
      numbered_from n0 s' (rs @ [record_of a r]) \<and> True" for s rs a r s'
    by (simp add: numbered_append)
qed (auto simp: numbered_from_def dest: register_sequence)

lemma first_record_refused:
  assumes "local_record rec n" and "n \<noteq> 1"
  shows "verify_record st rec (0, h) = Inr None"
  using assms by (auto simp: local_record_def verify_record_def record_of_def receipt_of_def dget_def)

section \<open>A sample file\<close>

lemma storable_receipt: "short_int n \<Longrightarrow> storable (receipt_of n p ah m h)"
  by (simp add: receipt_of_def)

lemma storable_record: "storable a \<Longrightarrow> storable r \<Longrightarrow> storable (record_of a r)"
  by (simp add: record_of_def)

lemma f64_zero_one: "is_f64 (Fin 0)" "is_f64 (Fin 1)"
  using max64_pos small_below_max64 [of 1] by simp_all

lemma batch_alert_storable: "alert_of sample_detector (PStr m) batch_row (Fin 1) = Inr a \<Longrightarrow> storable a"
  using f64_zero_one
  by (auto simp: short_int_def nat_str.simps sample_detector_def batch_row_def make_row_def ENHANCED_FEATURE_NAMES_def BASE_FEATURE_NAMES_def
      REPETITION_FEATURE_NAMES_def TEMPORAL_FEATURE_NAMES_def dget_def dset_def alert_of_def)

lemma sample_file:
  obtains rec st' where "monitor_batch sample_libm local_register local_append [[sample_line]] sample_model 1 0 (new_store [7])
      = Some (Inr (1, 1, bytes_hex (sha256 (utf8_encode sample_model))), st', Some [rec])" and "storable rec"
proof -
  let ?h = "bytes_hex (sha256 (utf8_encode sample_model))"
  obtain s1 where reg: "local_register (utf8_encode sample_model) (new_store [7]) = (Inr ?h, s1)"
    using register_samples(1) by blast
  obtain a where a: "alert_of sample_detector (PStr ?h) batch_row (Fin 1) = Inr a" using batch_row_alert by (rule is_okE)
  obtain r s2 where app: "local_append a s1 = (Inr r, s2)"
    using append_after_register [OF reg] by blast
  then have ap: "append a s1 = Inr (r, s2)" by (auto simp: local_append_def split: sum.splits)
  have rows: "aggregate_events [single_request] 1 0 = Inr [batch_row]" by (simp only: batch_row_def single_request_row)
  have t: "detector_threshold sample_detector = Fin 0" by (simp add: sample_detector_def)
  have "monitor_batch sample_libm local_register local_append [[sample_line]] sample_model 1 0 (new_store [7])
      = Some (Inr (1, 1, ?h), s2, Some [record_of a r])"
    by (simp add: monitor_batch_def sample_load reg sample_read rows batch_row_score a app t fle_def)
  moreover have "au_sequence (new_store [7]) = 0" by (simp add: new_store_def)
  then have "au_sequence s1 = 0" using register_sequence [OF reg] by (simp only:)
  then have "storable (record_of a r)"
    using append_numbered [OF ap] batch_alert_storable [OF a] short_ints
    by (auto simp: local_record_def record_of_def storable_receipt)
  ultimately show thesis by (rule that)
qed

section \<open>Properties\<close>

text \<open>C34. From the monitor to the auditor through the file: when the records of a batch with the
  local store hold only values that a text keeps, \<open>audit verify\<close> on the alert file answers
  \<open>valid\<close> with status 0 if the store had no alert before the batch.  If it had one, the same
  command answers \<open>invalid\<close> with status 1 for the honest file, because the batch starts the file
  anew and the chain is checked from its beginning.\<close>

theorem alert_file_verdict:
  assumes "audit_inv st"
    and "monitor_batch lm local_register local_append telemetry model_text window warmup st = Some (r, st', Some written)"
    and "list_all storable written"
  shows "audit_main (VerifyRecords (jsonl (map json_dumps written))) st'
    = (Inr (if au_sequence st = 0 then (PStr ''valid'', 0) else (PStr ''invalid'', 1)), st')"
proof -
  have num: "numbered_from (au_sequence st) st' written"
    using numbered_backend.batch_extends [OF _ _ _ assms(2), of "au_sequence st" "[]"] by (simp add: numbered_from_def)
  then have shape: "list_all (\<lambda>rec. \<exists>n. local_record rec n) written"
    by (auto simp: numbered_from_def list_all_length)
  have loop: "verify_chain st' (map sorted_json written) True = verify_chain st' written True"
    by (simp only: verify_chain_def verify_loop_sorted [OF shape])
  have "verify_chain st' written True = Inr (au_sequence st = 0)"
  proof (cases "au_sequence st = 0")
    case True
    then have "local_chain st []" using assms(1) audit_inv_zero [of st] by (simp add: local_chain_def verify_chain_current)
    from local_backend.batch_extends [OF this _ _ assms(2)] True show ?thesis by (simp add: local_chain_def)
  next
    case False
    show ?thesis
    proof (cases written)
      case Nil
      with num False show ?thesis by (simp add: verify_chain_def numbered_from_def)
    next
      case (Cons rec rs)
      then have "local_record rec (au_sequence st + 1)" using num by (auto simp: numbered_from_def)
      from first_record_refused [OF this] False Cons show ?thesis by (simp add: verify_chain_def)
    qed
  qed
  then show ?thesis by (simp add: audit_main_def read_back [OF assms(3)] loop)
qed

theorem alert_file_verdict_witness:
  "\<exists>rec st'. monitor_batch sample_libm local_register local_append [[sample_line]] sample_model 1 0 (new_store [7])
      = Some (Inr (1, 1, bytes_hex (sha256 (utf8_encode sample_model))), st', Some [rec])
    \<and> audit_main (VerifyRecords (jsonl (map json_dumps [rec]))) st' = (Inr (PStr ''valid'', 0), st')"
proof -
  obtain rec st' where b: "monitor_batch sample_libm local_register local_append [[sample_line]] sample_model 1 0 (new_store [7])
      = Some (Inr (1, 1, bytes_hex (sha256 (utf8_encode sample_model))), st', Some [rec])" and "storable rec"
    by (rule sample_file)
  then have "audit_main (VerifyRecords (jsonl (map json_dumps [rec]))) st' = (Inr (PStr ''valid'', 0), st')"
    using alert_file_verdict [OF audit_inv_new b] by (simp add: new_store_def)
  with b show ?thesis by blast
qed

text \<open>C33. What is written to a telemetry file is read from it: for events that hold only values
  a text keeps, \<open>read_jsonl\<close> of their lines gives the same events in the same order over all
  files, with the keys of every object sorted, and every float is the one that was written.\<close>

theorem telemetry_round_trip:
  assumes "list_all (list_all storable) files"
  shows "read_jsonl (map (map json_dumps) files) = Inr (map sorted_json (concat files))"
  by (rule read_written_lines [OF assms])

theorem telemetry_round_trip_witness:
  "read_jsonl (map (map json_dumps) [[PDict [(''rss_kb'', PInt 2), (''cpu_percent'', PFloat (Fin 1))]]])
     = Inr [PDict [(''cpu_percent'', PFloat (Fin 1)), (''rss_kb'', PInt 2)]]"
  by (subst telemetry_round_trip) (use f64_zero_one short_ints in simp_all)

end
