(* ===== verification/Json_Text.thy ===== *)
theory Json_Text
  imports Float_Text
begin

text \<open>
  The other texts \<open>json.dumps\<close> writes: keys in the order of the dictionary, with the separators
  and the indentation of its arguments.  Whatever these are, \<open>json.loads\<close> reads the value back
  unchanged.
\<close>

section \<open>Printing\<close>

record style =
  st_item :: string
  st_key :: string
  st_indent :: "nat option"

definition line_break :: "style \<Rightarrow> nat \<Rightarrow> string" where
  "line_break st n = (case st_indent st of None \<Rightarrow> [] | Some i \<Rightarrow> CHR 0x0A # replicate (i * n) (CHR '' ''))"

text \<open>The brackets around the parts of a list or an object at depth \<open>n\<close>.\<close>

definition enclose :: "style \<Rightarrow> nat \<Rightarrow> char \<Rightarrow> char \<Rightarrow> string list \<Rightarrow> string" where
  "enclose st n l r parts =
     (if parts = [] then [l, r]
      else l # line_break st (Suc n) @ join (st_item st @ line_break st (Suc n)) parts @ line_break st n @ [r])"

primrec json_text :: "style \<Rightarrow> pyval \<Rightarrow> nat \<Rightarrow> string" where
  "json_text st PNone = (\<lambda>n. ''null'')"
| "json_text st (PBool b) = (\<lambda>n. if b then ''true'' else ''false'')"
| "json_text st (PInt i) = (\<lambda>n. int_str i)"
| "json_text st (PFloat x) = (\<lambda>n. json_float x)"
| "json_text st (PStr s) = (\<lambda>n. json_string s)"
| "json_text st (PList xs) =
     (\<lambda>n. enclose st n (CHR ''['') (CHR '']'') (map (\<lambda>f. f (Suc n)) (map (json_text st) xs)))"
| "json_text st (PDict d) =
     (\<lambda>n. enclose st n (CHR ''{'') (CHR ''}'')
        (map (\<lambda>(k, f). json_string k @ st_key st @ f (Suc n)) (map (map_prod id (json_text st)) d)))"

text \<open>\<open>json.dumps(v)\<close>, \<open>json.dumps(v, separators=(",", ":"))\<close>, \<open>json.dumps(v, indent=2)\<close>.\<close>

definition dumps_default :: "pyval \<Rightarrow> string" where
  "dumps_default v = json_text \<lparr>st_item = '', '', st_key = '': '', st_indent = None\<rparr> v 0"

definition dumps_compact :: "pyval \<Rightarrow> string" where
  "dumps_compact v = json_text \<lparr>st_item = '','', st_key = '':'', st_indent = None\<rparr> v 0"

definition dumps_indent :: "pyval \<Rightarrow> string" where
  "dumps_indent v = json_text \<lparr>st_item = '','', st_key = '': '', st_indent = Some 2\<rparr> v 0"

section \<open>Reading with gaps\<close>

definition gap :: "string \<Rightarrow> bool" where
  "gap w \<longleftrightarrow> list_all is_ws w"

lemma gap_simps [simp]: "gap []" "gap (c # w) \<longleftrightarrow> is_ws c \<and> gap w" "gap (v @ w) \<longleftrightarrow> gap v \<and> gap w"
  by (simp_all add: gap_def)

lemma gap_line_break: "gap (line_break st n)"
  by (auto simp: line_break_def gap_def list_all_iff is_ws_def Let_def split: option.split)

lemma skip_gap: "gap w \<Longrightarrow> skip_ws (w @ s) = skip_ws s"
  by (induction w) (simp_all add: skip_ws_def)

lemma expect_gap: "gap w \<Longrightarrow> \<not> is_ws c \<Longrightarrow> expect c (w @ c # s) = Some (skip_ws s)"
  by (simp add: expect_def skip_gap) (simp add: skip_ws_def)

lemma expect_gap_other: "gap w \<Longrightarrow> \<not> is_ws d \<Longrightarrow> d \<noteq> c \<Longrightarrow> expect c (w @ d # s) = None"
  by (simp add: expect_def skip_gap) (simp add: skip_ws_def)

lemma stops_gap: "gap w \<Longrightarrow> stops s \<Longrightarrow> stops (w @ s)"
  by (cases w) (auto simp: stops_def is_ws_def is_digit_def Let_def)

lemma starts_join:
  assumes "list_all starts_value ts" and "ts \<noteq> []"
  shows "starts_value (join sep ts @ r)"
  using assms by (cases ts; cases "tl ts") (auto simp: starts_value_def)

lemma reads_items_gap:
  assumes "list_all2 reads ts vs" and "ts \<noteq> []" and "gap w" and "gap e"
  shows "2 * length (join (CHR '','' # w) ts @ e @ CHR '']'' # rest) < n \<Longrightarrow>
    json_items n (join (CHR '','' # w) ts @ e @ CHR '']'' # rest) = Some (vs, rest)"
  using assms(1,2)
proof (induction arbitrary: n rule: list_all2_induct)
  case (Cons t ts v vs)
  let ?close = "e @ CHR '']'' # rest"
  obtain k where k: "n = Suc k" using Cons.prems by (cases n) auto
  have se: "stops ?close" by (intro stops_gap assms(4)) simp
  show ?case
  proof (cases ts)
    case Nil
    with Cons se have v: "json_value k (t @ ?close) = Some (v, ?close)"
      unfolding reads_def by (simp add: k)
    have "expect (CHR '','') ?close = None" "expect (CHR '']'') ?close = Some (skip_ws rest)" "tl (skip_ws ?close) = rest"
      using assms(4) by (simp_all add: expect_gap expect_gap_other ws_chars skip_gap) (simp add: skip_ws_def ws_chars)
    with Nil Cons.hyps(2) show ?thesis by (simp add: k v)
  next
    case C: (Cons u us)
    let ?more = "join (CHR '','' # w) ts @ ?close"
    have t: "join (CHR '','' # w) (t # ts) @ ?close = t @ CHR '','' # w @ ?more" by (simp add: C)
    have v: "json_value k (t @ CHR '','' # w @ ?more) = Some (v, CHR '','' # w @ ?more)"
      using Cons.hyps(1) Cons.prems(1) unfolding reads_def t by (simp add: k)
    have "list_all starts_value ts"
      using Cons.hyps(2) by (auto simp: reads_def list_all_length list_all2_conv_all_nth)
    then have "starts_value ?more" using C by (intro starts_join) simp_all
    then have ws: "skip_ws (w @ ?more) = ?more" using assms(3) by (simp add: skip_gap skip_ws_start)
    have i: "json_items k ?more = Some (vs, rest)"
      by (rule Cons.IH) (use Cons.prems(1) C in \<open>simp_all add: k t\<close>)
    show ?thesis
      unfolding t by (simp add: k v expect_simps ws i)
  qed
qed simp

definition member_gap :: "string \<Rightarrow> string \<times> string \<Rightarrow> string" where
  "member_gap g = (\<lambda>(k, t). json_string k @ CHR '':'' # g @ t)"

lemma starts_member_gap: "starts_value (member_gap g m)"
  by (cases m) (simp add: member_gap_def starts_value_def json_string_def ws_chars)

lemma reads_members_gap:
  assumes "list_all2 (\<lambda>(k, t) (l, v). k = l \<and> reads t v) ts ms" and "ts \<noteq> []" and "gap w" and "gap e" and "gap g"
  shows "2 * length (join (CHR '','' # w) (map (member_gap g) ts) @ e @ CHR ''}'' # rest) < n \<Longrightarrow>
    json_members n (join (CHR '','' # w) (map (member_gap g) ts) @ e @ CHR ''}'' # rest) = Some (ms, rest)"
  using assms(1,2)
proof (induction arbitrary: n rule: list_all2_induct)
  case (Cons m ts p ms)
  let ?close = "e @ CHR ''}'' # rest"
  obtain j where j: "n = Suc j" using Cons.prems by (cases n) auto
  obtain k t v where m: "m = (k, t)" "p = (k, v)" "reads t v" using Cons.hyps(1) by auto
  let ?start = "\<lambda>r. member_gap g (k, t) @ r"
  have first: "json_members n (?start r) =
      (case expect (CHR '','') r of
         Some w \<Rightarrow> map_option (\<lambda>(ms, r'). ((k, v) # ms, r')) (json_members j w)
       | None \<Rightarrow> (case expect (CHR ''}'') r of Some _ \<Rightarrow> Some ([(k, v)], tl (skip_ws r)) | None \<Rightarrow> None))"
    if "stops r" and "2 * length (?start r) < n" for r
  proof -
    have str: "scan_string (concat (map json_escape k) @ CHR 0x22 # CHR '':'' # g @ t @ r) = Some (k, CHR '':'' # g @ t @ r)"
      by (rule scan_string_escape)
    have "starts_value t" and v: "json_value j (t @ r) = Some (v, r)"
      using m(3) that unfolding reads_def by (auto simp: member_gap_def j)
    then have w: "skip_ws (g @ t @ r) = t @ r" using assms(5) by (simp add: skip_gap skip_ws_start starts_value_append)
    show ?thesis
      using str v by (simp add: j member_gap_def json_string_def expect_simps w)
  qed
  show ?case
  proof (cases ts)
    case Nil
    have "expect (CHR '','') ?close = None" "expect (CHR ''}'') ?close = Some (skip_ws rest)" "tl (skip_ws ?close) = rest"
      using assms(4) by (simp_all add: expect_gap expect_gap_other ws_chars skip_gap) (simp add: skip_ws_def ws_chars)
    moreover have "stops ?close" by (intro stops_gap assms(4)) simp
    ultimately show ?thesis
      using Nil Cons.hyps(2) Cons.prems(1) first [of ?close] by (simp add: m)
  next
    case C: (Cons u us)
    let ?more = "join (CHR '','' # w) (map (member_gap g) ts) @ ?close"
    have t: "join (CHR '','' # w) (map (member_gap g) (m # ts)) @ ?close = ?start (CHR '','' # w @ ?more)"
      by (simp add: C m)
    have "starts_value ?more"
      by (rule starts_join) (simp_all add: list_all_iff starts_member_gap C)
    then have ws: "skip_ws (w @ ?more) = ?more" using assms(3) by (simp add: skip_gap skip_ws_start)
    have i: "json_members j ?more = Some (ms, rest)"
      by (rule Cons.IH) (use Cons.prems(1) C in \<open>simp_all add: j t\<close>)
    show ?thesis
      unfolding t using first [of "CHR '','' # w @ ?more"] Cons.prems(1) t
      by (simp add: expect_simps ws i m(2))
  qed
qed simp

section \<open>Reading undoes every printing\<close>

definition json_style :: "style \<Rightarrow> bool" where
  "json_style st \<longleftrightarrow> (\<exists>w. st_item st = CHR '','' # w \<and> gap w) \<and> (\<exists>g. st_key st = CHR '':'' # g \<and> gap g)"

lemma reads_enclosed_list:
  assumes "json_style st" and all: "list_all2 reads ts vs"
  shows "reads (enclose st n (CHR ''['') (CHR '']'') ts) (PList vs)"
proof (cases "ts = []")
  case True
  with all show ?thesis
    by (auto intro!: readsI simp: enclose_def starts_value_def expect_simps ws_chars skip_ws_def)
next
  case False
  obtain w where w: "st_item st = CHR '','' # w" "gap w" using assms(1) by (auto simp: json_style_def)
  let ?b = "line_break st (Suc n)" and ?e = "line_break st n"
  have "list_all starts_value ts" using all by (auto simp: reads_def list_all_length list_all2_conv_all_nth)
  from starts_join [OF this False] have s: "starts_value (join (CHR '','' # w @ ?b) ts @ r)" for r by simp
  have skip: "skip_ws (?b @ join (CHR '','' # w @ ?b) ts @ r) = join (CHR '','' # w @ ?b) ts @ r" for r
    by (simp add: skip_gap gap_line_break skip_ws_start [OF s])
  have "expect (CHR '']'') (?b @ join (CHR '','' # w @ ?b) ts @ r) = None" for r
    using expect_start(1) [OF s, of r] by (simp add: expect_def skip skip_ws_start [OF s])
  then show ?thesis
    by (intro readsI)
       (simp_all add: enclose_def w False starts_value_def ws_chars skip
          reads_items_gap [OF all False] gap_line_break)
qed

lemma reads_enclosed_dict:
  assumes "json_style st" and all: "list_all2 (\<lambda>(k, t) (l, v). k = l \<and> reads t v) ts ms" and d: "distinct (map fst ms)"
  shows "reads (enclose st n (CHR ''{'') (CHR ''}'') (map (\<lambda>(k, t). json_string k @ st_key st @ t) ts)) (PDict ms)"
proof (cases "ts = []")
  case True
  with all show ?thesis
    by (auto intro!: readsI simp: enclose_def starts_value_def expect_simps ws_chars skip_ws_def)
next
  case False
  obtain w where w: "st_item st = CHR '','' # w" "gap w" using assms(1) by (auto simp: json_style_def)
  obtain g where g: "st_key st = CHR '':'' # g" "gap g" using assms(1) by (auto simp: json_style_def)
  let ?b = "line_break st (Suc n)" and ?e = "line_break st n" and ?ts = "map (member_gap g) ts"
  have m: "map (\<lambda>(k, t). json_string k @ st_key st @ t) ts = ?ts" by (simp add: member_gap_def g)
  have s: "starts_value (join (CHR '','' # w @ ?b) ?ts @ r)" for r
    by (rule starts_join) (simp_all add: list_all_iff starts_member_gap False)
  have skip: "skip_ws (?b @ join (CHR '','' # w @ ?b) ?ts @ r) = join (CHR '','' # w @ ?b) ?ts @ r" for r
    by (simp add: skip_gap gap_line_break skip_ws_start [OF s])
  have "expect (CHR ''}'') (?b @ join (CHR '','' # w @ ?b) ?ts @ r) = None" for r
    using expect_start(2) [OF s, of r] by (simp add: expect_def skip skip_ws_start [OF s])
  then show ?thesis
    unfolding m
    by (intro readsI)
       (simp_all add: enclose_def w False starts_value_def ws_chars skip
          reads_members_gap [OF all False _ _ g(2)] gap_line_break fold_dset_append [of "[]" ms, simplified] d)
qed

lemma reads_scalar: "good_json v \<Longrightarrow> (\<And>xs. v \<noteq> PList xs) \<Longrightarrow> (\<And>d. v \<noteq> PDict d) \<Longrightarrow> reads (json_dumps v) v"
  using reads_dumps [of v] by (cases v) auto

lemma reads_text:
  assumes "json_style st" and "storable v"
  shows "reads (json_text st v n) v"
  using assms(2)
proof (induction v arbitrary: n)
  case (PList xs)
  then have "list_all2 reads (map (\<lambda>f. f (Suc n)) (map (json_text st) xs)) xs"
    by (auto simp: list_all2_conv_all_nth list_all_iff)
  from reads_enclosed_list [OF assms(1) this] show ?case by simp
next
  case (PDict d)
  have dist: "distinct (map fst d)" and g: "\<And>k v. (k, v) \<in> set d \<Longrightarrow> reads (json_text st v (Suc n)) v"
    using PDict by (fastforce simp: list_all_iff)+
  have "list_all2 (\<lambda>(k, t) (l, v). k = l \<and> reads t v) (map (\<lambda>(k, f). (k, f (Suc n))) (map (map_prod id (json_text st)) d)) d"
    using g by (auto simp: list_all2_map1 list_all2_same)
  from reads_enclosed_dict [OF assms(1) this dist, of n] show ?case
    by (simp add: comp_def case_prod_beta)
qed (use reads_scalar storable_good in \<open>fastforce+\<close>)

lemma styles: "json_style \<lparr>st_item = '', '', st_key = '': '', st_indent = None\<rparr>"
  "json_style \<lparr>st_item = '','', st_key = '':'', st_indent = None\<rparr>"
  "json_style \<lparr>st_item = '','', st_key = '': '', st_indent = Some 2\<rparr>"
  by (simp_all add: json_style_def is_ws_def)

lemma loads_dumps:
  assumes "storable v"
  shows "json_loads (dumps_default v) = Inr v" and "json_loads (dumps_compact v) = Inr v" and "json_loads (dumps_indent v) = Inr v"
  unfolding dumps_default_def dumps_compact_def dumps_indent_def
  by (intro json_loads_reads reads_text styles assms)+

end
