(* ===== verification/Acceptance.thy ===== *)
theory Acceptance
  imports Alert_File Json_Text
begin

text \<open>
  \<open>scripts/qemu-audit-acceptance.py\<close>: registers a model, appends three alerts through the
  client and checks that the chain verifies while four tampered copies do not.  The script is
  run against the modelled trusted application: it passes for every key.
\<close>

section \<open>The script\<close>

definition acceptance_model :: string where
  "acceptance_model = dumps_default (PDict [(''schema'', PStr ''cote3-mon-acceptance-model-v1''), (''version'', PInt 1)])"

definition acceptance_alert :: "int \<Rightarrow> rat \<Rightarrow> pyval" where
  "acceptance_alert window score = PDict [(''schema'', PStr ''cote3-mon-alert-v1''), (''window'', PInt window),
     (''score'', PFloat (of_exact score))]"

definition acceptance_alerts :: "pyval list" where
  "acceptance_alerts = [acceptance_alert 1 (91 / 100), acceptance_alert 2 (97 / 100), acceptance_alert 3 (99 / 100)]"

fun append_records :: "'s client \<Rightarrow> pyval list \<Rightarrow> 's \<Rightarrow> pyval list result \<times> 's" where
  "append_records client [] s = (Inr [], s)"
| "append_records client (alert # alerts) s =
     (case optee_append client alert s of
        (Inl e, s1) \<Rightarrow> (Inl e, s1)
      | (Inr receipt, s1) \<Rightarrow>
          (case append_records client alerts s1 of (r, s2) \<Rightarrow> (mapR (\<lambda>rs. record_of alert receipt # rs) r, s2)))"

text \<open>\<open>d[k] = v\<close>\<close>

fun py_assign :: "pyval \<Rightarrow> string \<Rightarrow> pyval \<Rightarrow> pyval result" where
  "py_assign (PDict d) k v = Inr (PDict (dset k v d))"
| "py_assign _ k v = Inl TypeError"

definition assign_in :: "pyval \<Rightarrow> string \<Rightarrow> string \<Rightarrow> pyval \<Rightarrow> pyval result" where
  "assign_in d k l v = bindE (py_subscript d k) (\<lambda>inner. bindE (py_assign inner l v) (\<lambda>inner'. py_assign d k inner'))"

definition modified :: "pyval list \<Rightarrow> pyval list result" where
  "modified records = bindE (py_index records 1) (\<lambda>rec.
     mapR (\<lambda>rec'. records[1 := rec']) (assign_in rec ''alert'' ''score'' (PInt 99)))"

definition reordered :: "pyval list \<Rightarrow> pyval list result" where
  "reordered records = bindE (py_index records 1) (\<lambda>b. bindE (py_index records 0) (\<lambda>a. Inr (records[0 := b, 1 := a])))"

definition forge_text :: "string \<Rightarrow> string" where
  "forge_text s = (if hd s \<noteq> CHR ''0'' then CHR ''0'' else CHR ''1'') # tl s"

definition forged :: "pyval list \<Rightarrow> pyval list result" where
  "forged records = bindE (py_index records 1) (\<lambda>rec. bindE (py_subscript rec ''receipt'') (\<lambda>receipt.
     bindE (py_subscript receipt ''head'') (\<lambda>head.
     case head of
       PStr s \<Rightarrow> if s = [] then Inl IndexError
                 else mapR (\<lambda>rec'. records[1 := rec']) (assign_in rec ''receipt'' ''head'' (PStr (forge_text s)))
     | _ \<Rightarrow> Inl TypeError)))"

text \<open>The five calls of \<open>require\<close>: the records to verify and the answer that is required.\<close>

definition acceptance_checks :: "pyval list \<Rightarrow> (pyval list result \<times> bool) list" where
  "acceptance_checks records = [(Inr records, True), (modified records, False), (Inr (butlast records), False),
     (reordered records, False), (forged records, False)]"

fun run_checks :: "'s client \<Rightarrow> (pyval list result \<times> bool) list \<Rightarrow> 's \<Rightarrow> unit result \<times> 's" where
  "run_checks client [] s = (Inr (), s)"
| "run_checks client ((records, required) # checks) s =
     (case records of
        Inl e \<Rightarrow> (Inl e, s)
      | Inr rs \<Rightarrow>
          (case optee_verify_chain client rs True s of
             (Inl e, s1) \<Rightarrow> (Inl e, s1)
           | (Inr ok, s1) \<Rightarrow> if ok = required then run_checks client checks s1 else (Inl RuntimeError, s1)))"

text \<open>The answer and the text of \<open>audit-records.jsonl\<close> once it is written.\<close>

definition acceptance :: "'s client \<Rightarrow> 's \<Rightarrow> pyval result \<times> string option \<times> 's" where
  "acceptance client s =
     (case optee_register client (utf8_encode acceptance_model) s of
        (Inl e, s1) \<Rightarrow> (Inl e, None, s1)
      | (Inr model_hash, s1) \<Rightarrow>
          (case append_records client acceptance_alerts s1 of
             (Inl e, s2) \<Rightarrow> (Inl e, None, s2)
           | (Inr records, s2) \<Rightarrow>
               (case run_checks client (acceptance_checks records) s2 of
                  (r, s3) \<Rightarrow>
                    (mapR (\<lambda>_. PDict [(''status'', PStr ''PASS''), (''records'', PInt (int (length records))),
                       (''model_hash'', PStr model_hash),
                       (''checks'', PList (map PStr [''valid'', ''modified'', ''deleted'', ''reordered'', ''forged'']))]) r,
                     Some (jsonl (map json_dumps records)), s3))))"

section \<open>One record before the verifier\<close>

lemma check_record_of:
  assumes "length p = 32" and "length ah = 32" and "length m = 32" and "length h = 32"
  shows "check_record (record_of a (receipt_of n p ah m h)) (previous, n0, mo)
    = Inr (if n \<noteq> n0 + 1 \<or> bytes_hex p \<noteq> previous \<or> ah \<noteq> alert_digest a \<or> (mo \<noteq> None \<and> mo \<noteq> Some (bytes_hex m))
           then None else Some (receipt_of n p ah m h, (bytes_hex h, n0 + 1, Some (bytes_hex m))))"
  using hex_text_hash [OF assms(1)] hex_text_hash [OF assms(2)] hex_text_hash [OF assms(3)] hex_text_hash [OF assms(4)]
  by (auto simp: check_record_def record_of_def receipt_of_def hash_fields_def text_field_def int_field_def dget_def
      Let_def alert_digest_def bytes_hex_inject split: option.splits)

lemma verify_of:
  assumes "length p = 32" and "length ah = 32" and "length m = 32" and "length h = 32" and "0 \<le> n" and "n < 2 ^ 64"
  shows "optee_verify_receipt audit_client (receipt_of n p ah m h) st
    = (Inr (hmac_sha256 (as_key st) (link_msg m (nat n) p ah) = h), st)"
proof -
  have "verify_arguments (receipt_of n p ah m h) = Inr [''verify'', int_str n, bytes_hex p, bytes_hex ah, bytes_hex m, bytes_hex h]"
    by (simp add: verify_arguments_def int_field_def hash_fields_def text_field_def receipt_of_def dget_def)
  with client_verify [OF assms(1-5)] assms(6) show ?thesis by (simp add: optee_verify_receipt_def)
qed

lemma append_receipt:
  fixes a :: pyval
  assumes "as_registered st"
    and "h = hmac_sha256 (as_key st) (link_msg (as_model st) (unat (as_sequence st + 1)) (as_head st) (alert_digest a))"
  shows "optee_append audit_client a st
    = (Inr (receipt_of (uint (as_sequence st + 1)) (as_head st) (alert_digest a) (as_model st) h),
       st\<lparr>as_sequence := as_sequence st + 1, as_head := h\<rparr>)"
  using assms by (simp add: optee_append_client ta_append_def Let_def compute_hmac_link receipt_json_def)

lemma forged_bytes:
  assumes "length h = 32"
  obtains h' where "forge_text (bytes_hex h) = bytes_hex h'" and "length h' = 32" and "h' \<noteq> h"
proof -
  have h: "hex_text (bytes_hex h)" by (rule hex_text_hash [OF assms])
  then obtain c t where c: "bytes_hex h = c # t" by (cases "bytes_hex h") (auto simp: hex_text_def)
  have "hex_text (forge_text (bytes_hex h))" using h by (auto simp: hex_text_def forge_text_def c)
  then obtain h' where h': "forge_text (bytes_hex h) = bytes_hex h'" "length h' = 32" by (rule hex_text_obtain)
  have "forge_text (bytes_hex h) \<noteq> bytes_hex h" by (simp add: forge_text_def c)
  with h' show thesis using that by metis
qed

section \<open>Issued records\<close>

definition head_after :: "bytes \<Rightarrow> bytes \<Rightarrow> nat \<Rightarrow> bytes \<Rightarrow> pyval \<Rightarrow> bytes" where
  "head_after key m n p a = hmac_sha256 key (link_msg m n p (alert_digest a))"

lemma length_head_after [simp]: "length (head_after key m n p a) = 32"
  by (simp add: head_after_def)

definition issued :: "int \<Rightarrow> bytes \<Rightarrow> pyval \<Rightarrow> bytes \<Rightarrow> bytes \<Rightarrow> pyval" where
  "issued n p a m h = record_of a (receipt_of n p (alert_digest a) m h)"

lemma append_issued:
  assumes "as_registered st" and "as_sequence st = of_nat n" and "Suc n < 2 ^ 64"
    and "h = head_after (as_key st) (as_model st) (Suc n) (as_head st) a"
  shows "append_records audit_client (a # as) st =
    (case append_records audit_client as (st\<lparr>as_sequence := of_nat (Suc n), as_head := h\<rparr>) of
       (r, st') \<Rightarrow> (mapR (\<lambda>rs. issued (int (Suc n)) (as_head st) a (as_model st) h # rs) r, st'))"
proof -
  have w: "as_sequence st + 1 = of_nat (Suc n)" using assms(2) by simp
  have u: "unat (of_nat (Suc n) :: 64 word) = Suc n"
    using assms(3) by (simp only: unat_of_nat) (simp add: take_bit_nat_eq_self_iff)
  then have "uint (of_nat (Suc n) :: 64 word) = int (Suc n)" by (metis uint_nat)
  then show ?thesis
    using append_receipt [OF assms(1) HOL.refl, of a] unfolding w u
    by (simp add: issued_def assms(4) head_after_def del: of_nat_Suc)
qed

lemma loop_issued:
  assumes "length p = 32" and "length m = 32" and "0 \<le> n" and "k = n + 1" and "k < 2 ^ 64" and "mo = None \<or> mo = Some (bytes_hex m)"
    and "h = head_after (as_key st) m (nat k) p a"
  shows "optee_loop audit_client (issued k p a m h # rest) (bytes_hex p, n, mo) st
    = optee_loop audit_client rest (bytes_hex h, k, Some (bytes_hex m)) st"
proof -
  have "check_record (issued k p a m h) (bytes_hex p, n, mo) = Inr (Some (receipt_of k p (alert_digest a) m h, (bytes_hex h, k, Some (bytes_hex m))))"
    unfolding issued_def by (subst check_record_of) (use assms in auto)
  moreover have "optee_verify_receipt audit_client (receipt_of k p (alert_digest a) m h) st = (Inr True, st)"
    by (subst verify_of) (use assms in \<open>simp_all add: head_after_def\<close>)
  ultimately show ?thesis by simp
qed

text \<open>What the head check says of a loop that went through.\<close>

lemma verify_chain_through:
  assumes "optee_loop audit_client rs (bytes_hex ZERO_HASH, 0, None) st = (Inr (Some (h, n, mo)), st)"
  shows "optee_verify_chain audit_client rs True st
    = (Inr (n = uint (as_sequence st) \<and> h = bytes_hex (as_head st) \<and> (n = 0 \<or> mo = Some (bytes_hex (as_model st)))), st)"
proof -
  obtain b where b: "head_matches (head_json st) (h, n, mo) = Inr b" using head_matches_ok by (rule is_okE)
  then show ?thesis using head_matches_iff [of st h n mo] by (cases b) (auto simp: optee_verify_chain_def start_head assms get_head_client)
qed

lemma verify_chain_stopped:
  "optee_loop audit_client rs (bytes_hex ZERO_HASH, 0, None) st = (Inr None, st)
    \<Longrightarrow> optee_verify_chain audit_client rs True st = (Inr False, st)"
  by (simp add: optee_verify_chain_def start_head)

section \<open>The five answers\<close>

text \<open>Three issued records against the state that issued them.\<close>

definition three_issued :: "audit_state \<Rightarrow> pyval \<Rightarrow> pyval \<Rightarrow> pyval \<Rightarrow> bytes \<Rightarrow> bytes \<Rightarrow> bytes \<Rightarrow> bool" where
  "three_issued st a1 a2 a3 h1 h2 h3 \<longleftrightarrow> length (as_model st) = 32 \<and> as_sequence st = 3 \<and> as_head st = h3
     \<and> h1 = head_after (as_key st) (as_model st) 1 ZERO_HASH a1 \<and> h2 = head_after (as_key st) (as_model st) 2 h1 a2
     \<and> h3 = head_after (as_key st) (as_model st) 3 h2 a3"

definition issued_list :: "audit_state \<Rightarrow> pyval \<Rightarrow> pyval \<Rightarrow> pyval \<Rightarrow> bytes \<Rightarrow> bytes \<Rightarrow> bytes \<Rightarrow> pyval list" where
  "issued_list st a1 a2 a3 h1 h2 h3 =
     [issued 1 ZERO_HASH a1 (as_model st) h1, issued 2 h1 a2 (as_model st) h2, issued 3 h2 a3 (as_model st) h3]"

lemma three_lengths:
  "three_issued st a1 a2 a3 h1 h2 h3 \<Longrightarrow> length h1 = 32 \<and> length h2 = 32 \<and> length h3 = 32 \<and> length (as_model st) = 32"
  by (auto simp: three_issued_def)

lemma three_steps:
  assumes "three_issued st a1 a2 a3 h1 h2 h3"
  shows "optee_loop audit_client (issued 1 ZERO_HASH a1 (as_model st) h1 # rest) (bytes_hex ZERO_HASH, 0, None) st
      = optee_loop audit_client rest (bytes_hex h1, 1, Some (bytes_hex (as_model st))) st"
    and "optee_loop audit_client (issued 2 h1 a2 (as_model st) h2 # rest) (bytes_hex h1, 1, Some (bytes_hex (as_model st))) st
      = optee_loop audit_client rest (bytes_hex h2, 2, Some (bytes_hex (as_model st))) st"
    and "optee_loop audit_client (issued 3 h2 a3 (as_model st) h3 # rest) (bytes_hex h2, 2, Some (bytes_hex (as_model st))) st
      = optee_loop audit_client rest (bytes_hex h3, 3, Some (bytes_hex (as_model st))) st"
  by (rule loop_issued; use assms three_lengths [OF assms] zero_hash_length in \<open>simp add: three_issued_def\<close>)+

lemma valid_accepted:
  assumes "three_issued st a1 a2 a3 h1 h2 h3"
  shows "optee_verify_chain audit_client (issued_list st a1 a2 a3 h1 h2 h3) True st = (Inr True, st)"
  by (subst verify_chain_through [where h = "bytes_hex h3" and n = 3 and mo = "Some (bytes_hex (as_model st))"])
     (simp add: issued_list_def three_steps [OF assms] del: optee_loop.simps(2), use assms in \<open>simp add: three_issued_def\<close>)

lemma deleted_rejected:
  assumes "three_issued st a1 a2 a3 h1 h2 h3"
  shows "optee_verify_chain audit_client (butlast (issued_list st a1 a2 a3 h1 h2 h3)) True st = (Inr False, st)"
  by (subst verify_chain_through [where h = "bytes_hex h2" and n = 2 and mo = "Some (bytes_hex (as_model st))"])
     (simp add: issued_list_def three_steps [OF assms] del: optee_loop.simps(2), use assms in \<open>simp add: three_issued_def\<close>)

lemma reordered_rejected:
  assumes "three_issued st a1 a2 a3 h1 h2 h3"
  obtains rs where "reordered (issued_list st a1 a2 a3 h1 h2 h3) = Inr rs" and "optee_verify_chain audit_client rs True st = (Inr False, st)"
proof (rule that)
  show "reordered (issued_list st a1 a2 a3 h1 h2 h3) = Inr [issued 2 h1 a2 (as_model st) h2,
      issued 1 ZERO_HASH a1 (as_model st) h1, issued 3 h2 a3 (as_model st) h3]"
    by (simp add: reordered_def issued_list_def py_index_def)
  have "check_record (issued 2 h1 a2 (as_model st) h2) (bytes_hex ZERO_HASH, 0, None) = Inr None"
    unfolding issued_def by (subst check_record_of) (use three_lengths [OF assms] in simp_all)
  then show "optee_verify_chain audit_client [issued 2 h1 a2 (as_model st) h2,
      issued 1 ZERO_HASH a1 (as_model st) h1, issued 3 h2 a3 (as_model st) h3] True st = (Inr False, st)"
    by (intro verify_chain_stopped) simp
qed

lemma modified_rejected:
  assumes "three_issued st a1 a2 a3 h1 h2 h3" and "py_assign a2 ''score'' (PInt 99) = Inr b" and "alert_digest a2 \<noteq> alert_digest b"
  obtains rs where "modified (issued_list st a1 a2 a3 h1 h2 h3) = Inr rs" and "optee_verify_chain audit_client rs True st = (Inr False, st)"
proof (rule that)
  let ?r = "record_of b (receipt_of 2 h1 (alert_digest a2) (as_model st) h2)"
  show "modified (issued_list st a1 a2 a3 h1 h2 h3) = Inr [issued 1 ZERO_HASH a1 (as_model st) h1, ?r, issued 3 h2 a3 (as_model st) h3]"
    using assms(2) by (simp add: modified_def issued_list_def issued_def py_index_def assign_in_def record_of_def dget_def dset_def)
  have "check_record ?r (bytes_hex h1, 1, Some (bytes_hex (as_model st))) = Inr None"
    by (subst check_record_of) (use three_lengths [OF assms(1)] assms(3) in simp_all)
  then show "optee_verify_chain audit_client [issued 1 ZERO_HASH a1 (as_model st) h1, ?r, issued 3 h2 a3 (as_model st) h3] True st
      = (Inr False, st)"
    by (intro verify_chain_stopped) (unfold three_steps [OF assms(1)], simp)
qed

lemma forged_rejected:
  assumes "three_issued st a1 a2 a3 h1 h2 h3"
  obtains rs where "forged (issued_list st a1 a2 a3 h1 h2 h3) = Inr rs" and "optee_verify_chain audit_client rs True st = (Inr False, st)"
proof -
  note len = three_lengths [OF assms]
  obtain h' where h': "forge_text (bytes_hex h2) = bytes_hex h'" "length h' = 32" "h' \<noteq> h2"
    using len by (blast intro: forged_bytes [of h2])
  let ?f = "receipt_of 2 h1 (alert_digest a2) (as_model st) h'"
  have "h2 \<noteq> []" using len by auto
  then have "forged (issued_list st a1 a2 a3 h1 h2 h3)
      = Inr [issued 1 ZERO_HASH a1 (as_model st) h1, record_of a2 ?f, issued 3 h2 a3 (as_model st) h3]"
    by (simp add: forged_def issued_list_def issued_def py_index_def assign_in_def record_of_def receipt_of_def dget_def dset_def h'(1))
  moreover have "check_record (record_of a2 ?f) (bytes_hex h1, 1, Some (bytes_hex (as_model st)))
      = Inr (Some (?f, (bytes_hex h', 2, Some (bytes_hex (as_model st)))))"
    by (subst check_record_of) (use len h'(2) in simp_all)
  moreover have "optee_verify_receipt audit_client ?f st = (Inr False, st)"
    by (subst verify_of) (use len h' assms in \<open>auto simp: three_issued_def head_after_def\<close>)
  ultimately show thesis
    by (intro that verify_chain_stopped) (assumption, unfold three_steps [OF assms], simp)
qed

section \<open>The run of the script\<close>

definition tampered_alert :: pyval where
  "tampered_alert = PDict [(''schema'', PStr ''cote3-mon-alert-v1''), (''window'', PInt 2), (''score'', PInt 99)]"

lemma tampered_assign: "py_assign (acceptance_alert 2 (97 / 100)) ''score'' (PInt 99) = Inr tampered_alert"
  by (simp add: acceptance_alert_def tampered_alert_def dset_def)

text \<open>A float and an integer never have the same JSON text: each text reads back as what was written.\<close>

lemma tampered_text: "canonical_json tampered_alert \<noteq> canonical_json (acceptance_alert 2 (97 / 100))"
proof
  assume "canonical_json tampered_alert = canonical_json (acceptance_alert 2 (97 / 100))"
  then have "json_loads (json_dumps tampered_alert) = json_loads (json_dumps (acceptance_alert 2 (97 / 100)))"
    by (simp only: canonical_json_def utf8_encode_inject)
  moreover have "storable tampered_alert"
    by (simp add: tampered_alert_def short_int_def nat_str.simps)
  moreover have "storable (acceptance_alert 2 (97 / 100))"
    using short_ints by (simp add: acceptance_alert_def)
  ultimately have "sorted_json tampered_alert = sorted_json (acceptance_alert 2 (97 / 100))"
    by (simp only: storable_loads sum.inject)
  then show False by (simp add: tampered_alert_def acceptance_alert_def)
qed

lemma fresh_registered:
  "optee_register audit_client p (fresh_state key) = (Inr (bytes_hex (sha256 p)),
     (fresh_state key)\<lparr>as_model := sha256 p, as_registered := True\<rparr>)"
  by (simp add: optee_register_def run_client_def client_register Let_def ta_register_def fresh_state_def exit_code_def)

lemma fresh_appended:
  assumes "length m = 32"
  obtains st h1 h2 h3 where "append_records audit_client [a1, a2, a3] ((fresh_state key)\<lparr>as_model := m, as_registered := True\<rparr>)
      = (Inr (issued_list st a1 a2 a3 h1 h2 h3), st)" and "three_issued st a1 a2 a3 h1 h2 h3"
proof -
  define h1 h2 h3 where h: "h1 = head_after key m 1 ZERO_HASH a1" "h2 = head_after key m 2 h1 a2" "h3 = head_after key m 3 h2 a3"
  let ?s0 = "(fresh_state key)\<lparr>as_model := m, as_registered := True\<rparr>"
  let ?s1 = "?s0\<lparr>as_sequence := of_nat (Suc 0), as_head := h1\<rparr>"
  let ?s2 = "?s1\<lparr>as_sequence := of_nat (Suc 1), as_head := h2\<rparr>"
  let ?s3 = "?s2\<lparr>as_sequence := of_nat (Suc 2), as_head := h3\<rparr>"
  note one = append_issued [of ?s0 0 h1 a1 "[a2, a3]"] and two = append_issued [of ?s1 1 h2 a2 "[a3]"]
    and three = append_issued [of ?s2 2 h3 a3 "[]"]
  have "append_records audit_client [a3] ?s2 = (Inr [issued 3 h2 a3 m h3], ?s3)"
    by (subst three) (simp_all add: h fresh_state_def)
  moreover have "append_records audit_client [a2, a3] ?s1 = (case append_records audit_client [a3] ?s2 of
      (r, st') \<Rightarrow> (mapR (\<lambda>rs. issued 2 h1 a2 m h2 # rs) r, st'))"
    by (subst two) (simp_all add: h fresh_state_def, simp add: numeral_2_eq_2)
  moreover have "append_records audit_client [a1, a2, a3] ?s0 = (case append_records audit_client [a2, a3] ?s1 of
      (r, st') \<Rightarrow> (mapR (\<lambda>rs. issued 1 ZERO_HASH a1 m h1 # rs) r, st'))"
    by (subst one) (simp_all add: h fresh_state_def)
  ultimately have "append_records audit_client [a1, a2, a3] ?s0 = (Inr (issued_list ?s3 a1 a2 a3 h1 h2 h3), ?s3)"
    by (simp add: issued_list_def)
  moreover have "three_issued ?s3 a1 a2 a3 h1 h2 h3"
    using assms by (simp add: three_issued_def h fresh_state_def)
  ultimately show thesis by (rule that)
qed

lemma checks_pass:
  assumes "three_issued st a1 a2 a3 h1 h2 h3" and "py_assign a2 ''score'' (PInt 99) = Inr b" and "alert_digest a2 \<noteq> alert_digest b"
  shows "run_checks audit_client (acceptance_checks (issued_list st a1 a2 a3 h1 h2 h3)) st = (Inr (), st)"
proof -
  obtain ms where "modified (issued_list st a1 a2 a3 h1 h2 h3) = Inr ms" "optee_verify_chain audit_client ms True st = (Inr False, st)"
    using assms by (rule modified_rejected)
  moreover obtain rs where "reordered (issued_list st a1 a2 a3 h1 h2 h3) = Inr rs" "optee_verify_chain audit_client rs True st = (Inr False, st)"
    using assms(1) by (rule reordered_rejected)
  moreover obtain fs where "forged (issued_list st a1 a2 a3 h1 h2 h3) = Inr fs" "optee_verify_chain audit_client fs True st = (Inr False, st)"
    using assms(1) by (rule forged_rejected)
  ultimately show ?thesis
    by (simp add: acceptance_checks_def valid_accepted [OF assms(1)] deleted_rejected [OF assms(1)])
qed

lemma first_not_one:
  assumes "ta_inv st" and "as_sequence st \<noteq> 0" and "append_records audit_client (a # as) st = (Inr rs, st')"
  shows "optee_verify_chain audit_client rs True st' = (Inr False, st')"
proof -
  obtain r s1 where a: "optee_append audit_client a st = (Inr r, s1)"
    using assms(3) by (auto split: prod.splits sum.splits)
  then obtain rest where rs: "rs = record_of a r # rest"
    using assms(3) by (auto simp: mapR_eq_Inr_iff split: prod.splits)
  obtain h where r: "r = receipt_of (uint (as_sequence st + 1)) (as_head st) (alert_digest a) (as_model st) h" and h: "length h = 32"
    using a by (auto simp: optee_append_client ta_append_def Let_def compute_hmac_link receipt_json_def split: if_splits)
  have "as_sequence st + 1 \<noteq> 1" using assms(2) by simp
  then have "uint (as_sequence st + 1) \<noteq> 1" by (metis uint_1 word_uint_eq_iff)
  then have "check_record (record_of a r) (bytes_hex ZERO_HASH, 0, None) = Inr None"
    using assms(1) h by (simp add: r check_record_of ta_inv_def)
  then show ?thesis by (intro verify_chain_stopped) (simp add: rs)
qed

section \<open>Properties\<close>

text \<open>C6. The acceptance script passes on a new device for every key: the chain of its three alerts
  is accepted and the modified, deleted, reordered and forged copies are refused, unless the
  modified alert, whose JSON text differs from the original's, has the same SHA-256.\<close>

theorem acceptance_passes:
  "canonical_json tampered_alert \<noteq> canonical_json (acceptance_alert 2 (97 / 100))
   \<and> (sha256 (canonical_json tampered_alert) = sha256 (canonical_json (acceptance_alert 2 (97 / 100)))
     \<or> (\<exists>text st. acceptance audit_client (fresh_state key) =
         (Inr (PDict [(''status'', PStr ''PASS''), (''records'', PInt 3),
            (''model_hash'', PStr (bytes_hex (sha256 (utf8_encode acceptance_model)))),
            (''checks'', PList (map PStr [''valid'', ''modified'', ''deleted'', ''reordered'', ''forged'']))]), Some text, st)
         \<and> as_sequence st = 3))"
proof (cases "sha256 (canonical_json tampered_alert) = sha256 (canonical_json (acceptance_alert 2 (97 / 100)))")
  case False
  have m: "length (sha256 (utf8_encode acceptance_model)) = 32" by simp
  obtain st h1 h2 h3 where app: "append_records audit_client acceptance_alerts
      ((fresh_state key)\<lparr>as_model := sha256 (utf8_encode acceptance_model), as_registered := True\<rparr>)
      = (Inr (issued_list st (acceptance_alert 1 (91 / 100)) (acceptance_alert 2 (97 / 100)) (acceptance_alert 3 (99 / 100)) h1 h2 h3), st)"
    and three: "three_issued st (acceptance_alert 1 (91 / 100)) (acceptance_alert 2 (97 / 100)) (acceptance_alert 3 (99 / 100)) h1 h2 h3"
    unfolding acceptance_alerts_def using m by (rule fresh_appended)
  have "as_sequence st = 3" using three by (simp add: three_issued_def)
  moreover have "alert_digest (acceptance_alert 2 (97 / 100)) \<noteq> alert_digest tampered_alert" using False by (simp add: alert_digest_def)
  note checks_pass [OF three tampered_assign this]
  ultimately show ?thesis
    using tampered_text by (simp add: acceptance_def fresh_registered app) (simp add: issued_list_def)
qed (use tampered_text in simp)



end
