(* ===== verification/Row_Types.thy ===== *)
theory Row_Types
  imports Training
begin

text \<open>
  The type of a feature row: the keys \<open>META_NAMES\<close> and \<open>ENHANCED_FEATURE_NAMES\<close> in this order,
  with texts, an integer that is 0 or 1, an integer and floats.  Every row that
  \<open>aggregate_events\<close> returns has it, and on rows that have it no reader of \<open>features.py\<close>,
  \<open>iforest_runtime.py\<close>, \<open>threshold.py\<close> and \<open>training.py\<close> raises because of a field.
\<close>

section \<open>Types of values\<close>

datatype field_type = Text | Bit | Whole | Real64

fun has_type :: "field_type \<Rightarrow> pyval \<Rightarrow> bool" where
  "has_type Text (PStr _) \<longleftrightarrow> True"
| "has_type Bit (PInt n) \<longleftrightarrow> n = 0 \<or> n = 1"
| "has_type Whole (PInt _) \<longleftrightarrow> True"
| "has_type Real64 (PFloat _) \<longleftrightarrow> True"
| "has_type _ _ \<longleftrightarrow> False"

fun_cases has_typeE: "has_type t v"

definition row_type :: "(string \<times> field_type) list" where
  "row_type = [(''run_id'', Text), (''scenario'', Text), (''is_attack'', Bit), (''window_start_ns'', Whole)]
     @ map (\<lambda>k. (k, Real64)) ENHANCED_FEATURE_NAMES"

definition conforms :: "(string \<times> field_type) list \<Rightarrow> pyval \<Rightarrow> bool" where
  "conforms ts v \<longleftrightarrow> (\<exists>d. v = PDict d \<and> list_all2 (\<lambda>(k, t) (l, w). k = l \<and> has_type t w) ts d)"

lemma row_type_distinct: "distinct (map fst row_type)"
  by (simp add: row_type_def ENHANCED_FEATURE_NAMES_def BASE_FEATURE_NAMES_def REPETITION_FEATURE_NAMES_def TEMPORAL_FEATURE_NAMES_def)

lemma conforms_lookup:
  assumes "conforms ts v" and "distinct (map fst ts)" and "(k, t) \<in> set ts"
  obtains w where "py_subscript v k = Inr w" and "has_type t w"
proof -
  obtain d where d: "v = PDict d" "list_all2 (\<lambda>(k, t) (l, w). k = l \<and> has_type t w) ts d"
    using assms(1) by (auto simp: conforms_def)
  obtain i where i: "i < length ts" "ts ! i = (k, t)" using assms(3) by (auto simp: in_set_conv_nth)
  have keys: "map fst d = map fst ts"
    using d(2) by (intro nth_equalityI) (auto simp: list_all2_conv_all_nth case_prod_beta)
  obtain w where w: "d ! i = (k, w)" "has_type t w"
    using list_all2_nthD [OF d(2) i(1)] i(2) by (cases "d ! i") auto
  have "length d = length ts" using d(2) by (simp add: list_all2_lengthD)
  then have "(k, w) \<in> set d" using i(1) w(1) by (metis nth_mem)
  moreover have "distinct (map fst d)" using assms(2) keys by simp
  ultimately have "dget d k = Some w" by (simp add: dget_def)
  with d(1) w(2) that show thesis by simp
qed

section \<open>Rows\<close>

lemma make_row_conforms:
  assumes "length fs = length ENHANCED_FEATURE_NAMES"
  shows "conforms row_type (make_row run scenario attack start fs)"
proof -
  have "list_all2 (\<lambda>(k, t) (l, w). k = l \<and> has_type t w) (map (\<lambda>k. (k, Real64)) ks) (zip ks (map PFloat fs))"
    if "length fs = length ks" for ks
    using that by (simp add: list_all2_conv_all_nth)
  from this [OF assms] show ?thesis
    by (simp add: conforms_def make_row_def row_type_def of_bool_def)
qed

lemma conforms_row_reads:
  assumes "conforms row_type row"
  shows "set features \<subseteq> set ENHANCED_FEATURE_NAMES \<Longrightarrow> is_ok (row_values features row)"
    and "set features \<subseteq> set ENHANCED_FEATURE_NAMES \<Longrightarrow> is_ok (csv_row (META_NAMES @ features) row)"
    and "is_ok (str_field ''run_id'' row)" and "is_ok (str_field ''scenario'' row)"
    and "\<exists>a. bindE (py_subscript row ''is_attack'') py_int = Inr a \<and> (a = 0 \<or> a = 1)"
proof -
  note look = conforms_lookup [OF assms row_type_distinct]
  have float: "\<exists>x. py_subscript row f = Inr (PFloat x)" if "f \<in> set ENHANCED_FEATURE_NAMES" for f
  proof -
    have "(f, Real64) \<in> set row_type" using that by (simp add: row_type_def)
    then obtain w where "py_subscript row f = Inr w" "has_type Real64 w" by (rule look)
    then show ?thesis by (cases w) auto
  qed
  have meta: "\<exists>w. py_subscript row f = Inr w" if "f \<in> set META_NAMES" for f
  proof -
    have "\<exists>t. (f, t) \<in> set row_type" using that by (auto simp: META_NAMES_def row_type_def)
    then show ?thesis using look by metis
  qed
  show "is_ok (row_values features row)" if sub: "set features \<subseteq> set ENHANCED_FEATURE_NAMES"
    unfolding row_values_def
  proof (rule mapE_is_ok)
    fix f assume "f \<in> set features"
    then obtain x where "py_subscript row f = Inr (PFloat x)" using sub float by blast
    then show "is_ok (bindE (py_subscript row f) py_float)" by simp
  qed
  show "is_ok (csv_row (META_NAMES @ features) row)" if sub: "set features \<subseteq> set ENHANCED_FEATURE_NAMES"
    unfolding csv_row_def
  proof (rule mapE_is_ok)
    fix f assume "f \<in> set (META_NAMES @ features)"
    then obtain w where "py_subscript row f = Inr w" using sub float meta by fastforce
    then show "is_ok (mapR py_str (py_subscript row f))" by simp
  qed
  show "is_ok (str_field ''run_id'' row)" "is_ok (str_field ''scenario'' row)"
    using meta [of "''run_id''"] meta [of "''scenario''"] by (auto simp: str_field_def META_NAMES_def)
  have "(''is_attack'', Bit) \<in> set row_type" by (simp add: row_type_def)
  then obtain w where "py_subscript row ''is_attack'' = Inr w" "has_type Bit w" by (rule look)
  then show "\<exists>a. bindE (py_subscript row ''is_attack'') py_int = Inr a \<and> (a = 0 \<or> a = 1)"
    by (cases w) auto
qed

lemma aggregated_conform:
  assumes "aggregate_events events w u = Inr rows" and "row \<in> set rows"
  shows "conforms row_type row"
proof -
  from assms obtain run start requests resources scenario attack fs where
    fs: "window_features w requests resources = Inr fs"
    and row: "row = make_row run (py_str scenario) (truthy attack) start fs"
    by (elim aggregate_row)
  have "length fs = length ENHANCED_FEATURE_NAMES"
    using fs by (rule window_featuresE)
      (simp add: ENHANCED_FEATURE_NAMES_def BASE_FEATURE_NAMES_def REPETITION_FEATURE_NAMES_def TEMPORAL_FEATURE_NAMES_def)
  then show ?thesis unfolding row by (rule make_row_conforms)
qed

section \<open>Properties\<close>

text \<open>C22. Well-typed rows: every row of \<open>aggregate_events\<close> has the type of a feature row, and
  therefore writing the table, reading any of its features, listing its runs and splitting it
  meet no missing or ill-typed field: the table is always written, and the split of benign runs
  returns whenever there are enough of them.\<close>

theorem aggregated_rows_well_typed:
  assumes "aggregate_events events w u = Inr rows" and "set features \<subseteq> set ENHANCED_FEATURE_NAMES"
  shows "list_all (conforms row_type) rows \<and> is_ok (write_csv rows features) \<and> is_ok (mapE (row_values features) rows)
    \<and> is_ok (sorted_field ''run_id'' rows) \<and> is_ok (sorted_field ''scenario'' rows) \<and> is_ok (benign_rows rows)"
proof -
  have conf: "conforms row_type row" if "row \<in> set rows" for row using assms(1) that by (rule aggregated_conform)
  note reads = conforms_row_reads [OF conf]
  have "is_ok (mapE (csv_row (META_NAMES @ features)) rows)" "is_ok (mapE (row_values features) rows)"
    "is_ok (mapE (str_field ''run_id'') rows)" "is_ok (mapE (str_field ''scenario'') rows)"
    using reads(1-4) assms(2) by (auto intro!: mapE_is_ok)
  moreover have "is_ok (benign_rows rows)"
  proof -
    have "benign_rows rows = Inr (filter (\<lambda>row. bindE (py_subscript row ''is_attack'') py_int = Inr 0) rows)"
      unfolding benign_rows_def by (rule filterE_total) (use reads(5) in fastforce)
    then show ?thesis by simp
  qed
  ultimately show ?thesis
    using conf by (auto simp: list_all_iff write_csv_def sorted_field_def Let_def elim!: is_okE)
qed

theorem aggregated_rows_well_typed_witness:
  "list_all (conforms row_type) [make_row ''r'' ''unknown'' False 1000000000
     [Fin 1, Fin 1, Fin 0, Fin 0, Fin 0, Fin 0, Fin 0, Fin 0, Fin 2, Fin 2, Fin 0, Fin 0, Fin 0, Fin 0, Fin 0, Fin 0, Fin 0, Fin 0]]"
  using aggregated_rows_well_typed [OF single_request_row, of ENHANCED_FEATURE_NAMES] by simp

end
