(* ===== verification/Script.thy ===== *)
theory Script
  imports Cli Json_Text
begin

text \<open>
  What the scripts under \<open>scripts/\<close> share: \<open>require\<close>, \<open>all\<close> and \<open>any\<close> over tests that may raise,
  the digest of a file, the text of a CSV file, and sets of JSON values.  A script that scores
  rows may meet a tree it never leaves, so its results are optional, as in \<open>IForest\<close>.
\<close>

section \<open>Results that may not return\<close>

definition bindO :: "('e + 'a) option \<Rightarrow> ('a \<Rightarrow> ('e + 'b) option) \<Rightarrow> ('e + 'b) option" where
  "bindO m f = (case m of None \<Rightarrow> None | Some (Inl e) \<Rightarrow> Some (Inl e) | Some (Inr x) \<Rightarrow> f x)"

abbreviation tryO :: "('e + 'a) \<Rightarrow> ('a \<Rightarrow> ('e + 'b) option) \<Rightarrow> ('e + 'b) option" where
  "tryO m f \<equiv> bindO (Some m) f"

lemma bindO_simps [simp]: "bindO None f = None" "bindO (Some (Inl e)) f = Some (Inl e)" "bindO (Some (Inr x)) f = f x"
  by (simp_all add: bindO_def)

lemma bindO_Inr_iff: "bindO m f = Some (Inr y) \<longleftrightarrow> (\<exists>x. m = Some (Inr x) \<and> f x = Some (Inr y))"
  by (cases m) (auto simp: bindO_def split: sum.splits)

lemma bindO_InrE:
  assumes "bindO m f = Some (Inr y)"
  obtains x where "m = Some (Inr x)" and "f x = Some (Inr y)"
  using assms by (auto simp: bindO_Inr_iff)

fun mapO :: "('a \<Rightarrow> ('e + 'b) option) \<Rightarrow> 'a list \<Rightarrow> ('e + 'b list) option" where
  "mapO f [] = Some (Inr [])"
| "mapO f (x # xs) = bindO (f x) (\<lambda>y. bindO (mapO f xs) (\<lambda>ys. Some (Inr (y # ys))))"

lemma mapO_Inr_iff: "mapO f xs = Some (Inr ys) \<longleftrightarrow> list_all2 (\<lambda>x y. f x = Some (Inr y)) xs ys"
  by (induction xs arbitrary: ys) (auto simp: bindO_Inr_iff list_all2_Cons1)

section \<open>Checks\<close>

definition require :: "bool \<Rightarrow> unit result" where
  "require condition = whenE (\<not> condition) RuntimeError"

lemma require_Inr [simp]: "require c = Inr u \<longleftrightarrow> c"
  by (simp add: require_def)

lemma require_True [simp]: "require True = Inr ()"
  by (simp add: require_def)

text \<open>\<open>all(test(x) for x in xs)\<close> and \<open>any\<close> stop at the first element that decides.\<close>

fun allE :: "('a \<Rightarrow> 'e + bool) \<Rightarrow> 'a list \<Rightarrow> 'e + bool" where
  "allE p [] = Inr True"
| "allE p (x # xs) = bindE (p x) (\<lambda>b. if b then allE p xs else Inr False)"

definition anyE :: "('a \<Rightarrow> 'e + bool) \<Rightarrow> 'a list \<Rightarrow> 'e + bool" where
  "anyE p xs = mapR Not (allE (\<lambda>x. mapR Not (p x)) xs)"

lemma allE_True_iff: "allE p xs = Inr True \<longleftrightarrow> list_all (\<lambda>x. p x = Inr True) xs"
  by (induction xs) (auto simp: bindE_eq_Inr_iff split: if_splits)

lemma anyE_False_iff:
  fixes p :: "'a \<Rightarrow> 'e + bool"
  shows "anyE p xs = Inr False \<longleftrightarrow> list_all (\<lambda>x. p x = Inr False) xs"
proof -
  have "mapR Not m = Inr True \<longleftrightarrow> m = Inr False" and "mapR Not m = Inr False \<longleftrightarrow> m = Inr True" for m :: "'e + bool"
    by (cases m; simp)+
  then show ?thesis by (simp add: anyE_def allE_True_iff)
qed

section \<open>Values\<close>

text \<open>\<open>float(v[k])\<close>, and \<open>v.get(k) == s\<close> for a text \<open>s\<close>.\<close>

definition float_field :: "pyval \<Rightarrow> string \<Rightarrow> f64 result" where
  "float_field v k = bindE (py_subscript v k) py_float"

fun py_path :: "pyval \<Rightarrow> string list \<Rightarrow> pyval result" where
  "py_path v [] = Inr v"
| "py_path v (k # ks) = bindE (py_subscript v k) (\<lambda>w. py_path w ks)"

definition get_is :: "string \<Rightarrow> string \<Rightarrow> pyval \<Rightarrow> bool result" where
  "get_is k s v = mapR (\<lambda>x. eq_str x s) (py_get v k PNone)"

fun hashable :: "pyval \<Rightarrow> bool" where
  "hashable (PList xs) \<longleftrightarrow> False"
| "hashable (PDict d) \<longleftrightarrow> False"
| "hashable v \<longleftrightarrow> True"

text \<open>\<open>set(v)\<close> as its distinct elements.  The scripts compare such a set with a set of texts, for
  which it does not matter that Python identifies \<open>1\<close>, \<open>1.0\<close> and \<open>True\<close>.\<close>

definition py_set :: "pyval \<Rightarrow> pyval list result" where
  "py_set v = bindE (py_list v) (\<lambda>xs. if list_all hashable xs then Inr (remdups xs) else Inl TypeError)"

definition same_set :: "pyval list \<Rightarrow> string list \<Rightarrow> bool" where
  "same_set vs ss \<longleftrightarrow> set vs = PStr ` set ss"

lemma same_set_names: "same_set vs ss \<Longrightarrow> set (map py_str vs) = set ss \<and> vs = map PStr (map py_str vs)"
  by (force simp: same_set_def intro: map_idI [symmetric])

section \<open>Files\<close>

definition text_sha256 :: "string \<Rightarrow> string" where
  "text_sha256 t = bytes_hex (sha256 (utf8_encode t))"

text \<open>\<open>csv.writer\<close> with its defaults: a field is quoted when it holds a comma, a quote or a line
  end, and quotes are doubled.\<close>

definition csv_field :: "string \<Rightarrow> string" where
  "csv_field s =
     (if list_ex (\<lambda>c. c = CHR '','' \<or> c = CHR 0x22 \<or> c = CHR 0x0A \<or> c = CHR 0x0D) s
      then CHR 0x22 # concat (map (\<lambda>c. if c = CHR 0x22 then [c, c] else [c]) s) @ [CHR 0x22] else s)"

definition csv_text :: "string list list \<Rightarrow> string" where
  "csv_text rows = concat (map (\<lambda>cells. join '','' (map csv_field cells) @ [CHR 0x0D, CHR 0x0A]) rows)"

section \<open>Scores\<close>

definition float_dict :: "(string \<times> f64) list \<Rightarrow> pyval" where
  "float_dict d = PDict (fold (\<lambda>(k, v). dset k v) (map (map_prod id PFloat) d) [])"

lemma float_dict_PDict:
  assumes "distinct features" and "length xs = length features"
  shows "float_dict (zip features xs) = PDict (map (map_prod id PFloat) (zip features xs))"
    and "distinct (map fst (map (map_prod id PFloat) (zip features xs)))"
proof -
  show d: "distinct (map fst (map (map_prod id PFloat) (zip features xs)))"
    using assms by (simp add: comp_def)
  then show "float_dict (zip features xs) = PDict (map (map_prod id PFloat) (zip features xs))"
    using fold_dset_append [of "[]" "map (map_prod id PFloat) (zip features xs)"] by (simp add: float_dict_def)
qed

lemma float_dict_values:
  assumes "distinct features" and "length xs = length features"
  shows "row_values features (float_dict (zip features xs)) = Inr xs"
proof -
  define d where "d = map (map_prod id PFloat) (zip features xs)"
  note fd = float_dict_PDict [OF assms, folded d_def]
  have "mapE (\<lambda>name. bindE (py_subscript (PDict d) name) py_float) fs = Inr ys"
    if "set (zip fs ys) \<subseteq> set (zip features xs)" and "length fs = length ys" for fs ys
    using that(2,1)
  proof (induction fs ys rule: list_induct2)
    case (Cons f fs y ys)
    have "(f, PFloat y) \<in> set d" using Cons.prems by (force simp: d_def)
    then have "dget d f = Some (PFloat y)" using fd(2) by (simp add: dget_def)
    with Cons show ?case by simp
  qed simp
  from this [of features xs] assms(2) show ?thesis by (simp add: row_values_def fd(1))
qed

lemma float_dict_storable:
  assumes "distinct features" and "length xs = length features"
  shows "storable (float_dict (zip features xs)) \<longleftrightarrow> list_all is_f64 xs"
proof -
  have s: "set xs = snd ` set (zip features xs)" using assms(2) by (metis list.set_map map_snd_zip)
  show ?thesis
    using float_dict_PDict(2) [OF assms]
    by (simp add: float_dict_PDict(1) [OF assms] comp_def case_prod_beta list_all_iff s)
qed

lemma base_features_distinct: "distinct BASE_FEATURE_NAMES"
  by (simp add: BASE_FEATURE_NAMES_def)

definition optional_float :: "f64 option \<Rightarrow> pyval" where
  "optional_float x = (case x of None \<Rightarrow> PNone | Some y \<Rightarrow> PFloat y)"

text \<open>\<open>max(xs, default=0.0)\<close>\<close>

definition max_or_zero :: "f64 list \<Rightarrow> f64" where
  "max_or_zero xs = get_ok (py_max xs) (Fin 0)"

lemma detector_scores_length: "detector_scores lm det rows = Some (Inr ss) \<Longrightarrow> length ss = length rows"
  by (induction rows arbitrary: ss) (auto simp: mapR_eq_Inr_iff split: option.splits sum.splits)

text \<open>A forest reads a row only through its features.\<close>

lemma iforest_score_values:
  "row_values (if_features f) row = row_values (if_features f) row' \<Longrightarrow> iforest_score lm f row = iforest_score lm f row'"
  by (simp add: iforest_score_def)

lemma forest_scores_values:
  "list_all2 (\<lambda>r r'. row_values (if_features f) r = row_values (if_features f) r') rows rows' \<Longrightarrow>
    detector_scores lm (Forest f) rows = detector_scores lm (Forest f) rows'"
proof (induction rule: list_all2_induct)
  case (Cons r rs r' rs')
  then show ?case using iforest_score_values [OF Cons.hyps(1)] by (simp split: option.split sum.split)
qed simp

end
