(* ===== verification/Detection_Report.thy ===== *)
theory Detection_Report
  imports Script
begin

text \<open>
  The evaluation of a detector on the test rows, as \<open>scripts/stage3-train-evaluate.py\<close>
  (\<open>evaluate_detector\<close>) and \<open>scripts/stage5-feature-ablation.py\<close> (\<open>evaluate\<close>) do it: metrics with
  the run-level bootstrap intervals, false alerts per hour, detection delays, and the summary
  of each scenario.
\<close>

section \<open>Scenarios\<close>

definition enumerate0 :: "'a list \<Rightarrow> (int \<times> 'a) list" where
  "enumerate0 xs = zip (map int [0..<length xs]) xs"

definition scenario_rows :: "pyval list \<Rightarrow> string \<Rightarrow> (int \<times> pyval) list result" where
  "scenario_rows rows scenario =
     filterE (\<lambda>(i, row). mapR (\<lambda>s. s = scenario) (str_field ''scenario'' row)) (enumerate0 rows)"

definition scenario_alerts :: "f64 list \<Rightarrow> f64 \<Rightarrow> (int \<times> pyval) list \<Rightarrow> bool list result" where
  "scenario_alerts scores threshold items = mapE (\<lambda>(i, row). mapR (flt threshold) (py_index scores i)) items"

text \<open>Windows, alerts, runs and runs with an alert.\<close>

definition first_is_attack :: "(int \<times> pyval) list \<Rightarrow> bool result" where
  "first_is_attack items = bindE (py_index items 0) (\<lambda>(i, row). mapR (\<lambda>a. a \<noteq> 0) (int_field row ''is_attack''))"

definition alerted_run_ids :: "(int \<times> pyval) list \<Rightarrow> bool list \<Rightarrow> string list result" where
  "alerted_run_ids items alerts = sorted_field ''run_id'' (map (\<lambda>(item, alerted). snd item) (filter snd (zip items alerts)))"

definition entry_dict :: "bool \<Rightarrow> nat \<Rightarrow> nat \<Rightarrow> f64 \<Rightarrow> nat \<Rightarrow> nat \<Rightarrow> f64 \<Rightarrow> pyval" where
  "entry_dict attack windows alerts rate runs alerted detection =
     PDict [(''is_attack'', PBool attack), (''windows'', PInt (int windows)), (''alert_windows'', PInt (int alerts)),
       (''window_alert_rate'', PFloat rate), (''runs'', PInt (int runs)), (''alerted_runs'', PInt (int alerted)),
       (''run_detection_rate'', PFloat detection)]"

definition scenario_entry :: "pyval list \<Rightarrow> f64 list \<Rightarrow> f64 \<Rightarrow> string \<Rightarrow> (string \<times> pyval) result" where
  "scenario_entry rows scores threshold scenario =
     bindE (scenario_rows rows scenario) (\<lambda>items.
     bindE (scenario_alerts scores threshold items) (\<lambda>alerts.
     bindE (first_is_attack items) (\<lambda>attack.
     bindE (sorted_field ''run_id'' (map snd items)) (\<lambda>runs.
     bindE (alerted_run_ids items alerts) (\<lambda>alerted.
     let n = length (filter id alerts) in
     bindE (ratio_or_zero (int n) (int (length alerts))) (\<lambda>rate.
     bindE (ratio_or_zero (int (length alerted)) (int (length runs))) (\<lambda>detection.
     Inr (scenario, entry_dict attack (length items) n rate (length runs) (length alerted) detection))))))))"

definition scenario_summary :: "pyval list \<Rightarrow> f64 list \<Rightarrow> f64 \<Rightarrow> pyval result" where
  "scenario_summary rows scores threshold =
     bindE (sorted_field ''scenario'' rows) (\<lambda>scenarios.
     mapR PDict (mapE (scenario_entry rows scores threshold) scenarios))"

text \<open>The ablation's version reads the label last and divides without a guard.\<close>

definition ablation_entry :: "pyval list \<Rightarrow> f64 list \<Rightarrow> f64 \<Rightarrow> string \<Rightarrow> (string \<times> pyval) result" where
  "ablation_entry rows scores threshold scenario =
     bindE (scenario_rows rows scenario) (\<lambda>items.
     bindE (scenario_alerts scores threshold items) (\<lambda>alerts.
     bindE (sorted_field ''run_id'' (map snd items)) (\<lambda>runs.
     bindE (alerted_run_ids items alerts) (\<lambda>alerted.
     bindE (first_is_attack items) (\<lambda>attack.
     let n = length (filter id alerts) in
     bindE (int_truediv (int n) (int (length alerts))) (\<lambda>rate.
     bindE (int_truediv (int (length alerted)) (int (length runs))) (\<lambda>detection.
     Inr (scenario, entry_dict attack (length items) n rate (length runs) (length alerted) detection))))))))"

definition ablation_summary :: "pyval list \<Rightarrow> f64 list \<Rightarrow> f64 \<Rightarrow> pyval result" where
  "ablation_summary rows scores threshold =
     bindE (sorted_field ''scenario'' rows) (\<lambda>scenarios.
     mapR PDict (mapE (ablation_entry rows scores threshold) scenarios))"

section \<open>Detectors\<close>

definition run_intervals ::
  "'s randbelow \<Rightarrow> 's \<Rightarrow> pyval list \<Rightarrow> f64 list \<Rightarrow> f64 \<Rightarrow> nat \<Rightarrow> (string \<times> pyval) list result" where
  "run_intervals rb seed rows scores threshold iterations =
     mapE (\<lambda>metric. mapR (\<lambda>(low, high). (metric @ ''_ci95'', PList [PFloat low, PFloat high]))
         (bootstrap_run_metric_interval rb rows scores threshold metric iterations seed))
       [''precision'', ''recall'', ''f1'', ''auprc'']"

text \<open>\<open>benign_windows * window_seconds / 3600.0\<close>\<close>

definition benign_hours :: "int list \<Rightarrow> int \<Rightarrow> f64 result" where
  "benign_hours labels window_seconds =
     bindE (float_of_int (int (length (filter (\<lambda>l. l = 0) labels)) * window_seconds)) (\<lambda>x. fdiv x (Fin 3600))"

definition delays_dict :: "(string \<times> f64 option) list \<Rightarrow> pyval" where
  "delays_dict delays = PDict (map (map_prod id optional_float) delays)"

definition evaluate_scores ::
  "'s randbelow \<Rightarrow> 's \<Rightarrow> string \<Rightarrow> f64 \<Rightarrow> pyval list \<Rightarrow> int \<Rightarrow> nat \<Rightarrow> int list \<Rightarrow> f64 list \<Rightarrow> pyval result" where
  "evaluate_scores rb seed name threshold rows window_seconds iterations labels scores =
     bindE (classification_metrics labels scores threshold) (\<lambda>m.
     bindE (run_intervals rb seed rows scores threshold iterations) (\<lambda>intervals.
     bindE (benign_hours labels window_seconds) (\<lambda>hours.
     bindE (if hours \<noteq> Fin 0 then bindE (float_of_int (m_fp m)) (\<lambda>fp. fdiv fp hours) else Inr (Fin 0)) (\<lambda>per_hour.
     bindE (sorted_field ''run_id'' rows) (\<lambda>runs.
     bindE (attack_detection_delays rows scores threshold) (\<lambda>delays.
     bindE (scenario_summary rows scores threshold) (\<lambda>per_scenario.
     Inr (PDict (metrics_dict m @ intervals @
       [(''false_alerts_per_hour'', PFloat per_hour), (''threshold'', PFloat threshold),
        (''windows'', PInt (int (length rows))), (''runs'', PInt (int (length runs))),
        (''attack_detection_delay_seconds'', delays_dict delays), (''per_scenario'', per_scenario),
        (''detector'', PStr name)])))))))))"

definition evaluate_detector ::
  "'s randbelow \<Rightarrow> 's \<Rightarrow> libm \<Rightarrow> string \<Rightarrow> detector \<Rightarrow> pyval list \<Rightarrow> int \<Rightarrow> nat \<Rightarrow> pyval result option" where
  "evaluate_detector rb seed lm name det rows window_seconds iterations =
     tryO (mapE (\<lambda>row. int_field row ''is_attack'') rows) (\<lambda>labels.
     bindO (detector_scores lm det rows) (\<lambda>scores.
     Some (evaluate_scores rb seed name (detector_threshold det) rows window_seconds iterations labels scores)))"

definition ablation_scores ::
  "'s randbelow \<Rightarrow> 's \<Rightarrow> f64 \<Rightarrow> pyval list \<Rightarrow> int \<Rightarrow> nat \<Rightarrow> int list \<Rightarrow> f64 list \<Rightarrow> (string \<times> pyval) list result" where
  "ablation_scores rb seed threshold rows window_seconds iterations labels scores =
     bindE (classification_metrics labels scores threshold) (\<lambda>m.
     bindE (run_intervals rb seed rows scores threshold iterations) (\<lambda>intervals.
     bindE (benign_hours labels window_seconds) (\<lambda>hours.
     bindE (bindE (float_of_int (m_fp m)) (\<lambda>fp. fdiv fp hours)) (\<lambda>per_hour.
     bindE (ablation_summary rows scores threshold) (\<lambda>per_scenario.
     bindE (attack_detection_delays rows scores threshold) (\<lambda>delays.
     Inr (metrics_dict m @ intervals @
       [(''false_alerts_per_hour'', PFloat per_hour), (''threshold'', PFloat threshold),
        (''per_scenario'', per_scenario), (''attack_detection_delay_seconds'', delays_dict delays)])))))))"

definition ablation_evaluate ::
  "'s randbelow \<Rightarrow> 's \<Rightarrow> libm \<Rightarrow> iforest \<Rightarrow> pyval list \<Rightarrow> int \<Rightarrow> nat \<Rightarrow> (string \<times> pyval) list result option" where
  "ablation_evaluate rb seed lm forest rows window_seconds iterations =
     tryO (mapE (\<lambda>row. int_field row ''is_attack'') rows) (\<lambda>labels.
     bindO (detector_scores lm (Forest forest) rows) (\<lambda>scores.
     Some (ablation_scores rb seed (if_threshold forest) rows window_seconds iterations labels scores)))"

section \<open>What the summary counts\<close>

definition windows_of :: "pyval list \<Rightarrow> string \<Rightarrow> nat list" where
  "windows_of rows scenario = filter (\<lambda>i. str_field ''scenario'' (rows ! i) = Inr scenario) [0..<length rows]"

definition alert_windows_of :: "pyval list \<Rightarrow> f64 list \<Rightarrow> f64 \<Rightarrow> string \<Rightarrow> nat list" where
  "alert_windows_of rows scores threshold scenario = filter (\<lambda>i. flt threshold (scores ! i)) (windows_of rows scenario)"

definition readable_row :: "pyval \<Rightarrow> bool" where
  "readable_row row \<longleftrightarrow> is_ok (str_field ''scenario'' row) \<and> is_ok (str_field ''run_id'' row) \<and> is_ok (int_field row ''is_attack'')"

lemma enumerate0_map: "enumerate0 rows = map (\<lambda>i. (int i, rows ! i)) [0..<length rows]"
  by (rule nth_equalityI) (simp_all add: enumerate0_def)

lemma scenario_rows_ok:
  assumes "list_all readable_row rows"
  shows "scenario_rows rows s = Inr (map (\<lambda>i. (int i, rows ! i)) (windows_of rows s))"
proof -
  have "scenario_rows rows s = Inr (filter (\<lambda>(i, row). str_field ''scenario'' row = Inr s) (enumerate0 rows))"
    unfolding scenario_rows_def
  proof (rule filterE_total)
    fix x assume "x \<in> set (enumerate0 rows)"
    then obtain i where "x = (int i, rows ! i)" "i < length rows" by (auto simp: enumerate0_map)
    then show "(case x of (i, row) \<Rightarrow> mapR (\<lambda>t. t = s) (str_field ''scenario'' row))
        = Inr (case x of (i, row) \<Rightarrow> str_field ''scenario'' row = Inr s)"
      using assms by (auto simp: list_all_length readable_row_def elim!: is_okE)
  qed
  then show ?thesis by (simp add: enumerate0_map filter_map comp_def windows_of_def)
qed

lemma scenario_alerts_ok:
  assumes "list_all (\<lambda>i. i < length scores) ws"
  shows "scenario_alerts scores t (map (\<lambda>i. (int i, rows ! i)) ws) = Inr (map (\<lambda>i. flt t (scores ! i)) ws)"
  using assms by (induction ws) (simp_all add: scenario_alerts_def)

lemma filter_alerts: "filter snd (zip (map f ws) (map g ws)) = map (\<lambda>i. (f i, g i)) (filter g ws)"
  by (induction ws) auto

lemma run_ids_ok:
  assumes "list_all readable_row rows"
  shows "\<exists>ids. sorted_field ''run_id'' rows = Inr ids \<and> distinct ids \<and> set ids = (\<lambda>row. get_ok (str_field ''run_id'' row) []) ` set rows"
proof -
  have "mapE (str_field ''run_id'') rows = Inr (map (\<lambda>row. get_ok (str_field ''run_id'' row) []) rows)"
    using assms by (induction rows) (auto simp: readable_row_def elim!: is_okE)
  then show ?thesis by (simp add: sorted_field_def)
qed

lemma scenario_entry_ok:
  assumes rows: "list_all readable_row rows" and len: "length scores = length rows" and ne: "windows_of rows s \<noteq> []"
  obtains attack rate runs alerted detection where
    "scenario_entry rows scores t s = Inr (s, entry_dict attack (length (windows_of rows s))
       (length (alert_windows_of rows scores t s)) rate runs alerted detection)"
    and "ablation_entry rows scores t s = Inr (s, entry_dict attack (length (windows_of rows s))
       (length (alert_windows_of rows scores t s)) rate runs alerted detection)"
    and "unit_float rate" and "unit_float detection" and "alerted \<le> runs" and "0 < runs"
proof -
  let ?ws = "windows_of rows s"
  let ?as = "filter (\<lambda>i. flt t (scores ! i)) ?ws"
  have idx: "list_all (\<lambda>i. i < length scores) ?ws" by (simp add: windows_of_def list_all_iff len)
  have sub: "list_all readable_row (map ((!) rows) ws)" if "set ws \<subseteq> set ?ws" for ws
    using that rows idx len by (auto simp: list_all_iff subset_iff)
  obtain runs where runs: "sorted_field ''run_id'' (map ((!) rows) ?ws) = Inr runs" "distinct runs"
    "set runs = (\<lambda>row. get_ok (str_field ''run_id'' row) []) ` set (map ((!) rows) ?ws)"
    using run_ids_ok [OF sub [OF order_refl]] by blast
  obtain alerted where alerted: "sorted_field ''run_id'' (map ((!) rows) ?as) = Inr alerted" "distinct alerted"
    "set alerted = (\<lambda>row. get_ok (str_field ''run_id'' row) []) ` set (map ((!) rows) ?as)"
    using run_ids_ok [OF sub [of ?as]] by auto
  have "set alerted \<subseteq> set runs" using runs(3) alerted(3) by auto
  then have le: "length alerted \<le> length runs"
    using card_mono [of "set runs" "set alerted"] distinct_card [OF runs(2)] distinct_card [OF alerted(2)] by simp
  have pos: "0 < length runs" "0 < length ?ws" using ne runs(3) by (cases ?ws; auto)+
  obtain i where i: "?ws ! 0 = i" "i \<in> set ?ws" using pos(2) nth_mem by blast
  then have "readable_row (rows ! i)" using rows idx len by (auto simp: list_all_iff)
  then obtain a where a: "int_field (rows ! i) ''is_attack'' = Inr a" by (auto simp: readable_row_def elim!: is_okE)
  have first: "first_is_attack (map (\<lambda>i. (int i, rows ! i)) ?ws) = Inr (a \<noteq> 0)"
    using pos(2) i(1) a py_index_nonneg [of 0 "map (\<lambda>i. (int i, rows ! i)) ?ws"] by (simp add: first_is_attack_def)
  have alr: "alerted_run_ids (map (\<lambda>i. (int i, rows ! i)) ?ws) (map (\<lambda>i. flt t (scores ! i)) ?ws) = Inr alerted"
    by (simp add: alerted_run_ids_def filter_alerts comp_def alerted(1))
  have n: "length (filter id (map (\<lambda>i. flt t (scores ! i)) ?ws)) = length ?as" by (simp add: filter_map comp_def)
  have snd: "map snd (map (\<lambda>i. (int i, rows ! i)) ?ws) = map ((!) rows) ?ws" by simp
  obtain rate where rate: "ratio_or_zero (int (length ?as)) (int (length ?ws)) = Inr rate" "unit_float rate"
    by (rule ratio_or_zero_unit [of "int (length ?as)" "int (length ?ws)"]) simp_all
  obtain det where det: "ratio_or_zero (int (length alerted)) (int (length runs)) = Inr det" "unit_float det"
    by (rule ratio_or_zero_unit [of "int (length alerted)" "int (length runs)"]) (use le in simp_all)
  have div: "int_truediv (int (length ?as)) (int (length ?ws)) = Inr rate" "int_truediv (int (length alerted)) (int (length runs)) = Inr det"
    using rate(1) det(1) pos by (simp_all add: ratio_or_zero_def)
  show thesis
    by (rule that [of "a \<noteq> 0" rate "length runs" "length alerted" det])
       (use pos in \<open>simp_all add: scenario_entry_def ablation_entry_def scenario_rows_ok [OF rows] scenario_alerts_ok [OF idx]
          first alr snd runs(1) n rate det div le Let_def alert_windows_of_def del: map_map\<close>)
qed

lemma mapE_some: "list_all (\<lambda>x. \<exists>y. f x = Inr y \<and> g x = Inr y \<and> P x y) xs \<Longrightarrow> \<exists>ys. mapE f xs = Inr ys \<and> mapE g xs = Inr ys \<and> list_all2 P xs ys"
  by (induction xs) auto

text \<open>Every window is in exactly one scenario.\<close>

lemma windows_of_total:
  assumes "list_all readable_row rows" and "sorted_field ''scenario'' rows = Inr scenarios"
  shows "(\<Sum>s\<leftarrow>scenarios. length (filter P (windows_of rows s))) = length (filter P [0..<length rows])"
proof -
  let ?f = "\<lambda>i. get_ok (str_field ''scenario'' (rows ! i)) []"
  have m: "mapE (str_field ''scenario'') rows = Inr (map (\<lambda>row. get_ok (str_field ''scenario'' row) []) rows)"
    using assms(1) by (induction rows) (auto simp: readable_row_def elim!: is_okE)
  then have s: "scenarios = sort (remdups (map (\<lambda>row. get_ok (str_field ''scenario'' row) []) rows))"
    using assms(2) by (simp add: sorted_field_def)
  have "set rows = (!) rows ` {..<length rows}" by (auto simp: in_set_conv_nth)
  then have sc: "distinct scenarios" "set scenarios = ?f ` {..<length rows}"
    by (simp_all add: s image_image)
  have w: "windows_of rows s = filter (\<lambda>i. ?f i = s) [0..<length rows]" for s
    unfolding windows_of_def using assms(1)
    by (intro filter_cong) (auto simp: readable_row_def list_all_length elim!: is_okE)
  have "(\<Sum>s\<leftarrow>scenarios. length (filter P (windows_of rows s))) = (\<Sum>s\<in>set scenarios. card {i\<in>{..<length rows}. P i \<and> ?f i = s})"
    using sc(1) by (simp add: w sum_list_distinct_conv_sum_set distinct_length_filter Int_def conj_commute atLeast0LessThan)
  also have "\<dots> = card {i\<in>{..<length rows}. P i}"
  proof -
    have "(\<Sum>s\<in>set scenarios. card {i\<in>{..<length rows}. P i \<and> ?f i = s}) = card (\<Union>s\<in>set scenarios. {i\<in>{..<length rows}. P i \<and> ?f i = s})"
      by (rule card_UN_disjoint [symmetric]) auto
    also have "(\<Union>s\<in>set scenarios. {i\<in>{..<length rows}. P i \<and> ?f i = s}) = {i\<in>{..<length rows}. P i}"
      using sc(2) by auto
    finally show ?thesis .
  qed
  also have "\<dots> = length (filter P [0..<length rows])"
    by (simp add: distinct_length_filter Int_def conj_commute atLeast0LessThan)
  finally show ?thesis .
qed

definition entry_counts :: "pyval list \<Rightarrow> f64 list \<Rightarrow> f64 \<Rightarrow> string \<Rightarrow> string \<times> pyval \<Rightarrow> bool" where
  "entry_counts rows scores threshold scenario e \<longleftrightarrow>
     (\<exists>attack rate runs alerted detection. e = (scenario, entry_dict attack (length (windows_of rows scenario))
        (length (alert_windows_of rows scores threshold scenario)) rate runs alerted detection)
      \<and> unit_float rate \<and> unit_float detection \<and> alerted \<le> runs \<and> 0 < runs)"

section \<open>Properties\<close>

text \<open>The summary per scenario accounts for every window: both scripts compute the same entries,
  one for each scenario in order, each with its number of windows and of windows above the
  threshold, rates in the unit interval and no more alerted runs than runs; over all scenarios
  the windows add up to the rows and the alerts to the scores above the threshold.\<close>

theorem scenario_summary_accounts:
  assumes "list_all readable_row rows" and "length scores = length rows"
  shows "\<exists>scenarios entries. sorted_field ''scenario'' rows = Inr scenarios
    \<and> scenario_summary rows scores threshold = Inr (PDict entries) \<and> ablation_summary rows scores threshold = Inr (PDict entries)
    \<and> list_all2 (entry_counts rows scores threshold) scenarios entries
    \<and> (\<Sum>s\<leftarrow>scenarios. length (windows_of rows s)) = length rows
    \<and> (\<Sum>s\<leftarrow>scenarios. length (alert_windows_of rows scores threshold s)) = length (filter (flt threshold) scores)"
proof -
  have m: "mapE (str_field ''scenario'') rows = Inr (map (\<lambda>row. get_ok (str_field ''scenario'' row) []) rows)"
    using assms(1) by (induction rows) (auto simp: readable_row_def elim!: is_okE)
  then obtain scenarios where sc: "sorted_field ''scenario'' rows = Inr scenarios"
    "set scenarios = (\<lambda>row. get_ok (str_field ''scenario'' row) []) ` set rows"
    by (simp add: sorted_field_def)
  have windows: "windows_of rows s \<noteq> []" if "s \<in> set scenarios" for s
  proof -
    from that sc(2) obtain i where "i < length rows" "s = get_ok (str_field ''scenario'' (rows ! i)) []"
      by (auto simp: in_set_conv_nth)
    with assms(1) have "i \<in> set (windows_of rows s)"
      by (auto simp: windows_of_def readable_row_def list_all_length elim!: is_okE)
    then show ?thesis by auto
  qed
  have "list_all (\<lambda>s. \<exists>e. scenario_entry rows scores threshold s = Inr e \<and> ablation_entry rows scores threshold s = Inr e
      \<and> entry_counts rows scores threshold s e) scenarios"
    unfolding list_all_iff
  proof
    fix s assume "s \<in> set scenarios"
    note ne = windows [OF this]
    show "\<exists>e. scenario_entry rows scores threshold s = Inr e \<and> ablation_entry rows scores threshold s = Inr e
        \<and> entry_counts rows scores threshold s e"
      unfolding entry_counts_def by (rule scenario_entry_ok [OF assms ne, of threshold]) blast
  qed
  from mapE_some [OF this] obtain entries where e: "mapE (scenario_entry rows scores threshold) scenarios = Inr entries"
    "mapE (ablation_entry rows scores threshold) scenarios = Inr entries" "list_all2 (entry_counts rows scores threshold) scenarios entries"
    by blast
  have "length (filter (\<lambda>i. flt threshold (scores ! i)) [0..<length rows]) = length (filter (flt threshold) scores)"
    using arg_cong [OF map_nth [of scores], of "\<lambda>xs. length (filter (flt threshold) xs)"] assms(2)
    by (simp add: filter_map comp_def)
  then show ?thesis
    using e sc windows_of_total [OF assms(1) sc(1), of "\<lambda>_. True"]
      windows_of_total [OF assms(1) sc(1), of "\<lambda>i. flt threshold (scores ! i)"]
    by (simp add: scenario_summary_def ablation_summary_def alert_windows_of_def)
qed

definition summary_row :: "string \<Rightarrow> string \<Rightarrow> int \<Rightarrow> pyval" where
  "summary_row run scenario attack = PDict [(''run_id'', PStr run), (''scenario'', PStr scenario), (''is_attack'', PInt attack)]"

theorem scenario_summary_accounts_witness:
  "\<exists>scenarios entries. sorted_field ''scenario'' [summary_row ''a'' ''steady'' 0, summary_row ''b'' ''replay'' 1] = Inr scenarios
    \<and> scenario_summary [summary_row ''a'' ''steady'' 0, summary_row ''b'' ''replay'' 1] [Fin 0, Fin 1] (Fin 0) = Inr (PDict entries)
    \<and> (\<Sum>s\<leftarrow>scenarios. length (windows_of [summary_row ''a'' ''steady'' 0, summary_row ''b'' ''replay'' 1] s)) = 2"
proof -
  have "list_all readable_row [summary_row ''a'' ''steady'' 0, summary_row ''b'' ''replay'' 1]"
    by (simp add: readable_row_def summary_row_def str_field_def int_field_def dget_def)
  from scenario_summary_accounts [OF this, of "[Fin 0, Fin 1]" "Fin 0"] show ?thesis by auto
qed

end
