(* ===== verification/Host_Pipeline.thy ===== *)
theory Host_Pipeline
  imports Detection_Report
begin

text \<open>
  \<open>scripts/stage3-train-evaluate.py\<close>: from the telemetry of the QEMU runs to the two trained
  detectors, their metrics and the parity vectors for the guest.  A JSON file is the value that
  is written (its text is \<open>dumps_indent\<close>, for the forest \<open>dumps_compact\<close>), a CSV file the texts
  of its cells.  scikit-learn, the generator and its seeding, and the version texts are
  parameters.  Files written before a failure are not part of the result.
\<close>

section \<open>Reading the runs\<close>

definition positive_count :: "string \<Rightarrow> pyval \<Rightarrow> bool result" where
  "positive_count k item = mapR (\<lambda>n. 0 < n) (bindE (py_get item k (PInt 0)) py_int)"

definition set_field :: "pyval \<Rightarrow> string \<Rightarrow> pyval list result" where
  "set_field v k = bindE (py_subscript v k) py_set"

text \<open>The runs all passed and cover every scenario of the configuration.\<close>

definition check_runs :: "pyval \<Rightarrow> string list \<Rightarrow> unit result" where
  "check_runs config result_texts =
     bindE (mapE json_loads result_texts) (\<lambda>results.
     bindE (bindE (allE (get_is ''status'' ''PASS'') results) require) (\<lambda>_.
     bindE (bindE (allE (positive_count ''request_events'') results) require) (\<lambda>_.
     bindE (bindE (allE (positive_count ''resource_events'') results) require) (\<lambda>_.
     bindE (set_field config ''benign_scenarios'') (\<lambda>benign.
     bindE (set_field config ''attack_scenarios'') (\<lambda>attack.
     let expected = remdups (benign @ attack) in
     bindE (mapE (str_field ''scenario'') results) (\<lambda>observed.
     bindE (require (same_set expected observed)) (\<lambda>_.
     bindE (int_field config ''repeats_per_scenario'') (\<lambda>repeats.
     require (int (length results) = int (length expected) * repeats))))))))))"

definition read_rows :: "pyval \<Rightarrow> string list list \<Rightarrow> string list list \<Rightarrow> string list \<Rightarrow> pyval list result" where
  "read_rows config request_files resource_files result_texts =
     bindE (require (request_files \<noteq> [])) (\<lambda>_.
     bindE (require (result_texts \<noteq> [])) (\<lambda>_.
     bindE (check_runs config result_texts) (\<lambda>_.
     bindE (read_jsonl (request_files @ resource_files)) (\<lambda>events.
     bindE (int_field config ''window_seconds'') (\<lambda>window_seconds.
     bindE (int_field config ''warmup_seconds'') (\<lambda>warmup_seconds.
     bindE (aggregate_events events window_seconds warmup_seconds) (\<lambda>rows.
     mapR (\<lambda>_. rows) (require (rows \<noteq> [])))))))))"

section \<open>Splits\<close>

record splits =
  sp_train :: "pyval list"
  sp_validation :: "pyval list"
  sp_benign :: "pyval list"
  sp_attack :: "pyval list"

definition stratified :: "pyval \<Rightarrow> bool result" where
  "stratified config = mapR truthy (py_get config ''stratify_benign_scenarios'' (PBool False))"

definition split_rows ::
  "'s randbelow \<Rightarrow> (int \<Rightarrow> 's) \<Rightarrow> (string \<Rightarrow> 's) \<Rightarrow> pyval \<Rightarrow> pyval list \<Rightarrow> splits result" where
  "split_rows rb seeded seed_of config rows =
     bindE (stratified config) (\<lambda>by_scenario.
     bindE (int_field config ''seed'') (\<lambda>seed.
     bindE (if by_scenario
            then bindE (set_field config ''benign_scenarios'') (\<lambda>scenarios.
                 split_benign_runs_stratified rb seed_of seed (Some (map py_str scenarios)) rows)
            else split_benign_runs rb (seeded seed) rows) (\<lambda>(training, validation, benign_test).
     bindE (filterE (\<lambda>row. mapR (\<lambda>a. a \<noteq> 0) (int_field row ''is_attack'')) rows) (\<lambda>attack_test.
     Inr \<lparr>sp_train = training, sp_validation = validation, sp_benign = benign_test, sp_attack = attack_test\<rparr>))))"

definition disjoint_ids :: "string list \<Rightarrow> string list \<Rightarrow> bool" where
  "disjoint_ids xs ys \<longleftrightarrow> list_all (\<lambda>x. x \<notin> set ys) xs"

definition covers :: "pyval \<Rightarrow> string \<Rightarrow> pyval list \<Rightarrow> unit result" where
  "covers config k rows =
     bindE (mapE (str_field ''scenario'') rows) (\<lambda>observed.
     bindE (set_field config k) (\<lambda>expected. require (same_set expected observed)))"

text \<open>The run identifiers of training, validation, benign test and attack test, after the checks.\<close>

definition check_splits :: "pyval \<Rightarrow> splits \<Rightarrow> (string list \<times> string list \<times> string list \<times> string list) result" where
  "check_splits config sp =
     bindE (sorted_field ''run_id'' (sp_train sp)) (\<lambda>train_ids.
     bindE (sorted_field ''run_id'' (sp_validation sp)) (\<lambda>validation_ids.
     bindE (sorted_field ''run_id'' (sp_benign sp)) (\<lambda>benign_ids.
     bindE (sorted_field ''run_id'' (sp_attack sp)) (\<lambda>attack_ids.
     bindE (require (disjoint_ids train_ids validation_ids)) (\<lambda>_.
     bindE (require (disjoint_ids train_ids benign_ids)) (\<lambda>_.
     bindE (require (disjoint_ids validation_ids benign_ids)) (\<lambda>_.
     bindE (require (disjoint_ids (train_ids @ validation_ids @ benign_ids) attack_ids)) (\<lambda>_.
     bindE (covers config ''attack_scenarios'' (sp_attack sp)) (\<lambda>_.
     bindE (stratified config) (\<lambda>by_scenario.
     bindE (if by_scenario
            then mapE (covers config ''benign_scenarios'') [sp_train sp, sp_validation sp, sp_benign sp] else Inr []) (\<lambda>_.
     Inr (train_ids, validation_ids, benign_ids, attack_ids))))))))))))"

definition scenario_run_counts :: "pyval list \<Rightarrow> pyval result" where
  "scenario_run_counts rows =
     bindE (sorted_field ''scenario'' rows) (\<lambda>scenarios.
     mapR PDict (mapE (\<lambda>scenario.
       bindE (filterE (\<lambda>row. mapR (\<lambda>s. s = scenario) (str_field ''scenario'' row)) rows) (\<lambda>group.
       mapR (\<lambda>ids. (scenario, PInt (int (length ids)))) (sorted_field ''run_id'' group))) scenarios))"

section \<open>Parity\<close>

text \<open>The scores of scikit-learn and of the exported runtime on the same rows, and the greatest
  difference.\<close>

definition reference_scores :: "sk_forest \<Rightarrow> string list \<Rightarrow> pyval list \<Rightarrow> f64 list result" where
  "reference_scores forest features rows =
     mapR (\<lambda>xs. map fneg (sk_score_samples forest xs)) (mapE (row_values features) rows)"

definition differences :: "f64 list \<Rightarrow> f64 list \<Rightarrow> f64 list" where
  "differences reference observed = map (\<lambda>(r, ob). fabs (fsub r ob)) (zip reference observed)"

definition vector_row :: "string list \<Rightarrow> pyval \<times> f64 \<Rightarrow> pyval result" where
  "vector_row features = (\<lambda>(row, reference).
     bindE (str_field ''run_id'' row) (\<lambda>run_id.
     bindE (str_field ''scenario'' row) (\<lambda>scenario.
     bindE (int_field row ''is_attack'') (\<lambda>attack.
     bindE (int_field row ''window_start_ns'') (\<lambda>start.
     bindE (row_values features row) (\<lambda>xs.
     Inr (PDict [(''run_id'', PStr run_id), (''scenario'', PStr scenario), (''is_attack'', PInt attack),
       (''window_start_ns'', PInt start), (''values'', float_dict (zip features xs)),
       (''sklearn_score'', PFloat reference)])))))))"

definition parity_vectors :: "string \<Rightarrow> f64 \<Rightarrow> string list \<Rightarrow> pyval list \<Rightarrow> f64 list \<Rightarrow> pyval result" where
  "parity_vectors model_sha256 tolerance features rows reference =
     mapR (\<lambda>vs. PDict [(''schema'', PStr ''cote3-mon-iforest-parity-v1''), (''model_sha256'', PStr model_sha256),
         (''tolerance'', PFloat tolerance), (''features'', PList (map PStr features)), (''rows'', PList vs)])
       (mapE (vector_row features) (zip rows reference))"

definition parity_value :: "string \<Rightarrow> nat \<Rightarrow> f64 \<Rightarrow> f64 \<Rightarrow> string \<Rightarrow> pyval" where
  "parity_value stage n maximum tolerance model_sha256 =
     PDict [(''schema'', PStr (''cote3-mon-'' @ stage @ ''-parity-v1'')), (''status'', PStr ''PASS''),
       (''vectors'', PInt (int n)), (''max_abs_difference'', PFloat maximum), (''tolerance'', PFloat tolerance),
       (''model_sha256'', PStr model_sha256)]"

section \<open>Models\<close>

record models =
  mo_percentile :: percentile_model
  mo_exported :: iforest
  mo_iforest :: iforest
  mo_vectors :: pyval
  mo_parity :: pyval
  mo_sha :: string

definition fit_models ::
  "(f64 list list \<Rightarrow> int \<Rightarrow> sk_forest) option \<Rightarrow> libm \<Rightarrow> string \<Rightarrow> pyval \<Rightarrow> splits \<Rightarrow> models result option" where
  "fit_models sk_fit lm stage config sp =
     tryO (float_field config ''target_validation_fpr'') (\<lambda>fpr.
     tryO (int_field config ''seed'') (\<lambda>seed.
     tryO (percentile_fit (sp_train sp) (sp_validation sp) fpr BASE_FEATURE_NAMES) (\<lambda>baseline.
     tryO (fit_isolation_forest sk_fit (sp_train sp) seed BASE_FEATURE_NAMES) (\<lambda>forest.
     bindO (export_isolation_forest forest (sp_validation sp) fpr BASE_FEATURE_NAMES) (\<lambda>exported.
     tryO (require (length (if_trees exported) = 100)) (\<lambda>_.
     tryO (iforest_init (model_to_json exported seed)) (\<lambda>runtime.
     let rows = sp_validation sp @ sp_benign sp @ sp_attack sp;
         model_sha = text_sha256 (dumps_compact (model_to_json exported seed)) in
     tryO (reference_scores forest BASE_FEATURE_NAMES rows) (\<lambda>reference.
     bindO (detector_scores lm (Forest runtime) rows) (\<lambda>observed.
     let maximum = max_or_zero (differences reference observed) in
     tryO (float_field config ''parity_tolerance'') (\<lambda>tolerance.
     tryO (require (fle maximum tolerance)) (\<lambda>_.
     Some (bindE (parity_vectors model_sha tolerance BASE_FEATURE_NAMES rows reference) (\<lambda>vectors.
     Inr \<lparr>mo_percentile = baseline, mo_exported = exported, mo_iforest = runtime, mo_vectors = vectors,
          mo_parity = parity_value stage (length rows) maximum tolerance model_sha, mo_sha = model_sha\<rparr>)))))))))))))"

section \<open>Results\<close>

definition alert_rate :: "f64 \<Rightarrow> f64 list \<Rightarrow> f64 result" where
  "alert_rate threshold scores = int_truediv (int (length (filter (flt threshold) scores))) (int (length scores))"

definition metrics_value :: "string \<Rightarrow> bool \<Rightarrow> pyval \<Rightarrow> f64 \<Rightarrow> f64 \<Rightarrow> f64 \<Rightarrow> pyval \<Rightarrow> pyval \<Rightarrow> pyval" where
  "metrics_value stage formal scope fpr baseline_rate forest_rate baseline_metrics forest_metrics =
     PDict [(''schema'', PStr (''cote3-mon-'' @ stage @ ''-metrics-v1'')), (''scope'', scope),
       (''note'', PStr (if formal then ''Formal 10x60-second dissertation detection results.''
          else ''Smoke-stage metrics validate the pipeline and are not the final dissertation results.'')),
       (''validation_window_alert_rate'', PDict [(''target'', PFloat fpr), (''percentile'', PFloat baseline_rate),
          (''iforest'', PFloat forest_rate)]),
       (''percentile'', baseline_metrics), (''iforest'', forest_metrics)]"

definition strategy_text :: "bool \<Rightarrow> string" where
  "strategy_text by_scenario =
     (if by_scenario
      then ''stratified by benign scenario, then complete runs: 60% train, 20% validation, 20% test; attacks test only''
      else ''whole benign runs: 60% train, 20% validation, 20% test; attacks test only'')"

definition split_manifest ::
  "string \<Rightarrow> int \<Rightarrow> bool \<Rightarrow> nat \<Rightarrow> splits \<Rightarrow> string list \<times> string list \<times> string list \<times> string list \<Rightarrow> pyval result" where
  "split_manifest stage seed by_scenario windows sp = (\<lambda>(train_ids, validation_ids, benign_ids, attack_ids).
     bindE (scenario_run_counts (sp_train sp)) (\<lambda>train_counts.
     bindE (scenario_run_counts (sp_validation sp)) (\<lambda>validation_counts.
     bindE (scenario_run_counts (sp_benign sp)) (\<lambda>benign_counts.
     bindE (scenario_run_counts (sp_attack sp)) (\<lambda>attack_counts.
     let ids = (\<lambda>xs. PList (map PStr xs)) in
     Inr (PDict [(''schema'', PStr (''cote3-mon-'' @ stage @ ''-split-v1'')), (''seed'', PInt seed),
       (''strategy'', PStr (strategy_text by_scenario)),
       (''train_run_ids'', ids train_ids), (''validation_run_ids'', ids validation_ids),
       (''benign_test_run_ids'', ids benign_ids), (''attack_test_run_ids'', ids attack_ids),
       (''windows'', PDict [(''all'', PInt (int windows)), (''train'', PInt (int (length (sp_train sp)))),
          (''validation'', PInt (int (length (sp_validation sp)))),
          (''test'', PInt (int (length (sp_benign sp @ sp_attack sp))))]),
       (''scenario_run_counts'', PDict [(''train'', train_counts), (''validation'', validation_counts),
          (''benign_test'', benign_counts), (''attack_test'', attack_counts)]),
       (''no_run_leakage'', PBool True)]))))))"

definition check_texts :: "bool \<Rightarrow> string list" where
  "check_texts by_scenario = [''all configured QEMU runs passed'', ''request and resource telemetry present'',
     ''benign split by complete run with no leakage'',
     (if by_scenario then ''every benign scenario represented in train, validation, and test''
      else ''global benign run split retained for smoke compatibility''),
     ''attack data used only for testing'', ''percentile baseline exported'', ''100-tree Isolation Forest exported'',
     ''host dependency-free runtime matches scikit-learn within tolerance'',
     ''detection metrics and run-level bootstrap intervals generated'']"

record host_files =
  hf_features :: "string list list"
  hf_train :: "string list list"
  hf_validation :: "string list list"
  hf_test :: "string list list"
  hf_percentile :: pyval
  hf_forest :: pyval
  hf_vectors :: pyval
  hf_parity :: pyval
  hf_metrics :: pyval
  hf_split :: pyval
  hf_summary :: pyval

definition summary_value ::
  "string \<Rightarrow> bool \<Rightarrow> bool \<Rightarrow> pyval \<Rightarrow> int \<times> f64 \<times> int \<times> int \<Rightarrow> string \<Rightarrow> string \<times> string \<times> string \<Rightarrow> (string \<times> string) list \<Rightarrow> pyval" where
  "summary_value stage formal by_scenario scope = (\<lambda>(repeats, duration, warmup, window) config_sha (python, numpy, sklearn) artifacts.
     PDict [(''schema'', PStr (''cote3-mon-'' @ stage @ ''-summary-v1'')), (''status'', PStr ''PASS''), (''stage'', PStr stage),
       (''scope'', scope), (''formal_dissertation_experiment'', PBool formal),
       (''experiment'', PDict [(''repeats_per_scenario'', PInt repeats), (''duration_seconds'', PFloat duration),
          (''warmup_seconds'', PInt warmup), (''window_seconds'', PInt window), (''config_sha256'', PStr config_sha)]),
       (''checks'', PList (map PStr (check_texts by_scenario))),
       (''versions'', PDict [(''python'', PStr python), (''numpy'', PStr numpy), (''scikit_learn'', PStr sklearn)]),
       (''artifacts'', PDict (map (map_prod id PStr) artifacts))])"

text \<open>The tables, in the order they are written.\<close>

definition split_tables :: "splits \<Rightarrow> (string list list \<times> string list list \<times> string list list) result" where
  "split_tables sp =
     bindE (write_csv (sp_train sp) BASE_FEATURE_NAMES) (\<lambda>train.
     bindE (write_csv (sp_validation sp) BASE_FEATURE_NAMES) (\<lambda>validation.
     bindE (write_csv (sp_benign sp @ sp_attack sp) BASE_FEATURE_NAMES) (\<lambda>test. Inr (train, validation, test))))"

definition host_metrics ::
  "'s randbelow \<Rightarrow> (int \<Rightarrow> 's) \<Rightarrow> libm \<Rightarrow> string \<Rightarrow> bool \<Rightarrow> pyval \<Rightarrow> splits \<Rightarrow> models \<Rightarrow> nat \<Rightarrow> pyval result option" where
  "host_metrics rb seeded lm stage formal config sp ms iterations =
     tryO (float_field config ''target_validation_fpr'') (\<lambda>fpr.
     tryO (int_field config ''seed'') (\<lambda>seed.
     bindO (detector_scores lm (Percentile (mo_percentile ms)) (sp_validation sp)) (\<lambda>baseline_scores.
     tryO (alert_rate (pm_threshold (mo_percentile ms)) baseline_scores) (\<lambda>baseline_rate.
     bindO (detector_scores lm (Forest (mo_iforest ms)) (sp_validation sp)) (\<lambda>forest_scores.
     tryO (alert_rate (if_threshold (mo_iforest ms)) forest_scores) (\<lambda>forest_rate.
     tryO (int_field config ''window_seconds'') (\<lambda>window_seconds.
     bindO (evaluate_detector rb (seeded seed) lm ''percentile'' (Percentile (mo_percentile ms)) (sp_benign sp @ sp_attack sp)
              window_seconds iterations) (\<lambda>baseline_metrics.
     bindO (evaluate_detector rb (seeded seed) lm ''iforest'' (Forest (mo_iforest ms)) (sp_benign sp @ sp_attack sp)
              window_seconds iterations) (\<lambda>forest_metrics.
     Some (mapR (\<lambda>scope. metrics_value stage formal scope fpr baseline_rate forest_rate baseline_metrics forest_metrics)
       (py_get config ''scope'' (PStr stage))))))))))))"

text \<open>\<open>main\<close>; \<open>versions\<close> is absent when numpy or scikit-learn cannot be imported.\<close>

definition host_pipeline ::
  "'s randbelow \<Rightarrow> (int \<Rightarrow> 's) \<Rightarrow> (string \<Rightarrow> 's) \<Rightarrow> (f64 list list \<Rightarrow> int \<Rightarrow> sk_forest) option \<Rightarrow> libm \<Rightarrow>
   string \<Rightarrow> (string \<times> string) option \<Rightarrow> string \<Rightarrow> string list list \<Rightarrow> string list list \<Rightarrow> string list \<Rightarrow> nat \<Rightarrow>
   host_files result option" where
  "host_pipeline rb seeded seed_of sk_fit lm python versions config_text request_files resource_files result_texts iterations =
     tryO (json_loads config_text) (\<lambda>config.
     tryO (mapR py_str (py_get config ''stage'' (PStr ''stage3''))) (\<lambda>stage.
     tryO (mapR truthy (py_get config ''formal_dissertation_experiment'' (PBool False))) (\<lambda>formal.
     tryO (read_rows config request_files resource_files result_texts) (\<lambda>rows.
     tryO (write_csv rows BASE_FEATURE_NAMES) (\<lambda>features.
     tryO (split_rows rb seeded seed_of config rows) (\<lambda>sp.
     tryO (check_splits config sp) (\<lambda>ids.
     tryO (split_tables sp) (\<lambda>(train, validation, test).
     bindO (fit_models sk_fit lm stage config sp) (\<lambda>ms.
     bindO (host_metrics rb seeded lm stage formal config sp ms iterations) (\<lambda>metrics.
     Some (bindE (int_field config ''seed'') (\<lambda>seed.
       bindE (stratified config) (\<lambda>by_scenario.
       bindE (split_manifest stage seed by_scenario (length rows) sp ids) (\<lambda>manifest.
       bindE (case versions of None \<Rightarrow> Inl RuntimeError | Some v \<Rightarrow> Inr v) (\<lambda>(numpy, sklearn).
       bindE (py_get config ''scope'' (PStr stage)) (\<lambda>scope.
       bindE (int_field config ''repeats_per_scenario'') (\<lambda>repeats.
       bindE (float_field config ''duration_seconds'') (\<lambda>duration.
       bindE (int_field config ''warmup_seconds'') (\<lambda>warmup.
       bindE (int_field config ''window_seconds'') (\<lambda>window.
       Inr \<lparr>hf_features = features, hf_train = train, hf_validation = validation, hf_test = test,
            hf_percentile = percentile_to_dict (mo_percentile ms), hf_forest = model_to_json (mo_exported ms) seed,
            hf_vectors = mo_vectors ms, hf_parity = mo_parity ms, hf_metrics = metrics, hf_split = manifest,
            hf_summary = summary_value stage formal by_scenario scope (repeats, duration, warmup, window)
              (text_sha256 config_text) (python, numpy, sklearn)
              [(''percentile_sha256'', text_sha256 (dumps_indent (percentile_to_dict (mo_percentile ms)))),
               (''iforest_sha256'', mo_sha ms), (''features_sha256'', text_sha256 (csv_text features)),
               (''parity_vectors_sha256'', text_sha256 (dumps_indent (mo_vectors ms)))]\<rparr>))))))))))))))))))))"

end
