(* ===== verification/Host_Sample.thy ===== *)
theory Host_Sample
  imports Host_Pipeline Alert_File
begin

text \<open>
  A concrete run of \<open>stage3-train-evaluate.py\<close>: six runs of one request each (five benign, one
  attack), a forest of a hundred single leaves, no bootstrap.  The pipeline returns on it, so what
  is proved of its files is not vacuous.
\<close>

section \<open>Telemetry\<close>

definition run_event :: "string \<Rightarrow> string \<Rightarrow> bool \<Rightarrow> pyval" where
  "run_event run scenario attack = PDict [(''is_attack'', PBool attack), (''result'', PStr ''OK''), (''run_id'', PStr run),
     (''scenario'', PStr scenario), (''ts_unix_ns'', PInt 0)]"

definition run_features :: "f64 list" where
  "run_features = Fin 1 # replicate 17 (Fin 0)"

definition run_row :: "string \<Rightarrow> string \<Rightarrow> bool \<Rightarrow> pyval" where
  "run_row run scenario attack = make_row run scenario attack 0 run_features"

lemma run_event_reads [simp]:
  "py_get (run_event r s b) ''event_type'' x = Inr x"
  "is_request (run_event r s b) = Inr True" "is_resource (run_event r s b) = Inr False"
  "event_run (run_event r s b) = Inr r" "event_time (run_event r s b) = Inr 0"
  "py_get (run_event r s b) ''scenario'' x = Inr (PStr s)" "py_get (run_event r s b) ''is_attack'' x = Inr (PBool b)"
  "event_upper ''operation'' ''UNKNOWN'' (run_event r s b) = Inr ''UNKNOWN''"
  "event_upper ''result'' ''BACKEND_ERROR'' (run_event r s b) = Inr ''OK''"
  "event_float ''latency_us'' (run_event r s b) = Inr (Fin 0)" "event_float ''input_bytes'' (run_event r s b) = Inr (Fin 0)"
  "fingerprints ''key_fingerprint'' [run_event r s b] = Inr []" "fingerprints ''request_fingerprint'' [run_event r s b] = Inr []"
  by (simp_all add: run_event_def is_request_def is_resource_def event_run_def event_time_def event_upper_def event_float_def
      fingerprints_def dget_def upper_def)

lemma run_window_features: "window_features 1 [run_event r s b] [] = Inr run_features"
proof -
  have "request_rate 1 1 = Inr (Fin 1)"
    by (simp add: request_rate_def float_of_int_small unit_ratios)
  then show ?thesis
    by (simp add: window_features_def run_features_def numeral_eq_Suc transition_ratio_def fmean_or_zero_def base_features_def
        repetition_features_def temporal_features_def percentile_def py_max_def reuse_ratio_def idle_cv_def unit_ratios
        unit_ratios(1,2) [unfolded One_nat_def] Let_def)
qed

definition run_events :: "pyval list" where
  "run_events = map (\<lambda>r. run_event r ''steady'' False) [''a'', ''b'', ''c'', ''d'', ''e''] @ [run_event ''f'' ''replay'' True]"

definition run_rows :: "pyval list" where
  "run_rows = map (\<lambda>r. run_row r ''steady'' False) [''a'', ''b'', ''c'', ''d'', ''e''] @ [run_row ''f'' ''replay'' True]"

lemma bucket_row_run: "bucket_row 1 ((r, 0), [run_event r s b]) = Inr (Some (run_row r s b))"
  by (simp add: bucket_row_def sort_by_time_def run_window_features run_row_def)

lemma sample_aggregates: "aggregate_events run_events 1 0 = Inr run_rows"
proof -
  have "first_requests run_events = Inr (map (\<lambda>r. (r, 0)) [''a'', ''b'', ''c'', ''d'', ''e'', ''f''])"
    by (simp add: first_requests_def run_events_def note_first_def dset_def dget_def)
  moreover have "make_buckets (map (\<lambda>r. (r, 0)) [''a'', ''b'', ''c'', ''d'', ''e'', ''f'']) 1000000000 0 run_events
      = Inr (map (\<lambda>r. ((r, 0), [run_event r ''steady'' False])) [''a'', ''b'', ''c'', ''d'', ''e'']
             @ [((''f'', 0), [run_event ''f'' ''replay'' True])])"
    by (simp add: make_buckets_def run_events_def add_to_bucket_def window_start_def group_append_def dset_def dget_def)
  ultimately show ?thesis
    by (simp add: aggregate_events_def bucket_row_run run_rows_def somes_def)
qed

lemma sample_lines: "read_jsonl [map json_dumps run_events] = Inr run_events"
proof -
  have "list_all storable run_events" and "map sorted_json run_events = run_events"
    by (simp_all add: run_events_def run_event_def short_ints)
  then show ?thesis using read_written_lines [of "[run_events]"] by simp
qed

section \<open>Configuration and splits\<close>

definition sample_config :: pyval where
  "sample_config = PDict [(''benign_scenarios'', PList [PStr ''steady'']), (''attack_scenarios'', PList [PStr ''replay'']),
     (''repeats_per_scenario'', PInt 3), (''window_seconds'', PInt 1), (''warmup_seconds'', PInt 0), (''duration_seconds'', PInt 1),
     (''seed'', PInt 7), (''target_validation_fpr'', PFloat (Fin (1 / 2))), (''parity_tolerance'', PInt 0)]"

definition sample_result :: "string \<Rightarrow> pyval" where
  "sample_result scenario = PDict [(''status'', PStr ''PASS''), (''request_events'', PInt 1), (''resource_events'', PInt 1),
     (''scenario'', PStr scenario)]"

definition sample_results :: "string list" where
  "sample_results = map (dumps_indent \<circ> sample_result) [''steady'', ''steady'', ''steady'', ''steady'', ''steady'', ''replay'']"

lemma half_f64: "is_f64 (Fin (1 / 2))"
proof -
  have "representable (1 / 2 :: rat)" using representable_pow2 [of "- 1", where 'a = rat] by (simp add: power_int_def)
  moreover have "\<bar>1 / 2\<bar> < max64" by (rule small_below_max64) simp
  ultimately show ?thesis by (simp add: rnd_id)
qed

lemma sample_config_storable: "storable sample_config" and sample_result_storable: "storable (sample_result s)"
  using half_f64 by (simp_all add: sample_config_def sample_result_def short_int_def nat_str.simps)

lemmas sample_config_loads = loads_dumps(3) [OF sample_config_storable]

lemma sample_config_reads [simp]:
  "int_field sample_config ''seed'' = Inr 7" "int_field sample_config ''window_seconds'' = Inr 1"
  "int_field sample_config ''warmup_seconds'' = Inr 0" "int_field sample_config ''repeats_per_scenario'' = Inr 3"
  "float_field sample_config ''target_validation_fpr'' = Inr (Fin (1 / 2))" "float_field sample_config ''parity_tolerance'' = Inr (Fin 0)"
  "float_field sample_config ''duration_seconds'' = Inr (Fin 1)"
  "py_get sample_config ''stage'' x = Inr x" "py_get sample_config ''formal_dissertation_experiment'' x = Inr x"
  "py_get sample_config ''scope'' x = Inr x" "stratified sample_config = Inr False"
  "set_field sample_config ''benign_scenarios'' = Inr [PStr ''steady'']" "set_field sample_config ''attack_scenarios'' = Inr [PStr ''replay'']"
  by (simp_all add: sample_config_def int_field_def float_field_def dget_def float_of_int_small stratified_def set_field_def py_set_def)

lemma sample_read_rows: "read_rows sample_config [map json_dumps run_events] [] sample_results = Inr run_rows"
proof -
  have "mapE json_loads sample_results = Inr (map sample_result [''steady'', ''steady'', ''steady'', ''steady'', ''steady'', ''replay''])"
    by (simp add: sample_results_def loads_dumps(3) [OF sample_result_storable])
  then have "check_runs sample_config sample_results = Inr ()"
    by (simp add: check_runs_def sample_result_def get_is_def positive_count_def dget_def str_field_def same_set_def insert_commute)
  then show ?thesis
    by (simp add: read_rows_def sample_lines sample_aggregates) (simp add: sample_results_def run_rows_def)
qed

lemma run_row_reads [simp]:
  "str_field ''run_id'' (run_row r s b) = Inr r" "str_field ''scenario'' (run_row r s b) = Inr s"
  "int_field (run_row r s b) ''is_attack'' = Inr (of_bool b)" "int_field (run_row r s b) ''window_start_ns'' = Inr 0"
  "py_subscript (run_row r s b) ''is_attack'' = Inr (PInt (of_bool b))" "py_subscript (run_row r s b) ''run_id'' = Inr (PStr r)"
  "py_subscript (run_row r s b) ''window_start_ns'' = Inr (PInt 0)"
  "row_values BASE_FEATURE_NAMES (run_row r s b) = Inr (Fin 1 # replicate 11 (Fin 0))"
  "is_ok (csv_row (META_NAMES @ BASE_FEATURE_NAMES) (run_row r s b))"
  by (simp_all add: run_row_def make_row_def str_field_def int_field_def dget_def row_values_def csv_row_def META_NAMES_def
      ENHANCED_FEATURE_NAMES_def BASE_FEATURE_NAMES_def run_features_def numeral_eq_Suc)

lemma split_five: "split_ends 5 = Inr (3, 4)"
proof -
  have "rnd (5 * six_tenths) = 3"
    by (subst rnd_value [where e = 1 and m = 6755399441055744])
       (simp_all add: six_tenths_def round_half_even_def power_int_def power_divide Let_def)
  moreover have "of_exact (60 / 100) = Fin six_tenths" "of_exact (80 / 100) = Fin eight_tenths"
    using tenths_rnd of_exact_small [of "60 / 100"] of_exact_small [of "80 / 100"] by simp_all
  then have "int_fraction 5 (60 / 100) = Inr \<lfloor>rnd (of_nat 5 * six_tenths)\<rfloor>"
    "int_fraction 5 (80 / 100) = Inr \<lfloor>rnd (of_nat 5 * eight_tenths)\<rfloor>"
    by (intro int_fraction_floor; simp add: six_tenths_def eight_tenths_def)+
  ultimately show ?thesis by (simp add: split_ends_def five_times_eight_tenths)
qed

definition sample_parts :: splits where
  "sample_parts = \<lparr>sp_train = map (\<lambda>r. run_row r ''steady'' False) [''b'', ''c'', ''d''], sp_validation = [run_row ''e'' ''steady'' False],
      sp_benign = [run_row ''a'' ''steady'' False], sp_attack = [run_row ''f'' ''replay'' True]\<rparr>"

definition first_item :: "unit randbelow" where
  "first_item n s = (0, s)"

lemma sample_benign: "benign_rows run_rows = Inr (map (\<lambda>r. run_row r ''steady'' False) [''a'', ''b'', ''c'', ''d'', ''e''])"
  by (simp add: benign_rows_def run_rows_def)

lemma sample_ids: "sorted_field ''run_id'' (map (\<lambda>r. run_row r ''steady'' False) [''a'', ''b'', ''c'', ''d'', ''e''])
    = Inr [''a'', ''b'', ''c'', ''d'', ''e'']"
  by (simp add: sorted_field_def)

lemma sample_shuffled: "shuffle first_item [''a'', ''b'', ''c'', ''d'', ''e''] s = [''b'', ''c'', ''d'', ''e'', ''a'']"
  by (simp add: shuffle_def first_item_def numeral_eq_Suc swap_items_def)

lemma split_five_Suc: "split_ends (Suc (Suc (Suc (Suc (Suc 0))))) = Inr (3, 4)"
  using split_five by (simp add: numeral_eq_Suc)

lemma sample_split: "split_rows first_item seeded seed_of sample_config run_rows
  = Inr sample_parts"
proof -
  have "split_benign_runs first_item s run_rows
      = Inr (map (\<lambda>r. run_row r ''steady'' False) [''b'', ''c'', ''d''], [run_row ''e'' ''steady'' False], [run_row ''a'' ''steady'' False])" for s
    unfolding split_benign_runs_def sample_benign sample_ids bindE_simps sample_shuffled Let_def
    by (simp add: split_five_Suc three_way_def rows_of_runs_def)
  then show ?thesis
    by (simp add: split_rows_def sample_parts_def) (simp add: run_rows_def)
qed

lemma sample_check_splits: "check_splits sample_config sample_parts = Inr ([''b'', ''c'', ''d''], [''e''], [''a''], [''f''])"
  by (simp add: check_splits_def sample_parts_def sorted_field_def disjoint_ids_def covers_def same_set_def)

lemma write_csv_run_rows: "is_ok (write_csv (map (\<lambda>(r, s, b). run_row r s b) xs) BASE_FEATURE_NAMES)"
proof -
  have "is_ok (mapE (csv_row (META_NAMES @ BASE_FEATURE_NAMES)) (map (\<lambda>(r, s, b). run_row r s b) xs))"
    by (intro mapE_is_ok) auto
  then show ?thesis by (auto simp: write_csv_def Let_def elim: is_okE)
qed

lemma sample_tables: "is_ok (write_csv run_rows BASE_FEATURE_NAMES)" "is_ok (split_tables sample_parts)"
proof -
  let ?b = "\<lambda>r. (r, ''steady'', False)"
  have train: "is_ok (write_csv (sp_train sample_parts) BASE_FEATURE_NAMES)"
    using write_csv_run_rows [of "map ?b [''b'', ''c'', ''d'']"] by (simp add: sample_parts_def)
  have validation: "is_ok (write_csv (sp_validation sample_parts) BASE_FEATURE_NAMES)"
    using write_csv_run_rows [of "[?b ''e'']"] by (simp add: sample_parts_def)
  have test: "is_ok (write_csv (sp_benign sample_parts @ sp_attack sample_parts) BASE_FEATURE_NAMES)"
    using write_csv_run_rows [of "[?b ''a'', (''f'', ''replay'', True)]"] by (simp add: sample_parts_def)
  show "is_ok (split_tables sample_parts)"
    unfolding split_tables_def using train validation test by (elim is_okE) simp
  show "is_ok (write_csv run_rows BASE_FEATURE_NAMES)"
    using write_csv_run_rows [of "map ?b [''a'', ''b'', ''c'', ''d'', ''e''] @ [(''f'', ''replay'', True)]"] by (simp add: run_rows_def)
qed

section \<open>The percentile model of equal windows\<close>

lemma hundredths: "of_exact (1 / 100) = Fin tied_rate" "of_exact (99 / 100) = Fin tied_p" "of_exact (50 / 100) = Fin (1 / 2)" "of_exact (1 / 2) = Fin (1 / 2)"
proof -
  show "of_exact (1 / 100) = Fin tied_rate" using of_exact_small [of "1 / 100"] tied_rate_rnd by simp
  have "rnd (99 / 100) = tied_p"
    by (subst rnd_value [where e = "- 1" and m = 8917127262193582])
       (simp_all add: tied_p_def round_half_even_def power_int_def power_divide Let_def)
  then show "of_exact (99 / 100) = Fin tied_p" using of_exact_small [of "99 / 100"] by simp
  have "rnd (1 / 2) = (1 / 2 :: rat)" using half_f64 by simp
  then show "of_exact (50 / 100) = Fin (1 / 2)" using of_exact_small [of "50 / 100"] by simp
  then show "of_exact (1 / 2) = Fin (1 / 2)" by simp
qed

lemma tied_rate_steps:
  "rnd (2 * tied_rate) = 2 * tied_rate"
  "rnd (1 - 2 * tied_rate) = 8827055269646172 / 2 ^ 53"
  "rnd (8827055269646172 / 2 ^ 53 + 2 * tied_rate) = 1"
proof -
  show "rnd (2 * tied_rate) = 2 * tied_rate"
    by (rule rnd_id, simp only: tied_rate_def, rule representableI [where m = 5764607523034235 and e = "- 58"])
      (simp_all add: power_int_def power_divide)
  show "rnd (1 - 2 * tied_rate) = 8827055269646172 / 2 ^ 53"
    by (subst rnd_value [where e = "- 1" and m = 8827055269646172])
      (simp_all add: tied_rate_def round_half_even_def power_int_def power_divide Let_def)
  show "rnd (8827055269646172 / 2 ^ 53 + 2 * tied_rate) = 1"
    by (subst rnd_value [where e = "- 1" and m = 9007199254740992])
      (simp_all add: tied_rate_def round_half_even_def power_int_def power_divide Let_def)
qed

text \<open>A percentile of three equal values that are 0 or 1 is that value, when the weights add up to 1.\<close>

lemma percentile_equal_between:
  fixes k :: int
  assumes v: "v = 0 \<or> v = 1" and k: "k = 0 \<or> k = 1" and between: "of_int k < 2 * p" "2 * p < of_int k + 1"
    and exact: "rnd (2 * p) = 2 * p" "rnd (2 * p - of_int k) = 2 * p - of_int k"
    and q: "rnd (1 - (2 * p - of_int k)) = q" "0 \<le> q" "q \<le> 1" "rnd q = q" and one: "rnd (q + (2 * p - of_int k)) = 1"
  shows "percentile [Fin v, Fin v, Fin v] (Fin p) = Inr (Fin v)"
proof -
  define w where "w = 2 * p - of_int k"
  have w: "0 < w" "w < 1" "rnd w = w" using between exact by (simp_all add: w_def)
  have fl: "\<lfloor>2 * p\<rfloor> = k" "\<lceil>2 * p\<rceil> = k + 1" using between by (auto simp: floor_eq_iff ceiling_eq_iff)
  have two: "fmul (Fin 2) (Fin p) = Fin (2 * p)"
    using of_exact_small [of "2 * p"] k between exact(1) by auto
  have sub: "fsub (Fin (2 * p)) (Fin (of_int k)) = Fin w" "fsub (Fin 1) (Fin w) = Fin q"
    using fsub_Fin_bounded [of "2 * p" "of_int k"] fsub_Fin_bounded [of 1 w] w q(1) by (simp_all add: w_def)
  have "fmul (Fin v) (Fin q) = Fin (v * q)" "fmul (Fin v) (Fin w) = Fin (v * w)"
    using v w q of_exact_small [of q] of_exact_small [of w] of_exact_small [of 0] by auto
  moreover have "fadd (Fin (v * q)) (Fin (v * w)) = Fin v"
    using v w q one of_exact_small [of "q + w"] of_exact_small [of 0] by (auto simp: w_def)
  ultimately have sum: "fadd (fmul (Fin v) (Fin q)) (fmul (Fin v) (Fin w)) = Fin v" by simp
  show ?thesis
    using k by (auto simp: percentile_def Let_def float_of_int_small two float_floor_def float_ceil_def to_int_with_def fl
        py_index_def sub sub [simplified] sum simp del: fmul.simps fadd.simps)
qed

lemma percentile_equal:
  assumes v: "v = 0 \<or> v = 1"
  shows "percentile [Fin v, Fin v, Fin v] (Fin tied_rate) = Inr (Fin v)"
    and "percentile [Fin v, Fin v, Fin v] (Fin tied_p) = Inr (Fin v)"
    and "percentile [Fin v, Fin v, Fin v] (Fin (1 / 2)) = Inr (Fin v)"
proof -
  have "rnd (8827055269646172 / 2 ^ 53) = (8827055269646172 / 2 ^ 53 :: rat)"
    by (rule rnd_id, rule representableI [where m = 8827055269646172 and e = "- 53"]) (simp_all add: power_int_def power_divide)
  then show "percentile [Fin v, Fin v, Fin v] (Fin tied_rate) = Inr (Fin v)"
    using tied_rate_steps
    by (intro percentile_equal_between [OF v, where k = 0 and q = "8827055269646172 / 2 ^ 53"]) (simp_all add: tied_rate_def)
  show "percentile [Fin v, Fin v, Fin v] (Fin tied_p) = Inr (Fin v)"
    using tied_steps unit_ratios(4) of_exact_small [of 1]
    by (intro percentile_equal_between [OF v, where k = 1 and q = "2 - 2 * tied_p"]) (simp_all add: tied_p_def)
  have "fmul (Fin 2) (Fin (1 / 2)) = Fin 1" by (simp add: unit_ratios)
  then show "percentile [Fin v, Fin v, Fin v] (Fin (1 / 2)) = Inr (Fin v)"
    by (simp add: percentile_def Let_def float_of_int_small float_floor_def float_ceil_def to_int_with_def py_index_def del: fmul.simps)
qed

definition sample_percentile :: percentile_model where
  "sample_percentile = \<lparr>pm_features = BASE_FEATURE_NAMES, pm_centres = Fin 1 # replicate 11 (Fin 0),
     pm_scales = replicate 12 (Fin min_scale), pm_threshold = Fin 0\<rparr>"

definition run_value :: "string \<Rightarrow> rat" where
  "run_value f = of_bool (f = ''request_rate'')"

lemma run_row_feature_on: "f \<in> set ENHANCED_FEATURE_NAMES \<Longrightarrow> feature_value f (run_row r s b) = Inr (Fin (run_value f))"
  by (auto simp: run_row_def make_row_def feature_value_def dget_def run_value_def ENHANCED_FEATURE_NAMES_def BASE_FEATURE_NAMES_def
      REPETITION_FEATURE_NAMES_def TEMPORAL_FEATURE_NAMES_def run_features_def numeral_eq_Suc)

lemma base_subset: "set BASE_FEATURE_NAMES \<subseteq> set ENHANCED_FEATURE_NAMES"
  by (simp add: ENHANCED_FEATURE_NAMES_def)

lemmas run_row_feature = run_row_feature_on [OF subsetD [OF base_subset]]

lemma run_row_values:
  assumes "set features \<subseteq> set ENHANCED_FEATURE_NAMES"
  shows "row_values features (run_row r s b) = Inr (map (\<lambda>f. Fin (run_value f)) features)"
  unfolding row_values_def
  by (rule mapE_total) (use assms run_row_feature_on in \<open>auto simp: feature_value_def\<close>)

lemma sample_fit_feature:
  assumes "f \<in> set BASE_FEATURE_NAMES"
  shows "fit_feature (sp_train sample_parts) f = Inr (Fin (run_value f), Fin min_scale)"
proof -
  have v: "run_value f = 0 \<or> run_value f = 1" by (simp add: run_value_def)
  have "fsub (Fin (run_value f)) (Fin (run_value f)) = Fin 0" using of_exact_small [of 0] by (simp add: fsub_def)
  then show ?thesis
    using min_scale_pos
    by (simp add: fit_feature_def sample_parts_def run_row_feature [OF assms] hundredths percentile_equal [OF v] min_scale_float py_max_def)
qed

lemma run_row_scaled:
  assumes "f \<in> set BASE_FEATURE_NAMES"
  shows "scaled_deviation (run_row r s b) (f, Fin (run_value f), Fin min_scale) = Inr (Fin 0)"
  using min_scale_pos of_exact_small [of 0] by (simp add: scaled_deviation_def run_row_feature [OF assms] fsub_def)

lemma base_values: "map (\<lambda>f. Fin (run_value f)) BASE_FEATURE_NAMES = Fin 1 # replicate 11 (Fin 0)"
  "map (\<lambda>f. Fin min_scale) BASE_FEATURE_NAMES = replicate 12 (Fin min_scale)"
  by (simp_all add: BASE_FEATURE_NAMES_def run_value_def numeral_eq_Suc)

lemma zip_map_self: "zip xs (map g xs) = map (\<lambda>x. (x, g x)) xs"
  by (induction xs) simp_all

lemma sample_percentile_score: "percentile_score (sample_percentile\<lparr>pm_threshold := t\<rparr>) (run_row r s b) = Inr (Fin 0)"
proof -
  have "mapE (\<lambda>f. scaled_deviation (run_row r s b) (f, Fin (run_value f), Fin min_scale)) BASE_FEATURE_NAMES
      = Inr (map (\<lambda>f. Fin 0) BASE_FEATURE_NAMES)"
    by (rule mapE_total) (rule run_row_scaled)
  then show ?thesis
    by (simp add: percentile_score_def sample_percentile_def base_values [symmetric] mapE_map zip_map_map zip_map_self comp_def
        zip_same_conv_map) (simp add: py_max_def BASE_FEATURE_NAMES_def)
qed

lemma sample_percentile_fit:
  "percentile_fit (sp_train sample_parts) (sp_validation sample_parts) (Fin (1 / 2)) BASE_FEATURE_NAMES = Inr sample_percentile"
proof -
  let ?fit = "\<lambda>f. (Fin (run_value f), Fin min_scale)"
  have fitted: "mapE (fit_feature (sp_train sample_parts)) BASE_FEATURE_NAMES = Inr (map ?fit BASE_FEATURE_NAMES)"
    by (rule mapE_total) (rule sample_fit_feature)
  have "percentile_score sample_percentile r = percentile_score (sample_percentile\<lparr>pm_threshold := Fin 0\<rparr>) r" for r
    by (simp add: sample_percentile_def)
  then have "mapE (percentile_score sample_percentile) (sp_validation sample_parts) = Inr [Fin 0]"
    using sample_percentile_score by (simp add: sample_parts_def)
  moreover have "sp_train sample_parts \<noteq> []" "sp_validation sample_parts \<noteq> []" by (simp_all add: sample_parts_def)
  moreover have "percentile [Fin 0] p = Inr (Fin 0)" for p by (simp add: percentile_def)
  ultimately show ?thesis
    using fitted by (simp add: percentile_fit_def Let_def comp_def base_values) (simp add: sample_percentile_def)
qed

section \<open>A forest of leaves\<close>

definition leaf_sk_tree :: sk_tree where
  "leaf_sk_tree = \<lparr>sk_left = [-1], sk_right = [-1], sk_feature = [-2], sk_threshold = [Fin (-2)], sk_samples = [1]\<rparr>"

definition leaf_tree :: tree where
  "leaf_tree = \<lparr>t_left = [-1], t_right = [-1], t_feature = [-2], t_threshold = [Fin (-2)], t_samples = [1], t_depth = [0],
     t_feature_map = [0]\<rparr>"

definition leaf_fit :: "f64 list list \<Rightarrow> int \<Rightarrow> sk_forest" where
  "leaf_fit xs seed = \<lparr>sk_max_samples = 2, sk_estimators = replicate 100 (leaf_sk_tree, [0]),
     sk_score_samples = map (\<lambda>_. Fin (- 1 / 2))\<rparr>"

definition leaf_forest_on :: "string list \<Rightarrow> iforest" where
  "leaf_forest_on features = \<lparr>if_features = features, if_threshold = Fin (1 / 2), if_max_samples = 2,
     if_trees = replicate 100 leaf_tree\<rparr>"

abbreviation leaf_forest :: iforest where
  "leaf_forest \<equiv> leaf_forest_on BASE_FEATURE_NAMES"

lemma leaf_exports: "export_trees (replicate n (leaf_sk_tree, [0])) = Some (Inr (replicate n leaf_tree))"
proof (induction n)
  case (Suc n)
  have "fill_depths leaf_sk_tree [(0, 0)] [0] = Some (Inr [0])"
    by (subst fill_depths.simps, simp add: py_update_def leaf_sk_tree_def py_index_def, subst fill_depths.simps, simp)
  then have "export_tree leaf_sk_tree [0] = Some (Inr leaf_tree)"
    by (simp add: export_tree_def leaf_sk_tree_def leaf_tree_def)
  with Suc show ?case by simp
qed simp

lemma leaf_forest_exported:
  "export_isolation_forest (leaf_fit xs seed) (sp_validation sample_parts) (Fin (1 / 2)) BASE_FEATURE_NAMES = Some (Inr leaf_forest)"
proof -
  have "calibrated_threshold (leaf_fit xs seed) (sp_validation sample_parts) (Fin (1 / 2)) BASE_FEATURE_NAMES = Inr (Fin (1 / 2))"
    by (simp add: calibrated_threshold_def sample_parts_def leaf_fit_def percentile_def)
  then show ?thesis by (simp add: export_isolation_forest_def leaf_fit_def leaf_exports leaf_forest_on_def)
qed

lemma leaf_score_values:
  assumes "row_values features row = Inr xs"
  shows "iforest_score sample_libm (leaf_forest_on features) row = Some (Inr (Fin (1 / 2)))"
proof -
  have w: "walk leaf_tree vs 0 = Some (Inr 0)" for vs by (rule walk_leaf) (simp add: leaf_tree_def py_index_def)
  have "fadd (Fin 0) (Fin 0) = Fin 0" using of_exact_small [of 0] by simp
  then have "leaf_path sample_libm leaf_tree 0 = Inr (Fin 0)"
    by (simp add: leaf_path_def leaf_tree_def py_index_def average_path_length_def float_of_int_small)
  then have "total_path sample_libm vs (replicate n leaf_tree) (Fin 0) = Some (Inr (Fin 0))" for vs n
    using w \<open>fadd (Fin 0) (Fin 0) = Fin 0\<close> by (induction n) (simp_all del: fadd.simps)
  moreover have "fmul (Fin 100) (Fin 1) = Fin 100" using of_exact_small [of 100] by (simp add: rnd_id representable_numeral)
  moreover have "fdiv (fneg (Fin 0)) (Fin 100) = Inr (Fin 0)" using of_exact_small [of 0] by simp
  ultimately show ?thesis
    by (simp add: iforest_score_def assms leaf_forest_on_def final_score_def average_path_length_def float_of_int_small sample_libm_def
        del: fmul.simps fdiv.simps)
qed

lemma leaf_score_on:
  assumes "set features \<subseteq> set ENHANCED_FEATURE_NAMES"
  shows "iforest_score sample_libm (leaf_forest_on features) (run_row r s b) = Some (Inr (Fin (1 / 2)))"
  by (rule leaf_score_values [OF run_row_values [OF assms]])

lemmas leaf_score = leaf_score_on [OF base_subset]

lemma leaf_scores: "detector_scores sample_libm (Forest leaf_forest) (map (\<lambda>(r, s, b). run_row r s b) xs)
  = Some (Inr (map (\<lambda>_. Fin (1 / 2)) xs))"
  by (induction xs) (auto simp: leaf_score)

definition sample_vector :: "string list \<Rightarrow> string \<Rightarrow> string \<Rightarrow> bool \<Rightarrow> pyval" where
  "sample_vector features run scenario attack = PDict [(''run_id'', PStr run), (''scenario'', PStr scenario),
     (''is_attack'', PInt (of_bool attack)), (''window_start_ns'', PInt 0),
     (''values'', float_dict (zip features (map (\<lambda>f. Fin (run_value f)) features))), (''sklearn_score'', PFloat (Fin (1 / 2)))]"

definition sample_vectors :: "string list \<Rightarrow> string \<Rightarrow> pyval" where
  "sample_vectors features sha = PDict [(''schema'', PStr ''cote3-mon-iforest-parity-v1''), (''model_sha256'', PStr sha),
     (''tolerance'', PFloat (Fin 0)), (''features'', PList (map PStr features)),
     (''rows'', PList [sample_vector features ''e'' ''steady'' False, sample_vector features ''a'' ''steady'' False,
        sample_vector features ''f'' ''replay'' True])]"

lemma sample_vectors_storable:
  assumes "distinct features"
  shows "storable (sample_vectors features sha)"
proof -
  have "length (map (\<lambda>f. Fin (run_value f)) features) = length features" by simp
  from float_dict_storable [OF assms this] show ?thesis
    using half_f64 f64_zero_one short_ints
    by (simp add: sample_vectors_def sample_vector_def list_all_iff run_value_def)
qed

definition sample_sha :: string where
  "sample_sha = text_sha256 (dumps_compact (model_to_json leaf_forest 7))"

definition sample_models :: "string \<Rightarrow> models" where
  "sample_models stage = \<lparr>mo_percentile = sample_percentile, mo_exported = leaf_forest, mo_iforest = leaf_forest,
     mo_vectors = sample_vectors BASE_FEATURE_NAMES sample_sha,
     mo_parity = parity_value stage 3 (Fin 0) (Fin 0) sample_sha, mo_sha = sample_sha\<rparr>"

text \<open>The rows of the parity check, their scores and their vectors, for any feature set.\<close>

definition parity_runs :: "(string \<times> string \<times> bool) list" where
  "parity_runs = [(''e'', ''steady'', False), (''a'', ''steady'', False), (''f'', ''replay'', True)]"

lemma parity_rows: "sp_validation sample_parts @ sp_benign sample_parts @ sp_attack sample_parts = map (\<lambda>(r, s, b). run_row r s b) parity_runs"
  by (simp add: sample_parts_def parity_runs_def)

lemma sample_parity:
  assumes "set features \<subseteq> set ENHANCED_FEATURE_NAMES"
  shows "reference_scores (leaf_fit xs 7) features (map (\<lambda>(r, s, b). run_row r s b) parity_runs) = Inr (replicate 3 (Fin (1 / 2)))"
    and "detector_scores sample_libm (Forest (leaf_forest_on features)) (map (\<lambda>(r, s, b). run_row r s b) parity_runs)
      = Some (Inr (replicate 3 (Fin (1 / 2))))"
    and "parity_vectors sha (Fin 0) features (map (\<lambda>(r, s, b). run_row r s b) parity_runs) (replicate 3 (Fin (1 / 2))) = Inr (sample_vectors features sha)"
    and "fit_isolation_forest (Some leaf_fit) (sp_train sample_parts) 7 features
      = Inr (leaf_fit (replicate 3 (map (\<lambda>f. Fin (run_value f)) features)) 7)"
proof -
  note vals = run_row_values [OF assms]
  show "reference_scores (leaf_fit xs 7) features (map (\<lambda>(r, s, b). run_row r s b) parity_runs) = Inr (replicate 3 (Fin (1 / 2)))"
    by (simp add: reference_scores_def leaf_fit_def numeral_3_eq_3 parity_runs_def vals)
  show "detector_scores sample_libm (Forest (leaf_forest_on features)) (map (\<lambda>(r, s, b). run_row r s b) parity_runs)
      = Some (Inr (replicate 3 (Fin (1 / 2))))"
    by (simp add: parity_runs_def numeral_3_eq_3 leaf_score_on [OF assms])
  have "vector_row features (run_row r s b, Fin (1 / 2)) = Inr (sample_vector features r s b)" for r s b
    by (simp add: vector_row_def sample_vector_def vals)
  then show "parity_vectors sha (Fin 0) features (map (\<lambda>(r, s, b). run_row r s b) parity_runs) (replicate 3 (Fin (1 / 2)))
      = Inr (sample_vectors features sha)"
    by (simp add: parity_vectors_def sample_vectors_def numeral_3_eq_3 parity_runs_def)
  show "fit_isolation_forest (Some leaf_fit) (sp_train sample_parts) 7 features
      = Inr (leaf_fit (replicate 3 (map (\<lambda>f. Fin (run_value f)) features)) 7)"
    by (simp add: fit_isolation_forest_def sample_parts_def numeral_3_eq_3 vals)
qed

lemma sample_differences: "py_max (differences (replicate 3 (Fin (1 / 2))) (replicate 3 (Fin (1 / 2)))) = Inr (Fin 0)"
proof -
  have "fabs (fsub (Fin (1 / 2)) (Fin (1 / 2))) = Fin 0" using of_exact_small [of 0] by (simp add: fsub_def)
  then show ?thesis by (simp add: differences_def numeral_3_eq_3 py_max_def)
qed

lemma sample_fit_models: "fit_models (Some leaf_fit) sample_libm stage sample_config sample_parts = Some (Inr (sample_models stage))"
proof -
  note parity = sample_parity [OF base_subset]
  have init: "iforest_init (model_to_json leaf_forest 7) = Inr leaf_forest"
    by (rule model_json_round_trip) (simp add: leaf_forest_on_def)
  have n: "length (if_trees leaf_forest) = 100" by (simp add: leaf_forest_on_def)
  have m: "max_or_zero (differences (replicate 3 (Fin (1 / 2))) (replicate 3 (Fin (1 / 2)))) = Fin 0"
    by (simp add: max_or_zero_def sample_differences)
  have le: "fle (Fin 0) (Fin 0)" by (simp add: fle_def)
  have len: "length (map (\<lambda>(r, s, b). run_row r s b) parity_runs) = 3" by (simp add: parity_runs_def)
  show ?thesis
    unfolding fit_models_def parity_rows Let_def
    by (simp only: sample_config_reads bindO_simps sample_percentile_fit parity leaf_forest_exported n require_True init m bindE_simps le len)
      (simp add: sample_models_def sample_sha_def)
qed

section \<open>Metrics\<close>

definition test_rows :: "pyval list" where
  "test_rows = [run_row ''a'' ''steady'' False, run_row ''f'' ''replay'' True]"

definition no_alerts :: metrics where
  "no_alerts = \<lparr>m_tp = 0, m_fp = 0, m_tn = 1, m_fn = 1, m_precision = Fin 0, m_recall = Fin 0, m_f1 = Fin 0, m_fpr = Fin 0,
     m_auprc = Fin (1 / 2)\<rparr>"

lemma sample_classification: "classification_metrics [0, 1] [Fin v, Fin v] (Fin v) = Inr no_alerts"
proof -
  have zero: "int_truediv 0 1 = Inr (Fin 0)" and one: "int_truediv 1 1 = Inr (Fin 1)" and half: "int_truediv 1 2 = Inr (Fin (1 / 2))"
    using half_f64 by (simp_all add: int_truediv_def exact_or_overflow_small)
  have "fadd (Fin 0) (Fin 0) = Fin 0" and "fsub (Fin 1) (Fin 0) = Fin 1" and "fmul (Fin 1) (Fin (1 / 2)) = Fin (1 / 2)"
    and "fadd (Fin 0) (Fin (1 / 2)) = Fin (1 / 2)"
    using of_exact_small [of 0] by (simp_all add: fsub_def unit_ratios hundredths)
  then show ?thesis
    using zero one half
    by (simp add: classification_metrics_def predict_def count_pairs_def ratio_or_zero_def f1_score_def average_precision_def
        enumerate1_def rank_by_score_def precision_step_def no_alerts_def Let_def del: fadd.simps fmul.simps)
qed

lemma sample_intervals:
  "run_intervals rb seed test_rows [x, y] t 0
    = Inr (map (\<lambda>m. (m @ ''_ci95'', PList [PFloat (Fin 0), PFloat (Fin 0)])) [''precision'', ''recall'', ''f1'', ''auprc''])"
  by (simp add: run_intervals_def bootstrap_run_metric_interval_def test_rows_def run_groups_def group_by_def group_append_def
      dset_def dget_def interval_of_def)

lemma quiet_delays: "attack_detection_delays test_rows [Fin v, Fin v] (Fin v) = Inr [(''f'', None)]"
  by (simp add: attack_detection_delays_def test_rows_def note_attack_def group_append_def dset_def dget_def delay_of_def)

definition sample_scenarios :: pyval where
  "sample_scenarios = PDict [(''replay'', entry_dict True 1 0 (Fin 0) 1 0 (Fin 0)), (''steady'', entry_dict False 1 0 (Fin 0) 1 0 (Fin 0))]"

lemma sample_scenario_summary: "scenario_summary test_rows [Fin v, Fin v] (Fin v) = Inr sample_scenarios"
proof -
  have zero: "int_truediv 0 1 = Inr (Fin 0)" by (simp add: int_truediv_def exact_or_overflow_small)
  show ?thesis
    using zero by (simp add: scenario_summary_def test_rows_def sorted_field_def scenario_entry_def scenario_rows_def enumerate0_def
      scenario_alerts_def py_index_def first_is_attack_def alerted_run_ids_def ratio_or_zero_def sample_scenarios_def Let_def)
qed

definition sample_report :: "string \<Rightarrow> f64 \<Rightarrow> pyval" where
  "sample_report name threshold = PDict (metrics_dict no_alerts @
     map (\<lambda>m. (m @ ''_ci95'', PList [PFloat (Fin 0), PFloat (Fin 0)])) [''precision'', ''recall'', ''f1'', ''auprc''] @
     [(''false_alerts_per_hour'', PFloat (Fin 0)), (''threshold'', PFloat threshold), (''windows'', PInt 2), (''runs'', PInt 2),
      (''attack_detection_delay_seconds'', PDict [(''f'', PNone)]), (''per_scenario'', sample_scenarios), (''detector'', PStr name)])"

lemma sample_evaluate:
  assumes "detector_scores lm det test_rows = Some (Inr [Fin v, Fin v])" and "detector_threshold det = Fin v"
  shows "evaluate_detector rb seed lm name det test_rows 1 0 = Some (Inr (sample_report name (Fin v)))"
proof -
  have labels: "mapE (\<lambda>row. int_field row ''is_attack'') test_rows = Inr [0, 1]" by (simp add: test_rows_def)
  have ids: "sorted_field ''run_id'' test_rows = Inr [''a'', ''f'']" by (simp add: test_rows_def sorted_field_def)
  have n: "length test_rows = 2" by (simp add: test_rows_def)
  have "fdiv (Fin 1) (Fin 3600) = Inr (Fin (rnd (1 / 3600)))" by (simp add: of_exact_small)
  then have hours: "benign_hours [0, 1] 1 = Inr (Fin (rnd (1 / 3600)))" by (simp add: benign_hours_def float_of_int_small)
  define h where "h = rnd (1 / 3600 :: rat)"
  have "h \<noteq> 0 \<Longrightarrow> fdiv (Fin 0) (Fin h) = Inr (Fin 0)" using of_exact_small [of 0] by simp
  then have per_hour: "(if Fin h \<noteq> Fin 0 then bindE (float_of_int (m_fp no_alerts)) (\<lambda>fp. fdiv fp (Fin h)) else Inr (Fin 0)) = Inr (Fin 0)"
    by (simp add: no_alerts_def float_of_int_small)
  show ?thesis
    unfolding evaluate_detector_def assms bindO_simps labels evaluate_scores_def sample_classification bindE_simps sample_intervals
      hours [folded h_def] per_hour ids quiet_delays sample_scenario_summary n
    by (simp add: sample_report_def delays_dict_def optional_float_def)
qed

lemma sample_host_metrics:
  "\<exists>m. host_metrics first_item (\<lambda>_. ()) sample_libm ''stage3'' False sample_config sample_parts (sample_models stage) 0 = Some (Inr m) \<and> storable m"
proof -
  have tests: "sp_benign sample_parts @ sp_attack sample_parts = test_rows" by (simp add: sample_parts_def test_rows_def)
  have p: "detector_scores sample_libm (Percentile sample_percentile) test_rows = Some (Inr [Fin 0, Fin 0])"
    and pv: "detector_scores sample_libm (Percentile sample_percentile) (sp_validation sample_parts) = Some (Inr [Fin 0])"
    using sample_percentile_score [of "Fin 0"] by (simp_all add: test_rows_def sample_parts_def sample_percentile_def)
  have f: "detector_scores sample_libm (Forest leaf_forest) test_rows = Some (Inr [Fin (1 / 2), Fin (1 / 2)])"
    and fv: "detector_scores sample_libm (Forest leaf_forest) (sp_validation sample_parts) = Some (Inr [Fin (1 / 2)])"
    by (simp_all add: test_rows_def sample_parts_def leaf_score)
  have th: "detector_threshold (Percentile sample_percentile) = Fin 0" "detector_threshold (Forest leaf_forest) = Fin (1 / 2)"
    by (simp_all add: sample_percentile_def leaf_forest_on_def)
  have "int_truediv 0 1 = Inr (Fin 0)" by (simp add: int_truediv_def exact_or_overflow_small)
  then have rate: "alert_rate (pm_threshold sample_percentile) [Fin 0] = Inr (Fin 0)"
    "alert_rate (if_threshold leaf_forest) [Fin (1 / 2)] = Inr (Fin 0)"
    by (simp_all add: alert_rate_def sample_percentile_def leaf_forest_on_def)
  have models: "mo_percentile (sample_models stage) = sample_percentile" "mo_iforest (sample_models stage) = leaf_forest"
    by (simp_all add: sample_models_def)
  let ?m = "metrics_value ''stage3'' False (PStr ''stage3'') (Fin (1 / 2)) (Fin 0) (Fin 0) (sample_report ''percentile'' (Fin 0))
    (sample_report ''iforest'' (Fin (1 / 2)))"
  have "storable ?m"
    using half_f64 f64_zero_one short_ints
    by (simp add: metrics_value_def sample_report_def metrics_dict_def no_alerts_def sample_scenarios_def entry_dict_def)
  then show ?thesis
    by (simp add: host_metrics_def models pv fv rate tests sample_evaluate [OF p th(1)] sample_evaluate [OF f th(2)])
qed

section \<open>The run\<close>

definition sample_pipeline :: "host_files result option" where
  "sample_pipeline = host_pipeline first_item (\<lambda>_. ()) (\<lambda>_. ()) (Some leaf_fit) sample_libm ''3.10'' (Some (''1'', ''1''))
     (dumps_indent sample_config) [map json_dumps run_events] [] sample_results 0"

lemma leaf_forest_storable: "storable (model_to_json (leaf_forest_on features) 7)"
  using half_f64 short_ints small_below_max64 [of 2]
  by (simp add: model_to_json_def tree_to_json_def leaf_forest_on_def leaf_tree_def list_all_iff short_int_def nat_str.simps rnd_id representable_numeral)

lemma sample_manifest: "\<exists>v. split_manifest ''stage3'' 7 False 6 sample_parts ([''b'', ''c'', ''d''], [''e''], [''a''], [''f'']) = Inr v \<and> storable v"
  using short_ints by (simp add: split_manifest_def scenario_run_counts_def sample_parts_def sorted_field_def short_int_def nat_str.simps list_all_iff)

lemma sample_pipeline_runs:
  "\<exists>files. sample_pipeline = Some (Inr files)
    \<and> list_all storable [hf_forest files, hf_vectors files, hf_parity files, hf_metrics files, hf_split files, hf_summary files]
    \<and> hf_parity files = parity_value ''stage3'' 3 (Fin 0) (Fin 0) sample_sha"
proof -
  obtain features where features: "write_csv run_rows BASE_FEATURE_NAMES = Inr features"
    using sample_tables(1) by (rule is_okE)
  obtain tables where tables: "split_tables sample_parts = Inr tables" using sample_tables(2) by (rule is_okE)
  obtain train validation test where t: "tables = (train, validation, test)" by (cases tables)
  obtain m where m: "host_metrics first_item (\<lambda>_. ()) sample_libm ''stage3'' False sample_config sample_parts (sample_models ''stage3'') 0 = Some (Inr m)"
    "storable m" using sample_host_metrics by blast
  obtain v where v: "split_manifest ''stage3'' 7 False 6 sample_parts ([''b'', ''c'', ''d''], [''e''], [''a''], [''f'']) = Inr v" "storable v"
    using sample_manifest by blast
  have n: "length run_rows = 6" by (simp add: run_rows_def)
  have exported: "mo_exported (sample_models s) = leaf_forest" "mo_percentile (sample_models s) = sample_percentile" for s
    by (simp_all add: sample_models_def)
  have vectors: "storable (mo_vectors (sample_models ''stage3''))"
    by (simp add: sample_models_def sample_vectors_storable base_features_distinct)
  have parity: "storable (mo_parity (sample_models ''stage3''))"
    using f64_zero_one by (simp add: sample_models_def parity_value_def short_int_def nat_str.simps)
  have summary: "storable (summary_value ''stage3'' False False (PStr ''stage3'') (3, Fin 1, 0, 1) x (a, b, c)
      [(''percentile_sha256'', h1), (''iforest_sha256'', h2), (''features_sha256'', h3), (''parity_vectors_sha256'', h4)])" for x a b c h1 h2 h3 h4
    using f64_zero_one by (simp add: summary_value_def short_int_def nat_str.simps check_texts_def list_all_iff)
  show ?thesis
    unfolding sample_pipeline_def host_pipeline_def sample_config_loads bindO_simps
    by (simp add: sample_read_rows features sample_split sample_check_splits tables t sample_fit_models m(1) n v(1) exported)
       (simp add: leaf_forest_storable vectors parity m(2) v(2) summary, simp add: sample_models_def)
qed

end
