(* ===== verification/Comparison.thy ===== *)
theory Comparison
  imports Host_Sample
begin

text \<open>
  \<open>scripts/stage5-statistical-comparison.py\<close>: two forests on the same test windows, compared by
  a bootstrap that draws complete runs once for both.  The draws are those of \<open>Evaluation\<close>.
\<close>

section \<open>Metric differences\<close>

definition index_percentile :: "f64 list \<Rightarrow> f64 \<Rightarrow> f64 result" where
  "index_percentile values probability =
     (let ordered = sort values in
      bindE (float_of_int (int (length ordered) - 1)) (\<lambda>n.
      bindE (float_trunc (fmul probability n)) (py_index ordered)))"

definition ci95 :: "f64 list \<Rightarrow> (f64 \<times> f64) result" where
  "ci95 values =
     bindE (index_percentile values (of_exact (25 / 1000))) (\<lambda>low.
     bindE (index_percentile values (of_exact (975 / 1000))) (\<lambda>high. Inr (low, high)))"

definition compared_metrics :: "string list" where
  "compared_metrics = [''precision'', ''recall'', ''f1'', ''auprc'']"

definition metric_difference :: "metrics \<Rightarrow> metrics \<Rightarrow> string \<Rightarrow> f64 result" where
  "metric_difference left right name =
     bindE (metric_value right name) (\<lambda>r. bindE (metric_value left name) (\<lambda>l. Inr (fsub r l)))"

text \<open>The scores of a model on the windows, with its threshold.\<close>

type_synonym scored = "f64 list \<times> f64"

definition sampled_metrics :: "int list \<Rightarrow> scored \<Rightarrow> nat list \<Rightarrow> metrics result" where
  "sampled_metrics labels = (\<lambda>(scores, threshold) indices.
     bindE (mapE (\<lambda>i. py_index scores (int i)) indices) (\<lambda>sampled. classification_metrics labels sampled threshold))"

definition paired_step ::
  "'s randbelow \<Rightarrow> int list \<Rightarrow> scored \<Rightarrow> scored \<Rightarrow> (string \<times> nat list) list \<Rightarrow> string list \<Rightarrow> nat \<Rightarrow>
   's \<times> (string \<times> f64 list) list \<Rightarrow> ('s \<times> (string \<times> f64 list) list) result" where
  "paired_step rb labels left right groups run_ids = (\<lambda>_ (s, differences).
     let (draw, s1) = draws rb (length run_ids) (length run_ids) s;
         indices = sampled_indices groups run_ids draw in
     bindE (mapE (\<lambda>i. py_index labels (int i)) indices) (\<lambda>sampled.
     if single_class sampled then Inr (s1, differences)
     else bindE (sampled_metrics sampled left indices) (\<lambda>l.
          bindE (sampled_metrics sampled right indices) (\<lambda>r.
          bindE (mapE (\<lambda>(name, ds). mapR (\<lambda>d. (name, ds @ [d])) (metric_difference l r name)) differences) (\<lambda>new.
          Inr (s1, new))))))"

definition metric_entry :: "metrics \<Rightarrow> metrics \<Rightarrow> string \<times> f64 list \<Rightarrow> (string \<times> pyval) result" where
  "metric_entry left right = (\<lambda>(name, differences).
     bindE (metric_difference left right name) (\<lambda>d.
     bindE (ci95 differences) (\<lambda>(low, high).
     Inr (name, PDict [(''difference'', PFloat d), (''ci95'', PList [PFloat low, PFloat high])]))))"

definition paired_metrics :: "'s randbelow \<Rightarrow> pyval list \<Rightarrow> scored \<Rightarrow> scored \<Rightarrow> nat \<Rightarrow> 's \<Rightarrow> (string \<times> nat list) list \<Rightarrow> int list \<Rightarrow> pyval result" where
  "paired_metrics rb rows left right iterations seed groups labels =
     bindE (foldE (paired_step rb labels left right groups (sort (map fst groups))) [0..<iterations]
       (seed, map (\<lambda>name. (name, [])) compared_metrics)) (\<lambda>(_, differences).
     bindE (classification_metrics labels (fst left) (snd left)) (\<lambda>l.
     bindE (classification_metrics labels (fst right) (snd right)) (\<lambda>r.
     mapR PDict (mapE (metric_entry l r) differences))))"

definition paired_metric_intervals ::
  "'s randbelow \<Rightarrow> libm \<Rightarrow> pyval list \<Rightarrow> iforest \<Rightarrow> iforest \<Rightarrow> nat \<Rightarrow> 's \<Rightarrow> pyval result option" where
  "paired_metric_intervals rb lm rows left right iterations seed =
     tryO (run_groups rows) (\<lambda>groups.
     tryO (mapE (\<lambda>row. int_field row ''is_attack'') rows) (\<lambda>labels.
     bindO (detector_scores lm (Forest left) rows) (\<lambda>left_scores.
     bindO (detector_scores lm (Forest right) rows) (\<lambda>right_scores.
     Some (paired_metrics rb rows (left_scores, if_threshold left) (right_scores, if_threshold right) iterations seed groups labels)))))"

section \<open>Detected runs\<close>

text \<open>\<open>any(model.score(row) > model.threshold for row in rows)\<close>\<close>

fun any_alert :: "libm \<Rightarrow> iforest \<Rightarrow> pyval list \<Rightarrow> bool result option" where
  "any_alert lm f [] = Some (Inr False)"
| "any_alert lm f (row # rows) =
     bindO (iforest_score lm f row) (\<lambda>score. if flt (if_threshold f) score then Some (Inr True) else any_alert lm f rows)"

fun run_alerts :: "libm \<Rightarrow> iforest \<Rightarrow> pyval list \<Rightarrow> string list \<Rightarrow> (string \<times> bool) list result option" where
  "run_alerts lm f rows [] = Some (Inr [])"
| "run_alerts lm f rows (run_id # run_ids) =
     tryO (rows_of_runs [run_id] rows) (\<lambda>own.
     bindO (any_alert lm f own) (\<lambda>alert.
     map_option (mapR (\<lambda>rest. (run_id, alert) # rest)) (run_alerts lm f rows run_ids)))"

definition alert_change :: "(string \<times> bool) list \<Rightarrow> (string \<times> bool) list \<Rightarrow> string \<Rightarrow> int" where
  "alert_change left right run_id = of_bool (dget right run_id = Some True) - of_bool (dget left run_id = Some True)"

definition mean_change :: "(string \<times> bool) list \<Rightarrow> (string \<times> bool) list \<Rightarrow> string list \<Rightarrow> f64 result" where
  "mean_change left right runs = int_truediv (sum_list (map (alert_change left right) runs)) (int (length runs))"

definition change_step ::
  "'s randbelow \<Rightarrow> (string \<times> bool) list \<Rightarrow> (string \<times> bool) list \<Rightarrow> string list \<Rightarrow> nat \<Rightarrow> 's \<times> f64 list \<Rightarrow> ('s \<times> f64 list) result" where
  "change_step rb left right run_ids = (\<lambda>_ (s, differences).
     let (draw, s1) = draws rb (length run_ids) (length run_ids) s in
     bindE (mapE (\<lambda>i. py_index run_ids (int i)) draw) (\<lambda>sampled.
     bindE (mean_change left right sampled) (\<lambda>d. Inr (s1, differences @ [d]))))"

definition count_alerts :: "(string \<times> bool) list \<Rightarrow> nat" where
  "count_alerts alerts = length (filter snd alerts)"

record run_comparison =
  rc_runs :: nat
  rc_left :: nat
  rc_right :: nat
  rc_difference :: f64
  rc_low :: f64
  rc_high :: f64

definition compare_runs ::
  "'s randbelow \<Rightarrow> nat \<Rightarrow> 's \<Rightarrow> string list \<Rightarrow> (string \<times> bool) list \<Rightarrow> (string \<times> bool) list \<Rightarrow> run_comparison result" where
  "compare_runs rb iterations seed run_ids left right =
     bindE (mean_change left right run_ids) (\<lambda>point.
     bindE (foldE (change_step rb left right run_ids) [0..<iterations] (seed, [])) (\<lambda>(_, differences).
     bindE (ci95 differences) (\<lambda>(low, high).
     Inr \<lparr>rc_runs = length run_ids, rc_left = count_alerts left, rc_right = count_alerts right, rc_difference = point,
          rc_low = low, rc_high = high\<rparr>)))"

definition paired_run_detection_interval ::
  "'s randbelow \<Rightarrow> libm \<Rightarrow> pyval list \<Rightarrow> iforest \<Rightarrow> iforest \<Rightarrow> string \<Rightarrow> nat \<Rightarrow> 's \<Rightarrow> run_comparison result option" where
  "paired_run_detection_interval rb lm rows left right scenario iterations seed =
     tryO (filterE (\<lambda>row. mapR (\<lambda>s. s = scenario) (str_field ''scenario'' row)) rows) (\<lambda>own.
     tryO (sorted_field ''run_id'' own) (\<lambda>run_ids.
     bindO (run_alerts lm left own run_ids) (\<lambda>left_alert.
     bindO (run_alerts lm right own run_ids) (\<lambda>right_alert.
     Some (compare_runs rb iterations seed run_ids left_alert right_alert)))))"

definition comparison_value :: "run_comparison \<Rightarrow> pyval" where
  "comparison_value c =
     PDict [(''runs'', PInt (int (rc_runs c))), (''left_alerted_runs'', PInt (int (rc_left c))),
       (''right_alerted_runs'', PInt (int (rc_right c))), (''difference'', PFloat (rc_difference c)),
       (''ci95'', PList [PFloat (rc_low c), PFloat (rc_high c)])]"

section \<open>The script\<close>

definition test_ids :: "pyval \<Rightarrow> pyval list result" where
  "test_ids results =
     bindE (bindE (py_subscript results ''split_run_ids'') (\<lambda>v. set_field v ''benign_test'')) (\<lambda>benign.
     bindE (bindE (py_subscript results ''split_run_ids'') (\<lambda>v. set_field v ''attack_test'')) (\<lambda>attack.
     Inr (remdups (benign @ attack))))"

definition run_detection_value :: "'s randbelow \<Rightarrow> libm \<Rightarrow> pyval list \<Rightarrow> iforest \<Rightarrow> iforest \<Rightarrow> nat \<Rightarrow> 's \<Rightarrow> string \<Rightarrow> (string \<times> pyval) result option" where
  "run_detection_value rb lm rows base other iterations seed scenario =
     map_option (mapR (\<lambda>c. (scenario @ ''_run_detection'', comparison_value c)))
       (paired_run_detection_interval rb lm rows base other scenario iterations seed)"

definition compare_pair ::
  "'s randbelow \<Rightarrow> libm \<Rightarrow> pyval list \<Rightarrow> iforest \<Rightarrow> iforest \<Rightarrow> nat \<Rightarrow> 's \<Rightarrow> string list \<Rightarrow> pyval result option" where
  "compare_pair rb lm rows base other iterations seed scenarios =
     bindO (paired_metric_intervals rb lm rows base other iterations seed) (\<lambda>overall.
     bindO (mapO (run_detection_value rb lm rows base other iterations seed) scenarios) (\<lambda>detection.
     Some (Inr (PDict ((''overall'', overall) # detection)))))"

definition comparison_pairs :: "(string \<times> string list) list" where
  "comparison_pairs = [(''enhanced18'', [''replay'', ''flood'']), (''temporal16'', [''flood'']), (''repetition14'', [''replay''])]"

definition comparison_output :: "nat \<Rightarrow> int \<Rightarrow> (string \<times> pyval) list \<Rightarrow> pyval" where
  "comparison_output iterations seed comparisons =
     PDict [(''schema'', PStr ''cote3-mon-stage5-paired-bootstrap-v1''), (''status'', PStr ''PASS''),
       (''iterations'', PInt (int iterations)), (''seed'', PInt seed), (''resampling_unit'', PStr ''complete run''),
       (''interpretation'', PStr ''Intervals crossing zero do not provide clear evidence of a positive paired difference under this sample.''),
       (''comparisons'', PDict comparisons)]"

definition statistical_comparison ::
  "'s randbelow \<Rightarrow> (int \<Rightarrow> 's) \<Rightarrow> libm \<Rightarrow> string \<Rightarrow> string list list \<Rightarrow> (string \<Rightarrow> string) \<Rightarrow> nat \<Rightarrow> int \<Rightarrow> pyval result option" where
  "statistical_comparison rb seeded lm results_text table model_text iterations seed =
     tryO (json_loads results_text) (\<lambda>results.
     tryO (read_feature_csv table ENHANCED_FEATURE_NAMES) (\<lambda>rows.
     tryO (test_ids results) (\<lambda>ids.
     tryO (filterE (\<lambda>row. mapR (\<lambda>r. PStr r \<in> set ids) (str_field ''run_id'' row)) rows) (\<lambda>test.
     tryO (mapE (\<lambda>name. mapR (Pair name) (bindE (json_loads (model_text name)) iforest_init))
       [''base12'', ''temporal16'', ''repetition14'', ''enhanced18'']) (\<lambda>models.
     let model = (\<lambda>name. the (dget models name)) in
     bindO (mapO (\<lambda>(name, scenarios). map_option (mapR (Pair (name @ ''_minus_base12'')))
         (compare_pair rb lm test (model ''base12'') (model name) iterations (seeded seed) scenarios)) comparison_pairs) (\<lambda>comparisons.
     Some (Inr (comparison_output iterations seed comparisons))))))))"

section \<open>What the intervals hold\<close>

lemma ci95_interval: "values \<noteq> [] \<Longrightarrow> ci95 values = interval_of values"
  by (simp add: ci95_def index_percentile_def interval_of_def Let_def)

lemma any_alert_iff:
  "any_alert lm f rows = Some (Inr b) \<Longrightarrow>
    b \<longleftrightarrow> (\<exists>row\<in>set rows. \<exists>score. iforest_score lm f row = Some (Inr score) \<and> flt (if_threshold f) score)"
  by (induction rows) (auto simp: bindO_Inr_iff split: if_splits)

text \<open>A run is reported by a model when one of its windows scores above the threshold.\<close>

definition reported_run :: "libm \<Rightarrow> iforest \<Rightarrow> pyval list \<Rightarrow> string \<Rightarrow> bool" where
  "reported_run lm f rows run_id \<longleftrightarrow>
     (\<exists>row\<in>set rows. str_field ''run_id'' row = Inr run_id
        \<and> (\<exists>score. iforest_score lm f row = Some (Inr score) \<and> flt (if_threshold f) score))"

lemma rows_of_one_run:
  "rows_of_runs [run_id] rows = Inr own \<Longrightarrow> set own = {row \<in> set rows. str_field ''run_id'' row = Inr run_id}"
  unfolding rows_of_runs_def by (drule filterE_Inr(1)) (auto simp: mapR_eq_Inr_iff)

lemma run_alerts_reported:
  "run_alerts lm f rows run_ids = Some (Inr alerts) \<Longrightarrow> alerts = map (\<lambda>r. (r, reported_run lm f rows r)) run_ids"
proof (induction run_ids arbitrary: alerts)
  case (Cons r rs)
  obtain own b rest where own: "rows_of_runs [r] rows = Inr own" and b: "any_alert lm f own = Some (Inr b)"
    and rest: "run_alerts lm f rows rs = Some (Inr rest)" "alerts = (r, b) # rest"
    using Cons.prems by (auto simp: bindO_Inr_iff mapR_eq_Inr_iff)
  have "b = reported_run lm f rows r"
    using any_alert_iff [OF b] rows_of_one_run [OF own] by (auto simp: reported_run_def)
  then show ?case using Cons.IH [OF rest(1)] rest(2) by simp
qed simp

lemma alert_change_reported:
  "r \<in> set run_ids \<Longrightarrow> alert_change (map (\<lambda>r. (r, p r)) run_ids) (map (\<lambda>r. (r, q r)) run_ids) r = of_bool (q r) - of_bool (p r)"
  by (simp add: alert_change_def dget_def map_of_map_restrict)

lemma sum_changes: "(\<Sum>r\<leftarrow>rs. of_bool (q r) - of_bool (p r) :: int) = int (length (filter q rs)) - int (length (filter p rs))"
  by (induction rs) auto

lemma mean_change_unit:
  assumes "runs \<noteq> []"
  obtains d where "mean_change left right runs = Inr (Fin d)" and "- 1 \<le> d" and "d \<le> 1"
    and "d = rnd (of_int (\<Sum>r\<leftarrow>runs. alert_change left right r) / of_nat (length runs))"
proof -
  let ?k = "\<Sum>r\<leftarrow>runs. alert_change left right r"
  have "\<bar>?k\<bar> \<le> int (length runs)"
  proof (induction runs)
    case (Cons r rs)
    have "\<bar>alert_change left right r\<bar> \<le> 1" by (auto simp: alert_change_def)
    with Cons show ?case by simp
  qed simp
  then have "\<bar>of_int ?k :: rat\<bar> \<le> of_nat (length runs)" by (metis of_int_abs of_int_le_iff of_int_of_nat_eq)
  then have q: "\<bar>of_int ?k / of_nat (length runs) :: rat\<bar> \<le> 1" using assms by (simp add: divide_le_eq)
  have one: "\<bar>rnd (of_int ?k / of_nat (length runs) :: rat)\<bar> \<le> 1"
    using representable_pow2 [of 0, where 'a = rat] by (intro abs_rnd_le [OF q]) simp
  have "\<bar>of_int ?k / of_nat (length runs) :: rat\<bar> \<le> 2 ^ 64" using q by (rule order_trans) simp
  then have "mean_change left right runs = Inr (Fin (rnd (of_int ?k / of_nat (length runs))))"
    using assms by (simp add: mean_change_def int_truediv_def exact_or_overflow_small)
  then show thesis using that one by (simp add: abs_le_iff)
qed

lemma change_loop:
  assumes rb: "bounded_draws rb" and ne: "run_ids \<noteq> []" and "\<forall>d\<in>set ds. \<exists>q. d = Fin q \<and> - 1 \<le> q \<and> q \<le> 1"
  obtains s' ds' where "foldE (change_step rb left right run_ids) ks (s, ds) = Inr (s', ds')"
    and "\<forall>d\<in>set ds'. \<exists>q. d = Fin q \<and> - 1 \<le> q \<and> q \<le> 1" and "length ds' = length ds + length ks"
  using assms(3)
proof (induction ks arbitrary: s ds thesis)
  case (Cons k ks)
  obtain draw s1 where d: "draws rb (length run_ids) (length run_ids) s = (draw, s1)" by fastforce
  have b: "length draw = length run_ids" "\<forall>i\<in>set draw. i < length run_ids" using draws_bounds [OF rb d] by auto
  have m: "mapE (\<lambda>i. py_index run_ids (int i)) draw = Inr (map ((!) run_ids) draw)" by (rule mapE_py_index [OF b(2)])
  have "map ((!) run_ids) draw \<noteq> []" using b(1) ne by auto
  then obtain q where q: "mean_change left right (map ((!) run_ids) draw) = Inr (Fin q)" "- 1 \<le> q" "q \<le> 1"
    by (rule mean_change_unit)
  have "\<forall>d\<in>set (ds @ [Fin q]). \<exists>q. d = Fin q \<and> - 1 \<le> q \<and> q \<le> 1" using Cons.prems(2) q(2,3) by auto
  from Cons.IH [OF _ this, of s1] obtain s' ds' where
    "foldE (change_step rb left right run_ids) ks (s1, ds @ [Fin q]) = Inr (s', ds')"
    "\<forall>d\<in>set ds'. \<exists>q. d = Fin q \<and> - 1 \<le> q \<and> q \<le> 1" "length ds' = length (ds @ [Fin q]) + length ks" by metis
  then show ?case by (intro Cons.prems(1) [of s' ds']) (simp_all add: change_step_def d m q(1))
qed simp

definition own_rows :: "pyval list \<Rightarrow> string \<Rightarrow> pyval list" where
  "own_rows rows scenario = filter (\<lambda>row. str_field ''scenario'' row = Inr scenario) rows"

lemma scenario_filter:
  "filterE (\<lambda>row. mapR (\<lambda>s. s = scenario) (str_field ''scenario'' row)) rows = Inr own \<Longrightarrow> own = own_rows rows scenario"
  by (drule filterE_Inr(1)) (auto simp: own_rows_def mapR_eq_Inr_iff intro!: filter_cong)

section \<open>Properties\<close>

text \<open>C29. The paired comparison of detected runs: whenever it returns, each model's count is the
  number of runs of the scenario with a window above the model's threshold, the difference is the
  exact quotient of the change by the number of runs, rounded once, and for every seed and
  generator the interval is ordered and lies between -1 and 1.\<close>

theorem run_comparison_bounds:
  assumes "bounded_draws rb" and "0 < iterations" and "iterations \<le> 2 ^ 53"
    and "paired_run_detection_interval rb lm rows left right scenario iterations seed = Some (Inr c)"
    and "sorted_field ''run_id'' (own_rows rows scenario) = Inr run_ids"
  shows "rc_runs c = length run_ids \<and> rc_left c = length (filter (reported_run lm left (own_rows rows scenario)) run_ids)
    \<and> rc_right c = length (filter (reported_run lm right (own_rows rows scenario)) run_ids)
    \<and> rc_difference c = Fin (rnd (of_int (int (rc_right c) - int (rc_left c)) / of_nat (length run_ids)))
    \<and> (\<exists>lo hi. rc_low c = Fin lo \<and> rc_high c = Fin hi \<and> - 1 \<le> lo \<and> lo \<le> hi \<and> hi \<le> 1)"
proof -
  let ?own = "own_rows rows scenario"
  obtain la ra where la: "run_alerts lm left ?own run_ids = Some (Inr la)" and ra: "run_alerts lm right ?own run_ids = Some (Inr ra)"
    and c: "compare_runs rb iterations seed run_ids la ra = Inr c"
    using assms(4,5) unfolding paired_run_detection_interval_def by (auto simp: bindO_Inr_iff dest!: scenario_filter)
  note la = run_alerts_reported [OF la] and ra = run_alerts_reported [OF ra]
  have ne: "run_ids \<noteq> []" using c by (auto simp: compare_runs_def mean_change_def int_truediv_def)
  obtain d where d: "mean_change la ra run_ids = Inr (Fin d)"
    "d = rnd (of_int (\<Sum>r\<leftarrow>run_ids. alert_change la ra r) / of_nat (length run_ids))"
    by (rule mean_change_unit [OF ne])
  have change: "(\<Sum>r\<leftarrow>run_ids. alert_change la ra r)
      = int (length (filter (reported_run lm right ?own) run_ids)) - int (length (filter (reported_run lm left ?own) run_ids))"
    unfolding sum_changes [symmetric] la ra by (intro arg_cong [of _ _ sum_list] map_cong) (simp_all add: alert_change_reported)
  obtain s' ds where ds: "foldE (change_step rb la ra run_ids) [0..<iterations] (seed, []) = Inr (s', ds)"
    "\<forall>d\<in>set ds. \<exists>q. d = Fin q \<and> - 1 \<le> q \<and> q \<le> 1" "length ds = length [] + length [0..<iterations]"
    by (rule change_loop [OF assms(1) ne, where ds = "[]" and left = la and right = ra and ks = "[0..<iterations]" and s = seed]) simp_all
  have len: "ds \<noteq> []" "length ds \<le> 2 ^ 53" using ds(3) assms(2,3) by auto
  obtain lo hi where lh: "interval_of ds = Inr (lo, hi)" "lo \<le> hi" "lo \<in> set ds" "hi \<in> set ds" by (rule interval_picks [OF len])
  obtain l where l: "lo = Fin l" "- 1 \<le> l" using ds(2) lh(3) by blast
  obtain h where h: "hi = Fin h" "h \<le> 1" using ds(2) lh(4) by blast
  have "c = \<lparr>rc_runs = length run_ids, rc_left = count_alerts la, rc_right = count_alerts ra, rc_difference = Fin d, rc_low = lo, rc_high = hi\<rparr>"
    using c by (simp add: compare_runs_def d(1) ds(1) ci95_interval [OF len(1)] lh(1))
  moreover have "count_alerts (map (\<lambda>r. (r, p r)) rs) = length (filter p rs)" for p and rs :: "string list"
    by (simp add: count_alerts_def filter_map comp_def)
  ultimately show ?thesis using d(2) [unfolded change] l h lh(2) by (simp add: la ra)
qed

lemma sample_own_rows: "own_rows run_rows ''replay'' = [run_row ''f'' ''replay'' True]"
  "sorted_field ''run_id'' (own_rows run_rows ''replay'') = Inr [''f'']"
  by (simp_all add: own_rows_def run_rows_def sorted_field_def)

lemma sample_comparison:
  "\<exists>c. paired_run_detection_interval first_item sample_libm run_rows leaf_forest leaf_forest ''replay'' 1 () = Some (Inr c)"
proof -
  have own: "filterE (\<lambda>row. mapR (\<lambda>s. s = ''replay'') (str_field ''scenario'' row)) run_rows = Inr [run_row ''f'' ''replay'' True]"
    by (simp add: run_rows_def)
  have "run_alerts sample_libm leaf_forest [run_row ''f'' ''replay'' True] [''f''] = Some (Inr [(''f'', False)])"
    by (simp add: rows_of_runs_def leaf_score) (simp add: leaf_forest_on_def)
  moreover have "index_percentile [Fin 0] (of_exact q) = Inr (Fin 0)" if "0 \<le> q" "q \<le> 1" for q
  proof -
    have "of_exact q = Fin (rnd q)" by (rule unit_of_exact(1) [OF that])
    then show ?thesis using of_exact_small [of 0]
      by (simp add: index_percentile_def float_of_int_small float_trunc_def to_int_with_def rat_trunc_def py_index_def)
  qed
  ultimately show ?thesis
    using own by (simp add: paired_run_detection_interval_def sorted_field_def compare_runs_def mean_change_def alert_change_def dget_def
      int_truediv_def exact_or_overflow_small change_step_def first_item_def py_index_def ci95_def)
qed

theorem run_comparison_bounds_witness:
  "\<exists>c lo hi. paired_run_detection_interval first_item sample_libm run_rows leaf_forest leaf_forest ''replay'' 1 () = Some (Inr c)
    \<and> rc_runs c = 1 \<and> rc_low c = Fin lo \<and> rc_high c = Fin hi \<and> lo \<le> hi"
proof -
  obtain c where c: "paired_run_detection_interval first_item sample_libm run_rows leaf_forest leaf_forest ''replay'' 1 () = Some (Inr c)"
    using sample_comparison by blast
  have "bounded_draws first_item" by (simp add: bounded_draws_def first_item_def)
  then show ?thesis using run_comparison_bounds [OF _ _ _ c sample_own_rows(2)] c by auto
qed

end
