(* ===== verification/Performance.thy ===== *)
theory Performance
  imports Comparison
begin

text \<open>
  \<open>scripts/stage4-analyze-performance.py\<close>: the checks on the performance runs and their summary.
  A metric is the path of its keys.  The names of the configurations are texts; another JSON
  value is met here as a \<open>TypeError\<close>.  The table of the runs is in \<open>Performance_Table\<close>.
\<close>

section \<open>Metrics\<close>

fun nested :: "pyval \<Rightarrow> string list \<Rightarrow> f64 option result" where
  "nested v [] = (if v = PNone then Inr None else mapR Some (py_float v))"
| "nested (PDict d) (k # ks) = (case dget d k of None \<Rightarrow> Inr None | Some w \<Rightarrow> nested w ks)"
| "nested _ (k # ks) = Inr None"

definition METRICS :: "(string \<times> string list) list" where
  "METRICS =
     [(''throughput_rps'', [''gateway'', ''throughput_rps'']),
      (''latency_p50_us'', [''gateway'', ''latency_p50_us'']),
      (''latency_p95_us'', [''gateway'', ''latency_p95_us'']),
      (''latency_p99_us'', [''gateway'', ''latency_p99_us'']),
      (''gateway_cpu_percent'', [''resources'', ''gateway'', ''cpu_percent_mean'']),
      (''gateway_rss_kb'', [''resources'', ''gateway'', ''rss_kb_mean'']),
      (''container_cpu_percent'', [''resources'', ''container'', ''cpu_percent_mean'']),
      (''container_rss_kb'', [''resources'', ''container'', ''rss_kb_mean'']),
      (''monitor_cpu_percent'', [''resources'', ''monitor'', ''cpu_percent_mean'']),
      (''monitor_rss_kb'', [''resources'', ''monitor'', ''rss_kb_mean'']),
      (''inference_mean_us'', [''monitor'', ''inference_latency'', ''mean_us'']),
      (''inference_p95_us'', [''monitor'', ''inference_latency'', ''p95_us'']),
      (''audit_register_us'', [''monitor'', ''audit_register_us'']),
      (''audit_append_mean_us'', [''monitor'', ''audit_append_latency'', ''mean_us'']),
      (''audit_append_p95_us'', [''monitor'', ''audit_append_latency'', ''p95_us''])]"

definition overhead_metrics :: "string list" where
  "overhead_metrics = [''throughput_rps'', ''latency_p95_us'', ''gateway_cpu_percent'', ''gateway_rss_kb'']"

section \<open>Means\<close>

record mean_stats =
  st_mean :: "f64 option"
  st_ci :: "(f64 \<times> f64) option"
  st_n :: nat

definition mean_step :: "'s randbelow \<Rightarrow> f64 list \<Rightarrow> nat \<Rightarrow> 's \<times> f64 list \<Rightarrow> ('s \<times> f64 list) result" where
  "mean_step rb values = (\<lambda>_ (s, means).
     let (draw, s1) = draws rb (length values) (length values) s in
     bindE (mapE (\<lambda>i. py_index values (int i)) draw) (\<lambda>resample.
     bindE (fmean resample) (\<lambda>m. Inr (s1, means @ [m]))))"

definition mean_ci :: "'s randbelow \<Rightarrow> f64 list \<Rightarrow> nat \<Rightarrow> 's \<Rightarrow> mean_stats result" where
  "mean_ci rb values iterations seed =
     (if values = [] then Inr \<lparr>st_mean = None, st_ci = None, st_n = 0\<rparr>
      else bindE (foldE (mean_step rb values) [0..<iterations] (seed, [])) (\<lambda>(_, means).
           bindE (ci95 means) (\<lambda>interval.
           bindE (fmean values) (\<lambda>m.
           Inr \<lparr>st_mean = Some m, st_ci = Some interval, st_n = length values\<rparr>))))"

definition stats_value :: "mean_stats \<Rightarrow> pyval" where
  "stats_value st =
     PDict [(''mean'', optional_float (st_mean st)),
       (''ci95'', PList (case st_ci st of None \<Rightarrow> [PNone, PNone] | Some (low, high) \<Rightarrow> [PFloat low, PFloat high])),
       (''n'', PInt (int (st_n st)))]"

text \<open>\<open>100.0 * (right - left) / left\<close>, when both are there and \<open>left\<close> is not zero.\<close>

definition percent_change :: "f64 option \<Rightarrow> f64 option \<Rightarrow> f64 option result" where
  "percent_change left right =
     (case (left, right) of
        (Some l, Some r) \<Rightarrow> if l = Fin 0 then Inr None else mapR Some (fdiv (fmul (Fin 100) (fsub r l)) l)
      | _ \<Rightarrow> Inr None)"

definition by_repeat :: "string list \<Rightarrow> pyval list \<Rightarrow> (int \<times> f64 option) list result" where
  "by_repeat path items =
     foldE (\<lambda>item d. bindE (int_field item ''repeat'') (\<lambda>k. mapR (\<lambda>v. dset k v d) (nested item path))) items []"

definition paired_changes :: "pyval list \<Rightarrow> pyval list \<Rightarrow> string list \<Rightarrow> f64 list result" where
  "paired_changes baseline current path =
     bindE (by_repeat path baseline) (\<lambda>left.
     bindE (by_repeat path current) (\<lambda>right.
     mapR somes (mapE (\<lambda>k. percent_change (the (dget left k)) (the (dget right k)))
       (sort (filter (\<lambda>k. k \<in> fst ` set right) (map fst left))))))"

definition paired_percent_change_ci ::
  "'s randbelow \<Rightarrow> pyval list \<Rightarrow> pyval list \<Rightarrow> string list \<Rightarrow> nat \<Rightarrow> 's \<Rightarrow> mean_stats result" where
  "paired_percent_change_ci rb baseline current path iterations seed =
     bindE (paired_changes baseline current path) (\<lambda>changes. mean_ci rb changes iterations seed)"

section \<open>Validation\<close>

definition group_of :: "pyval list \<Rightarrow> string \<Rightarrow> pyval list result" where
  "group_of results configuration =
     filterE (\<lambda>item. mapR (\<lambda>c. eq_str c configuration) (py_subscript item ''configuration'')) results"

definition check_configuration :: "pyval list \<Rightarrow> int \<Rightarrow> string \<Rightarrow> unit result" where
  "check_configuration results repeats configuration =
     bindE (group_of results configuration) (\<lambda>group.
     bindE (if int (length group) \<noteq> repeats then Inr False
            else mapR (\<lambda>ks. set ks = {0..<repeats}) (mapE (\<lambda>item. int_field item ''repeat'') group)) (\<lambda>covered.
     bindE (require covered) (\<lambda>_.
     bindE (allE (\<lambda>item. mapR (\<lambda>v. truthy v = (configuration \<noteq> ''gateway_only'')) (py_subscript item ''telemetry_enabled'')) group) (\<lambda>telemetry.
     bindE (require telemetry) (\<lambda>_.
     bindE (allE (\<lambda>item. mapR (\<lambda>v. truthy v = (configuration \<in> {''telemetry_iforest'', ''telemetry_iforest_audit_ta''}))
         (py_get item ''monitor'' PNone)) group) (\<lambda>monitored.
     bindE (require monitored) (\<lambda>_.
     if configuration = ''telemetry_iforest_audit_ta''
     then bindE (anyE (\<lambda>item. mapR (\<lambda>n. n \<le> 0) (bindE (py_subscript item ''monitor'') (\<lambda>v. int_field v ''alerts''))) group) (\<lambda>silent.
       require (\<not> silent))
     else Inr ())))))))"

definition check_performance :: "pyval list \<Rightarrow> string list \<Rightarrow> int \<Rightarrow> unit result" where
  "check_performance results names repeats =
     bindE (require (int (length results) = int (length names) * repeats)) (\<lambda>_.
     bindE (bindE (allE (get_is ''status'' ''PASS'') results) require) (\<lambda>_.
     foldE (\<lambda>name _. check_configuration results repeats name) names ()))"

section \<open>Summary\<close>

record configuration_stats =
  co_runs :: nat
  co_requests :: int
  co_alerts :: int
  co_metrics :: "(string \<times> mean_stats) list"

definition summarize ::
  "'s randbelow \<Rightarrow> (int \<Rightarrow> 's) \<Rightarrow> pyval \<Rightarrow> pyval list \<Rightarrow> nat \<Rightarrow> nat \<times> string \<Rightarrow> configuration_stats result" where
  "summarize rb seeded config results iterations = (\<lambda>(config_index, configuration).
     bindE (group_of results configuration) (\<lambda>group.
     bindE (mapE (\<lambda>item. bindE (py_subscript item ''gateway'') (\<lambda>v. int_field v ''requests'')) group) (\<lambda>requests.
     bindE (filterE (\<lambda>item. mapR truthy (py_get item ''monitor'' PNone)) group) (\<lambda>monitored.
     bindE (mapE (\<lambda>item. bindE (py_subscript item ''monitor'') (\<lambda>v. int_field v ''alerts'')) monitored) (\<lambda>alerts.
     bindE (mapE (\<lambda>(metric_index, name, path).
         bindE (mapE (\<lambda>item. nested item path) group) (\<lambda>found.
         bindE (int_field config ''seed'') (\<lambda>seed.
         mapR (Pair name) (mean_ci rb (somes found) iterations (seeded (seed + int config_index * 100 + int metric_index))))))
       (enumerate 0 METRICS)) (\<lambda>stats.
     Inr \<lparr>co_runs = length group, co_requests = sum_list requests, co_alerts = sum_list alerts, co_metrics = stats\<rparr>))))))"

definition summarize_all ::
  "'s randbelow \<Rightarrow> (int \<Rightarrow> 's) \<Rightarrow> pyval \<Rightarrow> pyval list \<Rightarrow> nat \<Rightarrow> string list \<Rightarrow> (string \<times> configuration_stats) list result" where
  "summarize_all rb seeded config results iterations names =
     foldE (\<lambda>(i, name) d. mapR (\<lambda>st. dset name st d) (summarize rb seeded config results iterations (i, name)))
       (enumerate 0 names) []"

definition mean_of :: "configuration_stats \<Rightarrow> string \<Rightarrow> f64 option" where
  "mean_of st metric = (case dget (co_metrics st) metric of None \<Rightarrow> None | Some m \<Rightarrow> st_mean m)"

definition changes_value :: "configuration_stats \<Rightarrow> configuration_stats \<Rightarrow> pyval result" where
  "changes_value base current =
     mapR PDict (mapE (\<lambda>metric. mapR (\<lambda>c. (metric, optional_float c)) (percent_change (mean_of base metric) (mean_of current metric)))
       overhead_metrics)"

definition paired_value ::
  "'s randbelow \<Rightarrow> (int \<Rightarrow> 's) \<Rightarrow> pyval \<Rightarrow> pyval list \<Rightarrow> nat \<Rightarrow> nat \<Rightarrow> string \<Rightarrow> pyval result" where
  "paired_value rb seeded config results iterations position configuration =
     bindE (group_of results ''gateway_only'') (\<lambda>baseline.
     mapR PDict (mapE (\<lambda>(i, metric).
       bindE (group_of results configuration) (\<lambda>current.
       bindE (int_field config ''seed'') (\<lambda>seed.
       mapR (\<lambda>st. (metric, stats_value st))
         (paired_percent_change_ci rb baseline current (the (dget METRICS metric)) iterations
           (seeded (seed + 1000 + int position * 10 + int i))))))
       (enumerate 0 overhead_metrics)))"

fun first_index :: "'a \<Rightarrow> 'a list \<Rightarrow> nat" where
  "first_index x [] = 0"
| "first_index x (y # ys) = (if x = y then 0 else Suc (first_index x ys))"

text \<open>The loop over the configurations; the last argument is \<open>previous\<close>.\<close>

fun overhead ::
  "(string \<Rightarrow> pyval result) \<Rightarrow> (string \<times> configuration_stats) list \<Rightarrow> configuration_stats \<Rightarrow> string list \<Rightarrow>
   configuration_stats option \<Rightarrow> (string \<times> pyval) list \<Rightarrow> (string \<times> pyval) list result" where
  "overhead paired stats baseline [] previous result = Inr result"
| "overhead paired stats baseline (name # names) previous result =
     (let current = the (dget stats name) in
      bindE (changes_value baseline current) (\<lambda>absolute.
      bindE (case previous of None \<Rightarrow> Inr (PDict []) | Some p \<Rightarrow> changes_value p current) (\<lambda>progressive.
      bindE (paired name) (\<lambda>pairs.
      overhead paired stats baseline names (Some current)
        (dset name (PDict [(''percent_change_vs_gateway_only'', absolute),
           (''percent_change_vs_previous_configuration'', progressive), (''paired_percent_change_vs_gateway_only'', pairs)]) result)))))"

definition configuration_value :: "configuration_stats \<Rightarrow> pyval" where
  "configuration_value st =
     PDict [(''runs'', PInt (int (co_runs st))), (''total_requests'', PInt (co_requests st)), (''total_alerts'', PInt (co_alerts st)),
       (''metrics'', PDict (map (map_prod id stats_value) (co_metrics st)))]"

definition method_value :: "pyval \<Rightarrow> int \<Rightarrow> nat \<Rightarrow> pyval result" where
  "method_value config repeats iterations =
     bindE (py_subscript config ''scenario'') (\<lambda>scenario.
     bindE (py_subscript config ''duration_seconds'') (\<lambda>duration.
     Inr (PDict [(''scenario'', scenario), (''repeats_per_configuration'', PInt repeats), (''duration_seconds'', duration),
       (''randomized_execution_order'', PBool True),
       (''paired_comparison'', PStr ''same repeat number and seed across configurations''),
       (''bootstrap_iterations'', PInt (int iterations)),
       (''gateway_latency_boundary'', PStr (''backend/protocol handling through response send; JSONL flush is excluded from the '' @
          ''per-request latency timestamp but included in observed throughput and CPU'')),
       (''audit_interpretation'', PStr (''malformed was selected because the formal detector alerted on every malformed window; '' @
          ''this measures a controlled worst-case alert anchoring workload''))])))"

definition py_names :: "pyval \<Rightarrow> string list result" where
  "py_names v = bindE (py_list v) (mapE (\<lambda>x. case x of PStr s \<Rightarrow> Inr s | _ \<Rightarrow> Inl TypeError))"

definition analyze_performance ::
  "'s randbelow \<Rightarrow> (int \<Rightarrow> 's) \<Rightarrow> string \<Rightarrow> string list \<Rightarrow> nat \<Rightarrow> pyval result" where
  "analyze_performance rb seeded config_text result_texts iterations =
     bindE (json_loads config_text) (\<lambda>config.
     bindE (mapE json_loads result_texts) (\<lambda>results.
     bindE (bindE (py_subscript config ''configurations'') py_names) (\<lambda>names.
     bindE (int_field config ''repeats_per_configuration'') (\<lambda>repeats.
     bindE (check_performance results names repeats) (\<lambda>_.
     bindE (summarize_all rb seeded config results iterations names) (\<lambda>stats.
     bindE (case dget stats ''gateway_only'' of None \<Rightarrow> Inl KeyError | Some st \<Rightarrow> Inr st) (\<lambda>baseline.
     bindE (overhead (\<lambda>name. paired_value rb seeded config results iterations (first_index name names) name) stats baseline names None [])
       (\<lambda>changes.
     bindE (py_subscript config ''scope'') (\<lambda>scope.
     bindE (method_value config repeats iterations) (\<lambda>method_dict.
     Inr (PDict [(''schema'', PStr ''cote3-mon-stage4-performance-summary-v1''), (''status'', PStr ''PASS''), (''scope'', scope),
       (''formal_dissertation_experiment'', PBool True), (''method'', method_dict),
       (''per_configuration'', PDict (map (map_prod id configuration_value) stats)), (''overhead'', PDict changes)])))))))))))"

section \<open>Complete groups\<close>

definition named :: "pyval \<Rightarrow> string \<Rightarrow> bool" where
  "named item configuration \<longleftrightarrow> py_subscript item ''configuration'' = Inr (PStr configuration)"

lemma group_of_Inr: "group_of results c = Inr members \<Longrightarrow> members = filter (\<lambda>item. named item c) results"
  unfolding group_of_def by (drule filterE_Inr(1)) (auto simp: named_def mapR_eq_Inr_iff dest: eq_strD intro!: filter_cong)

lemma named_unique: "named item c \<Longrightarrow> named item c' \<Longrightarrow> c = c'"
  by (simp add: named_def)

lemma groups_disjoint:
  "distinct names \<Longrightarrow> (\<Sum>n\<leftarrow>names. length (filter (\<lambda>item. named item n) results)) = length (filter (\<lambda>item. \<exists>n\<in>set names. named item n) results)"
proof (induction names)
  case (Cons n ns)
  have "length (filter (\<lambda>item. named item n \<or> (\<exists>m\<in>set ns. named item m)) xs)
      = length (filter (\<lambda>item. named item n) xs) + length (filter (\<lambda>item. \<exists>m\<in>set ns. named item m) xs)" for xs
    using Cons.prems by (induction xs) (auto dest: named_unique)
  then show ?case using Cons by simp
qed simp

definition numbered :: "pyval list \<Rightarrow> int \<Rightarrow> bool" where
  "numbered members repeats \<longleftrightarrow> (\<exists>ks. mapE (\<lambda>item. int_field item ''repeat'') members = Inr ks \<and> sort ks = [0..repeats - 1])"

lemma check_configuration_numbered:
  assumes "check_configuration results repeats c = Inr ()"
  shows "numbered (filter (\<lambda>item. named item c) results) repeats"
    and "int (length (filter (\<lambda>item. named item c) results)) = repeats"
proof -
  obtain members where g: "group_of results c = Inr members"
    and covered: "(if int (length members) \<noteq> repeats then Inr False
      else mapR (\<lambda>ks. set ks = {0..<repeats}) (mapE (\<lambda>item. int_field item ''repeat'') members)) = Inr True"
    using assms by (auto simp: check_configuration_def bindE_eq_Inr_iff)
  have n: "int (length members) = repeats" using covered by (simp split: if_splits)
  then obtain ks where ks: "mapE (\<lambda>item. int_field item ''repeat'') members = Inr ks" "set ks = {0..<repeats}"
    using covered by (auto simp: mapR_eq_Inr_iff)
  have "length ks = nat repeats" using mapE_length [OF ks(1)] n by simp
  then have "card (set ks) = length ks" by (simp add: ks(2))
  then have "distinct ks" by (rule card_distinct)
  then have "sort ks = [0..repeats - 1]"
    by (intro sorted_distinct_set_unique) (auto simp: ks(2))
  then show "numbered (filter (\<lambda>item. named item c) results) repeats" "int (length (filter (\<lambda>item. named item c) results)) = repeats"
    using ks(1) n group_of_Inr [OF g] by (auto simp: numbered_def)
qed

lemma foldE_unit_all: "foldE (\<lambda>x _. f x) xs () = Inr () \<Longrightarrow> x \<in> set xs \<Longrightarrow> f x = Inr ()"
  by (induction xs) (auto simp: bindE_eq_Inr_iff)

lemma check_performance_complete:
  assumes "check_performance results names repeats = Inr ()"
  shows "\<forall>name\<in>set names. numbered (filter (\<lambda>item. named item name) results) repeats"
    and "distinct names \<longrightarrow> (\<forall>item\<in>set results. \<exists>name\<in>set names. named item name)"
proof -
  have len: "int (length results) = int (length names) * repeats"
    and each: "foldE (\<lambda>name _. check_configuration results repeats name) names () = Inr ()"
    using assms by (auto simp: check_performance_def bindE_eq_Inr_iff)
  note ok = foldE_unit_all [OF each]
  show "\<forall>name\<in>set names. numbered (filter (\<lambda>item. named item name) results) repeats"
    using ok check_configuration_numbered(1) by blast
  have sum: "int (\<Sum>n\<leftarrow>names. length (filter (\<lambda>item. named item n) results)) = int (length names) * repeats"
  proof -
    have int_sum: "int (\<Sum>n\<leftarrow>ns. f n) = (\<Sum>n\<leftarrow>ns. int (f n))" for f :: "string \<Rightarrow> nat" and ns by (induction ns) simp_all
    have const: "(\<Sum>n\<leftarrow>ns. f n) = int (length ns) * repeats" if "\<forall>n\<in>set ns. f n = repeats" for f :: "string \<Rightarrow> int" and ns
      using that by (induction ns) (simp_all add: distrib_right)
    have "\<forall>n\<in>set names. int (length (filter (\<lambda>item. named item n) results)) = repeats"
      using ok check_configuration_numbered(2) by blast
    then show ?thesis unfolding int_sum by (rule const)
  qed
  define covered where "covered = (\<lambda>item. \<exists>n\<in>set names. named item n)"
  have "covered item" if d: "distinct names" and mem: "item \<in> set results" for item
  proof (rule ccontr)
    assume "\<not> covered item"
    from length_filter_less [where P = covered, OF mem this] have "length (filter covered results) < length results" .
    then show False using groups_disjoint [OF d, of results, folded covered_def] sum len by linarith
  qed
  then show "distinct names \<longrightarrow> (\<forall>item\<in>set results. \<exists>name\<in>set names. named item name)" by (simp add: covered_def)
qed

section \<open>Bounds\<close>

lemma mean_loop:
  assumes "foldE (mean_step rb values) ks (s, means) = Inr (s', means')" and "\<forall>v\<in>set values. Fin 0 \<le> v" and "\<forall>m\<in>set means. Fin 0 \<le> m"
  shows "(\<forall>m\<in>set means'. Fin 0 \<le> m) \<and> length means' = length means + length ks"
  using assms(1,3)
proof (induction ks arbitrary: s means)
  case (Cons k ks)
  obtain s1 m where st: "mean_step rb values k (s, means) = Inr (s1, means @ [m])" "Fin 0 \<le> m"
    "foldE (mean_step rb values) ks (s1, means @ [m]) = Inr (s', means')"
  proof -
    obtain draw s1 where d: "draws rb (length values) (length values) s = (draw, s1)" by fastforce
    obtain resample m where r: "mapE (\<lambda>i. py_index values (int i)) draw = Inr resample" "fmean resample = Inr m"
      "foldE (mean_step rb values) ks (s1, means @ [m]) = Inr (s', means')"
      using Cons.prems(1) by (auto simp: mean_step_def d bindE_eq_Inr_iff)
    have "Fin 0 \<le> m"
    proof (rule fmean_nonneg [OF r(2)])
      fix x assume "x \<in> set resample"
      with r(1) obtain i where "py_index values (int i) = Inr x" by (rule mapE_set_mem) blast
      then have "x \<in> set values" by (rule py_index_mem)
      then show "Fin 0 \<le> x" using assms(2) by blast
    qed
    moreover have "mean_step rb values k (s, means) = Inr (s1, means @ [m])" by (simp add: mean_step_def d r(1,2))
    ultimately show ?thesis using that r(3) by blast
  qed
  have "\<forall>x\<in>set (means @ [m]). Fin 0 \<le> x" using Cons.prems(2) st(2) by auto
  from Cons.IH [OF st(3) this] show ?case by simp
qed simp

section \<open>A sample run\<close>

definition performance_config :: pyval where
  "performance_config = PDict [(''configurations'', PList [PStr ''gateway_only'']), (''repeats_per_configuration'', PInt 1), (''seed'', PInt 7),
     (''scope'', PStr ''sample''), (''scenario'', PStr ''steady''), (''duration_seconds'', PInt 1)]"

definition performance_run :: pyval where
  "performance_run = PDict [(''status'', PStr ''PASS''), (''configuration'', PStr ''gateway_only''), (''repeat'', PInt 0),
     (''telemetry_enabled'', PBool False), (''gateway'', PDict [(''requests'', PInt 1)])]"

lemma performance_storable: "storable performance_config" "storable performance_run"
  by (simp_all add: performance_config_def performance_run_def short_int_def nat_str.simps)

lemma performance_sample:
  "\<exists>v. analyze_performance first_item (\<lambda>_. ()) (dumps_indent performance_config) [dumps_indent performance_run] 0 = Inr v"
proof -
  have run: "py_subscript performance_run ''configuration'' = Inr (PStr ''gateway_only'')" "int_field performance_run ''repeat'' = Inr 0"
    "py_subscript performance_run ''telemetry_enabled'' = Inr (PBool False)" "py_get performance_run ''monitor'' PNone = Inr PNone"
    "get_is ''status'' ''PASS'' performance_run = Inr True" "py_subscript performance_run ''gateway'' = Inr (PDict [(''requests'', PInt 1)])"
    by (simp_all add: performance_run_def dget_def int_field_def get_is_def)
  have members: "group_of [performance_run] ''gateway_only'' = Inr [performance_run]"
    by (simp add: group_of_def run)
  have "{0..<1} = {0 :: int}" by auto
  then have "check_configuration [performance_run] 1 ''gateway_only'' = Inr ()"
    by (simp add: check_configuration_def members run)
  then have check: "check_performance [performance_run] [''gateway_only''] 1 = Inr ()"
    by (simp add: check_performance_def run)
  have none: "nested performance_run path = Inr None" if "path \<in> snd ` set METRICS" for path
    using that by (auto simp: METRICS_def performance_run_def dget_def)
  define none_stats where "none_stats = \<lparr>st_mean = None, st_ci = None, st_n = 0 :: nat\<rparr>"
  define stats where "stats = \<lparr>co_runs = 1, co_requests = 1, co_alerts = 0, co_metrics = map (\<lambda>(name, path). (name, none_stats)) METRICS\<rparr>"
  have seed: "int_field performance_config ''seed'' = Inr 7" by (simp add: performance_config_def int_field_def dget_def)
  have empty: "mean_ci rb [] n s = Inr none_stats" for rb :: "unit randbelow" and n s
    by (simp add: mean_ci_def none_stats_def)
  have "mapE (\<lambda>(i, name, path). bindE (mapE (\<lambda>item. nested item path) [performance_run]) (\<lambda>found.
      bindE (int_field performance_config ''seed'') (\<lambda>seed. mapR (Pair name) (mean_ci first_item (somes found) 0 ()))))
      (enumerate 0 METRICS) = Inr (map (\<lambda>(i, name, path). (name, none_stats)) (enumerate 0 METRICS))"
  proof (rule mapE_total, clarify)
    fix i name path assume "(i, name, path) \<in> set (enumerate 0 METRICS)"
    then have "(name, path) \<in> set METRICS" unfolding enumerate_eq_zip by (rule set_zip_rightD)
    then have "path \<in> snd ` set METRICS" by (rule rev_image_eqI) simp
    from none [OF this] show "bindE (mapE (\<lambda>item. nested item path) [performance_run]) (\<lambda>found.
      bindE (int_field performance_config ''seed'') (\<lambda>seed. mapR (Pair name) (mean_ci first_item (somes found) 0 ()))) = Inr (name, none_stats)"
      by (simp add: seed somes_def empty)
  qed
  moreover have "map (\<lambda>(i, name, path). (name, none_stats)) (enumerate 0 METRICS) = co_metrics stats"
    by (simp add: METRICS_def stats_def)
  ultimately have "summarize first_item (\<lambda>_. ()) performance_config [performance_run] 0 (0, ''gateway_only'') = Inr stats"
    by (simp add: summarize_def members run int_field_def dget_def) (simp add: stats_def)
  then have all: "summarize_all first_item (\<lambda>_. ()) performance_config [performance_run] 0 [''gateway_only''] = Inr [(''gateway_only'', stats)]"
    by (simp add: summarize_all_def dset_def)
  have "mean_of stats m = None" for m
    by (auto simp: mean_of_def stats_def none_stats_def dget_def map_of_map split: option.splits)
  then have changes: "is_ok (changes_value stats stats)"
    by (simp add: changes_value_def overhead_metrics_def percent_change_def)
  have "paired_changes [performance_run] [performance_run] path = Inr []" if "path \<in> snd ` set METRICS" for path
    by (simp add: paired_changes_def by_repeat_def run none [OF that] dset_def dget_def percent_change_def somes_def)
  then have paired: "is_ok (paired_value first_item (\<lambda>_. ()) performance_config [performance_run] 0 0 ''gateway_only'')"
    by (simp add: paired_value_def members overhead_metrics_def seed paired_percent_change_ci_def empty METRICS_def dget_def)
  obtain a where a: "changes_value stats stats = Inr a" using changes by (rule is_okE)
  obtain b where b: "paired_value first_item (\<lambda>_. ()) performance_config [performance_run] 0 0 ''gateway_only'' = Inr b"
    using paired by (rule is_okE)
  have config: "bindE (py_subscript performance_config ''configurations'') py_names = Inr [''gateway_only'']"
    "int_field performance_config ''repeats_per_configuration'' = Inr 1"
    "py_subscript performance_config ''scope'' = Inr (PStr ''sample'')" "is_ok (method_value performance_config 1 0)"
    by (simp_all add: performance_config_def dget_def py_names_def int_field_def method_value_def)
  obtain m where m: "method_value performance_config 1 0 = Inr m" using config(4) by (rule is_okE)
  show ?thesis
    unfolding analyze_performance_def
    by (simp add: loads_dumps(3) [OF performance_storable(1)] loads_dumps(3) [OF performance_storable(2)] config check all a b m dget_def dset_def)
qed

section \<open>Properties\<close>

text \<open>What the performance analysis accepts: whenever it returns, the runs of every
  configuration carry each repeat number from 0 exactly once, and when the configurations are
  distinct every run belongs to one of them.\<close>

theorem analysis_needs_every_repeat:
  assumes "analyze_performance rb seeded config_text result_texts iterations = Inr v"
  shows "\<exists>config results names repeats. json_loads config_text = Inr config \<and> mapE json_loads result_texts = Inr results
    \<and> bindE (py_subscript config ''configurations'') py_names = Inr names
    \<and> int_field config ''repeats_per_configuration'' = Inr repeats
    \<and> (\<forall>name\<in>set names. numbered (filter (\<lambda>item. named item name) results) repeats)
    \<and> (distinct names \<longrightarrow> (\<forall>item\<in>set results. \<exists>name\<in>set names. named item name))"
proof -
  obtain config results names repeats where c: "json_loads config_text = Inr config" "mapE json_loads result_texts = Inr results"
    "bindE (py_subscript config ''configurations'') py_names = Inr names"
    "int_field config ''repeats_per_configuration'' = Inr repeats" "check_performance results names repeats = Inr ()"
    using assms by (auto simp: analyze_performance_def bindE_eq_Inr_iff)
  show ?thesis using c(1-4) check_performance_complete [OF c(5)] by blast
qed

theorem analysis_needs_every_repeat_witness:
  "\<exists>v results. analyze_performance first_item (\<lambda>_. ()) (dumps_indent performance_config) [dumps_indent performance_run] 0 = Inr v
    \<and> mapE json_loads [dumps_indent performance_run] = Inr results \<and> (\<forall>item\<in>set results. named item ''gateway_only'')"
proof -
  obtain v where v: "analyze_performance first_item (\<lambda>_. ()) (dumps_indent performance_config) [dumps_indent performance_run] 0 = Inr v"
    using performance_sample by blast
  obtain config results names where c: "json_loads (dumps_indent performance_config) = Inr config"
    "mapE json_loads [dumps_indent performance_run] = Inr results" "bindE (py_subscript config ''configurations'') py_names = Inr names"
    "distinct names \<longrightarrow> (\<forall>item\<in>set results. \<exists>name\<in>set names. named item name)"
    using analysis_needs_every_repeat [OF v] by blast
  have "config = performance_config" using c(1) by (simp add: loads_dumps(3) [OF performance_storable(1)])
  then have "names = [''gateway_only'']" using c(3) by (simp add: performance_config_def dget_def py_names_def)
  then show ?thesis using v c(2,4) by auto
qed

text \<open>The summary of a metric: without values there is no mean; otherwise, whenever it returns,
  it counts all values, and for values that are not negative (times, rates, sizes) mean and
  interval are not negative and the interval is ordered, for every seed and generator.\<close>

theorem mean_ci_ordered:
  assumes "mean_ci rb values iterations seed = Inr st" and "\<forall>v\<in>set values. Fin 0 \<le> v" and "iterations \<le> 2 ^ 53"
  shows "st_n st = length values \<and> (st_mean st = None \<longleftrightarrow> values = []) \<and> (st_ci st = None \<longleftrightarrow> values = [])
    \<and> (\<forall>m. st_mean st = Some m \<longrightarrow> Fin 0 \<le> m) \<and> (\<forall>low high. st_ci st = Some (low, high) \<longrightarrow> Fin 0 \<le> low \<and> low \<le> high)"
proof (cases "values = []")
  case False
  obtain s' means interval m where loop: "foldE (mean_step rb values) [0..<iterations] (seed, []) = Inr (s', means)"
    and i: "ci95 means = Inr interval" and m: "fmean values = Inr m"
    and st: "st = \<lparr>st_mean = Some m, st_ci = Some interval, st_n = length values\<rparr>"
    using assms(1) False by (auto simp: mean_ci_def bindE_eq_Inr_iff)
  have means: "\<forall>m\<in>set means. Fin 0 \<le> m" "length means = iterations" using mean_loop [OF loop assms(2)] by simp_all
  have ne: "means \<noteq> []" using i by (auto simp: ci95_def index_percentile_def bindE_eq_Inr_iff py_index_def Let_def split: if_splits)
  obtain lo hi where lh: "interval_of means = Inr (lo, hi)" "lo \<le> hi" "lo \<in> set means" "hi \<in> set means"
    by (rule interval_picks [OF ne]) (use means(2) assms(3) in simp)
  have "interval = (lo, hi)" using i lh(1) by (simp add: ci95_interval [OF ne])
  moreover have "Fin 0 \<le> m" by (rule fmean_nonneg [OF m]) (use assms(2) in blast)
  ultimately show ?thesis using False lh(2,3) means(1) by (simp add: st)
qed (use assms(1) in \<open>auto simp: mean_ci_def\<close>)

theorem mean_ci_ordered_witness:
  "\<exists>st. mean_ci first_item [Fin 2] 1 () = Inr st \<and> st_n st = 1 \<and> (\<forall>low high. st_ci st = Some (low, high) \<longrightarrow> low \<le> high)"
proof -
  have "index_percentile [Fin 2] (of_exact q) = Inr (Fin 2)" if "0 \<le> q" "q \<le> 1" for q
  proof -
    have "of_exact q = Fin (rnd q)" by (rule unit_of_exact(1) [OF that])
    then show ?thesis using of_exact_small [of 0]
      by (simp add: index_percentile_def float_of_int_small float_trunc_def to_int_with_def rat_trunc_def py_index_def)
  qed
  then have "\<exists>st. mean_ci first_item [Fin 2] 1 () = Inr st"
    by (simp add: mean_ci_def mean_step_def first_item_def py_index_def unit_ratios ci95_def)
  then obtain st where "mean_ci first_item [Fin 2] 1 () = Inr st" by blast
  with mean_ci_ordered [OF this] show ?thesis by auto
qed

end
