(* ===== verification/Ablation.thy ===== *)
theory Ablation
  imports Host_Sample
begin

text \<open>
  \<open>scripts/stage5_feature_sets.py\<close>, \<open>stage5-feature-ablation.py\<close> and
  \<open>stage5-prepare-guest-parity.py\<close>: one forest per feature set on the same runs and the same
  split, and the parity vectors of every set for the guest.  scikit-learn and the generator are
  parameters, as in \<open>Host_Pipeline\<close>.
\<close>

section \<open>Feature sets\<close>

definition FEATURE_SETS :: "(string \<times> string list) list" where
  "FEATURE_SETS =
     [(''base12'', BASE_FEATURE_NAMES),
      (''temporal16'', BASE_FEATURE_NAMES @ TEMPORAL_FEATURE_NAMES),
      (''repetition14'', BASE_FEATURE_NAMES @ REPETITION_FEATURE_NAMES),
      (''enhanced18'', ENHANCED_FEATURE_NAMES)]"

section \<open>Raw evidence\<close>

definition check_raw_runs :: "pyval \<Rightarrow> string list \<Rightarrow> unit result" where
  "check_raw_runs config result_texts =
     bindE (mapE json_loads result_texts) (\<lambda>results.
     bindE (bindE (allE (get_is ''status'' ''PASS'') results) require) (\<lambda>_.
     bindE (set_field config ''benign_scenarios'') (\<lambda>benign.
     bindE (set_field config ''attack_scenarios'') (\<lambda>attack.
     let expected = remdups (benign @ attack) in
     bindE (mapE (str_field ''scenario'') results) (\<lambda>observed.
     bindE (require (same_set expected observed)) (\<lambda>_.
     bindE (int_field config ''repeats_per_scenario'') (\<lambda>repeats.
     require (int (length results) = int (length expected) * repeats))))))))"

definition parsed_request :: "pyval \<Rightarrow> bool result" where
  "parsed_request event =
     bindE (is_request event) (\<lambda>request.
     if request then mapR (\<lambda>name. name \<noteq> ''REJECT'') (event_upper ''operation'' ''REJECT'' event) else Inr False)"

definition fingerprinted :: "pyval \<Rightarrow> bool result" where
  "fingerprinted event =
     bindE (mapR truthy (py_get event ''key_fingerprint'' PNone)) (\<lambda>key.
     if key then mapR truthy (py_get event ''request_fingerprint'' PNone) else Inr False)"

text \<open>\<open>k in event\<close>: the events of \<open>read_jsonl\<close> have been asked for a key before, so they are dictionaries.\<close>

fun has_key :: "string \<Rightarrow> pyval \<Rightarrow> bool" where
  "has_key k (PDict d) \<longleftrightarrow> dget d k \<noteq> None"
| "has_key k _ \<longleftrightarrow> False"

definition check_requests :: "pyval list \<Rightarrow> unit result" where
  "check_requests events =
     bindE (filterE parsed_request events) (\<lambda>parsed.
     bindE (require (parsed \<noteq> [])) (\<lambda>_.
     bindE (bindE (allE fingerprinted parsed) require) (\<lambda>_.
     require (list_all (\<lambda>event. \<not> has_key ''key'' event \<and> \<not> has_key ''value'' event) events))))"

definition ablation_rows :: "pyval \<Rightarrow> string list list \<Rightarrow> string list list \<Rightarrow> string list \<Rightarrow> pyval list result" where
  "ablation_rows config request_files resource_files result_texts =
     bindE (require (request_files \<noteq> [] \<and> resource_files \<noteq> [] \<and> result_texts \<noteq> [])) (\<lambda>_.
     bindE (check_raw_runs config result_texts) (\<lambda>_.
     bindE (read_jsonl request_files) (\<lambda>requests.
     bindE (check_requests requests) (\<lambda>_.
     bindE (read_jsonl resource_files) (\<lambda>resources.
     bindE (int_field config ''window_seconds'') (\<lambda>window_seconds.
     bindE (int_field config ''warmup_seconds'') (\<lambda>warmup_seconds.
     aggregate_events (requests @ resources) window_seconds warmup_seconds)))))))"

section \<open>The split\<close>

definition stratified_split :: "'s randbelow \<Rightarrow> (string \<Rightarrow> 's) \<Rightarrow> pyval \<Rightarrow> pyval list \<Rightarrow> splits result" where
  "stratified_split rb seed_of config rows =
     bindE (int_field config ''seed'') (\<lambda>seed.
     bindE (set_field config ''benign_scenarios'') (\<lambda>scenarios.
     bindE (split_benign_runs_stratified rb seed_of seed (Some (map py_str scenarios)) rows) (\<lambda>(training, validation, benign_test).
     bindE (filterE (\<lambda>row. mapR (\<lambda>a. a \<noteq> 0) (int_field row ''is_attack'')) rows) (\<lambda>attack_test.
     Inr \<lparr>sp_train = training, sp_validation = validation, sp_benign = benign_test, sp_attack = attack_test\<rparr>))))"

definition split_parts :: "splits \<Rightarrow> pyval list list" where
  "split_parts sp = [sp_train sp, sp_validation sp, sp_benign sp, sp_attack sp]"

definition disjoint_parts :: "string list list \<Rightarrow> bool" where
  "disjoint_parts ids \<longleftrightarrow> list_all (\<lambda>(i, j). disjoint_ids (ids ! i) (ids ! j)) [(0, 1), (0, 2), (0, 3), (1, 2), (1, 3), (2, 3)]"

section \<open>One feature set\<close>

record set_result =
  se_model :: pyval
  se_metrics :: "(string \<times> pyval) list"
  se_parity :: pyval

definition set_parity :: "nat \<Rightarrow> f64 \<Rightarrow> f64 \<Rightarrow> string \<Rightarrow> pyval" where
  "set_parity n maximum tolerance sha =
     PDict [(''vectors'', PInt (int n)), (''max_abs_difference'', PFloat maximum), (''tolerance'', PFloat tolerance),
       (''model_sha256'', PStr sha)]"

text \<open>The greatest difference between scikit-learn and the runtime; \<open>max\<close> of nothing is an error here.\<close>

definition greatest_difference :: "sk_forest \<Rightarrow> libm \<Rightarrow> iforest \<Rightarrow> string list \<Rightarrow> pyval list \<Rightarrow> (f64 list \<times> f64) result option" where
  "greatest_difference forest lm runtime features rows =
     tryO (reference_scores forest features rows) (\<lambda>reference.
     bindO (detector_scores lm (Forest runtime) rows) (\<lambda>observed.
     Some (mapR (Pair reference) (py_max (differences reference observed)))))"

definition ablate_set ::
  "'s randbelow \<Rightarrow> 's \<Rightarrow> (f64 list list \<Rightarrow> int \<Rightarrow> sk_forest) option \<Rightarrow> libm \<Rightarrow> pyval \<Rightarrow> splits \<Rightarrow> int \<Rightarrow> f64 \<Rightarrow> f64 \<Rightarrow> nat \<Rightarrow>
   string list \<Rightarrow> set_result result option" where
  "ablate_set rb rng sk_fit lm config sp seed fpr tolerance iterations features =
     tryO (fit_isolation_forest sk_fit (sp_train sp) seed features) (\<lambda>forest.
     bindO (export_isolation_forest forest (sp_validation sp) fpr features) (\<lambda>exported.
     tryO (iforest_init (model_to_json exported seed)) (\<lambda>runtime.
     let rows = sp_validation sp @ sp_benign sp @ sp_attack sp; model = model_to_json exported seed in
     bindO (greatest_difference forest lm runtime features rows) (\<lambda>(_, maximum).
     tryO (require (fle maximum tolerance)) (\<lambda>_.
     tryO (int_field config ''window_seconds'') (\<lambda>window_seconds.
     bindO (ablation_evaluate rb rng lm runtime (sp_benign sp @ sp_attack sp) window_seconds iterations) (\<lambda>metrics_list.
     bindO (detector_scores lm (Forest runtime) (sp_validation sp)) (\<lambda>validation_scores.
     tryO (alert_rate (if_threshold runtime) validation_scores) (\<lambda>rate.
     Some (Inr \<lparr>se_model = model,
       se_metrics = metrics_list @ [(''features'', PList (map PStr features)), (''validation_window_alert_rate'', PFloat rate)],
       se_parity = set_parity (length rows) maximum tolerance (text_sha256 (dumps_compact model))\<rparr>))))))))))"

section \<open>The comparison\<close>

definition float_change :: "pyval \<Rightarrow> pyval \<Rightarrow> string list \<Rightarrow> pyval result" where
  "float_change enhanced base ks =
     bindE (bindE (py_path enhanced ks) py_float) (\<lambda>e.
     bindE (bindE (py_path base ks) py_float) (\<lambda>b. Inr (PFloat (fsub e b))))"

definition base12_to_enhanced18 :: "(string \<times> pyval) list \<Rightarrow> (string \<times> pyval) list \<Rightarrow> pyval result" where
  "base12_to_enhanced18 base enhanced =
     (let change = float_change (PDict enhanced) (PDict base) in
      bindE (mapE (\<lambda>k. mapR (Pair (k @ ''_change'')) (change [k])) [''precision'', ''recall'', ''f1'', ''auprc'']) (\<lambda>rates.
      bindE (int_field (PDict enhanced) ''fp'') (\<lambda>e.
      bindE (int_field (PDict base) ''fp'') (\<lambda>b.
      bindE (mapE (\<lambda>s. mapR (Pair (s @ ''_run_detection_change'')) (change [''per_scenario'', s, ''run_detection_rate''])) [''flood'', ''replay''])
        (\<lambda>runs.
      Inr (PDict (rates @ [(''false_positive_change'', PInt (e - b))] @ runs)))))))"

definition ablation_checks :: pyval where
  "ablation_checks = PList (map PStr
     [''all 70 QEMU runs passed'', ''raw keys and values were absent from telemetry'',
      ''keyed equality fingerprints were present for parsed requests'',
      ''complete-run train, validation, benign-test, and attack-test sets were disjoint'',
      ''the base and enhanced models used identical raw data and splits'',
      ''all exported dependency-free runtimes matched scikit-learn''])"

record ablation_files =
  ab_features :: "string list list"
  ab_models :: "(string \<times> pyval) list"
  ab_results :: pyval

definition ablation_value :: "pyval \<Rightarrow> nat \<Rightarrow> splits \<Rightarrow> string list list \<Rightarrow> (string \<times> set_result) list \<Rightarrow> string \<Rightarrow> string \<Rightarrow> pyval result" where
  "ablation_value config windows sp ids sets config_text features_text =
     (let metrics_of = (\<lambda>name. case dget sets name of None \<Rightarrow> [] | Some r \<Rightarrow> se_metrics r);
          names = (\<lambda>k. PList (map PStr (ids ! k)));
          count = (\<lambda>xs. PInt (int (length xs))) in
      bindE (py_subscript config ''scope'') (\<lambda>scope.
      bindE (base12_to_enhanced18 (metrics_of ''base12'') (metrics_of ''enhanced18'')) (\<lambda>change.
      Inr (PDict [(''schema'', PStr ''cote3-mon-feature-ablation-results-v1''), (''status'', PStr ''PASS''), (''scope'', scope),
        (''paired_design'', PStr ''All feature sets use identical raw runs, complete-run splits, Isolation Forest parameters, and validation calibration.''),
        (''feature_sets'', PDict (map (map_prod id (\<lambda>fs. PList (map PStr fs))) FEATURE_SETS)),
        (''windows'', PDict [(''all'', PInt (int windows)), (''train'', count (sp_train sp)), (''validation'', count (sp_validation sp)),
           (''test'', count (sp_benign sp @ sp_attack sp))]),
        (''split_run_ids'', PDict [(''train'', names 0), (''validation'', names 1), (''benign_test'', names 2), (''attack_test'', names 3)]),
        (''metrics'', PDict (map (map_prod id (\<lambda>r. PDict (se_metrics r))) sets)),
        (''parity'', PDict (map (map_prod id se_parity) sets)), (''base12_to_enhanced18'', change), (''checks'', ablation_checks),
        (''sha256'', PDict [(''config'', PStr (text_sha256 config_text)), (''features'', PStr (text_sha256 features_text))])]))))"

definition feature_ablation ::
  "'s randbelow \<Rightarrow> (int \<Rightarrow> 's) \<Rightarrow> (string \<Rightarrow> 's) \<Rightarrow> (f64 list list \<Rightarrow> int \<Rightarrow> sk_forest) option \<Rightarrow> libm \<Rightarrow>
   bool \<Rightarrow> string \<Rightarrow> string list list \<Rightarrow> string list list \<Rightarrow> string list \<Rightarrow> nat \<Rightarrow> ablation_files result option" where
  "feature_ablation rb seeded seed_of sk_fit lm output_exists config_text request_files resource_files result_texts iterations =
     tryO (require (\<not> output_exists)) (\<lambda>_.
     tryO (json_loads config_text) (\<lambda>config.
     tryO (ablation_rows config request_files resource_files result_texts) (\<lambda>rows.
     tryO (stratified_split rb seed_of config rows) (\<lambda>sp.
     tryO (mapE (sorted_field ''run_id'') (split_parts sp)) (\<lambda>ids.
     tryO (require (disjoint_parts ids)) (\<lambda>_.
     tryO (write_csv rows ENHANCED_FEATURE_NAMES) (\<lambda>table.
     tryO (int_field config ''seed'') (\<lambda>seed.
     tryO (float_field config ''target_validation_fpr'') (\<lambda>fpr.
     tryO (float_field config ''parity_tolerance'') (\<lambda>tolerance.
     bindO (mapO (\<lambda>(name, features). map_option (mapR (Pair name))
         (ablate_set rb (seeded seed) sk_fit lm config sp seed fpr tolerance iterations features)) FEATURE_SETS) (\<lambda>sets.
     Some (mapR (\<lambda>v. \<lparr>ab_features = table, ab_models = map (map_prod id se_model) sets, ab_results = v\<rparr>)
       (ablation_value config (length rows) sp ids sets config_text (csv_text table))))))))))))))"

section \<open>Vectors for the guest\<close>

definition guest_rows :: "'s randbelow \<Rightarrow> (string \<Rightarrow> 's) \<Rightarrow> pyval \<Rightarrow> string list list \<Rightarrow> splits result" where
  "guest_rows rb seed_of config files =
     bindE (read_jsonl files) (\<lambda>events.
     bindE (int_field config ''window_seconds'') (\<lambda>window_seconds.
     bindE (int_field config ''warmup_seconds'') (\<lambda>warmup_seconds.
     bindE (aggregate_events events window_seconds warmup_seconds) (\<lambda>rows.
     stratified_split rb seed_of config rows))))"

text \<open>The entry of the manifest and the vectors of one feature set.\<close>

definition prepare_set ::
  "(f64 list list \<Rightarrow> int \<Rightarrow> sk_forest) option \<Rightarrow> libm \<Rightarrow> pyval \<Rightarrow> splits \<Rightarrow> f64 \<Rightarrow> string \<Rightarrow> string list \<Rightarrow> (pyval \<times> pyval) result option" where
  "prepare_set sk_fit lm config sp tolerance model_text features =
     tryO (bindE (json_loads model_text) iforest_init) (\<lambda>runtime.
     tryO (int_field config ''seed'') (\<lambda>seed.
     tryO (fit_isolation_forest sk_fit (sp_train sp) seed features) (\<lambda>forest.
     let rows = sp_validation sp @ sp_benign sp @ sp_attack sp; sha = text_sha256 model_text in
     bindO (greatest_difference forest lm runtime features rows) (\<lambda>(reference, maximum).
     tryO (require (\<not> flt tolerance maximum)) (\<lambda>_.
     tryO (parity_vectors sha tolerance features rows reference) (\<lambda>vectors.
     Some (Inr (PDict [(''vectors'', PInt (int (length rows))), (''max_abs_difference'', PFloat maximum), (''model_sha256'', PStr sha),
       (''vectors_sha256'', PStr (text_sha256 (dumps_indent vectors)))], vectors))))))))"

definition prepare_guest_parity ::
  "'s randbelow \<Rightarrow> (string \<Rightarrow> 's) \<Rightarrow> (f64 list list \<Rightarrow> int \<Rightarrow> sk_forest) option \<Rightarrow> libm \<Rightarrow> string \<Rightarrow> string list list \<Rightarrow>
   (string \<Rightarrow> string) \<Rightarrow> ((string \<times> pyval) list \<times> pyval) result option" where
  "prepare_guest_parity rb seed_of sk_fit lm config_text files model_text =
     tryO (json_loads config_text) (\<lambda>config.
     tryO (guest_rows rb seed_of config files) (\<lambda>sp.
     tryO (float_field config ''parity_tolerance'') (\<lambda>tolerance.
     bindO (mapO (\<lambda>(name, features). map_option (mapR (Pair name))
         (prepare_set sk_fit lm config sp tolerance (model_text name) features)) FEATURE_SETS) (\<lambda>sets.
     Some (Inr (map (map_prod id snd) sets,
       PDict [(''schema'', PStr ''cote3-mon-stage5-guest-parity-manifest-v1''), (''status'', PStr ''PASS''),
         (''feature_sets'', PDict (map (map_prod id fst) sets))]))))))"

end
