(* ===== verification/Guest_Parity.thy ===== *)
theory Guest_Parity
  imports Host_Sample
begin

text \<open>
  \<open>scripts/qemu-model-parity.py\<close>: the guest reads the model and the parity vectors as files and
  scores the vectors again.  What the host pipeline has written passes this check, with the same
  greatest difference, whatever the machine, the Python version and the clock.
\<close>

section \<open>The script\<close>

text \<open>\<open>float(row["sklearn_score"])\<close> and the score of \<open>row["values"]\<close>; \<open>None\<close> when a walk does not end.\<close>

fun guest_differences :: "libm \<Rightarrow> iforest \<Rightarrow> pyval list \<Rightarrow> f64 list result option" where
  "guest_differences lm f [] = Some (Inr [])"
| "guest_differences lm f (row # rows) =
     tryO (py_subscript row ''values'') (\<lambda>xs.
     bindO (iforest_score lm f xs) (\<lambda>observed.
     tryO (float_field row ''sklearn_score'') (\<lambda>reference.
     map_option (mapR (\<lambda>ds. fabs (fsub observed reference) # ds)) (guest_differences lm f rows))))"

definition guest_result :: "string \<Rightarrow> string \<Rightarrow> string \<Rightarrow> int \<Rightarrow> f64 list \<Rightarrow> f64 \<Rightarrow> f64 \<Rightarrow> string \<Rightarrow> pyval result" where
  "guest_result stage machine python elapsed_ns ds maximum tolerance model_hash =
     bindE (bindE (float_of_int elapsed_ns) (\<lambda>x. fdiv x (Fin 1000000000))) (\<lambda>seconds.
     bindE (bindE (int_truediv elapsed_ns (max (int (length ds)) 1)) (\<lambda>x. fdiv x (Fin 1000))) (\<lambda>mean_us.
     Inr (PDict [(''schema'', PStr (''cote3-mon-'' @ stage @ ''-guest-parity-v1'')), (''status'', PStr ''PASS''),
       (''architecture'', PStr machine), (''python'', PStr python), (''vectors'', PInt (int (length ds))),
       (''max_abs_difference'', PFloat maximum), (''elapsed_seconds'', PFloat seconds),
       (''mean_inference_us'', PFloat mean_us), (''tolerance'', PFloat tolerance), (''model_sha256'', PStr model_hash),
       (''dependencies'', PStr ''Python standard library and cote3mon.iforest_runtime only'')])))"

definition guest_parity :: "libm \<Rightarrow> string \<Rightarrow> string \<Rightarrow> string \<Rightarrow> int \<Rightarrow> string \<Rightarrow> string \<Rightarrow> pyval result option" where
  "guest_parity lm stage machine python elapsed_ns model_text vectors_text =
     tryO (json_loads vectors_text) (\<lambda>vectors.
     tryO (bindE (get_is ''schema'' ''cote3-mon-iforest-parity-v1'' vectors) require) (\<lambda>_.
     let model_hash = text_sha256 model_text in
     tryO (py_subscript vectors ''model_sha256'') (\<lambda>expected.
     tryO (require (eq_str expected model_hash)) (\<lambda>_.
     tryO (bindE (json_loads model_text) iforest_init) (\<lambda>runtime.
     tryO (bindE (py_subscript vectors ''rows'') py_list) (\<lambda>rows.
     bindO (guest_differences lm runtime rows) (\<lambda>ds.
     let maximum = max_or_zero ds in
     tryO (float_field vectors ''tolerance'') (\<lambda>tolerance.
     tryO (require (\<not> flt tolerance maximum)) (\<lambda>_.
     Some (guest_result stage machine python elapsed_ns ds maximum tolerance model_hash))))))))))"

section \<open>The host's vectors\<close>

lemma fsub_abs_commute: "fabs (fsub a b) = fabs (fsub b a)"
proof (cases a; cases b)
  fix x y assume ab: "a = Fin x" "b = Fin y"
  have "rnd (y - x) = - rnd (x - y)" using rnd_minus [of "x - y"] by simp
  then show ?thesis
    using max64_pos by (auto simp: ab fsub_def of_exact_def Let_def)
qed (simp_all add: fsub_def)

lemma vector_row_reads:
  assumes "vector_row features (row, reference) = Inr v" and "distinct features"
  obtains vals where "py_subscript v ''values'' = Inr vals" and "row_values features vals = row_values features row"
    and "float_field v ''sklearn_score'' = Inr reference"
proof -
  obtain xs where xs: "row_values features row = Inr xs" and v: "py_subscript v ''values'' = Inr (float_dict (zip features xs))"
    "float_field v ''sklearn_score'' = Inr reference"
    using assms(1) by (auto simp: vector_row_def bindE_eq_Inr_iff float_field_def dget_def)
  have "length xs = length features" using xs mapE_length by (auto simp: row_values_def)
  from float_dict_values [OF assms(2) this] show thesis using that [OF v(1) _ v(2)] xs by simp
qed

text \<open>The guest's scores of the vectors are the host's scores of the rows.\<close>

lemma guest_on_vectors:
  assumes "if_features f = features" and "distinct features"
    and "detector_scores lm (Forest f) rows = Some (Inr observed)" and "mapE (vector_row features) (zip rows reference) = Inr vs"
  shows "guest_differences lm f vs = Some (Inr (differences reference observed))"
  using assms(3,4)
proof (induction rows arbitrary: observed reference vs)
  case (Cons row rows)
  show ?case
  proof (cases reference)
    case (Cons r rs)
    obtain ob obs where ob: "iforest_score lm f row = Some (Inr ob)" "detector_scores lm (Forest f) rows = Some (Inr obs)"
      "observed = ob # obs"
      using Cons.prems(1) by (auto simp: mapR_eq_Inr_iff split: option.splits sum.splits)
    obtain w ws where w: "vector_row features (row, r) = Inr w" "mapE (vector_row features) (zip rows rs) = Inr ws" "vs = w # ws"
      using Cons.prems(2) Cons by (auto simp: bindE_eq_Inr_iff)
    obtain xs where xs: "py_subscript w ''values'' = Inr xs" "row_values features xs = row_values features row"
      "float_field w ''sklearn_score'' = Inr r"
      by (rule vector_row_reads [OF w(1) assms(2)])
    have "iforest_score lm f xs = Some (Inr ob)" using iforest_score_values [of f xs row lm] xs(2) ob(1) assms(1) by simp
    then show ?thesis
      using Cons.IH [OF ob(2) w(2)] xs by (simp add: w(3) Cons ob(3) differences_def fsub_abs_commute [of ob r])
  qed (use Cons.prems in \<open>simp add: differences_def\<close>)
qed (auto simp: differences_def)

text \<open>The whole script on vectors that the host has built for the model.\<close>

lemma guest_reads_vectors:
  assumes "bindE (json_loads model_text) iforest_init = Inr f" and "if_features f = features" and "distinct features"
    and "detector_scores lm (Forest f) rows = Some (Inr observed)"
    and "parity_vectors (text_sha256 model_text) tolerance features rows reference = Inr v" and "storable v"
    and "\<not> flt tolerance (max_or_zero (differences reference observed))"
  shows "guest_parity lm stage machine python elapsed_ns model_text (dumps_indent v)
    = Some (guest_result stage machine python elapsed_ns (differences reference observed)
        (max_or_zero (differences reference observed)) tolerance (text_sha256 model_text))"
proof -
  obtain vs where vs: "mapE (vector_row features) (zip rows reference) = Inr vs"
    "v = PDict [(''schema'', PStr ''cote3-mon-iforest-parity-v1''), (''model_sha256'', PStr (text_sha256 model_text)),
         (''tolerance'', PFloat tolerance), (''features'', PList (map PStr features)), (''rows'', PList vs)]"
    using assms(5) by (auto simp: parity_vectors_def mapR_eq_Inr_iff)
  note ds = guest_on_vectors [OF assms(2-4) vs(1)]
  show ?thesis
    unfolding guest_parity_def loads_dumps(3) [OF assms(6)] Let_def bindO_simps assms(1)
    by (simp add: vs(2) get_is_def dget_def ds assms(7) float_field_def)
qed

lemma export_features:
  "export_isolation_forest forest rows fpr features = Some (Inr f) \<Longrightarrow> if_features f = features"
  by (auto simp: export_isolation_forest_def mapR_eq_Inr_iff split: sum.splits)

lemma fit_modelsE:
  assumes "fit_models sk_fit lm stage config sp = Some (Inr ms)"
  obtains seed tolerance maximum reference observed rows where
    "int_field config ''seed'' = Inr seed" and "if_features (mo_exported ms) = BASE_FEATURE_NAMES" and "mo_iforest ms = mo_exported ms"
    and "iforest_init (model_to_json (mo_exported ms) seed) = Inr (mo_exported ms)"
    and "mo_sha ms = text_sha256 (dumps_compact (model_to_json (mo_exported ms) seed))"
    and "length (if_trees (mo_exported ms)) = 100"
    and "detector_scores lm (Forest (mo_exported ms)) rows = Some (Inr observed)"
    and "maximum = max_or_zero (differences reference observed)" and "fle maximum tolerance"
    and "parity_vectors (mo_sha ms) tolerance BASE_FEATURE_NAMES rows reference = Inr (mo_vectors ms)"
    and "mo_parity ms = parity_value stage (length rows) maximum tolerance (mo_sha ms)"
proof -
  let ?rows = "sp_validation sp @ sp_benign sp @ sp_attack sp"
  obtain fpr seed baseline forest exported runtime reference observed tolerance vectors where
    seed: "int_field config ''seed'' = Inr seed"
    and ex: "export_isolation_forest forest (sp_validation sp) fpr BASE_FEATURE_NAMES = Some (Inr exported)"
    and n: "length (if_trees exported) = 100" and rt: "iforest_init (model_to_json exported seed) = Inr runtime"
    and sc: "detector_scores lm (Forest runtime) ?rows = Some (Inr observed)"
    and le: "fle (max_or_zero (differences reference observed)) tolerance"
    and pv: "parity_vectors (text_sha256 (dumps_compact (model_to_json exported seed))) tolerance BASE_FEATURE_NAMES ?rows reference = Inr vectors"
    and ms: "ms = \<lparr>mo_percentile = baseline, mo_exported = exported, mo_iforest = runtime, mo_vectors = vectors,
      mo_parity = parity_value stage (length ?rows) (max_or_zero (differences reference observed)) tolerance
        (text_sha256 (dumps_compact (model_to_json exported seed))),
      mo_sha = text_sha256 (dumps_compact (model_to_json exported seed))\<rparr>"
    using assms unfolding fit_models_def Let_def
    by (elim bindO_InrE) (auto simp: bindE_eq_Inr_iff)
  have "if_trees exported \<noteq> []" using n by auto
  then have "runtime = exported" using model_json_round_trip rt by fastforce
  then show thesis
    using that [of seed ?rows observed "max_or_zero (differences reference observed)" reference tolerance]
      seed export_features [OF ex] n rt sc le pv by (simp add: ms)
qed

text \<open>What the files of a pipeline that returned hold.\<close>

definition summary_of :: "pyval \<Rightarrow> string \<Rightarrow> bool \<Rightarrow> bool" where
  "summary_of v stage formal \<longleftrightarrow> (\<exists>d. v = PDict d \<and> dget d ''status'' = Some (PStr ''PASS'') \<and> dget d ''stage'' = Some (PStr stage)
     \<and> dget d ''formal_dissertation_experiment'' = Some (PBool formal))"

definition manifest_of :: "pyval \<Rightarrow> bool \<Rightarrow> bool" where
  "manifest_of v by_scenario \<longleftrightarrow> (\<exists>d. v = PDict d \<and> dget d ''strategy'' = Some (PStr (strategy_text by_scenario))
     \<and> dget d ''no_run_leakage'' = Some (PBool True))"

lemma summary_value_of: "summary_of (summary_value stage formal by_scenario scope x sha y artifacts) stage formal"
  by (cases x; cases y) (simp add: summary_value_def summary_of_def dget_def)

lemma split_manifest_of: "split_manifest stage seed by_scenario n sp ids = Inr v \<Longrightarrow> manifest_of v by_scenario"
  by (cases ids) (auto simp: split_manifest_def manifest_of_def bindE_eq_Inr_iff dget_def Let_def)

lemma host_pipelineE:
  assumes "host_pipeline rb seeded seed_of sk_fit lm python versions config_text request_files resource_files result_texts iterations
    = Some (Inr files)"
  obtains config stage formal by_scenario sp ms seed where "json_loads config_text = Inr config"
    and "mapR py_str (py_get config ''stage'' (PStr ''stage3'')) = Inr stage"
    and "mapR truthy (py_get config ''formal_dissertation_experiment'' (PBool False)) = Inr formal"
    and "stratified config = Inr by_scenario" and "int_field config ''seed'' = Inr seed"
    and "fit_models sk_fit lm stage config sp = Some (Inr ms)"
    and "hf_forest files = model_to_json (mo_exported ms) seed" and "hf_vectors files = mo_vectors ms" and "hf_parity files = mo_parity ms"
    and "summary_of (hf_summary files) stage formal" and "manifest_of (hf_split files) by_scenario"
proof -
  from assms obtain config where c: "json_loads config_text = Inr config" unfolding host_pipeline_def
    by (elim bindO_InrE) simp
  from assms obtain stage where s: "mapR py_str (py_get config ''stage'' (PStr ''stage3'')) = Inr stage"
    unfolding host_pipeline_def c by (elim bindO_InrE) simp
  from assms obtain formal where f: "mapR truthy (py_get config ''formal_dissertation_experiment'' (PBool False)) = Inr formal"
    unfolding host_pipeline_def c bindO_simps s by (elim bindO_InrE) simp
  from assms obtain by_scenario sp ms seed n ids manifest where fit: "fit_models sk_fit lm stage config sp = Some (Inr ms)"
    "int_field config ''seed'' = Inr seed" "stratified config = Inr by_scenario"
    "split_manifest stage seed by_scenario n sp ids = Inr manifest"
    "hf_forest files = model_to_json (mo_exported ms) seed" "hf_vectors files = mo_vectors ms" "hf_parity files = mo_parity ms"
    "hf_split files = manifest" "summary_of (hf_summary files) stage formal"
    unfolding host_pipeline_def c bindO_simps s f
    by (elim bindO_InrE) (auto elim!: bindO_InrE simp: bindE_eq_Inr_iff summary_value_of split: prod.splits option.splits)
  from c s f fit(3,2,1,5-7,9) show thesis by (rule that) (use fit(8) split_manifest_of [OF fit(4)] in simp)
qed

lemma guest_reads_host:
  assumes "host_pipeline rb seeded seed_of sk_fit lm python versions config_text request_files resource_files result_texts iterations
      = Some (Inr files)"
    and "storable (hf_forest files)" and "storable (hf_vectors files)"
  obtains ds n stage maximum tolerance sha where "\<And>guest_stage machine guest_python elapsed_ns. guest_parity lm guest_stage machine guest_python
      elapsed_ns (dumps_compact (hf_forest files)) (dumps_indent (hf_vectors files))
        = Some (guest_result guest_stage machine guest_python elapsed_ns ds maximum tolerance sha)"
    and "hf_parity files = parity_value stage n maximum tolerance sha" and "length ds \<le> n" and "fle maximum tolerance"
    and "sha = text_sha256 (dumps_compact (hf_forest files))"
    and "\<exists>ts. py_get (hf_forest files) ''trees'' (PList []) = Inr (PList ts) \<and> length ts = 100"
proof -
  obtain stage config sp ms seed where fit: "fit_models sk_fit lm stage config sp = Some (Inr ms)" "int_field config ''seed'' = Inr seed"
    and files: "hf_forest files = model_to_json (mo_exported ms) seed" "hf_vectors files = mo_vectors ms" "hf_parity files = mo_parity ms"
    by (rule host_pipelineE [OF assms(1)])
  obtain tolerance maximum reference observed rows where
    f: "if_features (mo_exported ms) = BASE_FEATURE_NAMES" "iforest_init (model_to_json (mo_exported ms) seed) = Inr (mo_exported ms)"
    and n: "length (if_trees (mo_exported ms)) = 100"
    and sha: "mo_sha ms = text_sha256 (dumps_compact (hf_forest files))"
    and sc: "detector_scores lm (Forest (mo_exported ms)) rows = Some (Inr observed)"
    and mx: "maximum = max_or_zero (differences reference observed)" and le: "fle maximum tolerance"
    and pv: "parity_vectors (mo_sha ms) tolerance BASE_FEATURE_NAMES rows reference = Inr (mo_vectors ms)"
    and parity: "mo_parity ms = parity_value stage (length rows) maximum tolerance (mo_sha ms)"
    by (rule fit_modelsE [OF fit(1)]) (use fit(2) files(1) in simp)
  have model: "bindE (json_loads (dumps_compact (hf_forest files))) iforest_init = Inr (mo_exported ms)"
    unfolding loads_dumps(2) [OF assms(2)] using f(2) by (simp add: files(1))
  have ok: "\<not> flt tolerance (max_or_zero (differences reference observed))" using le by (auto simp: fle_def flt_def mx)
  have "parity_vectors (text_sha256 (dumps_compact (hf_forest files))) tolerance BASE_FEATURE_NAMES rows reference = Inr (hf_vectors files)"
    using pv sha files(2) by simp
  from guest_reads_vectors [OF model f(1) base_features_distinct sc this assms(3) ok]
  have "guest_parity lm guest_stage machine guest_python elapsed_ns (dumps_compact (hf_forest files)) (dumps_indent (hf_vectors files))
      = Some (guest_result guest_stage machine guest_python elapsed_ns (differences reference observed) maximum tolerance (mo_sha ms))"
    for guest_stage machine guest_python elapsed_ns
    by (simp add: mx sha)
  moreover have "\<exists>ts. py_get (hf_forest files) ''trees'' (PList []) = Inr (PList ts) \<and> length ts = 100"
    by (simp add: files(1) model_to_json_def dget_def n)
  moreover have "length (differences reference observed) \<le> length rows"
    using detector_scores_length [OF sc] by (simp add: differences_def)
  ultimately show thesis using that parity files(3) le sha by simp
qed

lemma guest_result_fields:
  assumes "guest_result stage machine python elapsed_ns ds maximum tolerance sha = Inr result"
  shows "\<exists>d. result = PDict d \<and> dget d ''status'' = Some (PStr ''PASS'') \<and> dget d ''max_abs_difference'' = Some (PFloat maximum)
    \<and> dget d ''tolerance'' = Some (PFloat tolerance) \<and> dget d ''model_sha256'' = Some (PStr sha)"
  using assms by (auto simp: guest_result_def bindE_eq_Inr_iff dget_def)

lemma guest_result_ok:
  assumes "0 \<le> elapsed_ns" and "elapsed_ns \<le> 2 ^ 53"
  obtains result where "guest_result stage machine python elapsed_ns ds maximum tolerance sha = Inr result"
    and "py_subscript result ''status'' = Inr (PStr ''PASS'')" and "py_subscript result ''max_abs_difference'' = Inr (PFloat maximum)"
    and "py_subscript result ''tolerance'' = Inr (PFloat tolerance)" and "py_subscript result ''model_sha256'' = Inr (PStr sha)"
proof -
  let ?n = "max (int (length ds)) 1"
  have f: "float_of_int elapsed_ns = Inr (Fin (of_int elapsed_ns))" using assms by (intro float_of_int_small) simp
  have "(1 :: rat) \<le> of_int ?n" by (metis max.cobounded2 of_int_1 of_int_le_iff)
  then have "of_int elapsed_ns / of_int ?n \<le> (of_int elapsed_ns :: rat) / 1" using assms(1) by (intro frac_le) simp_all
  also have "of_int elapsed_ns \<le> (2 :: rat) ^ 53" using assms(2) by (metis of_int_le_iff of_int_numeral of_int_power)
  finally have "\<bar>of_int elapsed_ns / of_int ?n\<bar> \<le> (2 :: rat) ^ 64"
    using assms(1) by simp
  then have d: "int_truediv elapsed_ns ?n = Inr (Fin (rnd (of_int elapsed_ns / of_int ?n)))"
    by (simp add: int_truediv_def exact_or_overflow_small)
  have "\<exists>result. guest_result stage machine python elapsed_ns ds maximum tolerance sha = Inr result"
    by (simp add: guest_result_def f d)
  then show thesis using that guest_result_fields by fastforce
qed

section \<open>Properties\<close>

text \<open>What the host pipeline writes passes the guest's parity check: for the model and vector
  files of a pipeline that returned, on every machine and at every speed, the guest script scores
  the model it reads from the file exactly as the host did and answers \<open>PASS\<close> with the host's
  greatest difference, tolerance and model digest.\<close>

theorem guest_accepts_host:
  assumes "host_pipeline rb seeded seed_of sk_fit lm python versions config_text request_files resource_files result_texts iterations
      = Some (Inr files)"
    and "storable (hf_forest files)" and "storable (hf_vectors files)" and "0 \<le> elapsed_ns" and "elapsed_ns \<le> 2 ^ 53"
  shows "\<exists>result. guest_parity lm guest_stage machine guest_python elapsed_ns (dumps_compact (hf_forest files)) (dumps_indent (hf_vectors files))
      = Some (Inr result) \<and> py_subscript result ''status'' = Inr (PStr ''PASS'')
    \<and> (\<forall>k\<in>{''max_abs_difference'', ''tolerance'', ''model_sha256''}. py_subscript result k = py_subscript (hf_parity files) k)"
proof -
  obtain ds n stage maximum tolerance sha where g: "\<And>guest_stage machine guest_python elapsed_ns. guest_parity lm guest_stage
      machine guest_python elapsed_ns (dumps_compact (hf_forest files)) (dumps_indent (hf_vectors files))
        = Some (guest_result guest_stage machine guest_python elapsed_ns ds maximum tolerance sha)"
    and p: "hf_parity files = parity_value stage n maximum tolerance sha"
    by (rule guest_reads_host [OF assms(1-3)]) (rule that)
  obtain result where "guest_result guest_stage machine guest_python elapsed_ns ds maximum tolerance sha = Inr result"
    "py_subscript result ''status'' = Inr (PStr ''PASS'')"
    "py_subscript result ''max_abs_difference'' = Inr (PFloat maximum)" "py_subscript result ''tolerance'' = Inr (PFloat tolerance)"
    "py_subscript result ''model_sha256'' = Inr (PStr sha)"
    by (rule guest_result_ok [OF assms(4,5)])
  then show ?thesis using g by (simp add: p parity_value_def dget_def)
qed

theorem guest_accepts_host_witness:
  "\<exists>files result. sample_pipeline = Some (Inr files)
    \<and> guest_parity sample_libm ''stage3'' ''aarch64'' ''3.10'' 5000 (dumps_compact (hf_forest files)) (dumps_indent (hf_vectors files))
      = Some (Inr result)
    \<and> py_subscript result ''status'' = Inr (PStr ''PASS'')"
proof -
  obtain files where files: "sample_pipeline = Some (Inr files)" "storable (hf_forest files)" "storable (hf_vectors files)"
    using sample_pipeline_runs by auto
  show ?thesis
    using guest_accepts_host [OF files(1) [unfolded sample_pipeline_def] files(2,3), where elapsed_ns = 5000
        and guest_stage = "''stage3''" and machine = "''aarch64''" and guest_python = "''3.10''"] files(1) by auto
qed

end
