(* ===== verification/Stage_Acceptance.thy ===== *)
theory Stage_Acceptance
  imports Guest_Parity
begin

text \<open>
  \<open>scripts/stage3-finalize.py\<close>, \<open>stage4-complete.py\<close> and \<open>stage5-finalize.py\<close>: the scripts that join
  the evidence files of a stage into one record with their digests.  A file is its text, or
  absent.
\<close>

section \<open>Values\<close>

definition load_file :: "string option \<Rightarrow> pyval result" where
  "load_file file = (case file of None \<Rightarrow> Inl RuntimeError | Some t \<Rightarrow> json_loads t)"

definition file_sha256 :: "string option \<Rightarrow> string result" where
  "file_sha256 file = (case file of None \<Rightarrow> Inl FileNotFoundError | Some t \<Rightarrow> Inr (text_sha256 t))"

fun py_len :: "pyval \<Rightarrow> int result" where
  "py_len (PList xs) = Inr (int (length xs))"
| "py_len (PDict d) = Inr (int (length d))"
| "py_len (PStr s) = Inr (int (length s))"
| "py_len _ = Inl TypeError"

text \<open>\<open>==\<close> of two values: numbers by their value, a NaN is equal to nothing, dictionaries whatever
  their order.\<close>

fun number_of :: "pyval \<Rightarrow> f64 option" where
  "number_of (PBool b) = Some (Fin (of_bool b))"
| "number_of (PInt n) = Some (Fin (of_int n))"
| "number_of (PFloat x) = Some x"
| "number_of _ = None"

lemma size_snd_less: "(k, v) \<in> set d \<Longrightarrow> size v < Suc (size_list (size_prod (\<lambda>_. 0) size) d)"
  by (induction d) auto

lemma size_item: "x \<in> set xs \<Longrightarrow> size x < Suc (size_list size xs)"
  by (induction xs) auto

function py_eq :: "pyval \<Rightarrow> pyval \<Rightarrow> bool" where
  "py_eq (PStr s) w \<longleftrightarrow> w = PStr s"
| "py_eq PNone w \<longleftrightarrow> w = PNone"
| "py_eq (PList xs) w \<longleftrightarrow> (case w of PList ys \<Rightarrow> length xs = length ys \<and> list_all (\<lambda>(x, y). py_eq x y) (zip xs ys) | _ \<Rightarrow> False)"
| "py_eq (PDict d) w \<longleftrightarrow> (case w of PDict e \<Rightarrow> length d = length e
     \<and> list_all (\<lambda>(k, v). case dget e k of None \<Rightarrow> False | Some u \<Rightarrow> py_eq v u) d | _ \<Rightarrow> False)"
| "py_eq (PBool b) w \<longleftrightarrow> number_of w = Some (Fin (of_bool b))"
| "py_eq (PInt n) w \<longleftrightarrow> number_of w = Some (Fin (of_int n))"
| "py_eq (PFloat x) w \<longleftrightarrow> x \<noteq> NaN \<and> number_of w = Some x"
  by pat_completeness auto
termination
  by (relation "measure (size \<circ> fst)")
     (auto dest!: set_zip_leftD intro: size_item size_snd_less)

text \<open>\<open>part in text\<close>\<close>

definition substring :: "string \<Rightarrow> string \<Rightarrow> bool" where
  "substring part t \<longleftrightarrow> list_ex (\<lambda>i. take (length part) (drop i t) = part) [0..<Suc (length t)]"

lemma substring_prefix: "substring part (part @ t)"
proof -
  have "0 \<in> set [0..<Suc (length (part @ t))]" by simp
  then show ?thesis by (auto simp: substring_def list_ex_iff simp del: upt_Suc intro!: bexI [of _ 0])
qed

section \<open>Stage 3 and the detection part of stage 4\<close>

record evidence =
  ev_summary :: "string option"
  ev_host :: "string option"
  ev_guest :: "string option"
  ev_metrics :: "string option"
  ev_split :: "string option"
  ev_model :: "string option"

definition get_or_none :: "pyval \<Rightarrow> string list \<Rightarrow> (string \<times> pyval) list result" where
  "get_or_none v ks = mapE (\<lambda>k. mapR (Pair k) (py_get v k PNone)) ks"

text \<open>The requirements on the loaded files.\<close>

definition stage_label :: "string \<Rightarrow> bool \<Rightarrow> pyval \<Rightarrow> unit result" where
  "stage_label stage formal manifest =
     (if stage = ''stage3'' then require (\<not> formal)
      else if stage = ''stage4'' then bindE (require formal) (\<lambda>_.
        bindE (py_get manifest ''strategy'' (PStr [])) (\<lambda>strategy.
        require (substring ''stratified by benign scenario'' (py_str strategy))))
      else Inr ())"

definition same_model_everywhere :: "pyval \<Rightarrow> pyval \<Rightarrow> string option \<Rightarrow> unit result" where
  "same_model_everywhere host guest model_file =
     bindE (py_get host ''model_sha256'' PNone) (\<lambda>h.
     bindE (py_get guest ''model_sha256'' PNone) (\<lambda>g.
     bindE (require (py_eq h g)) (\<lambda>_.
     bindE (file_sha256 model_file) (\<lambda>actual. require (eq_str h actual)))))"

definition finalize_checks :: "evidence \<Rightarrow> string \<Rightarrow> bool \<Rightarrow> pyval \<Rightarrow> pyval \<Rightarrow> pyval \<Rightarrow> pyval \<Rightarrow> pyval \<Rightarrow> unit result" where
  "finalize_checks ev stage formal summary host guest manifest model =
     bindE (bindE (get_is ''status'' ''PASS'' summary) require) (\<lambda>_.
     bindE (stage_label stage formal manifest) (\<lambda>_.
     bindE (bindE (get_is ''status'' ''PASS'' host) require) (\<lambda>_.
     bindE (bindE (get_is ''status'' ''PASS'' guest) require) (\<lambda>_.
     bindE (bindE (py_get manifest ''no_run_leakage'' PNone) (\<lambda>v. require (v = PBool True))) (\<lambda>_.
     bindE (bindE (bindE (py_get model ''trees'' (PList [])) py_len) (\<lambda>n. require (n = 100))) (\<lambda>_.
     bindE (same_model_everywhere host guest (ev_model ev)) (\<lambda>_.
     bindE (float_field guest ''max_abs_difference'') (\<lambda>maximum.
     bindE (float_field guest ''tolerance'') (\<lambda>tolerance.
     require (fle maximum tolerance))))))))))"

definition meaning_text :: "bool \<Rightarrow> string" where
  "meaning_text formal =
     (if formal
      then ''The 10x60-second formal QEMU detection experiment, run-level stratified split, '' @
           ''model training, and dependency-free guest inference all passed acceptance.''
      else ''The real QEMU telemetry-to-model pipeline and dependency-free guest inference '' @
           ''are reproducible. Detection performance remains a smoke result, not the final thesis result.'')"

definition finalize_report :: "evidence \<Rightarrow> string \<Rightarrow> bool \<Rightarrow> pyval \<Rightarrow> pyval \<Rightarrow> pyval result" where
  "finalize_report ev stage formal summary guest =
     bindE (py_get summary ''scope'' (PStr stage)) (\<lambda>scope.
     bindE (get_or_none guest [''architecture'', ''python'', ''vectors'', ''max_abs_difference'', ''tolerance'']) (\<lambda>guest_fields.
     bindE (mapE (\<lambda>(k, file). mapR (\<lambda>h. (k, PStr h)) (file_sha256 file))
       [(''model'', ev_model ev), (''metrics'', ev_metrics ev), (''split_manifest'', ev_split ev),
        (''host_summary'', ev_summary ev), (''guest_parity'', ev_guest ev)]) (\<lambda>digests.
     Inr (PDict [(''schema'', PStr (''cote3-mon-'' @ stage @ ''-final-v1'')), (''status'', PStr ''PASS''), (''stage'', PStr stage),
       (''scope'', scope), (''formal_dissertation_experiment'', PBool formal), (''meaning'', PStr (meaning_text formal)),
       (''checks'', PDict [(''qemu_collection_and_host_pipeline'', PStr ''PASS''), (''complete_run_split_without_leakage'', PStr ''PASS''),
          (''attack_data_test_only'', PStr ''PASS''), (''percentile_and_isolation_forest_models'', PStr ''PASS''),
          (''isolation_forest_tree_count'', PInt 100), (''host_export_parity'', PStr ''PASS''),
          (''qemu_guest_dependency_free_parity'', PStr ''PASS'')]),
       (''guest'', PDict guest_fields), (''sha256'', PDict digests)]))))"

definition finalize :: "evidence \<Rightarrow> pyval result" where
  "finalize ev =
     bindE (load_file (ev_summary ev)) (\<lambda>summary.
     bindE (load_file (ev_host ev)) (\<lambda>host.
     bindE (load_file (ev_guest ev)) (\<lambda>guest.
     bindE (load_file (ev_metrics ev)) (\<lambda>_.
     bindE (load_file (ev_split ev)) (\<lambda>manifest.
     bindE (load_file (ev_model ev)) (\<lambda>model.
     bindE (mapR py_str (py_get summary ''stage'' (PStr ''stage3''))) (\<lambda>stage.
     bindE (mapR truthy (py_get summary ''formal_dissertation_experiment'' (PBool False))) (\<lambda>formal.
     bindE (finalize_checks ev stage formal summary host guest manifest model) (\<lambda>_.
     finalize_report ev stage formal summary guest)))))))))"

section \<open>From the host pipeline to acceptance\<close>

text \<open>The labels a stage's evidence may carry.\<close>

definition label_allowed :: "string \<Rightarrow> bool \<Rightarrow> bool \<Rightarrow> bool" where
  "label_allowed stage formal by_scenario \<longleftrightarrow>
     (stage = ''stage3'' \<longrightarrow> \<not> formal) \<and> (stage = ''stage4'' \<longrightarrow> formal \<and> by_scenario)"

definition written_evidence :: "host_files \<Rightarrow> pyval \<Rightarrow> evidence" where
  "written_evidence files guest = \<lparr>ev_summary = Some (dumps_indent (hf_summary files)), ev_host = Some (dumps_indent (hf_parity files)),
     ev_guest = Some (dumps_indent guest), ev_metrics = Some (dumps_indent (hf_metrics files)),
     ev_split = Some (dumps_indent (hf_split files)), ev_model = Some (dumps_compact (hf_forest files))\<rparr>"

lemma strategy_global: "\<not> substring ''stratified by benign scenario'' (strategy_text False)"
  by code_simp

lemma strategy_scenario: "substring ''stratified by benign scenario'' (strategy_text b) = b"
proof (cases b)
  case True
  then show ?thesis
    using substring_prefix [of "''stratified by benign scenario''"
      "'', then complete runs: 60% train, 20% validation, 20% test; attacks test only''"]
    by (simp add: strategy_text_def)
next
  case False
  then show ?thesis using strategy_global by simp
qed

lemma load_written: "storable v \<Longrightarrow> load_file (Some (dumps_indent v)) = Inr v" "storable v \<Longrightarrow> load_file (Some (dumps_compact v)) = Inr v"
  by (simp_all add: load_file_def loads_dumps)

lemma stage_label_written:
  assumes "manifest_of manifest by_scenario"
  shows "stage_label stage formal manifest = (if label_allowed stage formal by_scenario then Inr () else Inl RuntimeError)"
  using assms by (cases formal) (auto simp: stage_label_def label_allowed_def manifest_of_def strategy_scenario require_def)

text \<open>The checks on the files of a host pipeline and of the guest's answer to them leave only the label.\<close>

lemma finalize_checks_written:
  assumes "summary_of summary stage formal" and "manifest_of manifest by_scenario"
    and "host = parity_value host_stage n maximum tolerance sha" and "sha = text_sha256 model_text"
    and "guest_result guest_stage machine python elapsed_ns ds maximum tolerance sha = Inr guest" and "fle maximum tolerance"
    and "py_get model ''trees'' (PList []) = Inr (PList ts)" and "length ts = 100" and "ev_model ev = Some model_text"
  shows "finalize_checks ev stage formal summary host guest manifest model
    = (if label_allowed stage formal by_scenario then Inr () else Inl RuntimeError)"
proof -
  obtain d where d: "guest = PDict d" "dget d ''status'' = Some (PStr ''PASS'')" "dget d ''max_abs_difference'' = Some (PFloat maximum)"
    "dget d ''tolerance'' = Some (PFloat tolerance)" "dget d ''model_sha256'' = Some (PStr sha)"
    using guest_result_fields [OF assms(5)] by blast
  obtain e where e: "summary = PDict e" "dget e ''status'' = Some (PStr ''PASS'')" using assms(1) by (auto simp: summary_of_def)
  obtain m where m: "manifest = PDict m" "dget m ''no_run_leakage'' = Some (PBool True)" using assms(2) by (auto simp: manifest_of_def)
  obtain h where h: "host = PDict h" "dget h ''status'' = Some (PStr ''PASS'')" "dget h ''model_sha256'' = Some (PStr sha)"
    by (simp add: assms(3) parity_value_def dget_def)
  show ?thesis
    unfolding finalize_checks_def stage_label_written [OF assms(2)] assms(7)
    by (simp add: get_is_def e d m h assms(4,6,8,9) same_model_everywhere_def file_sha256_def float_field_def)
qed

lemma finalize_report_written:
  assumes "summary_of summary stage formal" and "guest = PDict d"
    and "ev = \<lparr>ev_summary = Some a, ev_host = Some b, ev_guest = Some c, ev_metrics = Some m, ev_split = Some s, ev_model = Some f\<rparr>"
  shows "\<exists>r. finalize_report ev stage formal summary guest = Inr (PDict r) \<and> dget r ''status'' = Some (PStr ''PASS'')
    \<and> dget r ''stage'' = Some (PStr stage) \<and> dget r ''formal_dissertation_experiment'' = Some (PBool formal)
    \<and> dget r ''sha256'' = Some (PDict [(''model'', PStr (text_sha256 f)), (''metrics'', PStr (text_sha256 m)),
         (''split_manifest'', PStr (text_sha256 s)), (''host_summary'', PStr (text_sha256 a)), (''guest_parity'', PStr (text_sha256 c))])"
proof -
  obtain e where e: "summary = PDict e" using assms(1) by (auto simp: summary_of_def)
  obtain fields where fields: "get_or_none guest [''architecture'', ''python'', ''vectors'', ''max_abs_difference'', ''tolerance''] = Inr fields"
    by (simp add: get_or_none_def assms(2))
  show ?thesis
    unfolding finalize_report_def fields by (simp add: e assms(3) file_sha256_def) (simp add: dget_def)
qed

lemma sample_guest:
  assumes "sample_pipeline = Some (Inr files)" and "storable (hf_forest files)" and "storable (hf_vectors files)"
    and "hf_parity files = parity_value ''stage3'' 3 (Fin 0) (Fin 0) sample_sha"
  shows "\<exists>guest. guest_parity sample_libm ''stage3'' ''aarch64'' ''3.10'' 0 (dumps_compact (hf_forest files)) (dumps_indent (hf_vectors files))
    = Some (Inr guest) \<and> storable guest"
proof -
  obtain ds n stage maximum tolerance sha where
    g: "\<And>guest_stage machine guest_python elapsed_ns. guest_parity sample_libm guest_stage machine guest_python elapsed_ns
        (dumps_compact (hf_forest files)) (dumps_indent (hf_vectors files))
      = Some (guest_result guest_stage machine guest_python elapsed_ns ds maximum tolerance sha)"
    and parity: "hf_parity files = parity_value stage n maximum tolerance sha" "length ds \<le> n"
    by (rule guest_reads_host [OF assms(1) [unfolded sample_pipeline_def] assms(2,3)]) (rule that)
  have same: "n = 3" "maximum = Fin 0" "tolerance = Fin 0" using assms(4) parity(1) by (simp_all add: parity_value_def)
  then have n: "length ds = 0 \<or> length ds = 1 \<or> length ds = 2 \<or> length ds = 3" using parity(2) by linarith
  have short: "short_int (int (length ds))"
    using n by (elim disjE) (simp_all add: short_int_def nat_str.simps)
  have zero: "fdiv (Fin 0) (Fin 1000000000) = Inr (Fin 0)" "fdiv (Fin 0) (Fin 1000) = Inr (Fin 0)"
    using of_exact_small [of 0] by simp_all
  have "int_truediv 0 (max (int (length ds)) 1) = Inr (Fin 0)"
    by (simp add: int_truediv_def exact_or_overflow_small)
  then show ?thesis
    using short f64_zero_one by (simp add: g guest_result_def float_of_int_small zero same del: fdiv.simps)
qed

section \<open>Properties\<close>

text \<open>C2. From telemetry to acceptance: when the host pipeline has returned its files and the guest
  script has answered on the model and vector files, finalizing them accepts exactly when the
  labels are allowed (stage 3 is not formal, stage 4 is formal and split by scenario); the record
  then carries the stage, the label and the digests of the very files that were checked, and
  otherwise the script fails.  No other check can fail on these files.\<close>

theorem pipeline_accepted:
  assumes "host_pipeline rb seeded seed_of sk_fit lm python versions config_text request_files resource_files result_texts iterations
      = Some (Inr files)"
    and "list_all storable [hf_forest files, hf_vectors files, hf_parity files, hf_metrics files, hf_split files, hf_summary files]"
    and "guest_parity lm guest_stage machine guest_python elapsed_ns (dumps_compact (hf_forest files)) (dumps_indent (hf_vectors files))
      = Some (Inr guest)"
    and "storable guest" and "json_loads config_text = Inr config"
    and "mapR py_str (py_get config ''stage'' (PStr ''stage3'')) = Inr stage"
    and "mapR truthy (py_get config ''formal_dissertation_experiment'' (PBool False)) = Inr formal"
    and "stratified config = Inr by_scenario"
  shows "if label_allowed stage formal by_scenario
    then \<exists>r. finalize (written_evidence files guest) = Inr (PDict r) \<and> dget r ''status'' = Some (PStr ''PASS'')
      \<and> dget r ''stage'' = Some (PStr stage) \<and> dget r ''formal_dissertation_experiment'' = Some (PBool formal)
      \<and> dget r ''sha256'' = Some (PDict [(''model'', PStr (text_sha256 (dumps_compact (hf_forest files)))),
           (''metrics'', PStr (text_sha256 (dumps_indent (hf_metrics files)))),
           (''split_manifest'', PStr (text_sha256 (dumps_indent (hf_split files)))),
           (''host_summary'', PStr (text_sha256 (dumps_indent (hf_summary files)))),
           (''guest_parity'', PStr (text_sha256 (dumps_indent guest)))])
    else finalize (written_evidence files guest) = Inl RuntimeError"
proof -
  have st: "storable (hf_forest files)" "storable (hf_vectors files)" "storable (hf_parity files)" "storable (hf_metrics files)"
    "storable (hf_split files)" "storable (hf_summary files)"
    using assms(2) by simp_all
  have of_config: "summary_of (hf_summary files) stage formal" "manifest_of (hf_split files) by_scenario"
    by (rule host_pipelineE [OF assms(1)]; use assms(5-8) in simp)+
  obtain d where summary: "hf_summary files = PDict d" "dget d ''stage'' = Some (PStr stage)"
    "dget d ''formal_dissertation_experiment'' = Some (PBool formal)"
    using of_config(1) by (auto simp: summary_of_def)
  obtain ds n host_stage maximum tolerance sha ts where len: "length ds \<le> n" and
    g: "\<And>guest_stage machine guest_python elapsed_ns. guest_parity lm guest_stage machine guest_python elapsed_ns
        (dumps_compact (hf_forest files)) (dumps_indent (hf_vectors files))
      = Some (guest_result guest_stage machine guest_python elapsed_ns ds maximum tolerance sha)"
    and parity: "hf_parity files = parity_value host_stage n maximum tolerance sha" "fle maximum tolerance"
      "sha = text_sha256 (dumps_compact (hf_forest files))"
    and trees: "py_get (hf_forest files) ''trees'' (PList []) = Inr (PList ts)" "length ts = 100"
    by (rule guest_reads_host [OF assms(1) st(1,2)]) blast
  have guest: "guest_result guest_stage machine guest_python elapsed_ns ds maximum tolerance sha = Inr guest"
    using assms(3) by (simp add: g)
  then obtain e where e: "guest = PDict e" using guest_result_fields by blast
  have checks: "finalize_checks (written_evidence files guest) stage formal (hf_summary files) (hf_parity files) guest (hf_split files) (hf_forest files)
      = (if label_allowed stage formal by_scenario then Inr () else Inl RuntimeError)"
    by (rule finalize_checks_written [OF of_config parity(1,3) guest parity(2) trees]) (simp add: written_evidence_def)
  have loaded: "finalize (written_evidence files guest)
      = bindE (if label_allowed stage formal by_scenario then Inr () else Inl RuntimeError)
          (\<lambda>_. finalize_report (written_evidence files guest) stage formal (hf_summary files) guest)"
    unfolding checks [symmetric]
    by (simp add: finalize_def written_evidence_def load_written st assms(4)) (simp add: summary)
  show ?thesis
    using finalize_report_written [OF of_config(1) e written_evidence_def [of files guest]] by (simp add: loaded)
qed

theorem pipeline_accepted_witness:
  "\<exists>files guest r. sample_pipeline = Some (Inr files)
    \<and> guest_parity sample_libm ''stage3'' ''aarch64'' ''3.10'' 0 (dumps_compact (hf_forest files)) (dumps_indent (hf_vectors files))
      = Some (Inr guest)
    \<and> finalize (written_evidence files guest) = Inr (PDict r) \<and> dget r ''status'' = Some (PStr ''PASS'')"
proof -
  obtain files where files: "sample_pipeline = Some (Inr files)"
    "list_all storable [hf_forest files, hf_vectors files, hf_parity files, hf_metrics files, hf_split files, hf_summary files]"
    "hf_parity files = parity_value ''stage3'' 3 (Fin 0) (Fin 0) sample_sha"
    using sample_pipeline_runs by blast
  then have st: "storable (hf_forest files)" "storable (hf_vectors files)" by simp_all
  obtain guest where guest: "guest_parity sample_libm ''stage3'' ''aarch64'' ''3.10'' 0 (dumps_compact (hf_forest files))
      (dumps_indent (hf_vectors files)) = Some (Inr guest)" "storable guest"
    using sample_guest [OF files(1) st files(3)] by blast
  have "label_allowed ''stage3'' False False" by (simp add: label_allowed_def)
  then show ?thesis
    using pipeline_accepted [OF files(1) [unfolded sample_pipeline_def] files(2) guest sample_config_loads, of "''stage3''" False False]
      files(1) guest(1) by auto
qed

end
