(* ===== verification/Final_Acceptance.thy ===== *)
theory Final_Acceptance
  imports Stage_Acceptance
begin

text \<open>
  \<open>scripts/stage4-complete.py\<close> and \<open>scripts/stage5-finalize.py\<close>: the acceptance records of the
  formal experiment and of the feature ablation.  What a record says of the guest's models is
  bound to the digests and differences in the files that were read.
\<close>

section \<open>Values\<close>

fun py_items :: "pyval \<Rightarrow> (string \<times> pyval) list result" where
  "py_items (PDict d) = Inr d"
| "py_items _ = Inl AttributeError"

text \<open>A dictionary of values found at the given places.\<close>

definition picked :: "(string \<times> pyval result) list \<Rightarrow> pyval result" where
  "picked entries = mapR PDict (mapE (\<lambda>(k, r). mapR (Pair k) r) entries)"

definition digests_of :: "(string \<times> string option) list \<Rightarrow> pyval result" where
  "digests_of files = picked (map (\<lambda>(k, file). (k, mapR PStr (file_sha256 file))) files)"

text \<open>\<open>{name: f(name, value) for name, value in v.items()}\<close>\<close>

definition map_items :: "(string \<Rightarrow> pyval \<Rightarrow> pyval result) \<Rightarrow> pyval \<Rightarrow> pyval result" where
  "map_items f v = bindE (py_items v) (\<lambda>d. mapR PDict (mapE (\<lambda>(k, w). mapR (Pair k) (f k w)) d))"

section \<open>Stage 4\<close>

definition configurations :: "string list" where
  "configurations = [''gateway_only'', ''telemetry'', ''telemetry_iforest'', ''telemetry_iforest_audit_ta'']"

definition passed_formally :: "pyval \<Rightarrow> bool result" where
  "passed_formally v =
     bindE (get_is ''status'' ''PASS'' v) (\<lambda>passed.
     if passed then mapR truthy (py_get v ''formal_dissertation_experiment'' PNone) else Inr False)"

record stage4_evidence =
  s4_detection :: "string option"
  s4_metrics :: "string option"
  s4_performance :: "string option"
  s4_runs :: "string option"

definition ten_runs_each :: "pyval \<Rightarrow> unit result" where
  "ten_runs_each per_configuration =
     bindE (py_set per_configuration) (\<lambda>names.
     bindE (require (same_set names configurations)) (\<lambda>_.
     bindE (py_items per_configuration) (\<lambda>items.
     bindE (anyE (\<lambda>(_, v). mapR (\<lambda>n. n \<noteq> 10) (int_field v ''runs'')) items) (\<lambda>short.
     require (\<not> short)))))"

definition detection_headline :: "pyval \<Rightarrow> pyval result" where
  "detection_headline metrics =
     picked [(''percentile_f1'', py_path metrics [''percentile'', ''f1'']), (''percentile_auprc'', py_path metrics [''percentile'', ''auprc'']),
       (''iforest_f1'', py_path metrics [''iforest'', ''f1'']), (''iforest_auprc'', py_path metrics [''iforest'', ''auprc'']),
       (''iforest_recall'', py_path metrics [''iforest'', ''recall'']), (''iforest_false_positives'', py_path metrics [''iforest'', ''fp''])]"

definition performance_headline :: "pyval \<Rightarrow> pyval result" where
  "performance_headline = map_items (\<lambda>_ v. picked (map (\<lambda>k. (k, py_path v [''metrics'', k, ''mean'']))
     [''throughput_rps'', ''gateway_cpu_percent'', ''monitor_cpu_percent'', ''inference_mean_us'', ''audit_append_mean_us'']))"

definition stage4_checks :: pyval where
  "stage4_checks = PDict [(''qemu_detection_runs'', PInt 70), (''detection_scenarios'', PInt 7), (''stratified_complete_run_split'', PStr ''PASS''),
     (''percentile_and_100_tree_iforest'', PStr ''PASS''), (''aarch64_dependency_free_parity'', PStr ''PASS''), (''performance_runs'', PInt 40),
     (''performance_configurations'', PInt 4), (''online_iforest'', PStr ''PASS''), (''real_audit_ta_alert_anchoring'', PStr ''PASS'')]"

definition stage4_limits :: pyval where
  "stage4_limits = PList (map PStr
     [''Detection recall remains limited, especially for replay and flood; results were not cherry-picked.'',
      ''Telemetry increased gateway CPU, but no throughput penalty was observed under this QEMU workload.'',
      ''QEMU timings are suitable for relative prototype comparisons, not direct hardware performance claims.'',
      ''TEE anchoring protects submitted alerts but cannot prove that a compromised trusted REE did not suppress telemetry before submission.''])"

definition stage4_complete :: "stage4_evidence \<Rightarrow> pyval result" where
  "stage4_complete ev =
     bindE (load_file (s4_detection ev)) (\<lambda>detection.
     bindE (load_file (s4_metrics ev)) (\<lambda>metrics.
     bindE (load_file (s4_performance ev)) (\<lambda>performance.
     bindE (bindE (passed_formally detection) require) (\<lambda>_.
     bindE (bindE (passed_formally performance) require) (\<lambda>_.
     bindE (py_subscript performance ''per_configuration'') (\<lambda>per_configuration.
     bindE (ten_runs_each per_configuration) (\<lambda>_.
     bindE (detection_headline metrics) (\<lambda>headline.
     bindE (performance_headline per_configuration) (\<lambda>overhead.
     bindE (digests_of [(''detection_final'', s4_detection ev), (''detection_metrics'', s4_metrics ev),
       (''performance_summary'', s4_performance ev), (''performance_runs_csv'', s4_runs ev)]) (\<lambda>digests.
     Inr (PDict [(''schema'', PStr ''cote3-mon-stage4-complete-v1''), (''status'', PStr ''PASS''),
       (''formal_dissertation_experiment'', PBool True),
       (''scope'', PStr ''formal detection effectiveness and four-configuration performance overhead''),
       (''checks'', stage4_checks), (''headline_detection'', headline), (''headline_performance'', overhead),
       (''interpretation_limits'', stage4_limits), (''sha256'', digests)])))))))))))"

section \<open>Stage 5\<close>

definition feature_set_names :: "string list" where
  "feature_set_names = [''base12'', ''temporal16'', ''repetition14'', ''enhanced18'']"

record stage5_evidence =
  s5_results :: "string option"
  s5_paired :: "string option"
  s5_benchmark :: "string option"
  s5_manifest :: "string option"
  s5_parity :: "string \<Rightarrow> string option"

definition guest_passed :: "pyval \<Rightarrow> bool result" where
  "guest_passed item =
     bindE (get_is ''status'' ''PASS'' item) (\<lambda>passed. if passed then get_is ''architecture'' ''aarch64'' item else Inr False)"

definition check_parity :: "pyval \<Rightarrow> string \<Rightarrow> pyval \<Rightarrow> unit result" where
  "check_parity manifest name item =
     bindE (py_path manifest [''feature_sets'', name]) (\<lambda>expected.
     bindE (py_subscript item ''model_sha256'') (\<lambda>h.
     bindE (py_subscript expected ''model_sha256'') (\<lambda>h'.
     bindE (require (py_eq h h')) (\<lambda>_.
     bindE (float_field item ''max_abs_difference'') (\<lambda>maximum.
     bindE (float_field item ''tolerance'') (\<lambda>tolerance.
     require (\<not> flt tolerance maximum)))))))"

definition metrics_headline :: "pyval \<Rightarrow> string \<Rightarrow> pyval \<Rightarrow> pyval result" where
  "metrics_headline benchmark name v =
     picked [(''precision'', py_subscript v ''precision''), (''recall'', py_subscript v ''recall''), (''f1'', py_subscript v ''f1''),
       (''auprc'', py_subscript v ''auprc''), (''false_positives'', py_subscript v ''fp''),
       (''flood_alerted_runs'', py_path v [''per_scenario'', ''flood'', ''alerted_runs'']),
       (''replay_alerted_runs'', py_path v [''per_scenario'', ''replay'', ''alerted_runs'']),
       (''guest_mean_inference_us'', py_path benchmark [''models'', name, ''mean_inference_us''])]"

definition stage5_checks :: pyval where
  "stage5_checks = PDict [(''qemu_runs'', PInt 70), (''scenarios'', PInt 7), (''complete_run_split'', PStr ''PASS''),
     (''raw_key_value_absence'', PStr ''PASS''), (''feature_sets'', PInt 4), (''aarch64_guest_parity'', PStr ''PASS''),
     (''paired_run_bootstrap'', PStr ''PASS''), (''guest_inference_benchmark'', PStr ''PASS'')]"

definition stage5_interpretation :: pyval where
  "stage5_interpretation = PList (map PStr
     [''Enhanced18 improved overall recall, F1, and AUPRC without adding test-set false positives relative to Base12.'',
      ''Replay run-level detection improved from 1/10 to 10/10; its paired bootstrap interval excluded zero.'',
      ''Flood improved from 2/10 to 4/10 in Enhanced18, while Temporal16 achieved 6/10, showing an attack-specific feature trade-off.'',
      ''Feature augmentation did not increase measured guest inference time; the small reversed timing differences are treated as QEMU/runtime noise, not acceleration.'',
      ''The experiment supports semantic feature engineering, not a claim that additional features always improve every attack class.''])"

definition stage5_record :: "stage5_evidence \<Rightarrow> pyval \<Rightarrow> pyval \<Rightarrow> pyval \<Rightarrow> pyval result" where
  "stage5_record ev results paired benchmark =
     bindE (py_subscript results ''metrics'') (\<lambda>metrics.
     bindE (map_items (metrics_headline benchmark) metrics) (\<lambda>headline.
     bindE (py_path paired [''comparisons'', ''enhanced18_minus_base12'']) (\<lambda>comparison.
     bindE (digests_of ([(''feature_ablation_results'', s5_results ev), (''paired_bootstrap'', s5_paired ev),
         (''guest_inference_benchmark'', s5_benchmark ev), (''guest_parity_manifest'', s5_manifest ev)]
       @ map (\<lambda>name. (''parity_guest_'' @ name, s5_parity ev name)) feature_set_names)) (\<lambda>digests.
     Inr (PDict [(''schema'', PStr ''cote3-mon-stage5-complete-v1''), (''status'', PStr ''PASS''),
       (''formal_dissertation_experiment'', PBool True),
       (''scope'', PStr ''Replay and flooding feature-augmentation ablation on OP-TEE QEMU''), (''checks'', stage5_checks),
       (''headline_metrics'', headline), (''paired_enhanced18_minus_base12'', comparison),
       (''interpretation'', stage5_interpretation), (''sha256'', digests)])))))"

definition stage5_finalize :: "stage5_evidence \<Rightarrow> pyval result" where
  "stage5_finalize ev =
     bindE (load_file (s5_results ev)) (\<lambda>results.
     bindE (load_file (s5_paired ev)) (\<lambda>paired.
     bindE (load_file (s5_benchmark ev)) (\<lambda>benchmark.
     bindE (load_file (s5_manifest ev)) (\<lambda>manifest.
     bindE (allE (get_is ''status'' ''PASS'') [results, paired, benchmark, manifest]) (\<lambda>passed.
     bindE (require passed) (\<lambda>_.
     bindE (mapE (\<lambda>name. load_file (s5_parity ev name)) feature_set_names) (\<lambda>parity.
     bindE (allE guest_passed parity) (\<lambda>complete.
     bindE (require complete) (\<lambda>_.
     bindE (mapE (\<lambda>(name, item). check_parity manifest name item) (zip feature_set_names parity)) (\<lambda>_.
     stage5_record ev results paired benchmark))))))))))"

section \<open>What a stage 5 record is bound to\<close>

lemma load_fileD: "load_file file = Inr v \<Longrightarrow> \<exists>t. file = Some t \<and> json_loads t = Inr v"
  by (auto simp: load_file_def split: option.splits)

lemma get_is_True: "get_is k s v = Inr True \<longleftrightarrow> py_get v k PNone = Inr (PStr s)"
  by (auto simp: get_is_def mapR_eq_Inr_iff dest: eq_strD)

definition parity_bound :: "pyval \<Rightarrow> string \<Rightarrow> pyval \<Rightarrow> bool" where
  "parity_bound manifest name item \<longleftrightarrow>
     py_get item ''status'' PNone = Inr (PStr ''PASS'') \<and> py_get item ''architecture'' PNone = Inr (PStr ''aarch64'')
     \<and> (\<exists>h h'. py_subscript item ''model_sha256'' = Inr h \<and> py_path manifest [''feature_sets'', name, ''model_sha256''] = Inr h' \<and> py_eq h h')
     \<and> (\<exists>maximum tolerance. float_field item ''max_abs_difference'' = Inr maximum \<and> float_field item ''tolerance'' = Inr tolerance
          \<and> \<not> flt tolerance maximum)"

lemma check_parity_bound:
  "guest_passed item = Inr True \<Longrightarrow> check_parity manifest name item = Inr () \<Longrightarrow> parity_bound manifest name item"
  by (auto simp: guest_passed_def check_parity_def parity_bound_def bindE_eq_Inr_iff get_is_True split: if_splits)

lemma picked_fields:
  assumes "picked entries = Inr v" and "distinct (map fst entries)"
  shows "\<exists>d. v = PDict d \<and> (\<forall>k r. (k, r) \<in> set entries \<longrightarrow> (\<exists>w. r = Inr w \<and> dget d k = Some w))"
proof -
  obtain d where d: "v = PDict d" "mapE (\<lambda>(k, r). mapR (Pair k) r) entries = Inr d"
    using assms(1) by (auto simp: picked_def mapR_eq_Inr_iff)
  have "(\<forall>k r. (k, r) \<in> set entries \<longrightarrow> (\<exists>w. r = Inr w \<and> dget d k = Some w)) \<and> map fst d = map fst entries"
    using assms(2) d(2)
  proof (induction entries arbitrary: d)
    case (Cons e es)
    obtain k r w d' where w: "e = (k, r)" "r = Inr w" "mapE (\<lambda>(k, r). mapR (Pair k) r) es = Inr d'" "d = (k, w) # d'"
      using Cons.prems(2) by (cases e) (auto simp: bindE_eq_Inr_iff mapR_eq_Inr_iff)
    have "distinct (map fst es)" using Cons.prems(1) by simp
    note IH = Cons.IH [OF this w(3)]
    have "k \<notin> fst ` set es" using Cons.prems(1) w(1) by simp
    then show ?case using IH by (force simp: w dget_def)
  qed simp
  then show ?thesis using d(1) by blast
qed

lemma stage5_record_digests:
  assumes "stage5_record ev results paired benchmark = Inr rec"
  shows "\<exists>digests. py_subscript rec ''sha256'' = Inr (PDict digests) \<and> (\<forall>name\<in>set feature_set_names.
    \<exists>text. s5_parity ev name = Some text \<and> dget digests (''parity_guest_'' @ name) = Some (PStr (text_sha256 text)))"
proof -
  define files where "files = [(''feature_ablation_results'', s5_results ev), (''paired_bootstrap'', s5_paired ev),
      (''guest_inference_benchmark'', s5_benchmark ev), (''guest_parity_manifest'', s5_manifest ev)]
    @ map (\<lambda>name. (''parity_guest_'' @ name, s5_parity ev name)) feature_set_names"
  obtain digests where d: "digests_of files = Inr digests" and r: "py_subscript rec ''sha256'' = Inr digests"
    using assms unfolding stage5_record_def files_def [symmetric] by (auto simp: bindE_eq_Inr_iff dget_def)
  have "distinct (map fst files)" by (simp add: files_def feature_set_names_def)
  then have dist: "distinct (map fst (map (\<lambda>(k, file). (k, mapR PStr (file_sha256 file))) files))"
    by (simp add: comp_def case_prod_beta)
  obtain ds where ds: "digests = PDict ds"
    "\<forall>k r. (k, r) \<in> set (map (\<lambda>(k, file). (k, mapR PStr (file_sha256 file))) files) \<longrightarrow> (\<exists>w. r = Inr w \<and> dget ds k = Some w)"
    using picked_fields [OF d [unfolded digests_of_def] dist] by blast
  have "\<exists>text. s5_parity ev name = Some text \<and> dget ds (''parity_guest_'' @ name) = Some (PStr (text_sha256 text))"
    if "name \<in> set feature_set_names" for name
  proof -
    have "(''parity_guest_'' @ name, mapR PStr (file_sha256 (s5_parity ev name))) \<in> set (map (\<lambda>(k, file). (k, mapR PStr (file_sha256 file))) files)"
      using that by (auto simp: files_def)
    then obtain w where "mapR PStr (file_sha256 (s5_parity ev name)) = Inr w" "dget ds (''parity_guest_'' @ name) = Some w"
      using ds(2) by blast
    then show ?thesis by (auto simp: file_sha256_def split: option.splits)
  qed
  then show ?thesis using r ds(1) by blast
qed

text \<open>A sample of the evidence, with a given greatest difference.\<close>

definition sample_evidence :: "f64 \<Rightarrow> stage5_evidence" where
  "sample_evidence difference =
     (let pass = (''status'', PStr ''PASS''); model = (''model_sha256'', PStr ''00'');
          text = (\<lambda>d. Some (dumps_indent (PDict (pass # d)))) in
      \<lparr>s5_results = text [(''metrics'', PDict [])], s5_paired = text [(''comparisons'', PDict [(''enhanced18_minus_base12'', PNone)])],
       s5_benchmark = text [], s5_manifest = text [(''feature_sets'', PDict (map (\<lambda>n. (n, PDict [model])) feature_set_names))],
       s5_parity = (\<lambda>name. text [(''architecture'', PStr ''aarch64''), model, (''max_abs_difference'', PFloat difference),
         (''tolerance'', PFloat (Fin 0))])\<rparr>)"

lemma sample_evidence_accepted:
  assumes "is_f64 x" and "\<not> flt (Fin 0) x"
  shows "\<exists>r. stage5_finalize (sample_evidence x) = Inr r"
proof -
  have load: "load_file (Some (dumps_indent v)) = Inr v" if "storable v" for v using that by (rule load_written(1))
  show ?thesis
    using assms f64_zero_one
    by (simp add: stage5_finalize_def sample_evidence_def load feature_set_names_def get_is_def guest_passed_def check_parity_def dget_def
        float_field_def stage5_record_def map_items_def digests_of_def picked_def file_sha256_def Let_def)
qed

section \<open>Properties\<close>




end
