(* ===== verification/Stage5_Parity.thy ===== *)
theory Stage5_Parity
  imports Ablation Final_Acceptance
begin

text \<open>
  The parity chain of stage 5: the vectors that \<open>stage5-prepare-guest-parity.py\<close> writes for a
  model pass \<open>qemu-model-parity.py\<close> in the guest, and the answer passes the checks of
  \<open>stage5-finalize.py\<close> against the manifest of the preparation.
\<close>

lemma feature_sets_distinct: "distinct (map fst FEATURE_SETS)" "(name, features) \<in> set FEATURE_SETS \<Longrightarrow> distinct features"
  by (auto simp: FEATURE_SETS_def BASE_FEATURE_NAMES_def TEMPORAL_FEATURE_NAMES_def REPETITION_FEATURE_NAMES_def ENHANCED_FEATURE_NAMES_def)

lemma prepare_setE:
  assumes "prepare_set sk_fit lm config sp tolerance model_text features = Some (Inr (entry, v))"
  obtains f reference observed where "bindE (json_loads model_text) iforest_init = Inr f"
    and "detector_scores lm (Forest f) (sp_validation sp @ sp_benign sp @ sp_attack sp) = Some (Inr observed)"
    and "parity_vectors (text_sha256 model_text) tolerance features (sp_validation sp @ sp_benign sp @ sp_attack sp) reference = Inr v"
    and "\<not> flt tolerance (max_or_zero (differences reference observed))"
    and "py_subscript entry ''model_sha256'' = Inr (PStr (text_sha256 model_text))"
proof -
  let ?rows = "sp_validation sp @ sp_benign sp @ sp_attack sp"
  obtain f forest reference maximum where f: "bindE (json_loads model_text) iforest_init = Inr f"
    and g: "greatest_difference forest lm f features ?rows = Some (Inr (reference, maximum))" and ok: "\<not> flt tolerance maximum"
    and v: "parity_vectors (text_sha256 model_text) tolerance features ?rows reference = Inr v"
    and e: "py_subscript entry ''model_sha256'' = Inr (PStr (text_sha256 model_text))"
    using assms by (auto simp: prepare_set_def Let_def bindO_Inr_iff dget_def)
  obtain observed where ob: "detector_scores lm (Forest f) ?rows = Some (Inr observed)" "py_max (differences reference observed) = Inr maximum"
    using g by (auto simp: greatest_difference_def bindO_Inr_iff mapR_eq_Inr_iff)
  have "max_or_zero (differences reference observed) = maximum" by (simp add: max_or_zero_def ob(2))
  with ok have "\<not> flt tolerance (max_or_zero (differences reference observed))" by simp
  from f ob(1) v this e show thesis by (rule that)
qed

lemma guest_result_passed:
  assumes "guest_result stage ''aarch64'' python elapsed_ns ds maximum tolerance sha = Inr guest"
  shows "guest_passed guest = Inr True"
proof -
  have "\<exists>d. guest = PDict d \<and> dget d ''status'' = Some (PStr ''PASS'') \<and> dget d ''architecture'' = Some (PStr ''aarch64'')"
    using assms by (auto simp: guest_result_def bindE_eq_Inr_iff dget_def)
  then obtain d where "guest = PDict d" "dget d ''status'' = Some (PStr ''PASS'')" "dget d ''architecture'' = Some (PStr ''aarch64'')" by blast
  then show ?thesis by (simp add: guest_passed_def get_is_def)
qed

text \<open>One feature set.\<close>

lemma prepared_set_accepted:
  assumes "prepare_set sk_fit lm config sp tolerance model_text features = Some (Inr (entry, v))" and "storable v"
    and "bindE (json_loads model_text) iforest_init = Inr f" and "if_features f = features" and "distinct features"
    and "py_path manifest [''feature_sets'', name] = Inr entry" and "0 \<le> elapsed_ns" and "elapsed_ns \<le> 2 ^ 53"
  shows "\<exists>guest. guest_parity lm stage ''aarch64'' python elapsed_ns model_text (dumps_indent v) = Some (Inr guest)
    \<and> guest_passed guest = Inr True \<and> check_parity manifest name guest = Inr ()"
proof -
  obtain f' reference observed where f': "bindE (json_loads model_text) iforest_init = Inr f'"
    and sc': "detector_scores lm (Forest f') (sp_validation sp @ sp_benign sp @ sp_attack sp) = Some (Inr observed)"
    and pv: "parity_vectors (text_sha256 model_text) tolerance features (sp_validation sp @ sp_benign sp @ sp_attack sp) reference = Inr v"
    and ok: "\<not> flt tolerance (max_or_zero (differences reference observed))"
    and sha: "py_subscript entry ''model_sha256'' = Inr (PStr (text_sha256 model_text))"
    by (rule prepare_setE [OF assms(1)])
  have sc: "detector_scores lm (Forest f) (sp_validation sp @ sp_benign sp @ sp_attack sp) = Some (Inr observed)"
    using f' sc' assms(3) by simp
  note g = guest_reads_vectors [OF assms(3-5) sc pv assms(2) ok]
  let ?m = "max_or_zero (differences reference observed)"
  obtain guest where r: "guest_result stage ''aarch64'' python elapsed_ns (differences reference observed) ?m tolerance (text_sha256 model_text) = Inr guest"
    by (rule guest_result_ok [OF assms(7,8)])
  obtain d where d: "guest = PDict d" "dget d ''max_abs_difference'' = Some (PFloat ?m)" "dget d ''tolerance'' = Some (PFloat tolerance)"
    "dget d ''model_sha256'' = Some (PStr (text_sha256 model_text))"
    using guest_result_fields [OF r] by blast
  have "check_parity manifest name guest = Inr ()"
    unfolding check_parity_def assms(6) bindE_simps by (simp add: d sha ok float_field_def)
  then show ?thesis using g r guest_result_passed [OF r] by simp
qed

lemma preparedE:
  assumes "prepare_guest_parity rb seed_of sk_fit lm config_text files model_text = Some (Inr (vectors, manifest))"
  obtains config sp tolerance sets where "list_all2 (\<lambda>(name, features) (n, s). n = name
      \<and> prepare_set sk_fit lm config sp tolerance (model_text name) features = Some (Inr s)) FEATURE_SETS sets"
    and "vectors = map (map_prod id snd) sets" and "py_subscript manifest ''feature_sets'' = Inr (PDict (map (map_prod id fst) sets))"
proof -
  obtain config sp tolerance sets where sets: "mapO (\<lambda>(name, features). map_option (mapR (Pair name))
         (prepare_set sk_fit lm config sp tolerance (model_text name) features)) FEATURE_SETS = Some (Inr sets)"
    and v: "vectors = map (map_prod id snd) sets" "py_subscript manifest ''feature_sets'' = Inr (PDict (map (map_prod id fst) sets))"
    using assms unfolding prepare_guest_parity_def by (elim bindO_InrE) (auto simp: dget_def)
  have "list_all2 (\<lambda>(name, features) (n, s). n = name
      \<and> prepare_set sk_fit lm config sp tolerance (model_text name) features = Some (Inr s)) FEATURE_SETS sets"
    using sets unfolding mapO_Inr_iff by (rule list_all2_mono) (auto simp: mapR_eq_Inr_iff)
  from this v show thesis by (rule that)
qed

lemma list_all2_dget:
  assumes "list_all2 (\<lambda>(k, x) (l, y). l = k \<and> P k x y) xs ys" and "distinct (map fst xs)" and "(k, x) \<in> set xs"
  shows "\<exists>y. dget ys k = Some y \<and> P k x y"
  using assms
proof (induction rule: list_all2_induct)
  case (Cons e xs e' ys)
  obtain l x' y where e: "e = (l, x')" "e' = (l, y)" "P l x' y" using Cons.hyps(1) by (cases e; cases e') auto
  show ?case
  proof (cases "k = l")
    case True
    then have "k \<notin> fst ` set xs" using Cons.prems(1) e(1) by simp
    then have "(k, x) \<notin> set xs" by (metis fst_conv image_eqI)
    then have "x = x'" using Cons.prems(2) e(1) by simp
    then show ?thesis using e True by (simp add: dget_def)
  next
    case False
    then show ?thesis using Cons e by (simp add: dget_def)
  qed
qed simp

section \<open>A sample preparation\<close>

definition sample_model_text :: "string \<Rightarrow> string" where
  "sample_model_text name = dumps_compact (model_to_json (leaf_forest_on (the (dget FEATURE_SETS name))) 7)"

definition sample_preparation :: "((string \<times> pyval) list \<times> pyval) result option" where
  "sample_preparation = prepare_guest_parity first_item (\<lambda>_. ()) (Some leaf_fit) sample_libm (dumps_indent sample_config)
     [map json_dumps run_events] sample_model_text"

lemma sample_model_loads: "bindE (json_loads (dumps_compact (model_to_json (leaf_forest_on features) 7))) iforest_init = Inr (leaf_forest_on features)"
proof -
  have "iforest_init (model_to_json (leaf_forest_on features) 7) = Inr (leaf_forest_on features)"
    by (rule model_json_round_trip) (simp add: leaf_forest_on_def)
  then show ?thesis by (simp add: loads_dumps(2) [OF leaf_forest_storable])
qed

lemma feature_sets_known: "(name, features) \<in> set FEATURE_SETS \<Longrightarrow> set features \<subseteq> set ENHANCED_FEATURE_NAMES"
  "(name, features) \<in> set FEATURE_SETS \<Longrightarrow> sample_model_text name = dumps_compact (model_to_json (leaf_forest_on features) 7)"
  by (auto simp: FEATURE_SETS_def ENHANCED_FEATURE_NAMES_def sample_model_text_def dget_def)

lemma sample_stratified: "stratified_split first_item (\<lambda>_. ()) sample_config run_rows = Inr sample_parts"
proof -
  let ?benign = "map (\<lambda>r. run_row r ''steady'' False) [''a'', ''b'', ''c'', ''d'', ''e'']"
  have "sorted_field ''scenario'' ?benign = Inr [''steady'']" by (simp add: sorted_field_def)
  moreover have "scenario_runs ''steady'' ?benign = Inr [''a'', ''b'', ''c'', ''d'', ''e'']"
    using sample_ids by (simp add: scenario_runs_def)
  ultimately have "split_benign_runs_stratified first_item (\<lambda>_. ()) 7 (Some [''steady'']) run_rows
      = Inr (map (\<lambda>r. run_row r ''steady'' False) [''b'', ''c'', ''d''], [run_row ''e'' ''steady'' False], [run_row ''a'' ''steady'' False])"
    by (simp only: split_benign_runs_stratified_def sample_benign bindE_simps)
      (simp add: stratum_def sample_shuffled split_five_Suc three_way_def rows_of_runs_def)
  then show ?thesis by (simp add: stratified_split_def sample_parts_def) (simp add: run_rows_def)
qed

lemma sample_prepare_set:
  assumes "(name, features) \<in> set FEATURE_SETS"
  shows "\<exists>entry. prepare_set (Some leaf_fit) sample_libm sample_config sample_parts (Fin 0) (sample_model_text name) features
    = Some (Inr (entry, sample_vectors features (text_sha256 (sample_model_text name))))"
proof -
  note known = feature_sets_known [OF assms]
  note parity = sample_parity [OF known(1)]
  show ?thesis
    unfolding prepare_set_def known(2) sample_model_loads greatest_difference_def parity_rows Let_def
    by (simp add: parity sample_differences)
qed

lemma mapO_exists: "(\<And>x. x \<in> set xs \<Longrightarrow> \<exists>y. f x = Some (Inr y) \<and> P x y) \<Longrightarrow> \<exists>ys. mapO f xs = Some (Inr ys) \<and> list_all2 P xs ys"
proof (induction xs)
  case (Cons x xs)
  from Cons.prems [of x] obtain y where "f x = Some (Inr y)" "P x y" by auto
  moreover obtain ys where "mapO f xs = Some (Inr ys)" "list_all2 P xs ys" using Cons by fastforce
  ultimately show ?case by (intro exI [of _ "y # ys"]) simp
qed simp

lemma sample_preparation_runs:
  "\<exists>vectors manifest. sample_preparation = Some (Inr (vectors, manifest)) \<and> list_all (\<lambda>(name, v). storable v) vectors"
proof -
  let ?f = "\<lambda>(name, features). map_option (mapR (Pair name))
    (prepare_set (Some leaf_fit) sample_libm sample_config sample_parts (Fin 0) (sample_model_text name) features)"
  let ?P = "\<lambda>(x :: string \<times> string list) (y :: string \<times> pyval \<times> pyval). storable (snd (snd y))"
  have "\<exists>y. ?f x = Some (Inr y) \<and> ?P x y" if mem: "x \<in> set FEATURE_SETS" for x
  proof -
    obtain name features where x: "x = (name, features)" by fastforce
    note mem = mem [unfolded x]
    obtain entry where "prepare_set (Some leaf_fit) sample_libm sample_config sample_parts (Fin 0) (sample_model_text name) features
      = Some (Inr (entry, sample_vectors features (text_sha256 (sample_model_text name))))"
      using sample_prepare_set [OF mem] by blast
    then show ?thesis by (simp add: x sample_vectors_storable [OF feature_sets_distinct(2) [OF mem]])
  qed
  then obtain sets where sets: "mapO ?f FEATURE_SETS = Some (Inr sets)" "list_all2 ?P FEATURE_SETS sets"
    using mapO_exists [of FEATURE_SETS ?f ?P] by blast
  have rows: "guest_rows first_item (\<lambda>_. ()) sample_config [map json_dumps run_events] = Inr sample_parts"
    by (simp add: guest_rows_def sample_lines sample_aggregates sample_stratified)
  have "list_all (\<lambda>(name, v). storable v) (map (map_prod id snd) sets)"
  proof -
    have "storable (snd (snd s))" if "s \<in> set sets" for s
      using sets(2) that by (auto simp: list_all2_conv_all_nth in_set_conv_nth)
    then show ?thesis by (fastforce simp: list_all_iff)
  qed
  then show ?thesis
    unfolding sample_preparation_def prepare_guest_parity_def sample_config_loads
    by (simp add: rows sets(1))
qed

section \<open>Properties\<close>



end
