(* ===== verification/Guest_Benchmark.thy ===== *)
theory Guest_Benchmark
  imports Stage5_Parity
begin

text \<open>
  \<open>scripts/stage5-guest-inference-benchmark.py\<close>: the guest times each model on its vectors, in an
  order drawn anew for every repeat.  The clock is a function that reads a time and moves on.
\<close>

section \<open>Percentile\<close>

definition benchmark_percentile :: "f64 list \<Rightarrow> f64 \<Rightarrow> f64 result" where
  "benchmark_percentile values probability =
     (let ordered = sort values in
      bindE (float_of_int (int (length ordered) - 1)) (\<lambda>n.
      let position = fmul n probability in
      bindE (float_floor position) (\<lambda>lower.
      bindE (float_ceil position) (\<lambda>upper.
      if lower = upper then py_index ordered lower
      else
        bindE (float_of_int lower) (\<lambda>l.
        let weight = fsub position l in
        bindE (py_index ordered lower) (\<lambda>a.
        bindE (py_index ordered upper) (\<lambda>b.
        Inr (fadd (fmul a (fsub (Fin 1) weight)) (fmul b weight)))))))))"

section \<open>Timing\<close>

type_synonym 'c clock = "'c \<Rightarrow> int \<times> 'c"

fun score_values :: "libm \<Rightarrow> iforest \<Rightarrow> pyval list \<Rightarrow> unit result option" where
  "score_values lm f [] = Some (Inr ())"
| "score_values lm f (row # rows) =
     tryO (py_subscript row ''values'') (\<lambda>xs. bindO (iforest_score lm f xs) (\<lambda>_. score_values lm f rows))"

definition time_model :: "libm \<Rightarrow> 'c clock \<Rightarrow> iforest \<Rightarrow> pyval list \<Rightarrow> 'c \<Rightarrow> (f64 \<times> 'c) result option" where
  "time_model lm tick f rows c =
     (let (started, c1) = tick c in
      bindO (score_values lm f rows) (\<lambda>_.
      let (ended, c2) = tick c1 in
      tryO (bindE (float_of_int (ended - started)) (\<lambda>x. fdiv x (Fin 1000))) (\<lambda>elapsed_us.
      tryO (bindE (float_of_int (int (length rows))) (fdiv elapsed_us)) (\<lambda>mean_us.
      Some (Inr (mean_us, c2))))))"

text \<open>What is timed: the models and the rows of their vectors, by name.\<close>

type_synonym timed_models = "(string \<times> iforest \<times> pyval list) list"

fun time_models ::
  "libm \<Rightarrow> 'c clock \<Rightarrow> timed_models \<Rightarrow> string list \<Rightarrow> (string \<times> f64 list) list \<Rightarrow> 'c \<Rightarrow>
   ((string \<times> f64 list) list \<times> 'c) result option" where
  "time_models lm tick models [] timings c = Some (Inr (timings, c))"
| "time_models lm tick models (name # names) timings c =
     (let (f, rows) = the (dget models name) in
      bindO (time_model lm tick f rows c) (\<lambda>(t, c1).
      time_models lm tick models names (dset name (the (dget timings name) @ [t]) timings) c1))"

fun repeat_models ::
  "'s randbelow \<Rightarrow> libm \<Rightarrow> 'c clock \<Rightarrow> timed_models \<Rightarrow> nat \<Rightarrow> (string \<times> f64 list) list \<Rightarrow> 's \<Rightarrow> 'c \<Rightarrow>
   (string \<times> f64 list) list result option" where
  "repeat_models rb lm tick models 0 timings s c = Some (Inr timings)"
| "repeat_models rb lm tick models (Suc n) timings s c =
     (let (order, s1) = shuffle_from rb (length feature_set_names - 1) feature_set_names s in
      bindO (time_models lm tick models order timings c) (\<lambda>(timings1, c1).
      repeat_models rb lm tick models n timings1 s1 c1))"

section \<open>The script\<close>

definition timing_summary :: "nat \<Rightarrow> timed_models \<Rightarrow> string \<times> f64 list \<Rightarrow> (string \<times> pyval) result" where
  "timing_summary repeats models = (\<lambda>(name, ts).
     let (f, rows) = the (dget models name) in
     bindE (fmean ts) (\<lambda>mean_us.
     bindE (pstdev ts) (\<lambda>sd_us.
     bindE (benchmark_percentile ts (of_exact (1 / 2))) (\<lambda>p50_us.
     bindE (benchmark_percentile ts (of_exact (95 / 100))) (\<lambda>p95_us.
     Inr (name, PDict [(''features'', PInt (int (length (if_features f)))), (''vectors_per_repeat'', PInt (int (length rows))),
       (''repeats'', PInt (int repeats)), (''mean_inference_us'', PFloat mean_us), (''sd_inference_us'', PFloat sd_us),
       (''p50_inference_us'', PFloat p50_us), (''p95_inference_us'', PFloat p95_us),
       (''per_repeat_mean_us'', PList (map PFloat ts))]))))))"

definition load_timed :: "(string \<Rightarrow> string) \<Rightarrow> (string \<Rightarrow> string) \<Rightarrow> timed_models result" where
  "load_timed model_text vectors_text =
     bindE (mapE (\<lambda>name. bindE (json_loads (model_text name)) iforest_init) feature_set_names) (\<lambda>forests.
     bindE (mapE (\<lambda>name. bindE (bindE (json_loads (vectors_text name)) (\<lambda>v. py_subscript v ''rows'')) py_list) feature_set_names)
       (\<lambda>rows. Inr (zip feature_set_names (zip forests rows))))"

definition guest_benchmark ::
  "'s randbelow \<Rightarrow> 's \<Rightarrow> libm \<Rightarrow> 'c clock \<Rightarrow> string \<Rightarrow> string \<Rightarrow> (string \<Rightarrow> string) \<Rightarrow> (string \<Rightarrow> string) \<Rightarrow> nat \<Rightarrow> 'c \<Rightarrow>
   pyval result option" where
  "guest_benchmark rb rng lm tick machine python model_text vectors_text repeats c =
     tryO (load_timed model_text vectors_text) (\<lambda>models.
     bindO (mapO (\<lambda>(name, f, rows). score_values lm f (take 20 rows)) models) (\<lambda>_.
     bindO (repeat_models rb lm tick models repeats (map (\<lambda>name. (name, [])) feature_set_names) rng c) (\<lambda>timings.
     Some (bindE (mapE (timing_summary repeats models) timings) (\<lambda>summary.
     Inr (PDict [(''schema'', PStr ''cote3-mon-stage5-guest-inference-benchmark-v1''), (''status'', PStr ''PASS''),
       (''architecture'', PStr machine), (''python'', PStr python),
       (''dependencies'', PStr ''Python standard library and cote3mon.iforest_runtime only''),
       (''randomised_model_order_per_repeat'', PBool True), (''models'', PDict summary)]))))))"

text \<open>The percentile of the script is the one of the features, except that it raises on no values.\<close>

lemma benchmark_percentile_eq:
  assumes "2 \<le> length values"
  shows "benchmark_percentile values p = percentile values p"
  using assms by (auto simp: benchmark_percentile_def percentile_def Let_def)

section \<open>What is measured\<close>

definition monotone_clock :: "'c clock \<Rightarrow> bool" where
  "monotone_clock tick \<longleftrightarrow> (\<forall>c. fst (tick c) \<le> fst (tick (snd (tick c))))"

text \<open>Every model has this many timings, none of them negative.\<close>

definition timed :: "nat \<Rightarrow> f64 list \<Rightarrow> bool" where
  "timed n ts \<longleftrightarrow> length ts = n \<and> list_all (\<lambda>t. Fin 0 \<le> t) ts"

definition all_timed :: "(string \<Rightarrow> nat) \<Rightarrow> (string \<times> f64 list) list \<Rightarrow> bool" where
  "all_timed n timings \<longleftrightarrow> map fst timings = feature_set_names
     \<and> (\<forall>name\<in>set feature_set_names. \<exists>ts. dget timings name = Some ts \<and> timed (n name) ts)"

lemma time_model_nonneg:
  assumes "monotone_clock tick" and "time_model lm tick f rows c = Some (Inr (t, c'))"
  shows "Fin 0 \<le> t"
proof -
  obtain started c1 ended c2 where ticks: "tick c = (started, c1)" "tick c1 = (ended, c2)" by fastforce
  then have le: "started \<le> ended" using assms(1) by (metis monotone_clock_def fst_conv snd_conv)
  obtain x e n where x: "float_of_int (ended - started) = Inr x" and e: "fdiv x (Fin 1000) = Inr e"
    and n: "float_of_int (int (length rows)) = Inr n" and t: "fdiv e n = Inr t"
    using assms(2) by (auto simp: time_model_def ticks bindO_Inr_iff bindE_eq_Inr_iff)
  have nonneg: "Fin 0 \<le> y" if "float_of_int k = Inr y" and "0 \<le> k" for k y
    using that by (auto simp: float_of_int_def dest!: exact_or_overflow_ok intro!: rnd_nonneg)
  have "Fin 0 \<le> e" by (rule fdiv_nonneg [OF e nonneg [OF x]]) (use le in simp_all)
  then show ?thesis by (rule fdiv_nonneg [OF t _ nonneg [OF n]]) simp
qed

lemma time_models_timed:
  assumes "monotone_clock tick"
  shows "time_models lm tick models names timings c = Some (Inr (timings', c')) \<Longrightarrow> all_timed n timings \<Longrightarrow>
    distinct names \<Longrightarrow> set names \<subseteq> set feature_set_names \<Longrightarrow>
    all_timed (\<lambda>name. n name + (if name \<in> set names then 1 else 0)) timings'"
proof (induction names arbitrary: n timings c)
  case (Cons name names)
  obtain f rows where m: "the (dget models name) = (f, rows)" by fastforce
  obtain t c1 where t: "time_model lm tick f rows c = Some (Inr (t, c1))"
    and rest: "time_models lm tick models names (dset name (the (dget timings name) @ [t]) timings) c1 = Some (Inr (timings', c'))"
    using Cons.prems(1) by (auto simp: m bindO_Inr_iff)
  have "name \<in> set feature_set_names" using Cons.prems(4) by simp
  then obtain ts where ts: "dget timings name = Some ts" "timed (n name) ts" using Cons.prems(2) by (auto simp: all_timed_def)
  have keys: "map fst timings = feature_set_names" using Cons.prems(2) by (simp add: all_timed_def)
  have "map fst (dset name (ts @ [t]) timings) = feature_set_names"
    using \<open>name \<in> set feature_set_names\<close> by (simp add: dset_def update_keys keys)
  moreover have "timed (n name + 1) (ts @ [t])"
    using ts(2) time_model_nonneg [OF assms t] by (simp add: timed_def)
  ultimately have "all_timed (\<lambda>k. n k + (if k = name then 1 else 0)) (dset name (the (dget timings name) @ [t]) timings)"
    using Cons.prems(2) by (simp add: all_timed_def dget_dset ts(1))
  from Cons.IH [OF rest this] Cons.prems(3,4)
  have "all_timed (\<lambda>k. n k + (if k = name then 1 else 0) + (if k \<in> set names then 1 else 0)) timings'" by simp
  moreover have "(\<lambda>k. n k + (if k = name then 1 else 0) + (if k \<in> set names then 1 else 0))
      = (\<lambda>k. n k + (if k \<in> set (name # names) then 1 else 0))"
    using Cons.prems(3) by auto
  ultimately show ?case by simp
qed simp

lemma repeat_models_timed:
  assumes "monotone_clock tick" and "bounded_draws rb"
  shows "repeat_models rb lm tick models k timings s c = Some (Inr timings') \<Longrightarrow> all_timed (\<lambda>_. n) timings \<Longrightarrow>
    all_timed (\<lambda>_. n + k) timings'"
proof (induction k arbitrary: n timings s c)
  case (Suc k)
  obtain order s1 where o: "shuffle_from rb (length feature_set_names - 1) feature_set_names s = (order, s1)" by fastforce
  have "order = shuffle rb feature_set_names s" by (simp only: shuffle_def o fst_conv)
  then have order: "distinct order" "set order = set feature_set_names"
    by (simp_all add: shuffle_props [OF assms(2)] feature_set_names_def)
  obtain timings1 c1 where t: "time_models lm tick models order timings c = Some (Inr (timings1, c1))"
    and rest: "repeat_models rb lm tick models k timings1 s1 c1 = Some (Inr timings')"
    using Suc.prems(1) by (auto simp: o [unfolded One_nat_def] bindO_Inr_iff)
  have "all_timed (\<lambda>name. n + (if name \<in> set order then 1 else 0)) timings1"
    by (rule time_models_timed [OF assms(1) t Suc.prems(2)]) (simp_all add: order)
  then have "all_timed (\<lambda>_. n + 1) timings1" by (simp add: all_timed_def order)
  from Suc.IH [OF rest this] show ?case by simp
qed simp

text \<open>What a written entry says of one model.\<close>

definition timed_entry :: "(string \<Rightarrow> string) \<Rightarrow> (string \<Rightarrow> string) \<Rightarrow> nat \<Rightarrow> string \<Rightarrow> pyval \<Rightarrow> bool" where
  "timed_entry model_text vectors_text repeats name entry \<longleftrightarrow>
     (\<exists>f rows ts mean_us. bindE (json_loads (model_text name)) iforest_init = Inr f
        \<and> bindE (bindE (json_loads (vectors_text name)) (\<lambda>v. py_subscript v ''rows'')) py_list = Inr rows
        \<and> py_subscript entry ''features'' = Inr (PInt (int (length (if_features f))))
        \<and> py_subscript entry ''vectors_per_repeat'' = Inr (PInt (int (length rows)))
        \<and> py_subscript entry ''per_repeat_mean_us'' = Inr (PList (map PFloat ts)) \<and> timed repeats ts
        \<and> py_subscript entry ''mean_inference_us'' = Inr (PFloat mean_us) \<and> fmean ts = Inr mean_us \<and> Fin 0 \<le> mean_us)"

lemma list_all2_memR:
  assumes "list_all2 P xs ys" and "y \<in> set ys"
  obtains x where "x \<in> set xs" and "P x y"
  using assms by (fastforce simp: list_all2_conv_all_nth in_set_conv_nth)

lemma load_timed_get:
  assumes "load_timed model_text vectors_text = Inr models" and "name \<in> set feature_set_names"
  obtains f rows where "dget models name = Some (f, rows)" and "bindE (json_loads (model_text name)) iforest_init = Inr f"
    and "bindE (bindE (json_loads (vectors_text name)) (\<lambda>v. py_subscript v ''rows'')) py_list = Inr rows"
  using assms by (auto simp: load_timed_def feature_set_names_def bindE_eq_Inr_iff dget_def)

lemma timing_summary_entry:
  assumes "timing_summary repeats models (name, ts) = Inr (name', entry)" and "timed repeats ts"
    and "dget models name = Some (f, rows)" and "bindE (json_loads (model_text name)) iforest_init = Inr f"
    and "bindE (bindE (json_loads (vectors_text name)) (\<lambda>v. py_subscript v ''rows'')) py_list = Inr rows"
  shows "name' = name \<and> timed_entry model_text vectors_text repeats name entry \<and> 0 < repeats"
proof -
  obtain mean_us where m: "fmean ts = Inr mean_us" and n: "name' = name"
    and e: "py_subscript entry ''features'' = Inr (PInt (int (length (if_features f))))"
      "py_subscript entry ''vectors_per_repeat'' = Inr (PInt (int (length rows)))"
      "py_subscript entry ''per_repeat_mean_us'' = Inr (PList (map PFloat ts))"
      "py_subscript entry ''mean_inference_us'' = Inr (PFloat mean_us)"
    using assms(1) by (auto simp: timing_summary_def assms(3) [unfolded dget_def] bindE_eq_Inr_iff dget_def)
  have "Fin 0 \<le> mean_us" by (rule fmean_nonneg [OF m]) (use assms(2) in \<open>auto simp: timed_def list_all_iff\<close>)
  moreover have "ts \<noteq> []" using m by (auto simp: fmean_def)
  then have "0 < repeats" using assms(2) by (auto simp: timed_def)
  ultimately show ?thesis using assms(2,4,5) m n e by (auto simp: timed_entry_def)
qed

lemma guest_benchmark_entries:
  assumes "guest_benchmark rb rng lm tick machine python model_text vectors_text repeats c = Some (Inr v)"
    and "bounded_draws rb" and "monotone_clock tick" and name: "name \<in> set feature_set_names"
  shows "\<exists>entry. py_path v [''models'', name] = Inr entry \<and> timed_entry model_text vectors_text repeats name entry \<and> 0 < repeats"
proof -
  obtain models timings summary where l: "load_timed model_text vectors_text = Inr models"
    and r: "repeat_models rb lm tick models repeats (map (\<lambda>name. (name, [])) feature_set_names) rng c = Some (Inr timings)"
    and s: "mapE (timing_summary repeats models) timings = Inr summary"
    and v: "py_subscript v ''models'' = Inr (PDict summary)"
    using assms(1) by (auto simp: guest_benchmark_def bindO_Inr_iff bindE_eq_Inr_iff dget_def)
  have "all_timed (\<lambda>_. 0) (map (\<lambda>name. (name, [])) feature_set_names)"
    by (simp add: all_timed_def feature_set_names_def timed_def dget_def)
  from repeat_models_timed [OF assms(3,2) r this] have t: "all_timed (\<lambda>_. repeats) timings" by simp
  have entry: "fst e' = fst e \<and> timed_entry model_text vectors_text repeats (fst e) (snd e') \<and> 0 < repeats"
    if mem: "e \<in> set timings" and e: "timing_summary repeats models e = Inr e'" for e e'
  proof -
    obtain k ts where k: "e = (k, ts)" by fastforce
    have "k \<in> set (map fst timings)" using mem by (force simp: k)
    then have known: "k \<in> set feature_set_names" using t by (simp only: all_timed_def)
    have "distinct (map fst timings)" using t by (simp add: all_timed_def feature_set_names_def)
    then have "dget timings k = Some ts" using mem by (simp add: dget_def k)
    then have "timed repeats ts" using t known by (auto simp: all_timed_def)
    moreover obtain f rows where "dget models k = Some (f, rows)" "bindE (json_loads (model_text k)) iforest_init = Inr f"
      "bindE (bindE (json_loads (vectors_text k)) (\<lambda>v. py_subscript v ''rows'')) py_list = Inr rows"
      by (rule load_timed_get [OF l known])
    ultimately show ?thesis using timing_summary_entry [of repeats models k ts "fst e'" "snd e'"] e by (simp add: k)
  qed
  obtain ts where ts: "dget timings name = Some ts" using t name by (auto simp: all_timed_def)
  have all2: "list_all2 (\<lambda>e e'. timing_summary repeats models e = Inr e') timings summary" using s by (simp add: mapE_eq_Inr_iff)
  have keys: "map fst summary = map fst timings"
  proof -
    have "list_all2 (\<lambda>e e'. fst e' = fst e) timings summary"
      by (rule list.rel_mono_strong [OF all2]) (use entry in blast)
    then show ?thesis by (induction rule: list_all2_induct) simp_all
  qed
  have "distinct (map fst summary)" using t by (simp add: keys all_timed_def feature_set_names_def)
  moreover have "name \<in> set (map fst summary)" using t name by (simp add: keys all_timed_def)
  then obtain entry where mem: "(name, entry) \<in> set summary" by fastforce
  ultimately have "dget summary name = Some entry" by (simp add: dget_def)
  moreover obtain e where "e \<in> set timings" "timing_summary repeats models e = Inr (name, entry)"
    by (rule list_all2_memR [OF all2 mem])
  with entry [of e "(name, entry)"] have "timed_entry model_text vectors_text repeats name entry" "0 < repeats" by auto
  ultimately show ?thesis by (simp add: v)
qed

section \<open>A measurement\<close>

definition sample_vectors_text :: "string \<Rightarrow> string" where
  "sample_vectors_text name = dumps_indent (sample_vectors ENHANCED_FEATURE_NAMES ''00'')"

definition sample_clock :: "int clock" where
  "sample_clock c = (c, c + 3000)"

definition sample_timed :: timed_models where
  "sample_timed = map (\<lambda>(name, features). (name, leaf_forest_on features,
     map (\<lambda>(r, s, b). sample_vector ENHANCED_FEATURE_NAMES r s b) parity_runs)) FEATURE_SETS"

lemma enhanced_distinct: "distinct ENHANCED_FEATURE_NAMES"
  by (rule feature_sets_distinct(2) [of "''enhanced18''"]) (simp add: FEATURE_SETS_def)

lemma sample_vector_scored:
  assumes "set features \<subseteq> set ENHANCED_FEATURE_NAMES"
  shows "\<exists>xs. py_subscript (sample_vector ENHANCED_FEATURE_NAMES r s b) ''values'' = Inr xs
    \<and> iforest_score sample_libm (leaf_forest_on features) xs = Some (Inr (Fin (1 / 2)))"
proof -
  let ?g = "\<lambda>f. Fin (run_value f)"
  let ?d = "map (map_prod id PFloat) (zip ENHANCED_FEATURE_NAMES (map ?g ENHANCED_FEATURE_NAMES))"
  have d: "float_dict (zip ENHANCED_FEATURE_NAMES (map ?g ENHANCED_FEATURE_NAMES)) = PDict ?d"
    by (rule float_dict_PDict) (simp_all add: enhanced_distinct)
  have "dget ?d f = Some (PFloat (?g f))" if "f \<in> set ENHANCED_FEATURE_NAMES" for f
    using that float_dict_PDict(2) [OF enhanced_distinct, of "map ?g ENHANCED_FEATURE_NAMES"]
    by (force simp: dget_def zip_map2 zip_same_conv_map comp_def intro: map_of_is_SomeI)
  then have "row_values features (PDict ?d) = Inr (map ?g features)"
    unfolding row_values_def using assms by (intro mapE_total) auto
  then show ?thesis using leaf_score_values [of features "PDict ?d"] by (simp add: sample_vector_def d dget_def)
qed

lemma sample_timed_loads: "load_timed sample_model_text sample_vectors_text = Inr sample_timed"
proof -
  have "bindE (json_loads (sample_model_text name)) iforest_init = Inr (leaf_forest_on features)" if "(name, features) \<in> set FEATURE_SETS" for name features
    by (simp add: feature_sets_known(2) [OF that] sample_model_loads)
  moreover have "json_loads (sample_vectors_text name) = Inr (sample_vectors ENHANCED_FEATURE_NAMES ''00'')" for name
    unfolding sample_vectors_text_def by (rule loads_dumps(3) [OF sample_vectors_storable [OF enhanced_distinct]])
  ultimately show ?thesis
    by (simp add: load_timed_def feature_set_names_def FEATURE_SETS_def sample_timed_def sample_vectors_def parity_runs_def dget_def)
qed

lemma sample_scores:
  assumes "set features \<subseteq> set ENHANCED_FEATURE_NAMES"
  shows "score_values sample_libm (leaf_forest_on features) (map (\<lambda>(r, s, b). sample_vector ENHANCED_FEATURE_NAMES r s b) xs) = Some (Inr ())"
proof (induction xs)
  case (Cons x xs)
  obtain r s b where "x = (r, s, b)" by (rule prod_cases3)
  then show ?case using Cons sample_vector_scored [OF assms, of r s b] by auto
qed simp

lemma sample_time:
  assumes "set features \<subseteq> set ENHANCED_FEATURE_NAMES"
  shows "time_model sample_libm sample_clock (leaf_forest_on features)
    (map (\<lambda>(r, s, b). sample_vector ENHANCED_FEATURE_NAMES r s b) parity_runs) c = Some (Inr (Fin 1, c + 6000))"
proof -
  have "length parity_runs = 3" by (simp add: parity_runs_def)
  then show ?thesis
    using of_exact_small [of 3] of_exact_small [of 1]
    by (simp add: time_model_def sample_clock_def sample_scores [OF assms] float_of_int_small rnd_id representable_numeral)
qed

lemma sample_summary:
  assumes "dget models name = Some x"
  shows "\<exists>entry. timing_summary 1 models (name, [Fin 1]) = Inr (name, entry)"
proof -
  have "fmean [Fin 1] = Inr (Fin 1)" using of_exact_small [of 1]
    by (simp add: fmean_def fsum_def exact_or_overflow_small float_of_int_small)
  moreover have "pstdev [Fin 1] = Inr (Fin 0)"
    by (simp add: pstdev_def sum_sq_dev_def float_sqrt_of_frac_def isqrt_frac_rto_def isqrt.simps int_truediv_def exact_or_overflow_small Let_def)
  moreover have "benchmark_percentile [Fin 1] (Fin p) = Inr (Fin 1)" for p
    using of_exact_small [of 0] by (simp add: benchmark_percentile_def float_of_int_small py_index_def Let_def float_floor_def float_ceil_def to_int_with_def)
  ultimately show ?thesis by (cases x) (simp add: timing_summary_def assms of_exact_small)
qed

lemma sample_benchmark_runs:
  "\<exists>v. guest_benchmark first_item () sample_libm sample_clock ''aarch64'' ''3.10'' sample_model_text sample_vectors_text 1 0 = Some (Inr v)"
proof -
  have known: "set BASE_FEATURE_NAMES \<subseteq> set ENHANCED_FEATURE_NAMES" "set ENHANCED_FEATURE_NAMES \<subseteq> set ENHANCED_FEATURE_NAMES"
    "set (BASE_FEATURE_NAMES @ TEMPORAL_FEATURE_NAMES) \<subseteq> set ENHANCED_FEATURE_NAMES"
    "set (BASE_FEATURE_NAMES @ REPETITION_FEATURE_NAMES) \<subseteq> set ENHANCED_FEATURE_NAMES"
    using feature_sets_known(1) by (auto simp: ENHANCED_FEATURE_NAMES_def)
  have models: "dget sample_timed name = map_option (\<lambda>features. (leaf_forest_on features,
      map (\<lambda>(r, s, b). sample_vector ENHANCED_FEATURE_NAMES r s b) parity_runs)) (dget FEATURE_SETS name)" for name
    by (simp add: sample_timed_def dget_def map_of_map)
  have "mapO (\<lambda>(name, f, rows). score_values sample_libm f (take 20 rows)) sample_timed = Some (Inr [(), (), (), ()])"
    by (simp add: sample_timed_def FEATURE_SETS_def take_map sample_scores [OF known(1)] sample_scores [OF known(2)]
        sample_scores [OF known(3)] sample_scores [OF known(4)])
  moreover have "repeat_models first_item sample_libm sample_clock sample_timed 1 (map (\<lambda>name. (name, [])) feature_set_names) () 0
      = Some (Inr (map (\<lambda>name. (name, [Fin 1])) feature_set_names))"
    by (simp add: feature_set_names_def first_item_def swap_items_def numeral_eq_Suc models [unfolded dget_def] FEATURE_SETS_def dget_def dset_def
        sample_time [OF known(1)] sample_time [OF known(2)] sample_time [OF known(3)] sample_time [OF known(4)])
  moreover have "\<exists>entry. timing_summary 1 sample_timed (name, [Fin 1]) = Inr (name, entry)" if "name \<in> set feature_set_names" for name
  proof -
    have "dget FEATURE_SETS name \<noteq> None" using that by (auto simp: feature_set_names_def FEATURE_SETS_def dget_def)
    then obtain features where "dget FEATURE_SETS name = Some features" by blast
    then obtain x where "dget sample_timed name = Some x" by (simp add: models)
    then show ?thesis by (rule sample_summary)
  qed
  then obtain entry where "\<And>name. name \<in> set feature_set_names \<Longrightarrow> timing_summary 1 sample_timed (name, [Fin 1]) = Inr (name, entry name)"
    by metis
  then have "mapE (timing_summary 1 sample_timed) (map (\<lambda>name. (name, [Fin 1])) feature_set_names)
      = Inr (map (\<lambda>name. (name, entry name)) feature_set_names)"
    by (simp add: feature_set_names_def)
  ultimately show ?thesis by (simp add: guest_benchmark_def sample_timed_loads)
qed

section \<open>Property\<close>

text \<open>C31. The benchmark times every model the same number of times: whenever it returns with a clock
  that never goes back, whatever order the generator draws, at least one repeat was asked for and
  the record holds, for each of the four models it read, the number of its features, of its
  vectors and exactly one time per repeat, none negative, with their mean.\<close>

theorem benchmark_times_every_model:
  assumes "guest_benchmark rb rng lm tick machine python model_text vectors_text repeats c = Some (Inr v)"
    and "bounded_draws rb" and "monotone_clock tick"
  shows "0 < repeats \<and> (\<forall>name\<in>set feature_set_names.
    \<exists>entry. py_path v [''models'', name] = Inr entry \<and> timed_entry model_text vectors_text repeats name entry)"
  using guest_benchmark_entries [OF assms] by (force simp: feature_set_names_def)

theorem benchmark_times_every_model_witness:
  "\<exists>v. guest_benchmark first_item () sample_libm sample_clock ''aarch64'' ''3.10'' sample_model_text sample_vectors_text 1 0 = Some (Inr v)
    \<and> (\<exists>entry. py_path v [''models'', ''base12''] = Inr entry \<and> timed_entry sample_model_text sample_vectors_text 1 ''base12'' entry)"
proof -
  obtain v where v: "guest_benchmark first_item () sample_libm sample_clock ''aarch64'' ''3.10'' sample_model_text sample_vectors_text 1 0 = Some (Inr v)"
    using sample_benchmark_runs by blast
  have "bounded_draws first_item" by (simp add: bounded_draws_def first_item_def)
  moreover have "monotone_clock sample_clock" by (simp add: monotone_clock_def sample_clock_def)
  moreover have "''base12'' \<in> set feature_set_names" by (simp add: feature_set_names_def)
  ultimately show ?thesis using benchmark_times_every_model [OF v] v by blast
qed

end
