(* ===== verification/Host_Actions.thy ===== *)
theory Host_Actions
  imports Stage_Acceptance
begin

text \<open>
  What the collection scripts do to the machine they run on.  An action changes the host and
  returns a value or raises, and keeps what it has changed; it is \<open>None\<close> when it never ends.  The
  host has text files, which the scripts read and write themselves, and a rest that only the
  operating system knows.  Its services (clocks, processes, threads, directories) are a record of
  functions, because other processes may write files whenever the script waits.
\<close>

section \<open>Actions\<close>

record 's host =
  ho_files :: "string \<Rightarrow> string option"
  ho_rest :: 's

type_synonym ('s, 'a) act = "'s host \<Rightarrow> ('a result \<times> 's host) option"

definition returnA :: "'a \<Rightarrow> ('s, 'a) act" where
  "returnA x h = Some (Inr x, h)"

definition raiseA :: "py_error \<Rightarrow> ('s, 'a) act" where
  "raiseA e h = Some (Inl e, h)"

definition bindA :: "('s, 'a) act \<Rightarrow> ('a \<Rightarrow> ('s, 'b) act) \<Rightarrow> ('s, 'b) act" where
  "bindA m f h = (case m h of None \<Rightarrow> None | Some (Inl e, h1) \<Rightarrow> Some (Inl e, h1) | Some (Inr x, h1) \<Rightarrow> f x h1)"

abbreviation thenA :: "('s, 'a) act \<Rightarrow> ('s, 'b) act \<Rightarrow> ('s, 'b) act" where
  "thenA m n \<equiv> bindA m (\<lambda>_. n)"

definition liftA :: "'a result \<Rightarrow> ('s, 'a) act" where
  "liftA r h = Some (r, h)"

definition getA :: "('s host \<Rightarrow> 'a) \<Rightarrow> ('s, 'a) act" where
  "getA f h = Some (Inr (f h), h)"

text \<open>A service that returns a value, one that may raise, and one that only changes the host.\<close>

definition callA :: "('s host \<Rightarrow> 'a \<times> 's host) \<Rightarrow> ('s, 'a) act" where
  "callA f h = (case f h of (x, h1) \<Rightarrow> Some (Inr x, h1))"

definition tryA :: "('s host \<Rightarrow> 'a result \<times> 's host) \<Rightarrow> ('s, 'a) act" where
  "tryA f h = Some (f h)"

definition modifyA :: "('s host \<Rightarrow> 's host) \<Rightarrow> ('s, unit) act" where
  "modifyA f h = Some (Inr (), f h)"

text \<open>\<open>try: body finally: cleanup\<close>\<close>

definition finallyA :: "('s, 'a) act \<Rightarrow> ('s, unit) act \<Rightarrow> ('s, 'a) act" where
  "finallyA body cleanup h =
     (case body h of
        None \<Rightarrow> None
      | Some (r, h1) \<Rightarrow> (case cleanup h1 of None \<Rightarrow> None | Some (Inl e, h2) \<Rightarrow> Some (Inl e, h2) | Some (Inr _, h2) \<Rightarrow> Some (r, h2)))"

definition whenA :: "bool \<Rightarrow> ('s, unit) act \<Rightarrow> ('s, unit) act" where
  "whenA c m = (if c then m else returnA ())"

fun forA :: "('a \<Rightarrow> ('s, unit) act) \<Rightarrow> 'a list \<Rightarrow> ('s, unit) act" where
  "forA f [] = returnA ()"
| "forA f (x # xs) = thenA (f x) (forA f xs)"

section \<open>Files\<close>

definition read_file :: "string \<Rightarrow> ('s, string) act" where
  "read_file p h = Some (case ho_files h p of None \<Rightarrow> Inl FileNotFoundError | Some t \<Rightarrow> Inr t, h)"

definition write_file :: "string \<Rightarrow> string \<Rightarrow> ('s, unit) act" where
  "write_file p t = modifyA (\<lambda>h. h\<lparr>ho_files := (ho_files h)(p \<mapsto> t)\<rparr>)"

definition unlink :: "string \<Rightarrow> ('s, unit) act" where
  "unlink p = modifyA (\<lambda>h. h\<lparr>ho_files := (ho_files h)(p := None)\<rparr>)"

definition file_exists :: "string \<Rightarrow> 's host \<Rightarrow> bool" where
  "file_exists p h \<longleftrightarrow> ho_files h p \<noteq> None"

definition touch :: "string \<Rightarrow> ('s, unit) act" where
  "touch p = modifyA (\<lambda>h. if file_exists p h then h else h\<lparr>ho_files := (ho_files h)(p \<mapsto> [])\<rparr>)"

section \<open>The operating system\<close>

text \<open>How a thread stood when \<open>join\<close> returned.\<close>

datatype thread_end = Alive | Raised | Joined

record ('s, 'j) platform =
  pl_now :: "'s host \<Rightarrow> f64 \<times> 's host"
  pl_sleep :: "f64 \<Rightarrow> 's host \<Rightarrow> 's host"
  pl_resolve :: "string \<Rightarrow> 's host \<Rightarrow> string"
  pl_is_dir :: "string \<Rightarrow> 's host \<Rightarrow> bool"
  pl_make_dir :: "string \<Rightarrow> 's host \<Rightarrow> unit result \<times> 's host"
  pl_remove_tree :: "string \<Rightarrow> 's host \<Rightarrow> 's host"
  pl_copy :: "string \<Rightarrow> string \<Rightarrow> 's host \<Rightarrow> unit result \<times> 's host"
  pl_run :: "string list \<Rightarrow> 's host \<Rightarrow> (int \<times> string) result \<times> 's host"
  pl_spawn :: "string list \<Rightarrow> (string \<times> string) list \<Rightarrow> string \<Rightarrow> 's host \<Rightarrow> int result \<times> 's host"
  pl_poll :: "int \<Rightarrow> 's host \<Rightarrow> int option \<times> 's host"
  pl_terminate :: "int \<Rightarrow> 's host \<Rightarrow> 's host"
  pl_kill :: "int \<Rightarrow> 's host \<Rightarrow> 's host"
  pl_wait :: "f64 \<Rightarrow> int \<Rightarrow> 's host \<Rightarrow> int option \<times> 's host"
  pl_start :: "'j \<Rightarrow> 's host \<Rightarrow> 's host"
  pl_join :: "f64 \<Rightarrow> 's host \<Rightarrow> thread_end \<times> 's host"

text \<open>\<open>subprocess.run(args, check=True)\<close>, and \<open>process.wait(timeout)\<close>, which raises when the
  process still runs.\<close>

definition run_checked :: "('s, 'j) platform \<Rightarrow> string list \<Rightarrow> ('s, unit) act" where
  "run_checked pl args = bindA (tryA (pl_run pl args)) (\<lambda>(code, _). if code = 0 then returnA () else raiseA CalledProcessError)"

definition wait_for :: "('s, 'j) platform \<Rightarrow> f64 \<Rightarrow> int \<Rightarrow> ('s, int) act" where
  "wait_for pl timeout proc =
     bindA (callA (pl_wait pl timeout proc)) (\<lambda>code. case code of None \<Rightarrow> raiseA TimeoutExpired | Some c \<Rightarrow> returnA c)"

text \<open>\<open>terminate\<close>, and \<open>kill\<close> when that does not end the process in five seconds.\<close>

definition stop_process :: "('s, 'j) platform \<Rightarrow> int \<Rightarrow> ('s, unit) act" where
  "stop_process pl proc =
     thenA (modifyA (pl_terminate pl proc))
    (bindA (callA (pl_wait pl (Fin 5) proc)) (\<lambda>code. case code of
       Some _ \<Rightarrow> returnA ()
     | None \<Rightarrow> thenA (modifyA (pl_kill pl proc)) (thenA (wait_for pl (Fin 5) proc) (returnA ()))))"

section \<open>What an action may do to the host\<close>

definition steps :: "('s host \<Rightarrow> 's host \<Rightarrow> bool) \<Rightarrow> ('s, 'a) act \<Rightarrow> bool" where
  "steps R m \<longleftrightarrow> (\<forall>h r h1. m h = Some (r, h1) \<longrightarrow> R h h1)"

text \<open>A relation between the host before and after that holds along a program when it holds along
  its parts, whatever is raised in between.\<close>

locale host_relation =
  fixes R :: "'s host \<Rightarrow> 's host \<Rightarrow> bool"
  assumes unchanged: "R h h" and composed: "R h1 h2 \<Longrightarrow> R h2 h3 \<Longrightarrow> R h1 h3"
begin

lemma steps_returnA: "steps R (returnA x)" and steps_raiseA: "steps R (raiseA e)" and steps_liftA: "steps R (liftA r)"
  and steps_getA: "steps R (getA f)" and steps_read_file: "steps R (read_file q)"
  by (simp_all add: steps_def returnA_def raiseA_def liftA_def getA_def read_file_def unchanged)

lemma steps_bindA:
  assumes "steps R m" and "\<And>x h h1. m h = Some (Inr x, h1) \<Longrightarrow> steps R (f x)"
  shows "steps R (bindA m f)"
  using assms unfolding steps_def bindA_def
  by (fastforce split: option.splits prod.splits sum.splits intro: composed)

lemma steps_finallyA:
  assumes "steps R body" and "steps R cleanup"
  shows "steps R (finallyA body cleanup)"
  using assms unfolding steps_def finallyA_def
  by (fastforce split: option.splits prod.splits sum.splits intro: composed)

lemma steps_forA: "(\<And>x. x \<in> set xs \<Longrightarrow> steps R (f x)) \<Longrightarrow> steps R (forA f xs)"
  by (induction xs) (auto intro: steps_returnA steps_bindA)

end

section \<open>Files that an action leaves alone\<close>

definition leaves :: "('s, 'a) act \<Rightarrow> string \<Rightarrow> bool" where
  "leaves m p \<longleftrightarrow> (\<forall>h r h1. m h = Some (r, h1) \<longrightarrow> ho_files h1 p = ho_files h p)"

text \<open>The services leave a file alone: nothing but the script writes it.\<close>

definition untouched :: "('s, 'j) platform \<Rightarrow> string \<Rightarrow> bool" where
  "untouched pl p \<longleftrightarrow>
     leaves (callA (pl_now pl)) p \<and> (\<forall>t. leaves (modifyA (pl_sleep pl t)) p) \<and> (\<forall>d. leaves (tryA (pl_make_dir pl d)) p)
     \<and> (\<forall>d. leaves (modifyA (pl_remove_tree pl d)) p) \<and> (\<forall>a b. leaves (tryA (pl_copy pl a b)) p) \<and> (\<forall>args. leaves (tryA (pl_run pl args)) p)
     \<and> (\<forall>args env out. leaves (tryA (pl_spawn pl args env out)) p) \<and> (\<forall>i. leaves (callA (pl_poll pl i)) p)
     \<and> (\<forall>i. leaves (modifyA (pl_terminate pl i)) p) \<and> (\<forall>i. leaves (modifyA (pl_kill pl i)) p) \<and> (\<forall>t i. leaves (callA (pl_wait pl t i)) p)
     \<and> (\<forall>j. leaves (modifyA (pl_start pl j)) p) \<and> (\<forall>t. leaves (callA (pl_join pl t)) p)"

named_theorems leaves_intros \<open>actions that leave a file alone\<close>

lemma leavesD: "leaves m p \<Longrightarrow> m h = Some (r, h1) \<Longrightarrow> ho_files h1 p = ho_files h p"
  by (simp add: leaves_def)

lemma steps_leaves: "steps (\<lambda>h h1. ho_files h1 p = ho_files h p) m \<longleftrightarrow> leaves m p"
  by (simp add: steps_def leaves_def)

interpretation same_file: host_relation "\<lambda>h h1. ho_files h1 p = ho_files h p" for p
  by unfold_locales simp_all

lemmas leaves_basic [leaves_intros] = same_file.steps_returnA [unfolded steps_leaves] same_file.steps_raiseA [unfolded steps_leaves]
  same_file.steps_liftA [unfolded steps_leaves] same_file.steps_getA [unfolded steps_leaves] same_file.steps_read_file [unfolded steps_leaves]

lemma leaves_bindA [leaves_intros]: "leaves m p \<Longrightarrow> (\<And>x. leaves (f x) p) \<Longrightarrow> leaves (bindA m f) p"
  by (rule same_file.steps_bindA [unfolded steps_leaves])

lemmas leaves_finallyA [leaves_intros] = same_file.steps_finallyA [unfolded steps_leaves]

lemmas leaves_forA [leaves_intros] = same_file.steps_forA [unfolded steps_leaves]

lemma leaves_files [leaves_intros]:
  "p \<noteq> q \<Longrightarrow> leaves (write_file q t) p" "p \<noteq> q \<Longrightarrow> leaves (unlink q) p" "p \<noteq> q \<Longrightarrow> leaves (touch q) p"
  by (simp_all add: leaves_def write_file_def unlink_def touch_def modifyA_def)

lemma leaves_if [leaves_intros]:
  "(c \<Longrightarrow> leaves m p) \<Longrightarrow> (\<not> c \<Longrightarrow> leaves n p) \<Longrightarrow> leaves (if c then m else n) p"
  "(c \<Longrightarrow> leaves u p) \<Longrightarrow> leaves (whenA c u) p"
  by (simp_all add: whenA_def leaves_basic)

lemma leaves_case [leaves_intros]:
  "(x = None \<Longrightarrow> leaves m p) \<Longrightarrow> (\<And>y. x = Some y \<Longrightarrow> leaves (f y) p) \<Longrightarrow> leaves (case x of None \<Rightarrow> m | Some y \<Rightarrow> f y) p"
  "(\<And>a b. z = (a, b) \<Longrightarrow> leaves (g a b) p) \<Longrightarrow> leaves (case z of (a, b) \<Rightarrow> g a b) p"
  "(t = Alive \<Longrightarrow> leaves a p) \<Longrightarrow> (t = Raised \<Longrightarrow> leaves b p) \<Longrightarrow> (t = Joined \<Longrightarrow> leaves c p) \<Longrightarrow>
    leaves (case t of Alive \<Rightarrow> a | Raised \<Rightarrow> b | Joined \<Rightarrow> c) p"
  by (simp_all split: option.split prod.split thread_end.split)

lemma leaves_services [leaves_intros]:
  assumes "untouched pl p"
  shows "leaves (callA (pl_now pl)) p" "leaves (modifyA (pl_sleep pl t)) p" "leaves (tryA (pl_make_dir pl d)) p"
    "leaves (modifyA (pl_remove_tree pl d)) p" "leaves (tryA (pl_copy pl a b)) p" "leaves (tryA (pl_run pl args)) p"
    "leaves (tryA (pl_spawn pl args env out)) p" "leaves (callA (pl_poll pl i)) p" "leaves (modifyA (pl_terminate pl i)) p"
    "leaves (modifyA (pl_kill pl i)) p" "leaves (callA (pl_wait pl t i)) p" "leaves (modifyA (pl_start pl j)) p"
    "leaves (callA (pl_join pl t)) p"
  using assms by (simp_all add: untouched_def)

lemma leaves_processes [leaves_intros]:
  assumes "untouched pl p"
  shows "leaves (run_checked pl args) p" "leaves (wait_for pl t i) p" "leaves (stop_process pl i) p"
  unfolding run_checked_def wait_for_def stop_process_def by (intro leaves_intros assms)+

section \<open>The outcomes of an action\<close>

lemma bindA_cases:
  assumes "bindA m f h = Some (r, h2)"
  obtains (raised) e where "m h = Some (Inl e, h2)" and "r = Inl e"
    | (returned) x h1 where "m h = Some (Inr x, h1)" and "f x h1 = Some (r, h2)"
  using assms by (auto simp: bindA_def split: option.splits sum.splits)

lemma bindA_InrE:
  assumes "bindA m f h = Some (Inr y, h2)"
  obtains x h1 where "m h = Some (Inr x, h1)" and "f x h1 = Some (Inr y, h2)"
  using assms by (auto elim: bindA_cases)

lemma finallyA_cases:
  assumes "finallyA body cleanup h = Some (r, h2)"
  obtains r1 h1 rc where "body h = Some (r1, h1)" and "cleanup h1 = Some (rc, h2)" and "r = (case rc of Inl e \<Rightarrow> Inl e | Inr _ \<Rightarrow> r1)"
  using assms by (auto simp: finallyA_def split: option.splits sum.splits prod.splits)

end
