(* ===== verification/Collection.thy ===== *)
theory Collection
  imports Host_Actions Experiment Acceptance Performance Ablation
begin

text \<open>
  \<open>scripts/run-qemu-experiments.py\<close>: the runs of all scenarios inside the guest, and the
  resumption of an interrupted collection.  The gateway, the container and the sampling thread
  are services of the platform.  Names of scenarios are texts; another JSON value is met here as
  a \<open>TypeError\<close>.  The environment of the gateway is the one of the script with the given updates.
\<close>

section \<open>The guest\<close>

text \<open>\<open>str.replace\<close> of a character by a text.\<close>

definition replace_char :: "char \<Rightarrow> string \<Rightarrow> string \<Rightarrow> string" where
  "replace_char c new s = concat (map (\<lambda>d. if d = c then new else [d]) s)"

text \<open>The loop of \<open>wait_for_socket\<close>.\<close>

partial_function (option) socket_loop :: "('s, 'j) platform \<Rightarrow> string \<Rightarrow> int \<Rightarrow> f64 \<Rightarrow> 's host \<Rightarrow> (unit result \<times> 's host) option" where
  "socket_loop pl path proc deadline h =
     (case pl_now pl h of (now, h1) \<Rightarrow>
        if \<not> flt now deadline then Some (Inl TimeoutError, h1)
        else if file_exists path h1 then Some (Inr (), h1)
        else (case pl_poll pl proc h1 of
            (Some _, h2) \<Rightarrow> Some (Inl RuntimeError, h2)
          | (None, h2) \<Rightarrow> socket_loop pl path proc deadline (pl_sleep pl (of_exact (5 / 100)) h2)))"

declare socket_loop.simps [code]

definition wait_for_socket :: "('s, 'j) platform \<Rightarrow> string \<Rightarrow> int \<Rightarrow> ('s, unit) act" where
  "wait_for_socket pl path proc =
     bindA (callA (pl_now pl)) (\<lambda>now. socket_loop pl path proc (fadd now (Fin 10)))"

definition write_bundle_config :: "('s, 'j) platform \<Rightarrow> string \<Rightarrow> string \<Rightarrow> f64 \<Rightarrow> int \<Rightarrow> ('s, unit) act" where
  "write_bundle_config pl bundle scenario duration seed =
     (let path = bundle @ ''/config.json'' in
      bindA (read_file path) (\<lambda>t.
      bindA (liftA (json_loads t)) (\<lambda>config.
      bindA (liftA (assign_in config ''process'' ''args'' (PList (map PStr
        [''/bin/cote3-workload'', scenario, ''--duration'', py_str (PFloat duration), ''--seed'', int_str seed])))) (\<lambda>config1.
      bindA (getA (pl_resolve pl (bundle @ ''/rootfs''))) (\<lambda>root.
      bindA (liftA (assign_in config1 ''root'' ''path'' (PStr root))) (\<lambda>config2.
      write_file path (dumps_indent config2)))))))"

definition mounted_in :: "string \<Rightarrow> string \<Rightarrow> bool" where
  "mounted_in target mountinfo \<longleftrightarrow> list_ex (\<lambda>line. let fields = split_fields line in 4 < length fields \<and> fields ! 4 = target) (splitlines mountinfo)"

definition is_mounted :: "('s, 'j) platform \<Rightarrow> string \<Rightarrow> ('s, bool) act" where
  "is_mounted pl path =
     bindA (getA (pl_resolve pl path)) (\<lambda>target.
     bindA (read_file ''/proc/self/mountinfo'') (\<lambda>t. returnA (mounted_in target t)))"

definition ensure_cgroup_v2 :: "('s, 'j) platform \<Rightarrow> ('s, unit) act" where
  "ensure_cgroup_v2 pl =
     bindA (is_mounted pl ''/sys/fs/cgroup'') (\<lambda>mounted.
     if mounted then returnA ()
     else bindA (read_file ''/proc/filesystems'') (\<lambda>filesystems.
       if \<not> substring ''cgroup2'' filesystems then raiseA RuntimeError
       else thenA (tryA (pl_make_dir pl ''/sys/fs/cgroup''))
         (run_checked pl [''mount'', ''-t'', ''cgroup2'', ''cgroup2'', ''/sys/fs/cgroup''])))"

definition stage_runtime_bundle :: "('s, 'j) platform \<Rightarrow> string \<Rightarrow> string \<Rightarrow> ('s, unit) act" where
  "stage_runtime_bundle pl source_path runtime =
     bindA (getA (pl_resolve pl source_path)) (\<lambda>source.
     bindA (getA (\<lambda>h. file_exists (source @ ''/config.json'') h \<and> pl_is_dir pl (source @ ''/rootfs'') h)) (\<lambda>valid.
     if \<not> valid then raiseA RuntimeError
     else bindA (getA (\<lambda>h. file_exists (source @ ''/rootfs/dev/tee0'') h \<or> file_exists (source @ ''/rootfs/dev/teepriv0'') h)) (\<lambda>exposed.
     if exposed then raiseA RuntimeError
     else bindA (is_mounted pl (runtime @ ''/rootfs'')) (\<lambda>mounted.
       thenA (whenA mounted (run_checked pl [''umount'', runtime @ ''/rootfs'']))
      (thenA (modifyA (pl_remove_tree pl runtime))
      (thenA (tryA (pl_make_dir pl runtime))
      (thenA (tryA (pl_copy pl (source @ ''/config.json'') (runtime @ ''/config.json'')))
      (thenA (tryA (pl_copy pl (source @ ''/rootfs'') (runtime @ ''/rootfs'')))
        (run_checked pl [''mount'', ''--bind'', runtime @ ''/rootfs'', runtime @ ''/rootfs''])))))))))"

definition remove_runtime_bundle :: "('s, 'j) platform \<Rightarrow> string \<Rightarrow> ('s, unit) act" where
  "remove_runtime_bundle pl runtime =
     bindA (is_mounted pl (runtime @ ''/rootfs'')) (\<lambda>mounted.
       thenA (whenA mounted (thenA (tryA (pl_run pl [''umount'', runtime @ ''/rootfs''])) (returnA ())))
         (modifyA (pl_remove_tree pl runtime)))"

section \<open>Completed runs\<close>

definition count_jsonl :: "string option \<Rightarrow> nat" where
  "count_jsonl file = (case file of None \<Rightarrow> 0 | Some t \<Rightarrow> length (filter (\<lambda>line. line \<noteq> []) (splitlines t)))"

text \<open>What identifies a run.\<close>

record run_spec =
  rn_scenario :: string
  rn_attack :: bool
  rn_repeat :: nat
  rn_duration :: f64
  rn_seed :: int

definition rn_id :: "run_spec \<Rightarrow> string" where
  "rn_id rn = run_name (rn_scenario rn) (rn_repeat rn)"

definition run_path :: "string \<Rightarrow> run_spec \<Rightarrow> string \<Rightarrow> string" where
  "run_path output rn suffix = output @ ''/'' @ rn_id rn @ suffix"

text \<open>The entries of \<open>checks\<close>, in order: each may raise, and all of them are evaluated.\<close>

definition counted :: "pyval \<Rightarrow> string \<Rightarrow> nat \<Rightarrow> bool result" where
  "counted result_dict k n = (if n = 0 then Inr False else mapR (\<lambda>m. m = int n) (bindE (py_get result_dict k (PInt (- 1))) py_int))"

definition resume_checks :: "pyval \<Rightarrow> run_spec \<Rightarrow> nat \<Rightarrow> nat \<Rightarrow> bool result list" where
  "resume_checks result_dict rn requests resources =
     [get_is ''status'' ''PASS'' result_dict, get_is ''run_id'' (rn_id rn) result_dict, get_is ''scenario'' (rn_scenario rn) result_dict,
      mapR (\<lambda>v. v = PBool (rn_attack rn)) (py_get result_dict ''is_attack'' PNone),
      mapR (\<lambda>n. n = rn_seed rn) (bindE (py_get result_dict ''seed'' (PInt (- 1))) py_int),
      mapR (\<lambda>d. feq d (rn_duration rn)) (bindE (py_get result_dict ''duration_seconds'' (PInt (- 1))) py_float),
      counted result_dict ''request_events'' requests, counted result_dict ''resource_events'' resources]"

text \<open>\<open>reusable_passed_run\<close>, on the result file and the two logs of the run.\<close>

definition reusable :: "run_spec \<Rightarrow> string option \<Rightarrow> string option \<Rightarrow> string option \<Rightarrow> bool result" where
  "reusable rn result_file request_log resource_log =
     (case result_file of None \<Rightarrow> Inr False
      | Some t \<Rightarrow> (case json_loads t of
            Inl e \<Rightarrow> Inl (if e = ValueError then RuntimeError else e)
          | Inr v \<Rightarrow> bindE (mapE id (resume_checks v rn (count_jsonl request_log) (count_jsonl resource_log))) (\<lambda>passed.
              if list_all id passed then Inr True else Inl RuntimeError)))"

definition reusable_passed_run :: "string \<Rightarrow> run_spec \<Rightarrow> ('s, bool) act" where
  "reusable_passed_run output rn h =
     Some (reusable rn (ho_files h (run_path output rn ''-result.json'')) (ho_files h (run_path output rn ''-requests.jsonl''))
       (ho_files h (run_path output rn ''-resources.jsonl'')), h)"

section \<open>A run\<close>

definition runc_state :: "('s, 'j) platform \<Rightarrow> string \<Rightarrow> ('s, pyval option) act" where
  "runc_state pl container_id =
     bindA (tryA (pl_run pl [''runc'', ''state'', container_id])) (\<lambda>(code, out).
     if code = 0 then bindA (liftA (json_loads out)) (\<lambda>v. returnA (Some v)) else returnA None)"

text \<open>\<open>not state or state.get("status") == "stopped"\<close>\<close>

definition container_stopped :: "pyval option \<Rightarrow> bool result" where
  "container_stopped state =
     (case state of None \<Rightarrow> Inr True | Some v \<Rightarrow> if \<not> truthy v then Inr True else get_is ''status'' ''stopped'' v)"

partial_function (option) stop_loop :: "('s, 'j) platform \<Rightarrow> string \<Rightarrow> f64 \<Rightarrow> 's host \<Rightarrow> (unit result \<times> 's host) option" where
  "stop_loop pl container_id deadline h =
     (case pl_now pl h of (now, h1) \<Rightarrow>
        if \<not> flt now deadline then Some (Inl TimeoutError, h1)
        else (case bindA (runc_state pl container_id) (\<lambda>state. liftA (container_stopped state)) h1 of
            None \<Rightarrow> None
          | Some (Inl e, h2) \<Rightarrow> Some (Inl e, h2)
          | Some (Inr stopped, h2) \<Rightarrow>
              if stopped then Some (Inr (), h2) else stop_loop pl container_id deadline (pl_sleep pl (of_exact (2 / 10)) h2)))"

declare stop_loop.simps [code]

definition container_pid :: "pyval option \<Rightarrow> int result" where
  "container_pid state =
     (case state of None \<Rightarrow> Inl RuntimeError
      | Some v \<Rightarrow> if \<not> truthy v then Inl RuntimeError
          else bindE (py_get v ''pid'' PNone) (\<lambda>p. if \<not> truthy p then Inl RuntimeError else int_field v ''pid''))"

text \<open>What the sampling thread is started with.\<close>

record sample_job =
  jb_pid :: int
  jb_log :: string
  jb_run :: run_spec

definition run_record :: "string \<Rightarrow> run_spec \<Rightarrow> f64 \<Rightarrow> nat \<Rightarrow> nat \<Rightarrow> pyval" where
  "run_record stage rn elapsed requests resources =
     PDict [(''schema'', PStr (''cote3-mon-'' @ stage @ ''-run-v1'')), (''status'', PStr ''PASS''), (''run_id'', PStr (rn_id rn)),
       (''scenario'', PStr (rn_scenario rn)), (''is_attack'', PBool (rn_attack rn)), (''seed'', PInt (rn_seed rn)),
       (''duration_seconds'', PFloat (rn_duration rn)), (''elapsed_seconds'', PFloat elapsed),
       (''request_events'', PInt (int requests)), (''resource_events'', PInt (int resources))]"

definition socket_path :: string where
  "socket_path = ''/run/cote3-mon/gateway.sock''"

definition remove_container :: "('s, 'j) platform \<Rightarrow> string \<Rightarrow> ('s, unit) act" where
  "remove_container pl container_id = thenA (tryA (pl_run pl [''runc'', ''delete'', ''--force'', container_id])) (returnA ())"

text \<open>The body of the \<open>try\<close> statement up to the check of the sampler, and the end of it.\<close>

definition run_container :: "('s, sample_job) platform \<Rightarrow> string \<Rightarrow> string \<Rightarrow> string \<Rightarrow> run_spec \<Rightarrow> int \<Rightarrow> ('s, unit) act" where
  "run_container pl bundle output container_id rn gateway_process =
     thenA (wait_for_socket pl socket_path gateway_process)
    (thenA (remove_container pl container_id)
    (thenA (run_checked pl [''runc'', ''run'', ''--no-pivot'', ''--detach'', ''--bundle'', bundle, container_id])
    (bindA (runc_state pl container_id) (\<lambda>state.
     bindA (liftA (container_pid state)) (\<lambda>pid.
     thenA (modifyA (pl_start pl \<lparr>jb_pid = pid, jb_log = run_path output rn ''-resources.jsonl'', jb_run = rn\<rparr>))
    (bindA (callA (pl_now pl)) (\<lambda>now.
     thenA (stop_loop pl container_id (fadd (fadd now (rn_duration rn)) (Fin 15)))
    (bindA (callA (pl_join pl (Fin 5))) (\<lambda>ended.
     case ended of Alive \<Rightarrow> raiseA TimeoutError | Raised \<Rightarrow> raiseA RuntimeError | Joined \<Rightarrow> returnA ())))))))))"

definition write_result :: "('s, 'j) platform \<Rightarrow> string \<Rightarrow> string \<Rightarrow> run_spec \<Rightarrow> f64 \<Rightarrow> ('s, unit) act" where
  "write_result pl output stage rn started =
     bindA (getA (\<lambda>h. (count_jsonl (ho_files h (run_path output rn ''-requests.jsonl'')),
       count_jsonl (ho_files h (run_path output rn ''-resources.jsonl''))))) (\<lambda>(requests, resources).
     if requests = 0 then raiseA RuntimeError
     else bindA (callA (pl_now pl)) (\<lambda>now.
       write_file (run_path output rn ''-result.json'') (dumps_indent (run_record stage rn (fsub now started) requests resources))))"

definition prepare_run :: "('s, 'j) platform \<Rightarrow> string \<Rightarrow> string \<Rightarrow> run_spec \<Rightarrow> ('s, unit) act" where
  "prepare_run pl bundle output rn =
     thenA (forA (\<lambda>suffix. unlink (run_path output rn suffix)) [''-requests.jsonl'', ''-resources.jsonl'', ''-gateway.log'', ''-result.json''])
    (thenA (tryA (pl_make_dir pl ''/run/cote3-mon''))
    (thenA (unlink socket_path)
    (thenA (write_bundle_config pl bundle (rn_scenario rn) (rn_duration rn) (rn_seed rn))
      (write_file (run_path output rn ''-gateway.log'') []))))"

definition clean_up :: "('s, 'j) platform \<Rightarrow> string \<Rightarrow> int \<Rightarrow> ('s, unit) act" where
  "clean_up pl container_id gateway_process =
     thenA (remove_container pl container_id) (thenA (stop_process pl gateway_process) (unlink socket_path))"

definition execute_run ::
  "('s, sample_job) platform \<Rightarrow> string \<Rightarrow> string \<Rightarrow> string \<Rightarrow> string \<Rightarrow> string \<Rightarrow> run_spec \<Rightarrow> ('s, unit) act" where
  "execute_run pl gateway bundle output backend stage rn =
     (let container_id = ''c3m-'' @ run_name (replace_char (CHR ''_'') ''-'' (rn_scenario rn)) (rn_repeat rn) in
      thenA (prepare_run pl bundle output rn)
     (bindA (tryA (pl_spawn pl [gateway, ''--backend'', backend, ''--socket'', socket_path, ''--telemetry'', run_path output rn ''-requests.jsonl'']
         [(''COTE3_RUN_ID'', rn_id rn), (''COTE3_CONTAINER_ID'', container_id), (''COTE3_SCENARIO'', rn_scenario rn),
          (''COTE3_IS_ATTACK'', if rn_attack rn then ''1'' else ''0'')] (run_path output rn ''-gateway.log''))) (\<lambda>gateway_process.
      bindA (callA (pl_now pl)) (\<lambda>started.
      finallyA (thenA (run_container pl bundle output container_id rn gateway_process) (write_result pl output stage rn started))
        (clean_up pl container_id gateway_process)))))"

section \<open>The collection\<close>

record collect_args =
  ca_config :: string
  ca_gateway :: string
  ca_bundle :: string
  ca_runtime :: string
  ca_output :: string
  ca_backend :: string
  ca_smoke :: bool
  ca_repeats :: "int option"
  ca_duration :: "f64 option"
  ca_stage :: "string option"
  ca_resume :: bool

text \<open>\<open>str.isalnum\<close> on characters below 256.\<close>

definition is_alnum :: "char \<Rightarrow> bool" where
  "is_alnum c = (let n = of_char c :: nat in
     (48 \<le> n \<and> n \<le> 57) \<or> (65 \<le> n \<and> n \<le> 90) \<or> (97 \<le> n \<and> n \<le> 122) \<or> n \<in> {170, 178, 179, 181, 185, 186, 188, 189, 190}
     \<or> (192 \<le> n \<and> n \<le> 255 \<and> n \<noteq> 215 \<and> n \<noteq> 247))"

definition stage_of :: "collect_args \<Rightarrow> pyval \<Rightarrow> string result" where
  "stage_of ca config =
     bindE (case ca_stage ca of
         Some t \<Rightarrow> if t = [] then mapR py_str (py_get config ''stage'' (PStr ''stage3'')) else Inr t
       | None \<Rightarrow> mapR py_str (py_get config ''stage'' (PStr ''stage3''))) (\<lambda>stage.
     let rest = filter (\<lambda>c. c \<noteq> CHR ''-'' \<and> c \<noteq> CHR ''_'') stage in
     if rest = [] \<or> \<not> list_all is_alnum rest then Inl SystemExit else Inr stage)"

definition check_snapshot :: "string \<Rightarrow> pyval \<Rightarrow> ('s, unit) act" where
  "check_snapshot path config =
     (let canonical = dumps_indent (sorted_json config) @ [CHR 0x0A] in
      bindA (getA (\<lambda>h. ho_files h path)) (\<lambda>found. case found of
        None \<Rightarrow> write_file path canonical
      | Some t \<Rightarrow> if t \<noteq> canonical then raiseA SystemExit else returnA ()))"

definition repeats_and_duration :: "collect_args \<Rightarrow> pyval \<Rightarrow> (int \<times> f64) result" where
  "repeats_and_duration ca config =
     bindE (case ca_repeats ca of Some n \<Rightarrow> Inr n | None \<Rightarrow> if ca_smoke ca then Inr 3 else int_field config ''repeats_per_scenario'') (\<lambda>repeats.
     bindE (case ca_duration ca of Some d \<Rightarrow> Inr d | None \<Rightarrow> if ca_smoke ca then Inr (Fin 15) else float_field config ''duration_seconds'') (\<lambda>duration.
     if repeats \<le> 0 \<or> fle duration (Fin 0) then Inl SystemExit else Inr (repeats, duration)))"

definition scenarios_of :: "pyval \<Rightarrow> (string \<times> bool) list result" where
  "scenarios_of config =
     bindE (bindE (py_subscript config ''benign_scenarios'') py_names) (\<lambda>benign.
     bindE (bindE (py_subscript config ''attack_scenarios'') py_names) (\<lambda>attack.
     Inr (map (\<lambda>name. (name, False)) benign @ map (\<lambda>name. (name, True)) attack)))"

definition run_matrix :: "(string \<times> bool) list \<Rightarrow> nat \<Rightarrow> (string \<times> bool \<times> nat) list" where
  "run_matrix scenarios repeats = concat (map (\<lambda>(name, attack). map (\<lambda>r. (name, attack, r)) [0..<repeats]) scenarios)"

definition collect_run :: "('s, sample_job) platform \<Rightarrow> collect_args \<Rightarrow> string \<Rightarrow> run_spec \<Rightarrow> ('s, unit) act" where
  "collect_run pl ca stage rn =
     bindA (if ca_resume ca then reusable_passed_run (ca_output ca) rn else returnA False) (\<lambda>done_before.
     if done_before then returnA ()
     else execute_run pl (ca_gateway ca) (ca_runtime ca) (ca_output ca) (ca_backend ca) stage rn)"

text \<open>The two loops of \<open>main\<close>; the seed is read anew for every run.\<close>

definition collect_runs :: "('s, sample_job) platform \<Rightarrow> collect_args \<Rightarrow> string \<Rightarrow> pyval \<Rightarrow> f64 \<Rightarrow> (string \<times> bool \<times> nat) list \<Rightarrow> ('s, unit) act" where
  "collect_runs pl ca stage config duration =
     forA (\<lambda>(name, attack, r). bindA (liftA (int_field config ''seed'')) (\<lambda>seed.
       collect_run pl ca stage \<lparr>rn_scenario = name, rn_attack = attack, rn_repeat = r, rn_duration = duration, rn_seed = seed + int r\<rparr>))"

definition collect :: "('s, sample_job) platform \<Rightarrow> bool \<Rightarrow> collect_args \<Rightarrow> ('s, unit) act" where
  "collect pl runc_installed ca =
     thenA (whenA (\<not> runc_installed) (raiseA SystemExit))
    (bindA (read_file (ca_config ca)) (\<lambda>t.
     bindA (liftA (json_loads t)) (\<lambda>config.
     bindA (liftA (stage_of ca config)) (\<lambda>stage.
     thenA (tryA (pl_make_dir pl (ca_output ca)))
    (thenA (check_snapshot (ca_output ca @ ''/experiment-config.json'') config)
    (bindA (liftA (repeats_and_duration ca config)) (\<lambda>(repeats, duration).
     bindA (liftA (scenarios_of config)) (\<lambda>scenarios.
     thenA (ensure_cgroup_v2 pl)
    (thenA (stage_runtime_bundle pl (ca_bundle ca) (ca_runtime ca))
      (finallyA (collect_runs pl ca stage config duration (run_matrix scenarios (nat repeats)))
        (remove_runtime_bundle pl (ca_runtime ca))))))))))))"

section \<open>Paths\<close>

lemma run_name_inj:
  assumes "run_name s r = run_name s' r'"
  shows "s = s' \<and> r = r'"
proof -
  let ?d = "\<lambda>r. if length (nat_str r) < 2 then CHR ''0'' # nat_str r else nat_str r"
  have plain: "CHR ''-'' \<notin> set (?d r)" "digits_value (?d r) = r" for r
    using nat_str_digits [of r] by (auto simp: list_all_iff is_digit_def digits_value_def)
  have e: "s @ ''-'' @ ?d r = s' @ ''-'' @ ?d r'" using assms by (simp add: run_name_def Let_def)
  have tail: "takeWhile (\<lambda>c. c \<noteq> CHR ''-'') (rev (s @ ''-'' @ d)) = rev d" if "CHR ''-'' \<notin> set d" for s d
  proof -
    have "\<And>c. c \<in> set (rev d) \<Longrightarrow> c \<noteq> CHR ''-''" using that by auto
    then show ?thesis using takeWhile_append2 [of "rev d" "\<lambda>c. c \<noteq> CHR ''-''" "CHR ''-'' # rev s"] by simp
  qed
  have "rev (?d r) = rev (?d r')" by (simp only: e flip: tail [OF plain(1) [of r], of s] tail [OF plain(1) [of r'], of s'])
  then have d: "?d r = ?d r'" by (simp only: rev_is_rev_conv)
  then have "s = s'" using e by simp
  moreover have "r = r'" using d plain(2) [of r] plain(2) [of r'] by simp
  ultimately show ?thesis by simp
qed

lemma run_path_inj:
  assumes "run_path output rn x = run_path output rn' ''-result.json''" and "x \<in> {''-requests.jsonl'', ''-resources.jsonl'', ''-gateway.log'', ''-result.json''}"
  shows "x = ''-result.json'' \<and> rn_scenario rn = rn_scenario rn' \<and> rn_repeat rn = rn_repeat rn'"
proof -
  have e: "rn_id rn @ x = rn_id rn' @ ''-result.json''" using assms(1) by (simp add: run_path_def)
  have "last (rn_id rn @ x) = last (rn_id rn' @ ''-result.json'')" by (simp only: e)
  then have x: "x = ''-result.json''" using assms(2) by auto
  with e show ?thesis using run_name_inj by (auto simp: rn_id_def)
qed

section \<open>What a run changes\<close>

lemma untouched_steps:
  assumes "untouched pl p"
  shows "pl_now pl h = (now, h1) \<Longrightarrow> ho_files h1 p = ho_files h p" and "pl_poll pl i h = (code, h1) \<Longrightarrow> ho_files h1 p = ho_files h p"
    and "ho_files (pl_sleep pl t h) p = ho_files h p"
  using leaves_services(1) [OF assms] leaves_services(8) [OF assms, of i] leaves_services(2) [OF assms, of t]
  by (auto simp: leaves_def callA_def modifyA_def split: prod.splits)

lemma leaves_runc_state [leaves_intros]: "untouched pl p \<Longrightarrow> leaves (runc_state pl container_id) p"
  unfolding runc_state_def by (intro leaves_intros)

lemma leaves_socket_loop [leaves_intros]:
  assumes "untouched pl p"
  shows "leaves (socket_loop pl path proc deadline) p"
proof -
  have "untouched pl p \<longrightarrow> ho_files (snd y) p = ho_files h p" if "socket_loop pl path proc deadline h = Some y" for pl path proc deadline h y
  proof (rule socket_loop.raw_induct [where P = "\<lambda>pl path proc deadline h y. untouched pl p \<longrightarrow> ho_files (snd y) p = ho_files h p",
      OF _ that], goal_cases)
    case (1 loop pl path proc deadline h y)
    then show ?case by (cases y) (auto simp: untouched_steps split: prod.splits if_splits option.splits)
  qed
  with assms show ?thesis unfolding leaves_def by fastforce
qed

lemma leaves_stop_loop [leaves_intros]:
  assumes "untouched pl p"
  shows "leaves (stop_loop pl container_id deadline) p"
proof -
  have "untouched pl p \<longrightarrow> ho_files (snd y) p = ho_files h p" if "stop_loop pl container_id deadline h = Some y" for pl container_id deadline h y
  proof (rule stop_loop.raw_induct [where P = "\<lambda>pl container_id deadline h y. untouched pl p \<longrightarrow> ho_files (snd y) p = ho_files h p",
      OF _ that], goal_cases)
    case (1 loop pl container_id deadline h y)
    have look: "ho_files h2 p = ho_files h1 p"
      if "untouched pl p" "bindA (runc_state pl container_id) (\<lambda>state. liftA (container_stopped state)) h1 = Some (r, h2)" for r h1 h2
      by (rule leavesD [where m = "bindA (runc_state pl container_id) (\<lambda>state. liftA (container_stopped state))", OF _ that(2)])
        (intro leaves_intros that(1))
    from 1 show ?case
      by (cases y) (auto simp: untouched_steps look split: prod.splits if_splits option.splits sum.splits)
  qed
  with assms show ?thesis unfolding leaves_def by fastforce
qed

end
