(* ===== verification/Performance_Collection.thy ===== *)
theory Performance_Collection
  imports Collection
begin

text \<open>
  \<open>scripts/run-qemu-performance.py\<close>: the performance runs inside the guest.  The platform is the
  one of \<open>Collection\<close>; the processes of a run are sampled by a thread that is modelled on its own.
  Names of configurations and components are texts; another JSON value is met here as a
  \<open>TypeError\<close>.
\<close>

section \<open>Resources\<close>

definition component_name :: "pyval \<Rightarrow> string \<Rightarrow> string result" where
  "component_name v k = bindE (py_subscript v k) (\<lambda>x. case x of PStr s \<Rightarrow> Inr s | _ \<Rightarrow> Inl TypeError)"

text \<open>One line of \<open>resource_summary\<close>: the readings of CPU and memory by component.\<close>

type_synonym readings = "(string \<times> f64 list \<times> f64 list) list"

definition note_reading :: "string \<Rightarrow> readings \<Rightarrow> readings result" where
  "note_reading line groups =
     (if line = [] then Inr groups
      else bindE (json_loads line) (\<lambda>event.
        bindE (component_name event ''component'') (\<lambda>name.
        bindE (float_field event ''cpu_percent'') (\<lambda>cpu.
        bindE (float_field event ''rss_kb'') (\<lambda>rss.
        let (cpus, rsses) = (case dget groups name of None \<Rightarrow> ([], []) | Some g \<Rightarrow> g) in
        Inr (dset name (cpus @ [cpu], rsses @ [rss]) groups))))))"

definition component_value :: "string \<times> f64 list \<times> f64 list \<Rightarrow> (string \<times> pyval) result" where
  "component_value = (\<lambda>(name, cpus, rsses).
     bindE (fmean cpus) (\<lambda>cpu_mean.
     bindE (percentile cpus (of_exact (95 / 100))) (\<lambda>cpu_p95.
     bindE (fmean rsses) (\<lambda>rss_mean.
     bindE (percentile rsses (of_exact (95 / 100))) (\<lambda>rss_p95.
     Inr (name, PDict [(''samples'', PInt (int (length cpus))), (''cpu_percent_mean'', PFloat cpu_mean), (''cpu_percent_p95'', PFloat cpu_p95),
       (''rss_kb_mean'', PFloat rss_mean), (''rss_kb_p95'', PFloat rss_p95)]))))))"

definition resource_summary :: "string \<Rightarrow> pyval result" where
  "resource_summary text =
     bindE (foldE note_reading (splitlines text) []) (\<lambda>groups.
     mapR PDict (mapE component_value (filter (\<lambda>(name, cpus, rsses). cpus \<noteq> []) groups)))"

section \<open>The sampling thread\<close>

definition performance_event :: "int \<Rightarrow> string \<Rightarrow> f64 \<times> int \<Rightarrow> pyval" where
  "performance_event now name = (\<lambda>(cpu, rss).
     PDict [(''schema'', PStr ''cote3-mon-performance-resource-v1''), (''ts_unix_ns'', PInt now), (''component'', PStr name),
       (''cpu_percent'', PFloat cpu), (''rss_kb'', PInt rss)])"

text \<open>One round over \<open>list(samplers.items())\<close>: a process that is gone loses its sampler.  The files
  of a process are those of the machine \<open>m name\<close>; the result keeps the samplers that are left and the
  lines written.\<close>

fun sample_round ::
  "(string \<Rightarrow> 'e machine) \<Rightarrow> (string \<times> sampler) list \<Rightarrow> string list \<Rightarrow> 'e \<Rightarrow>
   ((string \<times> sampler) list result \<times> string list \<times> 'e)" where
  "sample_round m [] written e = (Inr [], written, e)"
| "sample_round m ((name, sa) # rest) written e =
     (case sample (m name) sa e of
        (Inl err, sa', e1) \<Rightarrow>
          if err = FileNotFoundError \<or> err = ProcessLookupError then sample_round m rest written e1 else (Inl err, written, e1)
      | (Inr reading, sa', e1) \<Rightarrow>
          (case pm_time_ns (m name) e1 of (now, e2) \<Rightarrow>
            (case sample_round m rest (written @ [json_dumps (performance_event now name reading)]) e2 of
               (kept, written', e3) \<Rightarrow> (mapR (\<lambda>samplers. (name, sa') # samplers) kept, written', e3))))"

partial_function (option) sample_rounds ::
  "'e machine \<Rightarrow> (string \<Rightarrow> 'e machine) \<Rightarrow> f64 \<Rightarrow> (string \<times> sampler) list \<Rightarrow> string list \<Rightarrow> 'e \<Rightarrow> (unit result \<times> string list \<times> 'e) option" where
  "sample_rounds clock m deadline samplers written e =
     (case pm_monotonic clock e of (now, e1) \<Rightarrow>
        if \<not> flt now deadline then Some (Inr (), written, e1)
        else (case sample_round m samplers written e1 of
            (Inl err, written', e2) \<Rightarrow> Some (Inl err, written', e2)
          | (Inr kept, written', e2) \<Rightarrow> sample_rounds clock m deadline kept written' (pm_sleep clock (Fin 1) e2)))"

declare sample_rounds.simps [code]

text \<open>\<open>sample_processes\<close>: whether it returned, the lines, and whether an error was noted.\<close>

definition sample_processes ::
  "'e machine \<Rightarrow> (string \<Rightarrow> 'e machine) \<Rightarrow> int \<Rightarrow> string list \<Rightarrow> f64 \<Rightarrow> 'e \<Rightarrow> (unit result \<times> string list \<times> bool) option" where
  "sample_processes clock m clock_ticks names duration e =
     (case pm_monotonic clock e of (now, e1) \<Rightarrow>
       map_option (\<lambda>(r, written, _). (r, written, r = Inr () \<and> written = []))
         (sample_rounds clock m (fadd now duration) (map (\<lambda>name. (name, new_sampler clock_ticks)) names) [] e1))"

section \<open>Completed runs\<close>

definition perf_path :: "string \<Rightarrow> string \<Rightarrow> nat \<Rightarrow> string \<Rightarrow> string" where
  "perf_path output configuration repeat suffix = output @ ''/'' @ run_name configuration repeat @ suffix"

definition perf_checks :: "pyval \<Rightarrow> string \<Rightarrow> nat \<Rightarrow> f64 \<Rightarrow> bool \<Rightarrow> bool \<Rightarrow> bool result list" where
  "perf_checks result_dict configuration repeat duration has_summary has_resources =
     [get_is ''status'' ''PASS'' result_dict, get_is ''configuration'' configuration result_dict,
      mapR (\<lambda>n. n = int repeat) (bindE (py_get result_dict ''repeat'' (PInt (- 1))) py_int),
      mapR (\<lambda>d. feq d duration) (bindE (py_get result_dict ''duration_seconds'' (PInt (- 1))) py_float),
      mapR (\<lambda>n. 0 < n) (bindE (bindE (py_get result_dict ''gateway'' (PDict [])) (\<lambda>g. py_get g ''requests'' (PInt 0))) py_int),
      Inr has_summary, Inr has_resources]"

definition result_reusable :: "string \<Rightarrow> nat \<Rightarrow> f64 \<Rightarrow> string option \<Rightarrow> bool \<Rightarrow> bool \<Rightarrow> bool result" where
  "result_reusable configuration repeat duration result_file has_summary has_resources =
     (case result_file of None \<Rightarrow> Inr False
      | Some t \<Rightarrow> bindE (json_loads t) (\<lambda>v.
          bindE (mapE id (perf_checks v configuration repeat duration has_summary has_resources)) (\<lambda>passed.
          if list_all id passed then Inr True else Inl RuntimeError)))"

definition result_is_reusable :: "string \<Rightarrow> string \<Rightarrow> nat \<Rightarrow> f64 \<Rightarrow> ('s, bool) act" where
  "result_is_reusable output configuration repeat duration h =
     (let path = perf_path output configuration repeat in
      Some (result_reusable configuration repeat duration (ho_files h (path ''-result.json''))
        (file_exists (path ''-gateway-summary.json'') h) (file_exists (path ''-resources.jsonl'') h), h))"

section \<open>A run\<close>

record perf_job =
  pj_processes :: "(string \<times> int) list"
  pj_log :: string
  pj_duration :: f64

record perf_spec =
  pf_configuration :: string
  pf_repeat :: nat
  pf_config :: pyval
  pf_scenario :: string
  pf_seed :: int
  pf_duration :: f64

text \<open>The fields of the configuration that \<open>execute_run\<close> reads first.\<close>

definition perf_spec_of :: "pyval \<Rightarrow> string \<Rightarrow> nat \<Rightarrow> perf_spec result" where
  "perf_spec_of config configuration repeat =
     bindE (float_field config ''duration_seconds'') (\<lambda>duration.
     bindE (str_field ''scenario'' config) (\<lambda>scenario.
     bindE (int_field config ''seed'') (\<lambda>seed.
     Inr \<lparr>pf_configuration = configuration, pf_repeat = repeat, pf_config = config, pf_scenario = scenario, pf_seed = seed + int repeat,
          pf_duration = duration\<rparr>)))"

definition pf_id :: "perf_spec \<Rightarrow> string" where
  "pf_id pf = run_name (pf_configuration pf) (pf_repeat pf)"

definition pf_container :: "perf_spec \<Rightarrow> string" where
  "pf_container pf = ''c3m-perf'' @ run_name [] (pf_repeat pf) @ ''-'' @ take 20 (replace_char (CHR ''_'') ''-'' (pf_configuration pf))"

definition pf_path :: "string \<Rightarrow> perf_spec \<Rightarrow> string \<Rightarrow> string" where
  "pf_path output pf = perf_path output (pf_configuration pf) (pf_repeat pf)"

definition done_path :: "perf_spec \<Rightarrow> string" where
  "done_path pf = ''/tmp/'' @ pf_id pf @ ''.done''"

definition telemetry_on :: "perf_spec \<Rightarrow> bool" where
  "telemetry_on pf \<longleftrightarrow> pf_configuration pf \<noteq> ''gateway_only''"

definition monitored :: "perf_spec \<Rightarrow> bool" where
  "monitored pf \<longleftrightarrow> pf_configuration pf \<in> {''telemetry_iforest'', ''telemetry_iforest_audit_ta''}"

definition audited :: "perf_spec \<Rightarrow> bool" where
  "audited pf \<longleftrightarrow> pf_configuration pf = ''telemetry_iforest_audit_ta''"

definition log_suffixes :: "string list" where
  "log_suffixes = [''-requests.jsonl'', ''-resources.jsonl'', ''-gateway.log'', ''-gateway-summary.json'', ''-monitor.log'',
     ''-monitor-summary.json'', ''-alerts.jsonl'']"

definition prepare_perf :: "('s, 'j) platform \<Rightarrow> string \<Rightarrow> string \<Rightarrow> perf_spec \<Rightarrow> ('s, unit) act" where
  "prepare_perf pl bundle output pf =
     thenA (forA (\<lambda>suffix. unlink (pf_path output pf suffix)) log_suffixes)
    (thenA (unlink (done_path pf))
    (thenA (unlink (pf_path output pf ''-result.json''))
    (thenA (touch (pf_path output pf ''-requests.jsonl''))
    (thenA (touch (pf_path output pf ''-resources.jsonl''))
    (thenA (write_bundle_config pl bundle (pf_scenario pf) (pf_duration pf) (pf_seed pf))
    (thenA (tryA (pl_make_dir pl ''/run/cote3-mon''))
    (thenA (unlink socket_path)
      (write_file (pf_path output pf ''-gateway.log'') []))))))))"

definition gateway_args :: "string \<Rightarrow> string \<Rightarrow> perf_spec \<Rightarrow> string list" where
  "gateway_args gateway output pf =
     [gateway, ''--backend'', ''optee'', ''--socket'', socket_path, ''--summary'', pf_path output pf ''-gateway-summary.json'']
     @ (if telemetry_on pf then [''--telemetry'', pf_path output pf ''-requests.jsonl''] else [''--no-telemetry''])"

definition monitor_args :: "string \<Rightarrow> string \<Rightarrow> string \<Rightarrow> string \<Rightarrow> perf_spec \<Rightarrow> string list result" where
  "monitor_args python script model output pf =
     bindE (str_field ''window_seconds'' (pf_config pf)) (\<lambda>window.
     bindE (str_field ''warmup_seconds'' (pf_config pf)) (\<lambda>warmup.
     Inr ([python, script, ''--requests'', pf_path output pf ''-requests.jsonl'', ''--resources'', pf_path output pf ''-resources.jsonl'',
           ''--model'', model, ''--done-file'', done_path pf, ''--output'', pf_path output pf ''-monitor-summary.json'',
           ''--alerts'', pf_path output pf ''-alerts.jsonl'', ''--window-seconds'', window, ''--warmup-seconds'', warmup]
          @ (if audited pf then [''--audit-client'', ''/usr/bin/audit-client''] else []))))"

text \<open>The start of the gateway's container, and of the monitor when the configuration has one.\<close>

definition start_container :: "('s, 'j) platform \<Rightarrow> string \<Rightarrow> perf_spec \<Rightarrow> int \<Rightarrow> ('s, int) act" where
  "start_container pl bundle pf gateway_process =
     thenA (wait_for_socket pl socket_path gateway_process)
    (thenA (remove_container pl (pf_container pf))
    (thenA (run_checked pl [''runc'', ''run'', ''--no-pivot'', ''--detach'', ''--bundle'', bundle, pf_container pf])
    (bindA (runc_state pl (pf_container pf)) (\<lambda>state. liftA (container_pid state)))))"

definition start_monitor :: "('s, 'j) platform \<Rightarrow> string \<Rightarrow> string \<Rightarrow> string \<Rightarrow> string \<Rightarrow> perf_spec \<Rightarrow> ('s, int option) act" where
  "start_monitor pl python script model output pf =
     (if monitored pf
      then thenA (write_file (pf_path output pf ''-monitor.log'') [])
        (bindA (liftA (monitor_args python script model output pf)) (\<lambda>args.
         bindA (tryA (pl_spawn pl args [] (pf_path output pf ''-monitor.log''))) (\<lambda>proc. returnA (Some proc))))
      else returnA None)"

definition sample_until_stopped :: "('s, perf_job) platform \<Rightarrow> string \<Rightarrow> perf_spec \<Rightarrow> (string \<times> int) list \<Rightarrow> ('s, unit) act" where
  "sample_until_stopped pl output pf processes =
     thenA (modifyA (pl_start pl \<lparr>pj_processes = processes, pj_log = pf_path output pf ''-resources.jsonl'', pj_duration = pf_duration pf\<rparr>))
    (bindA (callA (pl_now pl)) (\<lambda>now.
     thenA (stop_loop pl (pf_container pf) (fadd (fadd now (pf_duration pf)) (Fin 15)))
    (thenA (touch (done_path pf))
    (bindA (callA (pl_join pl (Fin 5))) (\<lambda>ended. if ended = Raised then raiseA RuntimeError else returnA ())))))"

definition finish_monitor :: "('s, 'j) platform \<Rightarrow> int option \<Rightarrow> ('s, unit) act" where
  "finish_monitor pl monitor =
     (case monitor of None \<Rightarrow> returnA ()
      | Some proc \<Rightarrow> bindA (wait_for pl (Fin 30) proc) (\<lambda>code. if code \<noteq> 0 then raiseA RuntimeError else returnA ()))"

definition read_json :: "string \<Rightarrow> ('s, pyval) act" where
  "read_json path = bindA (read_file path) (\<lambda>t. liftA (json_loads t))"

text \<open>The checks on the summaries of the gateway and of the monitor; the number of request events.\<close>

definition check_gateway :: "perf_spec \<Rightarrow> pyval \<Rightarrow> nat \<Rightarrow> unit result" where
  "check_gateway pf gateway_summary request_events =
     bindE (int_field gateway_summary ''requests'') (\<lambda>requests.
     bindE (require (0 < requests)) (\<lambda>_.
     require (telemetry_on pf \<longrightarrow> int request_events = requests)))"

definition check_monitor :: "perf_spec \<Rightarrow> pyval \<Rightarrow> unit result" where
  "check_monitor pf monitor_summary =
     bindE (get_is ''status'' ''PASS'' monitor_summary) (\<lambda>passed.
     bindE (if passed then mapR (\<lambda>n. 0 < n) (bindE (py_get monitor_summary ''windows'' (PInt 0)) py_int) else Inr False) (\<lambda>windows.
     bindE (require windows) (\<lambda>_.
     if audited pf then bindE (bindE (py_get monitor_summary ''alerts'' (PInt 0)) py_int) (\<lambda>alerts. require (0 < alerts)) else Inr ())))"

definition perf_record :: "perf_spec \<Rightarrow> f64 \<Rightarrow> nat \<Rightarrow> pyval \<Rightarrow> pyval \<Rightarrow> pyval \<Rightarrow> pyval" where
  "perf_record pf elapsed request_events gateway_summary resources monitor_summary =
     PDict [(''schema'', PStr ''cote3-mon-stage4-performance-run-v1''), (''status'', PStr ''PASS''), (''run_id'', PStr (pf_id pf)),
       (''configuration'', PStr (pf_configuration pf)), (''repeat'', PInt (int (pf_repeat pf))), (''scenario'', PStr (pf_scenario pf)),
       (''seed'', PInt (pf_seed pf)), (''duration_seconds'', PFloat (pf_duration pf)), (''elapsed_seconds'', PFloat elapsed),
       (''telemetry_enabled'', PBool (telemetry_on pf)), (''request_events'', PInt (int request_events)), (''gateway'', gateway_summary),
       (''resources'', resources), (''monitor'', monitor_summary)]"

text \<open>Whether \<open>f"{v:.3f}"\<close> can format the value; the line it is printed in is the last step of the run.\<close>

fun format_fixed :: "pyval \<Rightarrow> unit result" where
  "format_fixed (PFloat x) = Inr ()"
| "format_fixed (PBool b) = Inr ()"
| "format_fixed (PInt n) = mapR (\<lambda>_. ()) (float_of_int n)"
| "format_fixed (PStr s) = Inl ValueError"
| "format_fixed _ = Inl TypeError"

definition write_perf :: "('s, 'j) platform \<Rightarrow> string \<Rightarrow> perf_spec \<Rightarrow> f64 \<Rightarrow> bool \<Rightarrow> ('s, unit) act" where
  "write_perf pl output pf started has_monitor =
     bindA (read_json (pf_path output pf ''-gateway-summary.json'')) (\<lambda>gateway_summary.
     bindA (getA (\<lambda>h. count_jsonl (ho_files h (pf_path output pf ''-requests.jsonl'')))) (\<lambda>request_events.
     thenA (liftA (check_gateway pf gateway_summary request_events))
    (bindA (if has_monitor
            then bindA (read_json (pf_path output pf ''-monitor-summary.json'')) (\<lambda>v. bindA (liftA (check_monitor pf v)) (\<lambda>_. returnA v))
            else returnA PNone) (\<lambda>monitor_summary.
     bindA (read_file (pf_path output pf ''-resources.jsonl'')) (\<lambda>t.
     bindA (liftA (resource_summary t)) (\<lambda>resources.
     bindA (callA (pl_now pl)) (\<lambda>now.
     thenA (write_file (pf_path output pf ''-result.json'')
              (dumps_indent (perf_record pf (fsub now started) request_events gateway_summary resources monitor_summary)))
       (liftA (bindE (py_subscript gateway_summary ''throughput_rps'') format_fixed)))))))))"

text \<open>The steps of the \<open>try\<close> statement after the monitor has been started.\<close>

definition measure_run ::
  "('s, perf_job) platform \<Rightarrow> string \<Rightarrow> perf_spec \<Rightarrow> int \<Rightarrow> int \<Rightarrow> int option \<Rightarrow> f64 \<Rightarrow> ('s, unit) act" where
  "measure_run pl output pf pid gateway_process monitor started =
     thenA (sample_until_stopped pl output pf
         ([(''container'', pid), (''gateway'', gateway_process)] @ (case monitor of None \<Rightarrow> [] | Some m \<Rightarrow> [(''monitor'', m)])))
    (thenA (finish_monitor pl monitor)
    (thenA (modifyA (pl_terminate pl gateway_process))
    (thenA (wait_for pl (Fin 10) gateway_process)
      (write_perf pl output pf started (monitor \<noteq> None)))))"

definition stop_if_running :: "('s, 'j) platform \<Rightarrow> int \<Rightarrow> ('s, unit) act" where
  "stop_if_running pl proc = bindA (callA (pl_poll pl proc)) (\<lambda>code. if code = None then stop_process pl proc else returnA ())"

definition clean_perf :: "('s, 'j) platform \<Rightarrow> perf_spec \<Rightarrow> int \<Rightarrow> int option \<Rightarrow> ('s, unit) act" where
  "clean_perf pl pf gateway_process monitor =
     thenA (touch (done_path pf))
    (thenA (remove_container pl (pf_container pf))
    (thenA (case monitor of None \<Rightarrow> returnA () | Some proc \<Rightarrow> stop_if_running pl proc)
    (thenA (stop_if_running pl gateway_process)
    (thenA (unlink socket_path)
      (unlink (done_path pf))))))"

text \<open>The clean-up knows the monitor only when it was started, so the \<open>try\<close> statement is followed
  through its two parts.\<close>

definition execute_perf ::
  "('s, perf_job) platform \<Rightarrow> string \<Rightarrow> string \<Rightarrow> string \<Rightarrow> string \<Rightarrow> string \<Rightarrow> string \<Rightarrow> perf_spec \<Rightarrow> ('s, unit) act" where
  "execute_perf pl python script gateway bundle output model pf =
     thenA (prepare_perf pl bundle output pf)
    (bindA (tryA (pl_spawn pl (gateway_args gateway output pf)
        [(''COTE3_RUN_ID'', pf_id pf), (''COTE3_CONTAINER_ID'', pf_container pf), (''COTE3_SCENARIO'', pf_scenario pf),
         (''COTE3_IS_ATTACK'', ''1'')] (pf_path output pf ''-gateway.log''))) (\<lambda>gateway_process.
     bindA (callA (pl_now pl)) (\<lambda>started h.
       case bindA (start_container pl bundle pf gateway_process) (\<lambda>pid.
            bindA (start_monitor pl python script model output pf) (\<lambda>monitor. returnA (pid, monitor))) h of
         None \<Rightarrow> None
       | Some (Inl e, h1) \<Rightarrow> finallyA (raiseA e) (clean_perf pl pf gateway_process None) h1
       | Some (Inr (pid, monitor), h1) \<Rightarrow>
           finallyA (measure_run pl output pf pid gateway_process monitor started) (clean_perf pl pf gateway_process monitor) h1)))"

section \<open>The collection\<close>

record perf_args =
  pa_config :: string
  pa_gateway :: string
  pa_bundle :: string
  pa_runtime :: string
  pa_output :: string
  pa_resume :: bool
  pa_repeats :: "int option"
  pa_duration :: "f64 option"

definition with_overrides :: "perf_args \<Rightarrow> pyval \<Rightarrow> pyval result" where
  "with_overrides pa config =
     bindE (case pa_repeats pa of None \<Rightarrow> Inr config
         | Some n \<Rightarrow> if n \<le> 0 then Inl SystemExit else py_assign config ''repeats_per_configuration'' (PInt n)) (\<lambda>config1.
     case pa_duration pa of None \<Rightarrow> Inr config1
     | Some d \<Rightarrow> bindE (float_field config1 ''warmup_seconds'') (\<lambda>warmup.
         if fle d warmup then Inl SystemExit else py_assign config1 ''duration_seconds'' (PFloat d)))"

text \<open>\<open>Path("/mnt/host") / text\<close>\<close>

definition model_path :: "string \<Rightarrow> string" where
  "model_path t = (if take 1 t = ''/'' then t else ''/mnt/host/'' @ t)"

definition perf_matrix :: "string list \<Rightarrow> nat \<Rightarrow> (string \<times> nat) list" where
  "perf_matrix names repeats = concat (map (\<lambda>r. map (\<lambda>name. (name, r)) names) [0..<repeats])"

definition perf_run :: "('s, perf_job) platform \<Rightarrow> string \<Rightarrow> string \<Rightarrow> perf_args \<Rightarrow> pyval \<Rightarrow> string \<Rightarrow> string \<times> nat \<Rightarrow> ('s, unit) act" where
  "perf_run pl python script pa config model = (\<lambda>(configuration, repeat).
     bindA (if pa_resume pa
            then bindA (liftA (float_field config ''duration_seconds'')) (\<lambda>duration. result_is_reusable (pa_output pa) configuration repeat duration)
            else returnA False) (\<lambda>done_before.
     if done_before then returnA ()
     else bindA (liftA (perf_spec_of config configuration repeat)) (\<lambda>pf.
       execute_perf pl python script (pa_gateway pa) (pa_runtime pa) (pa_output pa) model pf)))"

definition collect_performance ::
  "'r randbelow \<Rightarrow> (int \<Rightarrow> 'r) \<Rightarrow> ('s, perf_job) platform \<Rightarrow> string \<Rightarrow> string \<Rightarrow> perf_args \<Rightarrow> ('s, unit) act" where
  "collect_performance rb seeded pl python script pa =
     bindA (read_json (pa_config pa)) (\<lambda>loaded.
     bindA (liftA (with_overrides pa loaded)) (\<lambda>config.
     let canonical = dumps_indent (sorted_json config) @ [CHR 0x0A]; snapshot = pa_output pa @ ''/performance-config.json'' in
     thenA (tryA (pl_make_dir pl (pa_output pa)))
    (bindA (getA (\<lambda>h. ho_files h snapshot)) (\<lambda>found.
     if found \<noteq> None \<and> found \<noteq> Some canonical then raiseA SystemExit
     else thenA (write_file snapshot canonical)
      (bindA (liftA (mapR model_path (str_field ''model'' config))) (\<lambda>model.
       bindA (getA (file_exists model)) (\<lambda>present.
       if \<not> present then raiseA SystemExit
       else bindA (liftA (int_field config ''repeats_per_configuration'')) (\<lambda>repeats.
         bindA (liftA (if repeats \<le> 0 then Inr [] else bindE (py_subscript config ''configurations'') py_names)) (\<lambda>names.
         bindA (liftA (int_field config ''seed'')) (\<lambda>seed.
         thenA (ensure_cgroup_v2 pl)
        (thenA (stage_runtime_bundle pl (pa_bundle pa) (pa_runtime pa))
          (finallyA (forA (perf_run pl python script pa config model) (shuffle rb (perf_matrix names (nat repeats)) (seeded seed)))
            (remove_runtime_bundle pl (pa_runtime pa))))))))))))))"

end
