(* ===== verification/Json_Loaded.thy ===== *)
theory Json_Loaded
  imports Json_Text
begin

text \<open>
  What \<open>json.loads\<close> returns can be stored: the keys of an object are distinct, its integers are
  short enough for the interpreter to convert and its floats are floats.  So a value that one script
  has read and written again is read by the next script as it was.
\<close>

section \<open>Numbers\<close>

lemma take_digits_step:
  assumes "is_digit c"
  obtains u where "take_digits (c # s) = (c # fst (take_digits u), snd (take_digits u))" and "length u \<le> length s"
proof (cases "\<exists>e t. s = CHR ''_'' # e # t \<and> is_digit e")
  case True
  then obtain e t where s: "s = CHR ''_'' # e # t" "is_digit e" by blast
  then show thesis using assms
    by (intro that [of "e # t"]) (subst take_digits.simps(2), simp_all del: take_digits.simps add: case_prod_beta)
next
  case False
  then have "take_digits (c # s) = (c # fst (take_digits s), snd (take_digits s))" using assms
    by (subst take_digits.simps(2)) (cases s; cases "tl s"; auto simp del: take_digits.simps simp: case_prod_beta)
  then show thesis by (rule that) simp
qed

lemma take_digits_digits: "list_all is_digit (fst (take_digits s))"
proof (induction s rule: length_induct)
  case (1 s)
  show ?case
  proof (cases s)
    case (Cons c t)
    show ?thesis
    proof (cases "is_digit c")
      case True
      obtain u where "take_digits (c # t) = (c # fst (take_digits u), snd (take_digits u))" "length u \<le> length t" by (rule take_digits_step [OF True])
      then show ?thesis using 1 True by (simp del: take_digits.simps add: Cons)
    next
      case False
      then show ?thesis by (simp add: Cons)
    qed
  qed simp
qed

lemma digits_value_bound: "list_all is_digit ds \<Longrightarrow> digits_value ds < 10 ^ length ds"
proof (induction ds rule: rev_induct)
  case (snoc c ds)
  then have "digits_value ds < 10 ^ length ds" and "of_char c - 48 < (10 :: nat)" by (auto simp: is_digit_def)
  then show ?case by (simp add: digits_value_snoc)
qed (simp add: digits_value_def)

lemma length_nat_str: "n < 10 ^ k \<Longrightarrow> 0 < k \<Longrightarrow> length (nat_str n) \<le> k"
proof (induction k arbitrary: n)
  case (Suc k)
  show ?case
  proof (cases "n < 10")
    case True
    then show ?thesis by (subst nat_str.simps) simp
  next
    case False
    then have "0 < k" using Suc.prems(1) by (cases k) auto
    moreover have "n div 10 < 10 ^ k" using Suc.prems(1) by (simp add: less_mult_imp_div_less mult.commute)
    ultimately show ?thesis using Suc.IH [of "n div 10"] False by (subst nat_str.simps) simp
  qed
qed simp

lemma parse_int_short: "parse_int s = Inr n \<Longrightarrow> short_int n"
proof -
  assume p: "parse_int s = Inr n"
  obtain sg t where st: "take_sign (strip s) = (sg, t)" by fastforce
  obtain ds r where dr: "take_digits t = (ds, r)" by fastforce
  have ds: "ds \<noteq> []" "length ds \<le> 4300" and n: "n = sg * int (digits_value ds)"
    using p st dr by (auto simp: parse_int_def split: if_splits)
  have "\<bar>sg\<bar> = 1" using st by (auto simp: take_sign_def split: list.splits if_splits)
  then have "nat \<bar>n\<bar> = digits_value ds" by (simp add: n abs_mult)
  moreover have "length (nat_str (digits_value ds)) \<le> length ds"
    by (rule length_nat_str [OF digits_value_bound [OF take_digits_digits [of t, unfolded dr fst_conv]]]) (use ds in simp)
  ultimately show ?thesis using ds by (simp add: short_int_def)
qed

lemma parse_float_f64: "parse_float s = Inr x \<Longrightarrow> is_f64 x"
  by (auto simp: parse_float_def split: prod.splits if_splits option.splits)

section \<open>Values\<close>

lemma storable_dset:
  assumes "storable (PDict d)" and "storable v"
  shows "storable (PDict (dset k v d))"
proof -
  have "list_all (\<lambda>(_, w). storable w) (dset k v d)" if "list_all (\<lambda>(_, w). storable w) d"
    using that assms(2) by (induction d) (auto simp: dset_def)
  then show ?thesis using assms distinct_dset [of d k v] by (simp add: list_all_iff) force
qed

lemma storable_members: "list_all (\<lambda>(_, v). storable v) ms \<Longrightarrow> storable (PDict d) \<Longrightarrow> storable (PDict (fold (\<lambda>(k, v). dset k v) ms d))"
proof (induction ms arbitrary: d)
  case (Cons m ms)
  obtain k v where m: "m = (k, v)" by fastforce
  from Cons.prems have "storable (PDict (dset k v d))" by (intro storable_dset) (simp_all add: m)
  then show ?case using Cons by (simp add: m)
qed simp

lemma json_atom_storable: "json_atom s = Some (v, r) \<Longrightarrow> storable v"
proof (cases "find (\<lambda>(l, v). take (length l) s = l) literals")
  case None
  assume "json_atom s = Some (v, r)"
  then have "json_number s = Some (v, r)" using None by (simp add: json_atom_def)
  then show ?thesis
    by (auto simp: json_number_def split: prod.splits option.splits if_splits sum.splits dest: parse_int_short parse_float_f64)
next
  case (Some p)
  then have "p \<in> set literals" by (auto simp: find_Some_iff in_set_conv_nth)
  moreover assume "json_atom s = Some (v, r)"
  ultimately show ?thesis using Some by (auto simp: json_atom_def literals_def)
qed

lemma json_value_storable:
  "json_value n s = Some (v, r) \<Longrightarrow> storable v"
  "json_items n s = Some (vs, r) \<Longrightarrow> list_all storable vs"
  "json_members n s = Some (ms, r) \<Longrightarrow> list_all (\<lambda>(_, v). storable v) ms"
proof (induction n s and n s and n s arbitrary: v r and vs r and ms r
    rule: json_value_json_items_json_members.induct)
  case (3 n c s)
  have "storable (PList vs)" if "list_all storable vs" for vs using that by (simp add: list_all_iff)
  moreover have "storable (PDict (fold (\<lambda>(k, v). dset k v) ms []))" if "list_all (\<lambda>(_, v). storable v) ms" for ms
    using storable_members [OF that, of "[]"] by simp
  ultimately show ?case using 3 by (auto split: if_splits option.splits dest: json_atom_storable)
next
  case (5 n s)
  then show ?case by (fastforce split: option.splits)
next
  case (7 n s)
  then show ?case by (fastforce split: option.splits if_splits)
qed simp_all

lemma loaded_storable: "json_loads t = Inr v \<Longrightarrow> storable v"
  by (auto simp: json_loads_def Let_def split: option.splits if_splits dest: json_value_storable(1))

section \<open>Short texts\<close>

text \<open>A value but for the length of its integers, which the text bounds.\<close>

primrec shaped :: "pyval \<Rightarrow> bool" where
  "shaped PNone \<longleftrightarrow> True"
| "shaped (PBool b) \<longleftrightarrow> True"
| "shaped (PInt n) \<longleftrightarrow> True"
| "shaped (PFloat x) \<longleftrightarrow> is_f64 x"
| "shaped (PStr s) \<longleftrightarrow> True"
| "shaped (PList xs) \<longleftrightarrow> list_all (\<lambda>b. b) (map shaped xs)"
| "shaped (PDict d) \<longleftrightarrow> distinct (map fst d) \<and> list_all snd (map (map_prod id shaped) d)"

lemma shaped_PDict: "shaped (PDict d) \<longleftrightarrow> distinct (map fst d) \<and> (\<forall>(k, v)\<in>set d. shaped v)"
  by (auto simp: list_all_iff)

lemma storable_shaped: "storable v \<Longrightarrow> shaped v"
  by (induction v) (auto simp: list_all_iff)

lemma length_join_mem: "x \<in> set xs \<Longrightarrow> length x \<le> length (join sep xs)"
  by (induction xs rule: induct_list012) auto

lemma length_enclose: "x \<in> set parts \<Longrightarrow> length x \<le> length (enclose st n l r parts)"
  using length_join_mem [of x parts "st_item st @ line_break st (Suc n)"] by (auto simp: enclose_def)

lemma shaped_short: "shaped v \<Longrightarrow> length (json_text st v n) \<le> 4300 \<Longrightarrow> storable v"
proof (induction v arbitrary: n)
  case (PInt i)
  then show ?case by (simp add: int_str_def short_int_def split: if_splits)
next
  case (PList xs)
  have "storable x" if x: "x \<in> set xs" for x
  proof -
    have "length (json_text st x (Suc n)) \<le> length (json_text st (PList xs) n)"
      by (simp, rule length_enclose) (use x in auto)
    then show ?thesis using PList x by (intro PList.IH [of x "Suc n"]) (auto simp: list_all_iff)
  qed
  then show ?case by (simp add: list_all_iff)
next
  case (PDict d)
  have "storable v" if kv: "(k, v) \<in> set d" for k v
  proof -
    have "length (json_string k @ st_key st @ json_text st v (Suc n)) \<le> length (json_text st (PDict d) n)"
      by (simp del: length_append, rule length_enclose) (use kv in force)
    then have "length (json_text st v (Suc n)) \<le> 4300" using PDict.prems(2) by simp
    moreover have "shaped v" using PDict.prems(1) kv unfolding shaped_PDict by auto
    ultimately show ?thesis using PDict.IH [of "(k, v)" v "Suc n"] kv by auto
  qed
  then show ?case using PDict.prems(1) by (force simp: list_all_iff)
qed simp_all

lemma shaped_loads: "shaped v \<Longrightarrow> length (dumps_indent v) \<le> 4300 \<Longrightarrow> json_loads (dumps_indent v) = Inr v"
  using shaped_short [of v] loads_dumps(3) [of v] by (simp add: dumps_indent_def)

end
