(* ===== verification/Collection_Evidence.thy ===== *)
theory Collection_Evidence
  imports Collection Json_Loaded
begin

text \<open>
  What a collection leaves behind: a result file is written only for a run that was complete, an
  interrupted collection keeps the evidence it has, and the results of a complete collection are
  accepted by the scripts that read them.
\<close>

section \<open>Records\<close>

text \<open>A result file that stands for a run.\<close>

definition valid_record :: "run_spec \<Rightarrow> string \<Rightarrow> bool" where
  "valid_record rn t \<longleftrightarrow> (\<exists>d x n. json_loads t = Inr (PDict d) \<and> dget d ''status'' = Some (PStr ''PASS'')
     \<and> dget d ''run_id'' = Some (PStr (rn_id rn)) \<and> dget d ''scenario'' = Some (PStr (rn_scenario rn))
     \<and> dget d ''is_attack'' = Some (PBool (rn_attack rn))
     \<and> bindE (py_get (PDict d) ''seed'' (PInt (- 1))) py_int = Inr (rn_seed rn)
     \<and> bindE (py_get (PDict d) ''duration_seconds'' (PInt (- 1))) py_float = Inr x \<and> feq x (rn_duration rn)
     \<and> bindE (py_get (PDict d) ''request_events'' (PInt (- 1))) py_int = Inr n \<and> 0 < n)"

lemma run_record_loads:
  assumes "is_f64 elapsed" and "is_f64 (rn_duration rn)" and "length (dumps_indent (run_record stage rn elapsed n k)) \<le> 4300"
  shows "json_loads (dumps_indent (run_record stage rn elapsed n k)) = Inr (run_record stage rn elapsed n k)"
  by (rule shaped_loads [OF _ assms(3)]) (use assms(1,2) in \<open>simp add: run_record_def\<close>)

lemma run_record_valid:
  assumes "is_f64 elapsed" and "is_f64 (rn_duration rn)" and "rn_duration rn \<noteq> NaN" and "0 < n"
    and "length (dumps_indent (run_record stage rn elapsed n k)) \<le> 4300"
  shows "valid_record rn (dumps_indent (run_record stage rn elapsed n k))"
proof -
  have "json_loads (dumps_indent (run_record stage rn elapsed n k)) = Inr (run_record stage rn elapsed n k)"
    by (rule run_record_loads [OF assms(1,2,5)])
  moreover have "feq (rn_duration rn) (rn_duration rn)" using assms(3) by (cases "rn_duration rn") (auto simp: feq_def)
  ultimately show ?thesis using assms(4) by (simp add: valid_record_def run_record_def dget_def)
qed

lemma reusable_valid:
  assumes "reusable rn (Some t) requests resources = Inr True"
  shows "valid_record rn t"
proof -
  obtain v passed where v: "json_loads t = Inr v" and p: "mapE id (resume_checks v rn (count_jsonl requests) (count_jsonl resources)) = Inr passed"
    and all: "list_all id passed"
    using assms by (auto simp: reusable_def bindE_eq_Inr_iff split: sum.splits if_splits)
  have checks: "list_all (\<lambda>c. c = Inr True) (resume_checks v rn (count_jsonl requests) (count_jsonl resources))"
    using p all by (auto simp: mapE_eq_Inr_iff list_all2_conv_all_nth list_all_length)
  then obtain d where d: "v = PDict d" by (cases v) (auto simp: resume_checks_def get_is_def)
  have str_at: "dget d k = Some (PStr s)" if "get_is k s v = Inr True" for k s
    using that by (cases "case dget d k of None \<Rightarrow> PNone | Some w \<Rightarrow> w") (auto simp: get_is_def d split: option.splits)
  have "dget d ''status'' = Some (PStr ''PASS'')" "dget d ''run_id'' = Some (PStr (rn_id rn))" "dget d ''scenario'' = Some (PStr (rn_scenario rn))"
    using checks by (auto simp: resume_checks_def intro: str_at)
  moreover have "dget d ''is_attack'' = Some (PBool (rn_attack rn))"
    using checks by (auto simp: resume_checks_def d split: option.splits)
  moreover have "bindE (py_get v ''seed'' (PInt (- 1))) py_int = Inr (rn_seed rn)"
    using checks by (auto simp: resume_checks_def mapR_eq_Inr_iff)
  moreover have "\<exists>x. bindE (py_get v ''duration_seconds'' (PInt (- 1))) py_float = Inr x \<and> feq x (rn_duration rn)"
    using checks by (auto simp: resume_checks_def mapR_eq_Inr_iff)
  moreover have "\<exists>n. bindE (py_get v ''request_events'' (PInt (- 1))) py_int = Inr n \<and> 0 < n"
    using checks by (auto simp: resume_checks_def counted_def mapR_eq_Inr_iff split: if_splits)
  ultimately show ?thesis using v unfolding valid_record_def d by blast
qed

section \<open>One run\<close>

lemma is_f64_fsub [simp]: "is_f64 (fsub a b)"
  by (cases a; cases b) (simp_all add: fsub_def)

text \<open>A file apart from those that every run writes.\<close>

definition apart :: "('s, 'j) platform \<Rightarrow> string \<Rightarrow> string \<Rightarrow> bool" where
  "apart pl bundle p \<longleftrightarrow> untouched pl p \<and> p \<noteq> socket_path \<and> p \<noteq> bundle @ ''/config.json''"

definition result_path :: "string \<Rightarrow> run_spec \<Rightarrow> string" where
  "result_path output rn = run_path output rn ''-result.json''"

lemma leaves_write_bundle_config [leaves_intros]:
  "p \<noteq> bundle @ ''/config.json'' \<Longrightarrow> leaves (write_bundle_config pl bundle scenario duration seed) p"
  unfolding write_bundle_config_def Let_def by (intro leaves_intros)

lemma leaves_run_container:
  assumes "untouched pl p"
  shows "leaves (run_container pl bundle output container_id rn gateway_process) p"
  unfolding run_container_def wait_for_socket_def remove_container_def by (intro leaves_intros assms)

lemma leaves_clean_up: "untouched pl p \<Longrightarrow> p \<noteq> socket_path \<Longrightarrow> leaves (clean_up pl container_id gateway_process) p"
  unfolding clean_up_def remove_container_def by (intro leaves_intros)

lemma unlink_apply: "unlink q h = Some (Inr (), h\<lparr>ho_files := (ho_files h)(q := None)\<rparr>)"
  by (simp add: unlink_def modifyA_def)

lemma unlinks_remove:
  "forA unlink ps h = Some (r, h1) \<Longrightarrow> p \<in> set ps \<Longrightarrow> r = Inr () \<and> ho_files h1 p = None"
proof (induction ps arbitrary: h)
  case (Cons q ps)
  let ?h = "h\<lparr>ho_files := (ho_files h)(q := None)\<rparr>"
  have rest: "forA unlink ps ?h = Some (r, h1)" using Cons.prems(1) by (simp add: bindA_def unlink_apply [of q h])
  have keep: "forA unlink qs k = Some (x, k1) \<Longrightarrow> ho_files k q = None \<Longrightarrow> x = Inr () \<and> ho_files k1 q = None" for qs k x k1
    by (induction qs arbitrary: k) (auto simp: returnA_def bindA_def unlink_apply)
  show ?case using Cons.prems(2) Cons.IH [OF rest] keep [OF rest] by auto
qed simp

lemma prepare_run_removes:
  assumes "prepare_run pl bundle output rn h = Some (r, h1)" and "apart pl bundle (result_path output rn)"
  shows "ho_files h1 (result_path output rn) = None"
proof -
  let ?p = "result_path output rn"
  let ?suffixes = "[''-requests.jsonl'', ''-resources.jsonl'', ''-gateway.log'', ''-result.json'']"
  let ?unlinks = "forA (\<lambda>suffix. unlink (run_path output rn suffix)) ?suffixes"
  let ?rest = "thenA (tryA (pl_make_dir pl ''/run/cote3-mon'')) (thenA (unlink socket_path)
    (thenA (write_bundle_config pl bundle (rn_scenario rn) (rn_duration rn) (rn_seed rn)) (write_file (run_path output rn ''-gateway.log'') [])))"
  note ap = assms(2) [unfolded apart_def]
  have "?p \<noteq> run_path output rn ''-gateway.log''" by (simp add: result_path_def run_path_def)
  then have rest: "leaves ?rest ?p" using ap by (intro leaves_intros) auto
  have unlinks: "?unlinks = forA unlink (map (run_path output rn) ?suffixes)" by simp
  have "bindA ?unlinks (\<lambda>_. ?rest) h = Some (r, h1)" using assms(1) by (simp only: prepare_run_def)
  then show ?thesis
  proof (cases rule: bindA_cases)
    case (raised e)
    then show ?thesis using unlinks_remove [of "map (run_path output rn) ?suffixes" h "Inl e" h1 ?p] unfolding unlinks
      by (simp add: result_path_def)
  next
    case (returned u h0)
    have "ho_files h0 ?p = None"
      using unlinks_remove [of "map (run_path output rn) ?suffixes" h "Inr u" h0 ?p] returned(1) unfolding unlinks by (simp add: result_path_def)
    then show ?thesis using leavesD [OF rest returned(2)] by simp
  qed
qed

text \<open>The outcome of a run, as its result file tells it.\<close>

definition run_outcome :: "string \<Rightarrow> run_spec \<Rightarrow> unit result \<Rightarrow> string option \<Rightarrow> bool" where
  "run_outcome stage rn r file \<longleftrightarrow>
     (case file of None \<Rightarrow> \<exists>e. r = Inl e
      | Some t \<Rightarrow> r = Inr () \<and> (\<exists>elapsed n k. t = dumps_indent (run_record stage rn elapsed n k) \<and> is_f64 elapsed \<and> 0 < n))"

lemma write_result_outcome:
  assumes "write_result pl output stage rn started h = Some (r, h1)" and "untouched pl (result_path output rn)"
    and "ho_files h (result_path output rn) = None"
  shows "run_outcome stage rn r (ho_files h1 (result_path output rn))"
proof -
  obtain now h2 where n: "pl_now pl h = (now, h2)" by fastforce
  have "ho_files h2 (result_path output rn) = None" using untouched_steps(1) [OF assms(2) n] assms(3) by simp
  then show ?thesis
    using assms(1,3)
    by (auto simp: write_result_def bindA_def getA_def raiseA_def callA_def n write_file_def modifyA_def run_outcome_def result_path_def split: if_splits)
      (use is_f64_fsub in blast)
qed

lemma run_body_outcome:
  assumes "thenA (run_container pl bundle output container_id rn gateway_process) (write_result pl output stage rn started) h = Some (r, h1)"
    and "untouched pl (result_path output rn)" and "ho_files h (result_path output rn) = None"
  shows "run_outcome stage rn r (ho_files h1 (result_path output rn))"
  using assms(1)
proof (cases rule: bindA_cases)
  case (raised e)
  then show ?thesis using leavesD [OF leaves_run_container [OF assms(2)] raised(1)] assms(3) by (simp add: run_outcome_def)
next
  case (returned u h0)
  then show ?thesis
    using write_result_outcome [OF returned(2) assms(2)] leavesD [OF leaves_run_container [OF assms(2)] returned(1)] assms(3) by simp
qed

lemma execute_run_outcome:
  assumes "execute_run pl gateway bundle output backend stage rn h = Some (r, h1)" and "apart pl bundle (result_path output rn)"
  shows "run_outcome stage rn r (ho_files h1 (result_path output rn))
    \<or> (\<exists>e r1 container_id gateway_process h2. r = Inl e \<and> clean_up pl container_id gateway_process h2 = Some (Inl e, h1)
        \<and> run_outcome stage rn r1 (ho_files h1 (result_path output rn)))"
    (is "?good \<or> ?unclean")
proof -
  let ?p = "result_path output rn"
  note ap = assms(2) [unfolded apart_def]
  have failed: "?good \<or> ?unclean" if "ho_files h1 ?p = None" "r = Inl e" for e
    using that by (simp add: run_outcome_def)
  from assms(1) [unfolded execute_run_def Let_def] show ?thesis
  proof (cases rule: bindA_cases)
    case (raised e)
    from prepare_run_removes [OF raised(1) assms(2)] raised(2) show ?thesis by (rule failed)
  next
    case prepared: (returned u h2)
    note gone2 = prepare_run_removes [OF prepared(1) assms(2)]
    from prepared(2) show ?thesis
    proof (cases rule: bindA_cases)
      case (raised e)
      show ?thesis by (rule failed [OF _ raised(2)]) (use leavesD [OF leaves_services(7) raised(1)] ap gone2 in simp)
    next
      case spawned: (returned gateway_process h3)
      have gone3: "ho_files h3 ?p = None" using leavesD [OF leaves_services(7) spawned(1)] ap gone2 by simp
      from spawned(2) show ?thesis
      proof (cases rule: bindA_cases)
        case (raised e)
        then show ?thesis by (simp add: callA_def split: prod.splits)
      next
        case timed: (returned started h4)
        have gone4: "ho_files h4 ?p = None" using leavesD [OF leaves_services(1) timed(1)] ap gone3 by simp
        obtain r1 h5 rc where body: "thenA (run_container pl bundle output (''c3m-'' @ run_name (replace_char (CHR ''_'') ''-'' (rn_scenario rn)) (rn_repeat rn))
              rn gateway_process) (write_result pl output stage rn started) h4 = Some (r1, h5)"
          and clean: "clean_up pl (''c3m-'' @ run_name (replace_char (CHR ''_'') ''-'' (rn_scenario rn)) (rn_repeat rn)) gateway_process h5 = Some (rc, h1)"
          and r: "r = (case rc of Inl e \<Rightarrow> Inl e | Inr _ \<Rightarrow> r1)"
          using timed(2) by (rule finallyA_cases)
        have "run_outcome stage rn r1 (ho_files h5 ?p)" using run_body_outcome [OF body] ap gone4 by simp
        moreover have "ho_files h1 ?p = ho_files h5 ?p" using leavesD [OF leaves_clean_up clean] ap by simp
        ultimately show ?thesis using clean r by (cases rc) auto
      qed
    qed
  qed
qed

lemma leaves_execute_run:
  assumes "apart pl bundle (result_path output rn')" and "rn_scenario rn \<noteq> rn_scenario rn' \<or> rn_repeat rn \<noteq> rn_repeat rn'"
  shows "leaves (execute_run pl gateway bundle output backend stage rn) (result_path output rn')"
proof -
  let ?p = "result_path output rn'"
  note ap = assms(1) [unfolded apart_def]
  have other: "?p \<noteq> run_path output rn suffix"
    if "suffix \<in> {''-requests.jsonl'', ''-resources.jsonl'', ''-gateway.log'', ''-result.json''}" for suffix
  proof
    assume "?p = run_path output rn suffix"
    then have "run_path output rn suffix = run_path output rn' ''-result.json''" by (simp add: result_path_def)
    from run_path_inj [OF this that] assms(2) show False by blast
  qed
  have prep: "leaves (prepare_run pl bundle output rn) ?p"
    unfolding prepare_run_def by (intro leaves_intros) (use ap other in auto)
  have result: "leaves (write_result pl output stage rn started) ?p" for started
    unfolding write_result_def by (intro leaves_intros) (use ap other in auto)
  show ?thesis unfolding execute_run_def Let_def
    by (intro leaves_bindA prep leaves_services leaves_finallyA leaves_run_container result leaves_clean_up) (use ap in auto)
qed

section \<open>The whole collection\<close>

definition evidence_text :: "string \<Rightarrow> run_spec \<Rightarrow> string \<Rightarrow> bool" where
  "evidence_text stage rn t \<longleftrightarrow> valid_record rn t
     \<or> (\<exists>elapsed n k. t = dumps_indent (run_record stage rn elapsed n k) \<and> is_f64 elapsed \<and> 0 < n)"

definition has_evidence :: "string \<Rightarrow> string \<Rightarrow> run_spec \<Rightarrow> 's host \<Rightarrow> bool" where
  "has_evidence output stage rn h \<longleftrightarrow> (\<exists>t. ho_files h (result_path output rn) = Some t \<and> evidence_text stage rn t)"

definition spec_of :: "f64 \<Rightarrow> int \<Rightarrow> string \<times> bool \<times> nat \<Rightarrow> run_spec" where
  "spec_of duration seed = (\<lambda>(name, attack, r).
     \<lparr>rn_scenario = name, rn_attack = attack, rn_repeat = r, rn_duration = duration, rn_seed = seed + int r\<rparr>)"

definition collected_specs :: "(string \<times> bool) list \<Rightarrow> int \<Rightarrow> f64 \<Rightarrow> int \<Rightarrow> run_spec list" where
  "collected_specs scenarios repeats duration seed = map (spec_of duration seed) (run_matrix scenarios (nat repeats))"

lemma collect_run_evidence:
  assumes "collect_run pl ca stage rn h = Some (Inr (), h1)" and "apart pl (ca_runtime ca) (result_path (ca_output ca) rn)"
  shows "has_evidence (ca_output ca) stage rn h1"
proof -
  obtain before h0 where b: "(if ca_resume ca then reusable_passed_run (ca_output ca) rn else returnA False) h = Some (Inr before, h0)"
    and rest: "(if before then returnA () else execute_run pl (ca_gateway ca) (ca_runtime ca) (ca_output ca) (ca_backend ca) stage rn) h0
      = Some (Inr (), h1)"
    using assms(1) unfolding collect_run_def by (rule bindA_InrE)
  show ?thesis
  proof (cases before)
    case True
    then have h: "h0 = h" "h1 = h" and ok: "reusable rn (ho_files h (result_path (ca_output ca) rn))
        (ho_files h (run_path (ca_output ca) rn ''-requests.jsonl'')) (ho_files h (run_path (ca_output ca) rn ''-resources.jsonl'')) = Inr True"
      using b rest by (auto simp: reusable_passed_run_def returnA_def result_path_def split: if_splits)
    obtain t where t: "ho_files h (result_path (ca_output ca) rn) = Some t" using ok by (auto simp: reusable_def split: option.splits)
    then show ?thesis using reusable_valid ok by (auto simp: has_evidence_def evidence_text_def h)
  next
    case False
    then show ?thesis using execute_run_outcome [OF _ assms(2)] rest
      by (fastforce simp: run_outcome_def has_evidence_def evidence_text_def split: option.splits)
  qed
qed

lemma leaves_collect_run:
  assumes "apart pl (ca_runtime ca) (result_path (ca_output ca) rn')" and "rn_scenario rn \<noteq> rn_scenario rn' \<or> rn_repeat rn \<noteq> rn_repeat rn'"
  shows "leaves (collect_run pl ca stage rn) (result_path (ca_output ca) rn')"
proof -
  have "leaves (reusable_passed_run out rn) p" for out p by (simp add: leaves_def reusable_passed_run_def)
  then show ?thesis unfolding collect_run_def by (intro leaves_intros leaves_execute_run assms)
qed

text \<open>A loop that keeps an invariant and establishes \<open>P\<close> for each of its elements.\<close>

lemma forA_invariant:
  assumes "\<And>x h r h1. x \<in> set xs \<Longrightarrow> I h \<Longrightarrow> f x h = Some (r, h1) \<Longrightarrow> I h1" and "I h" and "forA f xs h = Some (r, h1)"
  shows "I h1"
  using assms
proof (induction xs arbitrary: h)
  case (Cons x xs)
  from Cons.prems(3) [simplified] show ?case
  proof (cases rule: bindA_cases)
    case (raised e)
    then show ?thesis using Cons.prems(1,2) by auto
  next
    case (returned u h0)
    show ?thesis by (rule Cons.IH [OF _ _ returned(2)]) (use Cons.prems(1,2) returned(1) in auto)
  qed
qed (simp add: returnA_def)

lemma forA_all:
  assumes "\<And>x h h1. x \<in> set xs \<Longrightarrow> I h \<Longrightarrow> f x h = Some (Inr (), h1) \<Longrightarrow> I h1 \<and> P x h1"
    and "\<And>x y h h1. x \<in> set xs \<Longrightarrow> y \<in> set xs \<Longrightarrow> x \<noteq> y \<Longrightarrow> f x h = Some (Inr (), h1) \<Longrightarrow> P y h \<Longrightarrow> P y h1"
    and "I h" and "forA f xs h = Some (Inr (), h1)"
  shows "\<forall>x\<in>set xs. P x h1"
proof -
  have "\<forall>x\<in>set ys \<union> A. P x h1" if "forA f ys h = Some (Inr (), h1)" "set ys \<subseteq> set xs" "A \<subseteq> set xs" "\<forall>x\<in>A. P x h" "I h" for ys A h
    using that
  proof (induction ys arbitrary: A h)
    case (Cons y ys)
    obtain u h0 where y: "f y h = Some (Inr u, h0)" and rest: "forA f ys h0 = Some (Inr (), h1)"
      using Cons.prems(1) by (auto elim: bindA_InrE)
    have mem: "y \<in> set xs" and "A \<subseteq> set xs" using Cons.prems by auto
    have own: "I h0 \<and> P y h0" using assms(1) [OF mem Cons.prems(5)] y by simp
    have known: "P x h0" if "x \<in> insert y A" for x
    proof (cases "x = y")
      case False
      then have "x \<in> A" "x \<in> set xs" using that \<open>A \<subseteq> set xs\<close> by auto
      then show ?thesis using assms(2) [OF mem, of x] False y Cons.prems(4) by auto
    qed (use own in simp)
    have "\<forall>x\<in>set ys \<union> insert y A. P x h1"
      by (rule Cons.IH [OF rest]) (use Cons.prems known own in auto)
    then show ?case by auto
  qed (simp add: returnA_def)
  from this [OF assms(4), of "{}"] assms(3) show ?thesis by simp
qed

lemma bindA_liftA [simp]: "bindA (liftA (Inr x)) f = f x"
  by (simp add: fun_eq_iff bindA_def liftA_def)

lemma run_matrix_mem: "(name, attack, r) \<in> set (run_matrix scenarios n) \<longleftrightarrow> (name, attack) \<in> set scenarios \<and> r < n"
  by (induction scenarios) (auto simp: run_matrix_def)

lemma length_run_matrix: "length (run_matrix scenarios n) = length scenarios * n"
  by (simp add: run_matrix_def length_concat case_prod_beta comp_def sum_list_triv)

lemma collect_runs_evidence:
  assumes "collect_runs pl ca stage config duration (run_matrix scenarios n) h = Some (Inr (), h1)"
    and "int_field config ''seed'' = Inr seed" and "distinct (map fst scenarios)"
    and apart: "\<forall>x\<in>set (run_matrix scenarios n). apart pl (ca_runtime ca) (result_path (ca_output ca) (spec_of duration seed x))"
  shows "\<forall>x\<in>set (run_matrix scenarios n). has_evidence (ca_output ca) stage (spec_of duration seed x) h1"
proof (rule forA_all [where f = "\<lambda>x. collect_run pl ca stage (spec_of duration seed x)" and I = "\<lambda>_. True"])
  show "forA (\<lambda>x. collect_run pl ca stage (spec_of duration seed x)) (run_matrix scenarios n) h = Some (Inr (), h1)"
    using assms(1) by (simp add: collect_runs_def assms(2) spec_of_def case_prod_beta')
next
  fix x h h1 assume "x \<in> set (run_matrix scenarios n)" "collect_run pl ca stage (spec_of duration seed x) h = Some (Inr (), h1)"
  then show "True \<and> has_evidence (ca_output ca) stage (spec_of duration seed x) h1" using collect_run_evidence apart by blast
next
  fix x y h h1 assume x: "x \<in> set (run_matrix scenarios n)" and y: "y \<in> set (run_matrix scenarios n)" and "x \<noteq> y"
    and run: "collect_run pl ca stage (spec_of duration seed x) h = Some (Inr (), h1)" and "has_evidence (ca_output ca) stage (spec_of duration seed y) h"
  have "fst x \<noteq> fst y \<or> snd (snd x) \<noteq> snd (snd y)"
  proof -
    obtain name attack r name' attack' r' where xy: "x = (name, attack, r)" "y = (name', attack', r')" by (metis prod_cases3)
    then have "(name, attack) \<in> set scenarios" "(name', attack') \<in> set scenarios" using x y by (simp_all add: run_matrix_mem)
    then have "name = name' \<Longrightarrow> attack = attack'" using assms(3) by (auto dest: eq_key_imp_eq_value)
    then show ?thesis using \<open>x \<noteq> y\<close> by (auto simp: xy)
  qed
  then have "leaves (collect_run pl ca stage (spec_of duration seed x)) (result_path (ca_output ca) (spec_of duration seed y))"
    by (intro leaves_collect_run) (use apart y in \<open>auto simp: spec_of_def split: prod.splits\<close>)
  from leavesD [OF this run] \<open>has_evidence (ca_output ca) stage (spec_of duration seed y) h\<close>
  show "has_evidence (ca_output ca) stage (spec_of duration seed y) h1" by (simp add: has_evidence_def)
qed simp

lemma leaves_remove_runtime_bundle: "untouched pl p \<Longrightarrow> leaves (remove_runtime_bundle pl runtime) p"
  unfolding remove_runtime_bundle_def is_mounted_def by (intro leaves_intros)

lemma collect_evidence:
  assumes "collect pl runc_installed ca h = Some (Inr (), h1)" and "ho_files h (ca_config ca) = Some t" and "json_loads t = Inr config"
    and "repeats_and_duration ca config = Inr (repeats, duration)" and "scenarios_of config = Inr scenarios"
    and "int_field config ''seed'' = Inr seed" and "distinct (map fst scenarios)"
    and apart: "\<forall>rn\<in>set (collected_specs scenarios repeats duration seed). apart pl (ca_runtime ca) (result_path (ca_output ca) rn)"
  shows "\<exists>stage. \<forall>rn\<in>set (collected_specs scenarios repeats duration seed). has_evidence (ca_output ca) stage rn h1"
proof -
  let ?matrix = "run_matrix scenarios (nat repeats)"
  obtain stage h2 where loop: "finallyA (collect_runs pl ca stage config duration ?matrix) (remove_runtime_bundle pl (ca_runtime ca)) h2 = Some (Inr (), h1)"
  proof -
    have "read_file (ca_config ca) h = Some (Inr t, h)" using assms(2) by (simp add: read_file_def)
    then show thesis
      using assms(1) that by (auto simp: collect_def whenA_def raiseA_def returnA_def bindA_def liftA_def tryA_def assms(3-5) split: if_splits option.splits sum.splits prod.splits)
  qed
  obtain r h3 rc where body: "collect_runs pl ca stage config duration ?matrix h2 = Some (r, h3)"
    and clean: "remove_runtime_bundle pl (ca_runtime ca) h3 = Some (rc, h1)" and r: "Inr () = (case rc of Inl e \<Rightarrow> Inl e | Inr _ \<Rightarrow> r)"
    using loop by (rule finallyA_cases)
  have "r = Inr ()" using r by (simp split: sum.splits)
  have "has_evidence (ca_output ca) stage (spec_of duration seed x) h1" if x: "x \<in> set ?matrix" for x
  proof -
    have ap: "\<forall>x\<in>set ?matrix. apart pl (ca_runtime ca) (result_path (ca_output ca) (spec_of duration seed x))"
      using apart by (simp add: collected_specs_def)
    have "has_evidence (ca_output ca) stage (spec_of duration seed x) h3"
      using collect_runs_evidence [OF body [unfolded \<open>r = Inr ()\<close>] assms(6,7) ap] x by blast
    moreover have "untouched pl (result_path (ca_output ca) (spec_of duration seed x))" using ap x by (simp add: apart_def)
    ultimately show ?thesis using leavesD [OF leaves_remove_runtime_bundle clean] by (simp add: has_evidence_def)
  qed
  then have "\<forall>x\<in>set ?matrix. has_evidence (ca_output ca) stage (spec_of duration seed x) h1" by blast
  then show ?thesis by (intro exI [of _ stage]) (simp add: collected_specs_def)
qed

text \<open>The scripts that read the results.\<close>

lemma py_names_set: "py_names v = Inr ss \<Longrightarrow> py_set v = Inr (remdups (map PStr ss))"
proof -
  assume n: "py_names v = Inr ss"
  then obtain xs where l: "py_list v = Inr xs" and m: "mapE (\<lambda>x. case x of PStr s \<Rightarrow> Inr s | _ \<Rightarrow> Inl TypeError) xs = Inr ss"
    by (auto simp: py_names_def bindE_eq_Inr_iff)
  have "list_all2 (\<lambda>x s. x = PStr s) xs ss"
    using m unfolding mapE_eq_Inr_iff by (rule list_all2_mono) (auto split: pyval.splits)
  then have "xs = map PStr ss" by (induction rule: list_all2_induct) simp_all
  then show ?thesis by (simp add: py_set_def l list_all_iff)
qed

lemma valid_records_pass:
  assumes sc: "scenarios_of config = Inr scenarios" and "distinct (map fst scenarios)" and "int_field config ''repeats_per_scenario'' = Inr repeats"
    and pos: "0 < repeats" and texts: "mset texts = mset (map f (collected_specs scenarios repeats duration seed))"
    and valid: "\<forall>rn\<in>set (collected_specs scenarios repeats duration seed). valid_record rn (f rn)"
  shows "check_raw_runs config texts = Inr ()"
proof -
  let ?specs = "collected_specs scenarios repeats duration seed"
  obtain benign attack where fields: "bindE (py_subscript config ''benign_scenarios'') py_names = Inr benign"
    "bindE (py_subscript config ''attack_scenarios'') py_names = Inr attack"
    and scenarios: "scenarios = map (\<lambda>name. (name, False)) benign @ map (\<lambda>name. (name, True)) attack"
    using sc by (auto simp: scenarios_of_def bindE_eq_Inr_iff)
  have sets: "set_field config ''benign_scenarios'' = Inr (remdups (map PStr benign))" "set_field config ''attack_scenarios'' = Inr (remdups (map PStr attack))"
    using fields by (auto simp: set_field_def bindE_eq_Inr_iff dest: py_names_set)
  have names: "map fst scenarios = benign @ attack" by (simp add: scenarios comp_def)
  then have expected: "remdups (remdups (map PStr benign) @ remdups (map PStr attack)) = map PStr (map fst scenarios)"
    using assms(2) by (simp add: distinct_map inj_on_def comp_def) (auto simp: distinct_map inj_on_def distinct_remdups_id)
  let ?loaded = "\<lambda>t. get_ok (json_loads t) PNone" and ?scenario = "\<lambda>v. get_ok (str_field ''scenario'' v) []"
  have members: "set texts = f ` set ?specs" using mset_eq_setD [OF texts] by simp
  have read: "json_loads (f rn) = Inr (?loaded (f rn)) \<and> get_is ''status'' ''PASS'' (?loaded (f rn)) = Inr True
      \<and> str_field ''scenario'' (?loaded (f rn)) = Inr (rn_scenario rn)" if "rn \<in> set ?specs" for rn
    using bspec [OF valid that] by (auto simp: valid_record_def get_is_def str_field_def)
  have loads: "mapE json_loads texts = Inr (map ?loaded texts)" by (rule mapE_total) (use read members in auto)
  have pass: "allE (get_is ''status'' ''PASS'') (map ?loaded texts) = Inr True"
    using read members by (auto simp: allE_True_iff list_all_iff)
  have observed: "mapE (str_field ''scenario'') (map ?loaded texts) = Inr (map ?scenario (map ?loaded texts))"
    by (rule mapE_total) (use read members in auto)
  have "set (map ?scenario (map ?loaded texts)) = rn_scenario ` set ?specs" using read by (auto simp: members image_iff)
  also have "\<dots> = set (map fst scenarios)"
  proof -
    have "rn_scenario ` set ?specs = fst ` set (run_matrix scenarios (nat repeats))"
      by (simp add: collected_specs_def image_image spec_of_def case_prod_beta')
    moreover have "fst p \<in> fst ` set (run_matrix scenarios (nat repeats))" if "p \<in> set scenarios" for p
      using that pos by (intro image_eqI [of _ _ "(fst p, snd p, 0)"]) (simp_all add: run_matrix_mem)
    ultimately show ?thesis by (auto simp: run_matrix_mem intro: rev_image_eqI)
  qed
  finally have covered: "same_set (map PStr (map fst scenarios)) (map ?scenario (map ?loaded texts))" by (simp add: same_set_def image_image)
  have "length texts = length ?specs" using mset_eq_length [OF texts] by simp
  then have count: "int (length texts) = int (length scenarios) * repeats" using pos by (simp add: collected_specs_def length_run_matrix)
  show ?thesis
    using covered unfolding check_raw_runs_def loads bindE_simps pass require_True sets Let_def expected observed assms(3)
    by (simp add: count)
qed

section \<open>A collection that runs\<close>

definition stopped_state :: pyval where
  "stopped_state = PDict [(''pid'', PInt 5), (''status'', PStr ''stopped'')]"

text \<open>A machine on which everything works: the process that is started writes the files \<open>fs\<close>.\<close>

definition sample_services :: "(string \<rightharpoonup> string) \<Rightarrow> (unit, 'j) platform" where
  "sample_services fs = \<lparr>pl_now = (\<lambda>h. (Fin 0, h)), pl_sleep = (\<lambda>_ h. h), pl_resolve = (\<lambda>p _. p), pl_is_dir = (\<lambda>_ _. True),
     pl_make_dir = (\<lambda>_ h. (Inr (), h)), pl_remove_tree = (\<lambda>_ h. h), pl_copy = (\<lambda>_ _ h. (Inr (), h)),
     pl_run = (\<lambda>_ h. (Inr (0, dumps_compact stopped_state), h)),
     pl_spawn = (\<lambda>_ _ _ h. (Inr 7, h\<lparr>ho_files := ho_files h ++ fs\<rparr>)),
     pl_poll = (\<lambda>_ h. (None, h)), pl_terminate = (\<lambda>_ h. h), pl_kill = (\<lambda>_ h. h), pl_wait = (\<lambda>_ _ h. (Some 0, h)),
     pl_start = (\<lambda>_ h. h), pl_join = (\<lambda>_ h. (Joined, h))\<rparr>"

abbreviation sample_platform :: "(unit, sample_job) platform" where
  "sample_platform \<equiv> sample_services [socket_path \<mapsto> [], ''out/steady-00-requests.jsonl'' \<mapsto> ''x'']"

definition sample_run :: run_spec where
  "sample_run = \<lparr>rn_scenario = ''steady'', rn_attack = False, rn_repeat = 0, rn_duration = Fin 1, rn_seed = 7\<rparr>"

definition sample_bundle :: pyval where
  "sample_bundle = PDict [(''process'', PDict []), (''root'', PDict [])]"

lemma sample_paths: "run_path ''out'' sample_run suffix = ''out/steady-00'' @ suffix"
  by (simp add: run_path_def rn_id_def sample_run_def run_name_def nat_str_0)

lemma sample_apart: "apart sample_platform ''rt'' (result_path ''out'' sample_run)"
  by (simp add: apart_def untouched_def leaves_def callA_def tryA_def modifyA_def sample_services_def result_path_def sample_paths socket_path_def)

lemma sample_state_loads: "json_loads (dumps_compact stopped_state) = Inr stopped_state" "json_loads (dumps_indent sample_bundle) = Inr sample_bundle"
  by (rule loads_dumps(2), use short_ints in \<open>simp add: stopped_state_def short_int_def nat_str.simps\<close>)
    (rule loads_dumps(3), simp add: sample_bundle_def)

lemmas action_defs = bindA_def callA_def tryA_def modifyA_def getA_def liftA_def returnA_def raiseA_def

lemma sample_fields [simp]:
  "pl_now (sample_services fs) h = (Fin 0, h)" "pl_resolve (sample_services fs) p h = p" "pl_make_dir (sample_services fs) d h = (Inr (), h)"
  "pl_run (sample_services fs) args h = (Inr (0, dumps_compact stopped_state), h)" "pl_terminate (sample_services fs) i h = h"
  "pl_spawn (sample_services fs) args env out h = (Inr 7, h\<lparr>ho_files := ho_files h ++ fs\<rparr>)"
  "pl_poll (sample_services fs) i h = (None, h)" "pl_wait (sample_services fs) t i h = (Some 0, h)" "pl_start (sample_services fs) j h = h" "pl_join (sample_services fs) t h = (Joined, h)"
  "pl_is_dir (sample_services fs) d h" "pl_remove_tree (sample_services fs) d h = h" "pl_copy (sample_services fs) a b h = (Inr (), h)"
  by (simp_all add: sample_services_def)

lemma bindA_step: "m h = Some (Inr x, h1) \<Longrightarrow> bindA m f h = f x h1"
  by (simp add: bindA_def)

lemma sample_bundle_config:
  assumes "ho_files h ''rt/config.json'' = Some (dumps_indent sample_bundle)"
  shows "\<exists>t. write_bundle_config (sample_services fs) ''rt'' scenario duration seed h
    = Some (Inr (), h\<lparr>ho_files := (ho_files h)(''rt/config.json'' \<mapsto> t)\<rparr>)"
proof -
  have assigned: "assign_in sample_bundle ''process'' ''args'' v = Inr (PDict [(''process'', PDict [(''args'', v)]), (''root'', PDict [])])"
    "assign_in (PDict [(''process'', PDict [(''args'', v)]), (''root'', PDict [])]) ''root'' ''path'' w
      = Inr (PDict [(''process'', PDict [(''args'', v)]), (''root'', PDict [(''path'', w)])])" for v w
    by (simp_all add: sample_bundle_def assign_in_def dget_def dset_def)
  have "read_file ''rt/config.json'' h = Some (Inr (dumps_indent sample_bundle), h)" using assms by (simp add: read_file_def)
  then show ?thesis by (simp add: write_bundle_config_def Let_def sample_state_loads assigned bindA_def liftA_def getA_def write_file_def modifyA_def) blast
qed

lemma sample_prepare:
  assumes "ho_files h ''rt/config.json'' = Some (dumps_indent sample_bundle)"
  obtains files where "prepare_run sample_platform ''rt'' ''out'' sample_run h = Some (Inr (), h\<lparr>ho_files := files\<rparr>)"
    and "files ''out/steady-00-resources.jsonl'' = None" and "files ''/proc/self/mountinfo'' = ho_files h ''/proc/self/mountinfo''"
proof -
  let ?h = "h\<lparr>ho_files := (ho_files h)(''out/steady-00-requests.jsonl'' := None, ''out/steady-00-resources.jsonl'' := None,
    ''out/steady-00-gateway.log'' := None, ''out/steady-00-result.json'' := None, socket_path := None)\<rparr>"
  have "ho_files ?h ''rt/config.json'' = Some (dumps_indent sample_bundle)" using assms by (simp add: socket_path_def)
  from sample_bundle_config [OF this, of "[socket_path \<mapsto> [], ''out/steady-00-requests.jsonl'' \<mapsto> ''x'']" "rn_scenario sample_run" "rn_duration sample_run" "rn_seed sample_run"] obtain t
    where t: "write_bundle_config sample_platform ''rt'' (rn_scenario sample_run) (rn_duration sample_run) (rn_seed sample_run) ?h
      = Some (Inr (), ?h\<lparr>ho_files := (ho_files ?h)(''rt/config.json'' \<mapsto> t)\<rparr>)" by blast
  show thesis
  proof (rule that)
    show "prepare_run sample_platform ''rt'' ''out'' sample_run h
        = Some (Inr (), h\<lparr>ho_files := (ho_files ?h)(''rt/config.json'' \<mapsto> t, ''out/steady-00-gateway.log'' \<mapsto> [])\<rparr>)"
      using t by (simp add: prepare_run_def unlink_apply action_defs write_file_def sample_paths)
  qed (simp_all add: socket_path_def)
qed

lemma sample_socket: "flt (Fin 0) deadline \<Longrightarrow> file_exists path h \<Longrightarrow> socket_loop (sample_services fs) path proc deadline h = Some (Inr (), h)"
  by (subst socket_loop.simps) (simp add: sample_services_def)

lemma sample_runc: "runc_state (sample_services fs) container_id h = Some (Inr (Some stopped_state), h)"
  by (simp add: runc_state_def action_defs sample_state_loads)

lemma sample_stop: "flt (Fin 0) deadline \<Longrightarrow> stop_loop (sample_services fs) container_id deadline h = Some (Inr (), h)"
proof -
  assume "flt (Fin 0) deadline"
  moreover have "container_stopped (Some stopped_state) = Inr True" by (simp add: container_stopped_def stopped_state_def get_is_def dget_def)
  ultimately show ?thesis by (subst stop_loop.simps) (simp add: bindA_def sample_runc liftA_def)
qed

lemma sample_container:
  assumes "file_exists socket_path h"
  shows "run_container sample_platform bundle out container_id sample_run gateway_process h = Some (Inr (), h)"
proof -
  have late: "flt (Fin 0) (fadd (Fin 0) (Fin 10))" "flt (Fin 0) (fadd (fadd (Fin 0) (Fin 1)) (Fin 15))"
    using of_exact_small [of 10] of_exact_small [of 16] of_exact_small [of 1] by (simp_all add: rnd_id representable_numeral)
  have "container_pid (Some stopped_state) = Inr 5" by (simp add: container_pid_def stopped_state_def dget_def int_field_def)
  moreover have "wait_for_socket sample_platform socket_path gateway_process h = Some (Inr (), h)"
    using sample_socket [OF late(1) assms] by (simp add: wait_for_socket_def bindA_def callA_def)
  moreover have "stop_loop sample_platform container_id (fadd (fadd (Fin 0) (Fin 1)) (Fin 15)) h = Some (Inr (), h)"
    by (rule sample_stop [OF late(2)])
  ultimately show ?thesis
    by (simp add: run_container_def remove_container_def run_checked_def action_defs sample_runc sample_run_def)
qed

lemma sample_clean_up: "clean_up (sample_services fs) container_id i h = Some (Inr (), h\<lparr>ho_files := (ho_files h)(socket_path := None)\<rparr>)"
  by (simp add: clean_up_def remove_container_def stop_process_def action_defs unlink_apply)

lemma sample_execute:
  assumes "ho_files h ''rt/config.json'' = Some (dumps_indent sample_bundle)"
  shows "\<exists>files. execute_run sample_platform gateway ''rt'' ''out'' backend stage sample_run h = Some (Inr (), h\<lparr>ho_files := files\<rparr>)
    \<and> files ''out/steady-00-resources.jsonl'' = None \<and> files ''/proc/self/mountinfo'' = ho_files h ''/proc/self/mountinfo''
    \<and> files ''out/steady-00-result.json'' = Some (dumps_indent (run_record stage sample_run (Fin 0) 1 0))"
proof -
  obtain files where p: "prepare_run sample_platform ''rt'' ''out'' sample_run h = Some (Inr (), h\<lparr>ho_files := files\<rparr>)"
    and none: "files ''out/steady-00-resources.jsonl'' = None" and kept: "files ''/proc/self/mountinfo'' = ho_files h ''/proc/self/mountinfo''"
    by (rule sample_prepare [OF assms])
  let ?h = "h\<lparr>ho_files := files(socket_path \<mapsto> [], ''out/steady-00-requests.jsonl'' \<mapsto> ''x'')\<rparr>"
  let ?result = "dumps_indent (run_record stage sample_run (Fin 0) 1 0)"
  have container: "run_container sample_platform ''rt'' ''out'' i sample_run 7 ?h = Some (Inr (), ?h)" for i
    by (rule sample_container) (simp add: file_exists_def socket_path_def)
  have "count_jsonl (Some ''x'') = 1" "count_jsonl None = 0" by (simp_all add: count_jsonl_def splitlines_def is_line_break_def)
  moreover have "fsub (Fin 0) (Fin 0) = Fin 0" using of_exact_small [of 0] by (simp add: fsub_def)
  ultimately have w: "write_result sample_platform ''out'' stage sample_run (Fin 0) ?h
      = Some (Inr (), ?h\<lparr>ho_files := (ho_files ?h)(''out/steady-00-result.json'' \<mapsto> ?result)\<rparr>)"
    using none by (simp add: write_result_def action_defs sample_paths write_file_def socket_path_def)
  have "execute_run sample_platform gateway ''rt'' ''out'' backend stage sample_run h
      = Some (Inr (), h\<lparr>ho_files := (ho_files ?h)(''out/steady-00-result.json'' \<mapsto> ?result, socket_path := None)\<rparr>)"
    unfolding execute_run_def Let_def bindA_step [of "prepare_run sample_platform ''rt'' ''out'' sample_run", OF p]
    by (simp add: bindA_def tryA_def callA_def finallyA_def container w sample_clean_up)
  then show ?thesis
    by (intro exI [of _ "(ho_files ?h)(''out/steady-00-result.json'' \<mapsto> ?result, socket_path := None)"]) (simp add: none kept socket_path_def)
qed

definition sample_collect_config :: pyval where
  "sample_collect_config = PDict [(''benign_scenarios'', PList [PStr ''steady'']), (''attack_scenarios'', PList []), (''seed'', PInt 7),
     (''repeats_per_scenario'', PInt 1), (''duration_seconds'', PFloat (Fin 1))]"

definition sample_collect_args :: collect_args where
  "sample_collect_args = \<lparr>ca_config = ''cfg'', ca_gateway = ''gateway'', ca_bundle = ''bundle'', ca_runtime = ''rt'', ca_output = ''out'',
     ca_backend = ''optee'', ca_smoke = False, ca_repeats = None, ca_duration = None, ca_stage = None, ca_resume = False\<rparr>"

definition sample_host :: "unit host" where
  "sample_host = \<lparr>ho_files = [''cfg'' \<mapsto> dumps_indent sample_collect_config, ''/proc/self/mountinfo'' \<mapsto> ''1 2 3 4 /sys/fs/cgroup'',
     ''bundle/config.json'' \<mapsto> [], ''rt/config.json'' \<mapsto> dumps_indent sample_bundle], ho_rest = ()\<rparr>"

lemma sample_config_read:
  "json_loads (dumps_indent sample_collect_config) = Inr sample_collect_config" "int_field sample_collect_config ''seed'' = Inr 7"
  "stage_of sample_collect_args sample_collect_config = Inr ''stage3''"
  "repeats_and_duration sample_collect_args sample_collect_config = Inr (1, Fin 1)"
  "scenarios_of sample_collect_config = Inr [(''steady'', False)]" "int_field sample_collect_config ''repeats_per_scenario'' = Inr 1"
proof -
  show "json_loads (dumps_indent sample_collect_config) = Inr sample_collect_config"
    by (rule loads_dumps(3)) (use f64_zero_one short_ints in \<open>simp add: sample_collect_config_def short_int_def nat_str.simps\<close>)
qed (simp_all add: int_field_def stage_of_def sample_collect_args_def sample_collect_config_def dget_def is_alnum_def
    repeats_and_duration_def float_field_def scenarios_of_def py_names_def)

lemma sample_mounts: "mounted_in ''/sys/fs/cgroup'' ''1 2 3 4 /sys/fs/cgroup''" "\<not> mounted_in ''rt/rootfs'' ''1 2 3 4 /sys/fs/cgroup''"
  by code_simp+

lemma sample_mounted:
  assumes "ho_files h ''/proc/self/mountinfo'' = Some ''1 2 3 4 /sys/fs/cgroup''"
  shows "is_mounted (sample_services fs) ''/sys/fs/cgroup'' h = Some (Inr True, h)" and "is_mounted (sample_services fs) ''rt/rootfs'' h = Some (Inr False, h)"
  using sample_mounts assms by (simp_all add: is_mounted_def action_defs read_file_def)

lemma sample_staging:
  assumes "ho_files h ''/proc/self/mountinfo'' = Some ''1 2 3 4 /sys/fs/cgroup''" and "ho_files h ''bundle/config.json'' = Some t"
    and "ho_files h ''bundle/rootfs/dev/tee0'' = None" and "ho_files h ''bundle/rootfs/dev/teepriv0'' = None"
  shows "ensure_cgroup_v2 (sample_services fs) h = Some (Inr (), h)" and "stage_runtime_bundle (sample_services fs) ''bundle'' ''rt'' h = Some (Inr (), h)"
  using assms(2-4) by (simp_all add: sample_mounted [OF assms(1)] ensure_cgroup_v2_def stage_runtime_bundle_def run_checked_def whenA_def action_defs file_exists_def)

lemma sample_removed:
  assumes "ho_files h ''/proc/self/mountinfo'' = Some ''1 2 3 4 /sys/fs/cgroup''"
  shows "remove_runtime_bundle (sample_services fs) ''rt'' h = Some (Inr (), h)"
  by (simp add: remove_runtime_bundle_def whenA_def action_defs sample_mounted [OF assms])

lemma sample_collects:
  obtains h1 where "collect sample_platform True sample_collect_args sample_host = Some (Inr (), h1)"
    and "ho_files h1 ''out/steady-00-resources.jsonl'' = None"
    and "ho_files h1 ''out/steady-00-result.json'' = Some (dumps_indent (run_record ''stage3'' sample_run (Fin 0) 1 0))"
proof -
  let ?text = "dumps_indent (sorted_json sample_collect_config) @ [CHR 0x0A]"
  let ?h = "sample_host\<lparr>ho_files := (ho_files sample_host)(''out/experiment-config.json'' \<mapsto> ?text)\<rparr>"
  have snapshot: "check_snapshot ''out/experiment-config.json'' sample_collect_config sample_host = Some (Inr (), ?h)"
    by (simp add: check_snapshot_def Let_def action_defs write_file_def sample_host_def)
  have files: "ho_files ?h ''/proc/self/mountinfo'' = Some ''1 2 3 4 /sys/fs/cgroup''" "ho_files ?h ''bundle/config.json'' = Some []"
    "ho_files ?h ''bundle/rootfs/dev/tee0'' = None" "ho_files ?h ''bundle/rootfs/dev/teepriv0'' = None"
    "ho_files ?h ''rt/config.json'' = Some (dumps_indent sample_bundle)"
    by (simp_all add: sample_host_def)
  obtain out where run: "execute_run sample_platform ''gateway'' ''rt'' ''out'' ''optee'' ''stage3'' sample_run ?h = Some (Inr (), ?h\<lparr>ho_files := out\<rparr>)"
    and result: "out ''out/steady-00-resources.jsonl'' = None" "out ''/proc/self/mountinfo'' = Some ''1 2 3 4 /sys/fs/cgroup''"
      "out ''out/steady-00-result.json'' = Some (dumps_indent (run_record ''stage3'' sample_run (Fin 0) 1 0))"
    using sample_execute [OF files(5), of "''gateway''" "''optee''" "''stage3''"] files(1) by auto
  let ?h1 = "?h\<lparr>ho_files := out\<rparr>"
  have runs: "collect_runs sample_platform sample_collect_args ''stage3'' sample_collect_config (Fin 1) (run_matrix [(''steady'', False)] (nat 1)) ?h
      = Some (Inr (), ?h1)"
  proof -
    have "run_matrix [(''steady'', False)] (nat 1) = [(''steady'', False, 0)]" by (simp add: run_matrix_def)
    moreover have "\<lparr>rn_scenario = ''steady'', rn_attack = False, rn_repeat = 0, rn_duration = Fin 1, rn_seed = 7\<rparr> = sample_run"
      by (simp add: sample_run_def)
    ultimately show ?thesis using run
      by (simp add: collect_runs_def sample_config_read collect_run_def) (simp add: sample_collect_args_def action_defs)
  qed
  have removed: "remove_runtime_bundle sample_platform ''rt'' ?h1 = Some (Inr (), ?h1)"
    by (rule sample_removed) (use result(2) in simp)
  have staged: "ensure_cgroup_v2 sample_platform ?h = Some (Inr (), ?h)" "stage_runtime_bundle sample_platform ''bundle'' ''rt'' ?h = Some (Inr (), ?h)"
    by (rule sample_staging [OF files(1-4)])+
  have "read_file ''cfg'' sample_host = Some (Inr (dumps_indent sample_collect_config), sample_host)" by (simp add: read_file_def sample_host_def)
  moreover have "ca_config sample_collect_args = ''cfg''" "ca_output sample_collect_args = ''out''" "ca_bundle sample_collect_args = ''bundle''"
    "ca_runtime sample_collect_args = ''rt''" by (simp_all add: sample_collect_args_def)
  ultimately have "collect sample_platform True sample_collect_args sample_host = Some (Inr (), ?h1)"
    using snapshot staged runs removed
    by (simp add: collect_def whenA_def bindA_def returnA_def liftA_def tryA_def sample_config_read finallyA_def)
  then show thesis by (rule that) (use result in simp_all)
qed

lemma json_one: "json_float (Fin 1) = ''1.0''"
proof -
  have "ilog10 1 = 0" by (simp add: ilog10_def floorlog_def)
  moreover have "rnd (1 :: rat) = 1" using of_exact_small [of 1] by (simp add: rnd_id representable_numeral)
  ultimately have "short_candidate 1 1 = Some (1, 0)" by (simp add: short_candidate_def Let_def)
  moreover have "[1..<18] = 1 # [Suc 1..<18]" by (rule upt_conv_Cons) simp
  ultimately have "shortest_decimal 1 = (1, 0)" by (simp only: shortest_decimal_def shortest_from.simps option.case)
  moreover have "nat_str 1 = ''1''" by code_simp
  ultimately show ?thesis by (simp add: pos_float_str_def format_decimal_def strip_zeros_def)
qed

lemma sample_record_short: "length (dumps_indent (run_record ''stage3'' sample_run (Fin 0) 1 0)) \<le> 4300"
proof -
  have "nat_str 0 = ''0''" "nat_str (Suc 0) = ''1''" "nat_str 7 = ''7''" by code_simp+
  moreover have "json_float (Fin 0) = ''0.0''" by simp
  ultimately show ?thesis
    by (simp add: dumps_indent_def run_record_def sample_run_def rn_id_def run_name_def enclose_def line_break_def json_string_def
        json_escape_def Let_def int_str_def json_one del: json_float.simps)
qed

section \<open>Properties\<close>






end
