(* ===== verification/Performance_Evidence.thy ===== *)
theory Performance_Evidence
  imports Performance_Collection Collection_Evidence
begin

text \<open>
  What the performance runs leave behind: the result of a run is written only after the summaries
  of the gateway and of the monitor have been checked, an interrupted collection leaves no other
  results, and the results of a complete one pass the checks of the analysis.
\<close>

section \<open>Floats\<close>

lemma shaped_member: "shaped (PDict d) \<Longrightarrow> dget d k = Some w \<Longrightarrow> shaped w"
  unfolding shaped_PDict dget_def by (fastforce dest: map_of_SomeD)

lemma float_field_f64: "shaped v \<Longrightarrow> float_field v k = Inr x \<Longrightarrow> is_f64 x"
proof -
  assume v: "shaped v" and "float_field v k = Inr x"
  then obtain w where w: "py_subscript v k = Inr w" "py_float w = Inr x" by (auto simp: float_field_def bindE_eq_Inr_iff)
  then obtain d where "v = PDict d" "dget d k = Some w" by (cases v) (auto split: option.splits)
  then have "shaped w" using shaped_member v by blast
  then show ?thesis using w(2) f64_zero_one
    by (cases w) (auto simp: float_of_int_def simp del: is_f64.simps dest!: exact_or_overflow_ok parse_float_f64)
qed

lemma fdiv_f64: "fdiv a b = Inr x \<Longrightarrow> is_f64 x"
  using f64_zero_one by (cases "(a, b)" rule: fdiv.cases) (auto simp: inf_of_sign_def simp del: is_f64.simps(1) split: if_splits f64.splits)

lemma fadd_f64 [simp]: "is_f64 (fadd a b)"
  by (cases "(a, b)" rule: fadd.cases) auto

lemma fmean_f64: "fmean xs = Inr x \<Longrightarrow> is_f64 x"
  by (auto simp: fmean_def bindE_eq_Inr_iff split: if_splits elim: fdiv_f64)

lemma percentile_f64:
  assumes "list_all is_f64 xs" and "percentile xs q = Inr x"
  shows "is_f64 x"
proof -
  have sorted: "y \<in> set (sort xs) \<Longrightarrow> is_f64 y" for y using assms(1) by (simp add: list_all_iff)
  have "py_index (sort xs) i = Inr y \<Longrightarrow> y \<in> set (sort xs)" for i y
    by (auto simp: py_index_def Let_def simp del: set_sort length_sort split: if_splits)
  then have indexed: "py_index (sort xs) i = Inr y \<Longrightarrow> is_f64 y" for i y using sorted by blast
  have first: "length (sort xs) = 1 \<Longrightarrow> is_f64 (sort xs ! 0)" by (rule sorted, rule nth_mem) simp
  show ?thesis using assms(2) first f64_zero_one
    by (auto simp: percentile_def Let_def bindE_eq_Inr_iff simp del: is_f64.simps(1) split: if_splits dest: indexed)
qed

section \<open>The summary of the resources\<close>

definition readings_f64 :: "readings \<Rightarrow> bool" where
  "readings_f64 groups \<longleftrightarrow> distinct (map fst groups) \<and> (\<forall>(name, cpus, rsses)\<in>set groups. list_all is_f64 cpus \<and> list_all is_f64 rsses)"

lemma note_reading_f64:
  assumes "note_reading line groups = Inr groups'" and "readings_f64 groups"
  shows "readings_f64 groups'"
proof (cases "line = []")
  case True
  then show ?thesis using assms by (simp add: note_reading_def)
next
  case False
  obtain cs rs where old: "(case dget groups name of None \<Rightarrow> ([], []) | Some g \<Rightarrow> g) = (cs name, rs name)" for name
    by (rule that [of "\<lambda>name. fst (case dget groups name of None \<Rightarrow> ([], []) | Some g \<Rightarrow> g)"
          "\<lambda>name. snd (case dget groups name of None \<Rightarrow> ([], []) | Some g \<Rightarrow> g)"]) simp
  obtain event name cpu rss where e: "json_loads line = Inr event" "float_field event ''cpu_percent'' = Inr cpu" "float_field event ''rss_kb'' = Inr rss"
    and new: "groups' = dset name (cs name @ [cpu], rs name @ [rss]) groups"
    using assms(1) False by (auto simp: note_reading_def old bindE_eq_Inr_iff)
  have "is_f64 cpu" "is_f64 rss" using float_field_f64 [OF storable_shaped [OF loaded_storable [OF e(1)]]] e(2,3) by blast+
  moreover have "list_all is_f64 (cs name) \<and> list_all is_f64 (rs name)"
    using assms(2) old [of name] by (auto simp: readings_f64_def dget_def split: option.splits dest!: map_of_SomeD)
  moreover have "set (dset name v groups) \<subseteq> insert (name, v) (set groups)" for v
    by (induction groups) (auto simp: dset_def)
  ultimately show ?thesis using assms(2) unfolding readings_f64_def new by (fastforce simp: distinct_dset)
qed

lemma readings_loop_f64: "foldE note_reading xs groups = Inr groups' \<Longrightarrow> readings_f64 groups \<Longrightarrow> readings_f64 groups'"
proof (induction xs arbitrary: groups)
  case (Cons x xs)
  then obtain g where "note_reading x groups = Inr g" "foldE note_reading xs g = Inr groups'" by (auto simp: bindE_eq_Inr_iff)
  with Cons note_reading_f64 show ?case by blast
qed simp

lemma component_value_shaped:
  assumes "component_value (name, cpus, rsses) = Inr p" and "list_all is_f64 cpus" and "list_all is_f64 rsses"
  shows "fst p = name \<and> shaped (snd p)"
  using assms by (auto simp: component_value_def bindE_eq_Inr_iff dest: fmean_f64 percentile_f64)

lemma resource_summary_shaped:
  assumes "resource_summary t = Inr v"
  shows "shaped v"
proof -
  obtain groups ps where g: "foldE note_reading (splitlines t) [] = Inr groups" and v: "v = PDict ps"
    and ps: "mapE component_value (filter (\<lambda>(name, cpus, rsses). cpus \<noteq> []) groups) = Inr ps"
    using assms by (auto simp: resource_summary_def bindE_eq_Inr_iff mapR_eq_Inr_iff)
  have f64: "readings_f64 groups" by (rule readings_loop_f64 [OF g]) (simp add: readings_f64_def)
  have good: "list_all2 (\<lambda>x p. fst p = fst x \<and> shaped (snd p)) (filter (\<lambda>(name, cpus, rsses). cpus \<noteq> []) groups) ps"
    using ps unfolding mapE_eq_Inr_iff
    by (rule list.rel_mono_strong) (use f64 component_value_shaped in \<open>fastforce simp: readings_f64_def\<close>)
  then have "map fst ps = map fst (filter (\<lambda>(name, cpus, rsses). cpus \<noteq> []) groups)"
    by (induction rule: list_all2_induct) auto
  then have "distinct (map fst ps)" using f64 by (simp add: readings_f64_def distinct_map_filter)
  moreover have "list_all (\<lambda>p. shaped (snd p)) ps" using good by (induction rule: list_all2_induct) auto
  ultimately show ?thesis unfolding v shaped_PDict by (auto simp: list_all_iff)
qed

section \<open>One run\<close>

definition perf_evidence :: "string \<Rightarrow> nat \<Rightarrow> pyval \<Rightarrow> bool" where
  "perf_evidence configuration repeat v \<longleftrightarrow> (\<exists>pf elapsed n gateway_summary resources monitor_summary.
     v = perf_record pf elapsed n gateway_summary resources monitor_summary \<and> pf_configuration pf = configuration \<and> pf_repeat pf = repeat
     \<and> check_gateway pf gateway_summary n = Inr ()
     \<and> (if monitored pf then check_monitor pf monitor_summary = Inr () else monitor_summary = PNone))"

text \<open>The result file of a run.\<close>

definition perf_stored :: "string \<times> nat \<Rightarrow> string \<Rightarrow> bool" where
  "perf_stored = (\<lambda>(configuration, repeat) t. \<exists>v. t = dumps_indent v \<and> shaped v \<and> perf_evidence configuration repeat v)"

abbreviation perf_result :: "string \<Rightarrow> string \<times> nat \<Rightarrow> string" where
  "perf_result output x \<equiv> perf_path output (fst x) (snd x) ''-result.json''"

abbreviation run_of :: "perf_spec \<Rightarrow> string \<times> nat" where
  "run_of pf \<equiv> (pf_configuration pf, pf_repeat pf)"

lemma bindA_assoc: "bindA (bindA m f) g = bindA m (\<lambda>x. bindA (f x) g)"
  by (auto simp: fun_eq_iff bindA_def split: option.split sum.split)

lemma bindA_returnA [simp]: "bindA (returnA x) f = f x"
  by (simp add: fun_eq_iff bindA_def returnA_def)

text \<open>Only a run that raised leaves no result; a result is good whatever came after it.\<close>

definition settled :: "(string \<Rightarrow> bool) \<Rightarrow> unit result \<Rightarrow> string option \<Rightarrow> bool" where
  "settled good r file \<longleftrightarrow> (case file of None \<Rightarrow> \<exists>e. r = Inl e | Some t \<Rightarrow> good t)"

lemma settled_step:
  assumes "bindA m f h = Some (r, h1)" and "leaves m p" and "ho_files h p = None"
    and "\<And>x h0. m h = Some (Inr x, h0) \<Longrightarrow> f x h0 = Some (r, h1) \<Longrightarrow> ho_files h0 p = None \<Longrightarrow> settled good r (ho_files h1 p)"
  shows "settled good r (ho_files h1 p)"
  using assms(1)
proof (cases rule: bindA_cases)
  case (raised e)
  then show ?thesis using leavesD [OF assms(2) raised(1)] assms(3) by (simp add: settled_def)
next
  case (returned x h0)
  show ?thesis by (rule assms(4) [OF returned]) (use leavesD [OF assms(2) returned(1)] assms(3) in simp)
qed

lemma settled_finallyA:
  assumes "finallyA body cleanup h = Some (r, h2)" and "leaves cleanup p"
    and "\<And>r1 h1. body h = Some (r1, h1) \<Longrightarrow> settled good r1 (ho_files h1 p)"
  shows "settled good r (ho_files h2 p)"
proof -
  obtain r1 h1 rc where b: "body h = Some (r1, h1)" "cleanup h1 = Some (rc, h2)" and r: "r = (case rc of Inl e \<Rightarrow> Inl e | Inr _ \<Rightarrow> r1)"
    using assms(1) by (rule finallyA_cases)
  show ?thesis using assms(3) [OF b(1)] leavesD [OF assms(2) b(2)] r by (cases rc) (auto simp: settled_def split: option.splits)
qed

lemma perf_path_inj:
  assumes "perf_path output c k x = perf_path output c' k' ''-result.json''" and "x \<in> set log_suffixes \<or> x = ''-result.json''"
  shows "x = ''-result.json'' \<and> c = c' \<and> k = k'"
proof -
  have e: "run_name c k @ x = run_name c' k' @ ''-result.json''" using assms(1) by (simp add: perf_path_def)
  then have "take 12 (rev (run_name c k @ x)) = take 12 (rev (run_name c' k' @ ''-result.json''))" by (simp only:)
  then have x: "x = ''-result.json''" using assms(2) by (auto simp: log_suffixes_def)
  with e show ?thesis using run_name_inj by auto
qed

lemma result_not_done: "perf_path output c k ''-result.json'' \<noteq> done_path pf"
proof
  assume "perf_path output c k ''-result.json'' = done_path pf"
  then have "last (perf_path output c k ''-result.json'') = last (done_path pf)" by simp
  then show False by (simp add: perf_path_def done_path_def)
qed

lemma leaves_read_json [leaves_intros]: "leaves (read_json path) p"
  unfolding read_json_def by (intro leaves_intros)

lemma other_log:
  assumes "suffix \<in> set log_suffixes"
  shows "perf_result output x \<noteq> pf_path output pf suffix"
proof
  assume "perf_result output x = pf_path output pf suffix"
  then have "suffix = ''-result.json''" using perf_path_inj assms by (metis pf_path_def)
  then show False using assms by (simp add: log_suffixes_def)
qed

lemma other_result: "run_of pf \<noteq> x \<Longrightarrow> perf_result output x \<noteq> pf_path output pf ''-result.json''"
  unfolding pf_path_def by (metis perf_path_inj prod.collapse)

text \<open>The steps of a run other than the last leave every result alone.\<close>

lemma leaves_perf_steps:
  assumes "apart pl bundle (perf_result output x)"
  shows "leaves (start_container pl bundle pf i) (perf_result output x)" "leaves (start_monitor pl python script model output pf) (perf_result output x)"
    "leaves (sample_until_stopped pl output pf processes) (perf_result output x)" "leaves (finish_monitor pl monitor) (perf_result output x)"
    "leaves (clean_perf pl pf i monitor) (perf_result output x)"
proof -
  note ap = assms [unfolded apart_def]
  note other = ap result_not_done [of "output" "fst x" "snd x" pf] other_log [of "''-monitor.log''" "output" x pf]
  show "leaves (start_container pl bundle pf i) (perf_result output x)"
    unfolding start_container_def wait_for_socket_def remove_container_def by (intro leaves_intros) (use other in auto)
  show "leaves (start_monitor pl python script model output pf) (perf_result output x)"
    unfolding start_monitor_def by (intro leaves_intros) (use other in \<open>auto simp: log_suffixes_def\<close>)
  show "leaves (sample_until_stopped pl output pf processes) (perf_result output x)"
    unfolding sample_until_stopped_def by (intro leaves_intros) (use other in auto)
  show "leaves (finish_monitor pl monitor) (perf_result output x)"
    unfolding finish_monitor_def by (intro leaves_intros) (use other in auto)
  show "leaves (clean_perf pl pf i monitor) (perf_result output x)"
    unfolding clean_perf_def remove_container_def stop_if_running_def by (intro leaves_intros) (use other in auto)
qed

lemma prepare_perf_outcome:
  assumes "apart pl bundle (perf_result output x)"
  shows "run_of pf \<noteq> x \<Longrightarrow> leaves (prepare_perf pl bundle output pf) (perf_result output x)"
    and "prepare_perf pl bundle output pf h = Some (r, h1) \<Longrightarrow> run_of pf = x \<Longrightarrow> ho_files h1 (perf_result output x) = None"
proof -
  let ?p = "perf_result output x"
  let ?rest = "thenA (touch (pf_path output pf ''-requests.jsonl'')) (thenA (touch (pf_path output pf ''-resources.jsonl''))
    (thenA (write_bundle_config pl bundle (pf_scenario pf) (pf_duration pf) (pf_seed pf))
    (thenA (tryA (pl_make_dir pl ''/run/cote3-mon'')) (thenA (unlink socket_path) (write_file (pf_path output pf ''-gateway.log'') [])))))"
  note ap = assms [unfolded apart_def]
  note other = ap result_not_done [of "output" "fst x" "snd x" pf] other_log [of _ "output" x pf]
  show "run_of pf \<noteq> x \<Longrightarrow> leaves (prepare_perf pl bundle output pf) ?p"
    unfolding prepare_perf_def by (intro leaves_intros) (use other other_result [of pf x "output"] in \<open>auto simp: log_suffixes_def\<close>)
  have rest: "leaves ?rest ?p" by (intro leaves_intros) (use other in \<open>auto simp: log_suffixes_def\<close>)
  let ?first = "map (pf_path output pf) log_suffixes @ [done_path pf, ?p]"
  show "ho_files h1 ?p = None" if run: "prepare_perf pl bundle output pf h = Some (r, h1)" and x: "run_of pf = x"
  proof -
    have "?p = pf_path output pf ''-result.json''" using x by (auto simp: pf_path_def)
    then have "bindA (forA unlink ?first) (\<lambda>_. ?rest) h = Some (r, h1)"
      using run by (simp add: prepare_perf_def log_suffixes_def bindA_assoc)
    then show ?thesis
    proof (cases rule: bindA_cases)
      case (raised e)
      then show ?thesis using unlinks_remove [OF raised(1), of ?p] by simp
    next
      case (returned u h0)
      then show ?thesis using unlinks_remove [OF returned(1), of ?p] leavesD [OF rest returned(2)] by simp
    qed
  qed
qed

text \<open>The record is written last and after the checks.\<close>

lemma perf_record_shaped:
  assumes "is_f64 elapsed" and "is_f64 (pf_duration pf)" and "shaped gateway_summary" and "shaped resources" and "shaped monitor_summary"
  shows "shaped (perf_record pf elapsed n gateway_summary resources monitor_summary)"
  using assms by (simp add: perf_record_def)

lemma read_jsonD: "read_json path h = Some (Inr v, h1) \<Longrightarrow> shaped v"
  by (auto simp: read_json_def read_file_def bindA_def liftA_def split: option.splits sum.splits intro: storable_shaped loaded_storable)

lemma liftAD: "liftA m h = Some (Inr v, h1) \<Longrightarrow> m = Inr v \<and> h1 = h"
  by (simp add: liftA_def)

lemma write_perf_settled:
  assumes "write_perf pl output pf started (monitored pf) h = Some (r, h1)" and "apart pl bundle (perf_result output (run_of pf))"
    and "is_f64 (pf_duration pf)" and "ho_files h (perf_result output (run_of pf)) = None"
  shows "settled (perf_stored (run_of pf)) r (ho_files h1 (perf_result output (run_of pf)))"
  using assms(1) unfolding write_perf_def
proof (rule settled_step, goal_cases)
  case gateway: (3 g h2)
  show ?case using gateway(2)
  proof (rule settled_step, goal_cases)
    case count: (3 n h3)
    show ?case using count(2)
    proof (rule settled_step, goal_cases)
      case checked: (3 u h4)
      show ?case using checked(2)
      proof (rule settled_step, goal_cases)
        case monitor: (3 m h5)
        have m: "if monitored pf then shaped m \<and> check_monitor pf m = Inr () else m = PNone"
          using monitor(1) by (auto split: if_splits elim!: bindA_InrE dest!: liftAD read_jsonD simp: returnA_def)
        show ?case using monitor(2)
        proof (rule settled_step, goal_cases)
          case resources: (3 t h6)
          show ?case using resources(2)
          proof (rule settled_step, goal_cases)
            case summary: (3 s h7)
            show ?case using summary(2)
            proof (rule settled_step, goal_cases)
              case now: (3 now h8)
              let ?v = "perf_record pf (fsub now started) n g s m"
              have "shaped s" using summary(1) resource_summary_shaped by (auto dest!: liftAD)
              then have "shaped ?v"
                using gateway(1) m assms(3) by (intro perf_record_shaped) (auto dest: read_jsonD split: if_splits)
              moreover have "perf_evidence (pf_configuration pf) (pf_repeat pf) ?v"
                unfolding perf_evidence_def by (intro exI [of _ pf] exI conjI refl) (use checked(1) m in \<open>auto dest: liftAD\<close>)
              ultimately have "perf_stored (run_of pf) (dumps_indent ?v)" by (auto simp: perf_stored_def)
              moreover have "ho_files h1 (perf_result output (run_of pf)) = Some (dumps_indent ?v)"
                using now(2) by (auto simp: bindA_def write_file_def modifyA_def liftA_def pf_path_def)
              ultimately show ?case by (simp add: settled_def)
            qed (use summary(3) assms(2) in \<open>auto simp: apart_def intro: leaves_intros\<close>)
          qed (use resources(3) in \<open>auto intro: leaves_intros\<close>)
        qed (use monitor(3) in \<open>auto intro: leaves_intros\<close>)
      qed (use checked(3) in \<open>auto intro!: leaves_intros\<close>)
    qed (use count(3) in \<open>auto intro: leaves_intros\<close>)
  qed (use gateway(3) in \<open>auto intro: leaves_intros\<close>)
qed (use assms(4) in \<open>auto intro: leaves_intros\<close>)

lemma measure_run_settled:
  assumes "measure_run pl output pf pid i monitor started h = Some (r, h1)" and "apart pl bundle (perf_result output (run_of pf))"
    and "is_f64 (pf_duration pf)" and "monitored pf \<longleftrightarrow> monitor \<noteq> None" and "ho_files h (perf_result output (run_of pf)) = None"
  shows "settled (perf_stored (run_of pf)) r (ho_files h1 (perf_result output (run_of pf)))"
  using assms(1) unfolding measure_run_def
proof (rule settled_step, goal_cases)
  case sampled: (3 u h2)
  show ?case using sampled(2)
  proof (rule settled_step, goal_cases)
    case finished: (3 u h3)
    show ?case using finished(2)
    proof (rule settled_step, goal_cases)
      case terminated: (3 u h4)
      show ?case using terminated(2)
      proof (rule settled_step, goal_cases)
        case waited: (3 c h5)
        show ?case by (rule write_perf_settled [OF _ assms(2,3) waited(3)]) (use waited(2) assms(4) in auto)
      qed (use terminated(3) assms(2) in \<open>auto simp: apart_def intro: leaves_intros\<close>)
    qed (use finished(3) assms(2) in \<open>auto simp: apart_def intro: leaves_intros\<close>)
  qed (use sampled(3) leaves_perf_steps(4) [OF assms(2)] in auto)
qed (use assms(5) leaves_perf_steps(3) [OF assms(2)] in auto)

lemma execute_perf_settled:
  assumes "execute_perf pl python script gateway bundle output model pf h = Some (r, h1)"
    and "apart pl bundle (perf_result output (run_of pf))" and "is_f64 (pf_duration pf)"
  shows "settled (perf_stored (run_of pf)) r (ho_files h1 (perf_result output (run_of pf)))"
proof -
  let ?p = "perf_result output (run_of pf)"
  note steps = leaves_perf_steps [OF assms(2)]
  from assms(1) [unfolded execute_perf_def] show ?thesis
  proof (cases rule: bindA_cases)
    case (raised e)
    then show ?thesis using prepare_perf_outcome(2) [OF assms(2) raised(1) HOL.refl] by (simp add: settled_def)
  next
    case prepared: (returned u h2)
    have gone: "ho_files h2 ?p = None" by (rule prepare_perf_outcome(2) [OF assms(2) prepared(1) HOL.refl])
    from prepared(2) show ?thesis
    proof (rule settled_step, goal_cases)
      case spawned: (3 i h3)
      show ?case using spawned(2)
      proof (rule settled_step, goal_cases)
        case timed: (3 started h4)
        let ?start = "bindA (start_container pl bundle pf i) (\<lambda>pid. bindA (start_monitor pl python script model output pf) (\<lambda>monitor. returnA (pid, monitor)))"
        have still: "leaves ?start ?p" by (intro leaves_intros steps)
        have kept: "ho_files h5 ?p = None" if "?start h4 = Some (s, h5)" for s h5
          using leavesD [OF still that] timed(3) by simp
        have cleaned: "settled (perf_stored (run_of pf)) r (ho_files h1 ?p)"
          if "finallyA body (clean_perf pl pf i monitor) h5 = Some (r, h1)"
            and "\<And>r1 h6. body h5 = Some (r1, h6) \<Longrightarrow> settled (perf_stored (run_of pf)) r1 (ho_files h6 ?p)" for body monitor h5
          using that(1) steps(5) that(2) by (rule settled_finallyA)
        show ?case
        proof (cases "?start h4")
          case None
          then show ?thesis using timed(2) by simp
        next
          case (Some z)
          obtain s h5 where z: "z = (s, h5)" by fastforce
          show ?thesis
          proof (cases s)
            case (Inl e)
            then show ?thesis using timed(2) kept Some
              by (intro cleaned [of "raiseA e" None h5]) (auto simp: z raiseA_def settled_def)
          next
            case (Inr q)
            obtain pid monitor where q: "q = (pid, monitor)" by fastforce
            have "monitored pf \<longleftrightarrow> monitor \<noteq> None"
              using Some by (auto simp: z Inr q start_monitor_def returnA_def elim!: bindA_InrE split: if_splits)
            moreover have "finallyA (measure_run pl output pf pid i monitor started) (clean_perf pl pf i monitor) h5 = Some (r, h1)"
              using timed(2) Some by (simp add: z Inr q)
            ultimately show ?thesis
              using measure_run_settled [OF _ assms(2,3)] kept [OF Some [unfolded z]] by (blast intro: cleaned)
          qed
        qed
      qed (use spawned(3) assms(2) in \<open>auto simp: apart_def intro: leaves_intros\<close>)
    qed (use gone assms(2) in \<open>auto simp: apart_def intro: leaves_intros\<close>)
  qed
qed

lemma leaves_execute_perf:
  assumes "apart pl bundle (perf_result output x)" and "run_of pf \<noteq> x"
  shows "leaves (execute_perf pl python script gateway bundle output model pf) (perf_result output x)"
proof -
  let ?p = "perf_result output x"
  note steps = leaves_perf_steps [OF assms(1)]
  have u: "untouched pl ?p" using assms(1) by (simp add: apart_def)
  have result: "leaves (write_perf pl output pf started m) ?p" for started m
    unfolding write_perf_def by (intro leaves_intros u) (use other_result [OF assms(2), of "output"] in auto)
  have measure: "leaves (measure_run pl output pf pid i m started) ?p" for pid i m started
    unfolding measure_run_def by (intro leaves_intros steps u result)
  have start: "leaves (bindA (start_container pl bundle pf i) (\<lambda>pid. bindA (start_monitor pl python script model output pf) (\<lambda>monitor. returnA (pid, monitor)))) ?p" for i
    by (intro leaves_intros steps)
  have branch: "leaves (\<lambda>h. case m h of None \<Rightarrow> None | Some (Inl e, h1) \<Rightarrow> f e h1 | Some (Inr (a, b), h1) \<Rightarrow> g a b h1) ?p"
    if m: "leaves m ?p" and f: "\<And>e. leaves (f e) ?p" and g: "\<And>a b. leaves (g a b) ?p"
    for m :: "('a, 'c \<times> 'd) act" and f :: "_ \<Rightarrow> ('a, unit) act" and g
    unfolding leaves_def
  proof (intro allI impI)
    fix h r h1 assume run: "(case m h of None \<Rightarrow> None | Some (Inl e, h1) \<Rightarrow> f e h1 | Some (Inr (a, b), h1) \<Rightarrow> g a b h1) = Some (r, h1)"
    then obtain s h2 where s: "m h = Some (s, h2)" by (auto split: option.splits)
    have "ho_files h2 ?p = ho_files h ?p" by (rule leavesD [OF m s])
    moreover have "ho_files h1 ?p = ho_files h2 ?p"
      using run s leavesD [OF f] leavesD [OF g] by (cases s) (auto split: prod.splits)
    ultimately show "ho_files h1 ?p = ho_files h ?p" by simp
  qed
  show ?thesis unfolding execute_perf_def
    by (intro leaves_bindA prepare_perf_outcome(1) [OF assms] leaves_services branch start leaves_finallyA measure steps leaves_basic u)
qed

section \<open>The collection\<close>

text \<open>An action after which a file is absent or good when it was so before.\<close>

definition guards :: "(string \<Rightarrow> bool) \<Rightarrow> string \<Rightarrow> ('s, 'a) act \<Rightarrow> bool" where
  "guards good p m \<longleftrightarrow> (\<forall>h r h1. m h = Some (r, h1) \<longrightarrow> (\<forall>t. ho_files h p = Some t \<longrightarrow> good t) \<longrightarrow> (\<forall>t. ho_files h1 p = Some t \<longrightarrow> good t))"

named_theorems guards_intros \<open>actions that keep a good file good\<close>

lemma guardsD: "guards good p m \<Longrightarrow> m h = Some (r, h1) \<Longrightarrow> \<forall>t. ho_files h p = Some t \<longrightarrow> good t \<Longrightarrow> \<forall>t. ho_files h1 p = Some t \<longrightarrow> good t"
  unfolding guards_def by blast

lemma leaves_guards: "leaves m p \<Longrightarrow> guards good p m"
  by (simp add: guards_def leaves_def)

lemma steps_guards: "steps (\<lambda>h h1. (\<forall>t. ho_files h p = Some t \<longrightarrow> good t) \<longrightarrow> (\<forall>t. ho_files h1 p = Some t \<longrightarrow> good t)) m \<longleftrightarrow> guards good p m"
  by (simp add: steps_def guards_def)

interpretation good_file: host_relation "\<lambda>h h1. (\<forall>t. ho_files h p = Some t \<longrightarrow> good t) \<longrightarrow> (\<forall>t. ho_files h1 p = Some t \<longrightarrow> good t)" for p good
  by unfold_locales blast+

lemmas guards_bindA [guards_intros] = good_file.steps_bindA [unfolded steps_guards]
lemmas guards_finallyA [guards_intros] = good_file.steps_finallyA [unfolded steps_guards]
lemmas guards_forA [guards_intros] = good_file.steps_forA [unfolded steps_guards]
lemmas guards_basic [guards_intros] = leaves_basic [THEN leaves_guards]

lemma guards_if [guards_intros]: "(c \<Longrightarrow> guards good p m) \<Longrightarrow> (\<not> c \<Longrightarrow> guards good p n) \<Longrightarrow> guards good p (if c then m else n)"
  by simp

lemma leaves_result_is_reusable [leaves_intros]: "leaves (result_is_reusable output c k d) p"
  by (simp add: leaves_def result_is_reusable_def Let_def)

lemma perf_spec_ofD: "perf_spec_of config c k = Inr pf \<Longrightarrow> run_of pf = (c, k) \<and> float_field config ''duration_seconds'' = Inr (pf_duration pf)"
  by (auto simp: perf_spec_of_def bindE_eq_Inr_iff)

lemma leaves_perf_run:
  assumes "apart pl (pa_runtime pa) (perf_result (pa_output pa) x)" and "y \<noteq> x"
  shows "leaves (perf_run pl python script pa config model y) (perf_result (pa_output pa) x)"
proof -
  have run: "leaves (bindA (liftA (perf_spec_of config (fst y) (snd y))) (\<lambda>pf.
      execute_perf pl python script (pa_gateway pa) (pa_runtime pa) (pa_output pa) model pf)) (perf_result (pa_output pa) x)"
  proof (cases "perf_spec_of config (fst y) (snd y)")
    case (Inr pf)
    then show ?thesis using leaves_execute_perf [OF assms(1), of pf] perf_spec_ofD [OF Inr] assms(2) by simp
  qed (simp add: leaves_def bindA_def liftA_def)
  show ?thesis unfolding perf_run_def case_prod_beta by (intro leaves_intros run)
qed

lemma perf_run_settled:
  assumes "perf_run pl python script pa config model x h = Some (r, h1)" and "apart pl (pa_runtime pa) (perf_result (pa_output pa) x)"
    and "shaped config" and "\<forall>t. ho_files h (perf_result (pa_output pa) x) = Some t \<longrightarrow> perf_stored x t"
  shows "settled (perf_stored x) r (ho_files h1 (perf_result (pa_output pa) x)) \<or> (\<exists>e. r = Inl e) \<and> h1 = h"
proof -
  let ?before = "if pa_resume pa then bindA (liftA (float_field config ''duration_seconds''))
    (\<lambda>duration. result_is_reusable (pa_output pa) (fst x) (snd x) duration) else returnA False"
  have same: "?before h = Some (b, h2) \<Longrightarrow> h2 = h" and found: "?before h = Some (Inr True, h2) \<Longrightarrow> ho_files h (perf_result (pa_output pa) x) \<noteq> None" for b h2
    by (auto simp: bindA_def liftA_def result_is_reusable_def result_reusable_def returnA_def Let_def split: if_splits sum.splits option.splits)
  from assms(1) [unfolded perf_run_def case_prod_beta] show ?thesis
  proof (cases rule: bindA_cases)
    case (raised e)
    then show ?thesis using same by blast
  next
    case (returned b h2)
    then have h2: "h2 = h" using same by blast
    show ?thesis
    proof (cases b)
      case True
      then have "r = Inr ()" "h1 = h" using returned(2) h2 by (simp_all add: returnA_def)
      then show ?thesis using found returned(1) True assms(4) by (auto simp: settled_def)
    next
      case False
      show ?thesis
      proof (cases "perf_spec_of config (fst x) (snd x)")
        case (Inl e)
        then show ?thesis using returned(2) False h2 by (auto simp: bindA_def liftA_def)
      next
        case (Inr pf)
        note pf = perf_spec_ofD [OF Inr]
        have "execute_perf pl python script (pa_gateway pa) (pa_runtime pa) (pa_output pa) model pf h = Some (r, h1)"
          using returned(2) False Inr h2 by simp
        then show ?thesis using execute_perf_settled assms(2) pf float_field_f64 [OF assms(3)] by fastforce
      qed
    qed
  qed
qed

lemma guards_perf_run:
  assumes "apart pl (pa_runtime pa) (perf_result (pa_output pa) x)" and "shaped config"
  shows "guards (perf_stored x) (perf_result (pa_output pa) x) (perf_run pl python script pa config model y)"
proof (cases "y = x")
  case True
  show ?thesis unfolding guards_def True
  proof (intro allI impI)
    fix h r h1 t assume run: "perf_run pl python script pa config model x h = Some (r, h1)"
      and start: "\<forall>t. ho_files h (perf_result (pa_output pa) x) = Some t \<longrightarrow> perf_stored x t"
      and t: "ho_files h1 (perf_result (pa_output pa) x) = Some t"
    show "perf_stored x t" using perf_run_settled [OF run assms start] start t by (auto simp: settled_def)
  qed
qed (rule leaves_guards [OF leaves_perf_run [OF assms(1)]])

section \<open>The analysis of the results\<close>

lemma perf_matrix_mem: "(c, k) \<in> set (perf_matrix names n) \<longleftrightarrow> c \<in> set names \<and> k < n"
  by (auto simp: perf_matrix_def)

lemma length_perf_matrix: "length (perf_matrix names n) = n * length names"
  by (simp add: perf_matrix_def length_concat comp_def sum_list_triv)

lemma perf_matrix_named:
  assumes "distinct names" and "c \<in> set names"
  shows "filter (\<lambda>x. fst x = c) (perf_matrix names n) = map (Pair c) [0..<n]"
proof -
  have "filter (\<lambda>a. a = c) names = [c]" using assms by (induction names) (auto simp: filter_empty_conv)
  then have "filter (\<lambda>x. fst x = c) (map (\<lambda>name. (name, r)) names) = [(c, r)]" for r :: nat
    by (simp add: filter_map comp_def)
  then show ?thesis by (induction n) (simp_all add: perf_matrix_def)
qed

text \<open>What the analysis asks of a record.\<close>

lemma perf_evidence_fields:
  assumes "perf_evidence c k v"
  shows "get_is ''status'' ''PASS'' v = Inr True" and "py_subscript v ''configuration'' = Inr (PStr c)" and "int_field v ''repeat'' = Inr (int k)"
    and "py_subscript v ''telemetry_enabled'' = Inr (PBool (c \<noteq> ''gateway_only''))"
    and "mapR (\<lambda>m. truthy m = (c \<in> {''telemetry_iforest'', ''telemetry_iforest_audit_ta''})) (py_get v ''monitor'' PNone) = Inr True"
    and "c = ''telemetry_iforest_audit_ta'' \<Longrightarrow> mapR (\<lambda>n. n \<le> 0) (bindE (py_subscript v ''monitor'') (\<lambda>m. int_field m ''alerts'')) = Inr False"
proof -
  obtain pf elapsed n g s m where v: "v = perf_record pf elapsed n g s m" and c: "pf_configuration pf = c" "pf_repeat pf = k"
    and m: "if monitored pf then check_monitor pf m = Inr () else m = PNone"
    using assms by (auto simp: perf_evidence_def)
  show "get_is ''status'' ''PASS'' v = Inr True" "py_subscript v ''configuration'' = Inr (PStr c)" "int_field v ''repeat'' = Inr (int k)"
    "py_subscript v ''telemetry_enabled'' = Inr (PBool (c \<noteq> ''gateway_only''))"
    by (simp_all add: v perf_record_def c telemetry_on_def get_is_def int_field_def dget_def)
  have monitor: "py_get v ''monitor'' PNone = Inr m" "py_subscript v ''monitor'' = Inr m" by (simp_all add: v perf_record_def dget_def)
  have "truthy m" if "monitored pf"
  proof -
    have "get_is ''status'' ''PASS'' m = Inr True" using m that by (auto simp: check_monitor_def bindE_eq_Inr_iff split: if_splits)
    then show ?thesis by (cases m) (auto simp: get_is_def dget_def)
  qed
  then show "mapR (\<lambda>m. truthy m = (c \<in> {''telemetry_iforest'', ''telemetry_iforest_audit_ta''})) (py_get v ''monitor'' PNone) = Inr True"
    using m by (auto simp: monitor monitored_def c split: if_splits)
  show "mapR (\<lambda>n. n \<le> 0) (bindE (py_subscript v ''monitor'') (\<lambda>m. int_field m ''alerts'')) = Inr False" if "c = ''telemetry_iforest_audit_ta''"
  proof -
    have "monitored pf" "audited pf" using that by (simp_all add: monitored_def audited_def c)
    then obtain a where "bindE (py_get m ''alerts'' (PInt 0)) py_int = Inr a" "0 < a" using m by (auto simp: check_monitor_def bindE_eq_Inr_iff)
    then show ?thesis by (cases m) (auto simp: monitor int_field_def split: option.splits)
  qed
qed

lemma check_configuration_passes:
  assumes g: "group_of results c = Inr own" and group: "mset own = mset (map f [0..<nat repeats])" and pos: "0 < repeats"
    and evidence: "\<forall>k<nat repeats. perf_evidence c k (f k)"
  shows "check_configuration results repeats c = Inr ()"
proof -
  have each: "\<exists>k. perf_evidence c k v" if "v \<in> set own" for v
    using mset_eq_setD [OF group] that evidence by fastforce
  have len: "int (length own) = repeats" using mset_eq_length [OF group] pos by simp
  let ?k = "\<lambda>v. get_ok (int_field v ''repeat'') 0"
  have read: "mapE (\<lambda>item. int_field item ''repeat'') own = Inr (map ?k own)"
    by (rule mapE_total) (use each perf_evidence_fields(3) in fastforce)
  have "set (map ?k own) = (\<lambda>k. ?k (f k)) ` {0..<nat repeats}" using mset_eq_setD [OF group] by (simp add: image_image)
  also have "\<dots> = int ` {0..<nat repeats}"
    by (rule image_cong [OF HOL.refl]) (use evidence perf_evidence_fields(3) in fastforce)
  also have "\<dots> = {0..<repeats}" using pos by (simp add: image_int_atLeastLessThan)
  finally have covered: "set (map ?k own) = {0..<repeats}" .
  have telemetry: "allE (\<lambda>item. mapR (\<lambda>v. truthy v = (c \<noteq> ''gateway_only'')) (py_subscript item ''telemetry_enabled'')) own = Inr True"
    unfolding allE_True_iff list_all_iff using each perf_evidence_fields(4) by fastforce
  have monitor: "allE (\<lambda>item. mapR (\<lambda>v. truthy v = (c \<in> {''telemetry_iforest'', ''telemetry_iforest_audit_ta''})) (py_get item ''monitor'' PNone)) own = Inr True"
    unfolding allE_True_iff list_all_iff using each perf_evidence_fields(5) by blast
  have alerts: "anyE (\<lambda>item. mapR (\<lambda>n. n \<le> 0) (bindE (py_subscript item ''monitor'') (\<lambda>v. int_field v ''alerts''))) own = Inr False"
    if "c = ''telemetry_iforest_audit_ta''"
    unfolding anyE_False_iff list_all_iff using each perf_evidence_fields(6) [OF _ that] by blast
  show ?thesis unfolding check_configuration_def g bindE_simps read telemetry monitor using len covered alerts by simp
qed

lemma perf_results_pass:
  assumes names: "distinct names" and pos: "0 < repeats" and results: "mset results = mset (map f (perf_matrix names (nat repeats)))"
    and evidence: "\<forall>(c, k)\<in>set (perf_matrix names (nat repeats)). perf_evidence c k (f (c, k))"
  shows "check_performance results names repeats = Inr ()"
proof -
  let ?matrix = "perf_matrix names (nat repeats)"
  have members: "set results = f ` set ?matrix" using mset_eq_setD [OF results] by simp
  have fields: "\<exists>c k. perf_evidence c k v" if "v \<in> set results" for v
    using that evidence by (fastforce simp: members)
  have "int (length results) = int (length names) * repeats"
    using mset_eq_length [OF results] pos by (simp add: length_perf_matrix mult.commute)
  moreover have "allE (get_is ''status'' ''PASS'') results = Inr True"
    using fields perf_evidence_fields(1) by (fastforce simp: allE_True_iff list_all_iff)
  moreover have "check_configuration results repeats c = Inr ()" if c: "c \<in> set names" for c
  proof (rule check_configuration_passes [where own = "filter (\<lambda>item. named item c) results" and f = "\<lambda>k. f (c, k)", OF _ _ pos])
    show "group_of results c = Inr (filter (\<lambda>item. named item c) results)"
      unfolding group_of_def
    proof (rule filterE_total)
      fix v assume "v \<in> set results"
      then obtain c' k where "perf_evidence c' k v" using fields by blast
      then show "mapR (\<lambda>x. eq_str x c) (py_subscript v ''configuration'') = Inr (named v c)"
        using perf_evidence_fields(2) by (auto simp: named_def)
    qed
    have name: "named (f x) c \<longleftrightarrow> fst x = c" if "x \<in> set ?matrix" for x
    proof -
      have "perf_evidence (fst x) (snd x) (f x)" using bspec [OF evidence that] by (simp add: case_prod_beta)
      from perf_evidence_fields(2) [OF this] show ?thesis by (simp add: named_def)
    qed
    have "mset (filter (\<lambda>item. named item c) results) = mset (filter (\<lambda>item. named item c) (map f ?matrix))" by (simp only: mset_filter results)
    also have "filter (\<lambda>item. named item c) (map f ?matrix) = map f (filter (\<lambda>x. fst x = c) ?matrix)"
      by (simp add: filter_map comp_def name cong: filter_cong)
    finally show "mset (filter (\<lambda>item. named item c) results) = mset (map (\<lambda>k. f (c, k)) [0..<nat repeats])"
      by (simp add: perf_matrix_named [OF names c] comp_def)
    show "\<forall>k<nat repeats. perf_evidence c k (f (c, k))" using evidence c by (auto simp: perf_matrix_mem)
  qed
  then have "foldE (\<lambda>name _. check_configuration results repeats name) xs () = Inr ()" if "set xs \<subseteq> set names" for xs
    using that by (induction xs) simp_all
  ultimately show ?thesis by (simp add: check_performance_def)
qed

section \<open>From the configuration to the results\<close>

lemma result_not_snapshot: "perf_path output c k ''-result.json'' \<noteq> output @ ''/performance-config.json''"
proof
  assume "perf_path output c k ''-result.json'' = output @ ''/performance-config.json''"
  then have "take 12 (rev (perf_path output c k ''-result.json'')) = take 12 (rev (output @ ''/performance-config.json''))" by (simp only:)
  then show False by (simp add: perf_path_def)
qed

lemma leaves_staging [leaves_intros]:
  assumes "untouched pl p"
  shows "leaves (ensure_cgroup_v2 pl) p" and "leaves (stage_runtime_bundle pl source runtime) p" and "leaves (remove_runtime_bundle pl runtime) p"
  unfolding ensure_cgroup_v2_def stage_runtime_bundle_def remove_runtime_bundle_def is_mounted_def
  by (intro leaves_intros assms)+

lemma shaped_assign: "py_assign v k x = Inr w \<Longrightarrow> shaped v \<Longrightarrow> shaped x \<Longrightarrow> shaped w"
proof -
  assume "py_assign v k x = Inr w" and sh: "shaped v" "shaped x"
  then obtain d where v: "v = PDict d" and w: "w = PDict (dset k x d)" by (cases v) auto
  have "set (dset k x d) \<subseteq> insert (k, x) (set d)" by (induction d) (auto simp: dset_def)
  then show ?thesis using sh unfolding v w shaped_PDict by (auto simp: distinct_dset)
qed

lemma shaped_overrides:
  assumes "with_overrides pa loaded = Inr config" and "shaped loaded" and "\<forall>d. pa_duration pa = Some d \<longrightarrow> is_f64 d"
  shows "shaped config"
  using assms by (auto simp: with_overrides_def bindE_eq_Inr_iff split: option.splits if_splits intro: shaped_assign shaped_assign [OF _ shaped_assign])

lemma guards_collect:
  assumes ap: "apart pl (pa_runtime pa) (perf_result (pa_output pa) x)" and "\<forall>d. pa_duration pa = Some d \<longrightarrow> is_f64 d"
  shows "guards (perf_stored x) (perf_result (pa_output pa) x) (collect_performance rb seeded pl python script pa)"
proof -
  let ?p = "perf_result (pa_output pa) x"
  have u: "untouched pl ?p" using ap by (simp add: apart_def)
  have config: "shaped config" if "read_json path h = Some (Inr loaded, h1)" "liftA (with_overrides pa loaded) h2 = Some (Inr config, h3)"
    for path loaded config and h h1 h2 h3 :: "'a host"
    using shaped_overrides assms(2) read_jsonD [OF that(1)] liftAD [OF that(2)] by blast
  note runs = guards_perf_run [OF ap]
  show ?thesis unfolding collect_performance_def Let_def
    by (intro guards_bindA guards_if guards_finallyA guards_forA guards_basic runs leaves_staging [THEN leaves_guards] leaves_files [THEN leaves_guards]
        leaves_services(3) [THEN leaves_guards] leaves_read_json [THEN leaves_guards] u) (use config result_not_snapshot in auto)
qed

text \<open>What a collection that returned did: the runs of its matrix, in the order of the shuffle.\<close>

lemma collect_performance_runs:
  assumes "collect_performance rb seeded pl python script pa h = Some (Inr (), h1)" and "ho_files h (pa_config pa) = Some t"
    and "json_loads t = Inr loaded" and "with_overrides pa loaded = Inr config" and "int_field config ''repeats_per_configuration'' = Inr repeats"
    and "0 < repeats" and "bindE (py_subscript config ''configurations'') py_names = Inr names"
  obtains seed model h2 where "finallyA (forA (perf_run pl python script pa config model) (shuffle rb (perf_matrix names (nat repeats)) (seeded seed)))
      (remove_runtime_bundle pl (pa_runtime pa)) h2 = Some (Inr (), h1)"
    and "\<And>x. apart pl (pa_runtime pa) (perf_result (pa_output pa) x) \<Longrightarrow>
      ho_files h2 (perf_result (pa_output pa) x) = ho_files h (perf_result (pa_output pa) x)"
proof -
  let ?canonical = "dumps_indent (sorted_json config) @ [CHR 0x0A]" and ?snapshot = "pa_output pa @ ''/performance-config.json''"
  let ?written = "\<lambda>k. k\<lparr>ho_files := (ho_files k)(?snapshot \<mapsto> ?canonical)\<rparr>"
  let ?loop = "\<lambda>model seed. finallyA (forA (perf_run pl python script pa config model) (shuffle rb (perf_matrix names (nat repeats)) (seeded seed)))
      (remove_runtime_bundle pl (pa_runtime pa))"
  have "read_json (pa_config pa) h = Some (Inr loaded, h)" using assms(2,3) by (simp add: read_json_def read_file_def bindA_def liftA_def)
  then obtain h0 model seed where made: "tryA (pl_make_dir pl (pa_output pa)) h = Some (Inr (), h0)"
    and rest: "thenA (ensure_cgroup_v2 pl) (thenA (stage_runtime_bundle pl (pa_bundle pa) (pa_runtime pa)) (?loop model seed)) (?written h0) = Some (Inr (), h1)"
    using assms(1,4-7)
    by (auto simp: collect_performance_def Let_def bindA_def getA_def liftA_def raiseA_def tryA_def write_file_def modifyA_def
        split: if_splits sum.splits prod.splits)
  from rest obtain h3 h4 where e: "ensure_cgroup_v2 pl (?written h0) = Some (Inr (), h3)" "stage_runtime_bundle pl (pa_bundle pa) (pa_runtime pa) h3 = Some (Inr (), h4)"
    and loop: "?loop model seed h4 = Some (Inr (), h1)" by (auto elim!: bindA_InrE)
  from loop show thesis
  proof (rule that)
    fix x assume "apart pl (pa_runtime pa) (perf_result (pa_output pa) x)"
    then have u: "untouched pl (perf_result (pa_output pa) x)" by (simp add: apart_def)
    show "ho_files h4 (perf_result (pa_output pa) x) = ho_files h (perf_result (pa_output pa) x)"
      using leavesD [OF leaves_staging(2) [OF u] e(2)] leavesD [OF leaves_staging(1) [OF u] e(1)] leavesD [OF leaves_services(3) [OF u] made] by (simp add: result_not_snapshot)
  qed
qed

lemma collect_performance_stored:
  assumes runs: "finallyA (forA (perf_run pl python script pa config model) xs) (remove_runtime_bundle pl (pa_runtime pa)) h = Some (Inr (), h1)"
    and "shaped config" and apart: "\<forall>x\<in>set xs. apart pl (pa_runtime pa) (perf_result (pa_output pa) x)"
    and start: "\<forall>x\<in>set xs. \<forall>t. ho_files h (perf_result (pa_output pa) x) = Some t \<longrightarrow> perf_stored x t"
  shows "\<forall>x\<in>set xs. \<exists>t. ho_files h1 (perf_result (pa_output pa) x) = Some t \<and> perf_stored x t"
proof -
  let ?run = "perf_run pl python script pa config model" and ?file = "\<lambda>x h. ho_files h (perf_result (pa_output pa) x)"
  define sound where "sound = (\<lambda>h :: 'a host. \<forall>x\<in>set xs. \<forall>t. ?file x h = Some t \<longrightarrow> perf_stored x t)"
  obtain r h2 rc where body: "forA ?run xs h = Some (r, h2)" and clean: "remove_runtime_bundle pl (pa_runtime pa) h2 = Some (rc, h1)"
    and r: "Inr () = (case rc of Inl e \<Rightarrow> Inl e | Inr _ \<Rightarrow> r)"
    using runs by (rule finallyA_cases)
  have keeps: "sound k1" if "sound k" "?run y k = Some (s, k1)" for y k s k1
    unfolding sound_def
  proof
    fix x assume x: "x \<in> set xs"
    show "\<forall>t. ?file x k1 = Some t \<longrightarrow> perf_stored x t"
      using guardsD [OF guards_perf_run [OF bspec [OF apart x] assms(2)] that(2)] that(1) x unfolding sound_def by blast
  qed
  have "forA ?run xs h = Some (Inr (), h2)" using body r by (simp split: sum.splits)
  have "\<forall>x\<in>set xs. ?file x h2 \<noteq> None"
  proof (rule forA_all [where I = sound, OF _ _ _ \<open>forA ?run xs h = Some (Inr (), h2)\<close>])
    fix x k k1 assume x: "x \<in> set xs" and k: "sound k" and run: "?run x k = Some (Inr (), k1)"
    have "settled (perf_stored x) (Inr ()) (?file x k1)"
      using perf_run_settled [OF run bspec [OF apart x] assms(2)] k x by (auto simp: sound_def)
    then show "sound k1 \<and> ?file x k1 \<noteq> None" using keeps [OF k run] by (auto simp: settled_def split: option.splits)
  next
    fix x y k k1 assume y: "y \<in> set xs" and "x \<noteq> y" and run: "?run x k = Some (Inr (), k1)" and found: "?file y k \<noteq> None"
    from leavesD [OF leaves_perf_run [OF bspec [OF apart y] \<open>x \<noteq> y\<close>] run] found show "?file y k1 \<noteq> None" by simp
  qed (use start in \<open>simp add: sound_def\<close>)
  moreover have "sound h2"
    by (rule forA_invariant [where I = sound, OF _ _ body]) (use keeps start in \<open>auto simp: sound_def\<close>)
  moreover have "?file x h1 = ?file x h2" if "x \<in> set xs" for x
    using leavesD [OF leaves_staging(3) clean] bspec [OF apart that] by (auto simp: apart_def)
  ultimately show ?thesis by (auto simp: sound_def)
qed

section \<open>A collection that runs\<close>

definition perf_sample_config :: pyval where
  "perf_sample_config = PDict [(''duration_seconds'', PFloat (Fin 1)), (''scenario'', PStr ''steady''), (''seed'', PInt 7),
     (''repeats_per_configuration'', PInt 1), (''configurations'', PList [PStr ''gateway_only'']), (''model'', PStr ''m'')]"

definition gateway_sample :: pyval where
  "gateway_sample = PDict [(''requests'', PInt 1), (''throughput_rps'', PFloat (Fin 1))]"

definition perf_sample_args :: perf_args where
  "perf_sample_args = \<lparr>pa_config = ''cfg'', pa_gateway = ''gateway'', pa_bundle = ''bundle'', pa_runtime = ''rt'', pa_output = ''out'',
     pa_resume = False, pa_repeats = None, pa_duration = None\<rparr>"

definition perf_sample :: perf_spec where
  "perf_sample = \<lparr>pf_configuration = ''gateway_only'', pf_repeat = 0, pf_config = perf_sample_config, pf_scenario = ''steady'', pf_seed = 7,
     pf_duration = Fin 1\<rparr>"

abbreviation perf_sample_path :: "string \<Rightarrow> string" where
  "perf_sample_path \<equiv> pf_path ''out'' perf_sample"

abbreviation perf_platform :: "(unit, perf_job) platform" where
  "perf_platform \<equiv> sample_services [socket_path \<mapsto> [], perf_sample_path ''-gateway-summary.json'' \<mapsto> dumps_compact gateway_sample]"

definition perf_host :: "unit host" where
  "perf_host = \<lparr>ho_files = [''cfg'' \<mapsto> dumps_indent perf_sample_config, ''/proc/self/mountinfo'' \<mapsto> ''1 2 3 4 /sys/fs/cgroup'',
     ''bundle/config.json'' \<mapsto> [], ''rt/config.json'' \<mapsto> dumps_indent sample_bundle, ''/mnt/host/m'' \<mapsto> []], ho_rest = ()\<rparr>"

abbreviation perf_sample_record :: pyval where
  "perf_sample_record \<equiv> perf_record perf_sample (Fin 0) 0 gateway_sample (PDict []) PNone"

lemma perf_sample_path: "perf_sample_path suffix = ''out/gateway_only-00'' @ suffix"
  by (simp add: pf_path_def perf_path_def perf_sample_def run_name_def nat_str_0)

lemma perf_sample_result: "perf_path ''out'' ''gateway_only'' 0 ''-result.json'' = perf_sample_path ''-result.json''"
  by (simp add: pf_path_def perf_sample_def)

lemma perf_sample_done: "done_path perf_sample = ''/tmp/gateway_only-00.done''"
  by (simp add: done_path_def pf_id_def perf_sample_def run_name_def nat_str_0)

lemma perf_sample_differ [simp]:
  "perf_sample_path a = perf_sample_path b \<longleftrightarrow> a = b" "perf_sample_path a \<noteq> ''rt/config.json''" "perf_sample_path a \<noteq> ''/proc/self/mountinfo''"
  "perf_sample_path a \<noteq> socket_path" "perf_sample_path a \<noteq> done_path perf_sample" "done_path perf_sample \<noteq> ''rt/config.json''"
  "done_path perf_sample \<noteq> ''/proc/self/mountinfo''" "done_path perf_sample \<noteq> socket_path" "socket_path \<noteq> ''rt/config.json''"
  "socket_path \<noteq> ''/proc/self/mountinfo''"
  by (simp_all add: perf_sample_path perf_sample_done socket_path_def)

lemmas perf_sample_differ' [simp] = perf_sample_differ(2-10) [symmetric]

lemma perf_sample_apart: "apart perf_platform ''rt'' (perf_sample_path ''-result.json'')"
  by (simp add: apart_def untouched_def leaves_def callA_def tryA_def modifyA_def sample_services_def)

lemma perf_sample_loads: "json_loads (dumps_compact gateway_sample) = Inr gateway_sample" "json_loads (dumps_indent perf_sample_config) = Inr perf_sample_config"
  by (rule loads_dumps(2), use f64_zero_one short_ints in \<open>simp add: gateway_sample_def short_int_def nat_str.simps\<close>)
    (rule loads_dumps(3), use f64_zero_one short_ints in \<open>simp add: perf_sample_config_def short_int_def nat_str.simps\<close>)

lemma forA_unlink: "\<exists>files. forA unlink ps h = Some (Inr (), h\<lparr>ho_files := files\<rparr>) \<and> (\<forall>p. files p = (if p \<in> set ps then None else ho_files h p))"
proof (induction ps arbitrary: h)
  case (Cons q ps)
  obtain files where f: "forA unlink ps (h\<lparr>ho_files := (ho_files h)(q := None)\<rparr>) = Some (Inr (), h\<lparr>ho_files := files\<rparr>)"
    "\<forall>p. files p = (if p \<in> set ps then None else ((ho_files h)(q := None)) p)"
    using Cons.IH [of "h\<lparr>ho_files := (ho_files h)(q := None)\<rparr>"] by auto
  show ?case
  proof (intro exI conjI)
    show "forA unlink (q # ps) h = Some (Inr (), h\<lparr>ho_files := files\<rparr>)" using f(1) by (simp add: bindA_def unlink_apply [of q h])
    show "\<forall>p. files p = (if p \<in> set (q # ps) then None else ho_files h p)" using f(2) by simp
  qed
next
  case Nil
  show ?case by (intro exI [of _ "ho_files h"]) (simp add: returnA_def)
qed

lemma perf_sample_prepare:
  assumes "ho_files h ''rt/config.json'' = Some (dumps_indent sample_bundle)"
  obtains files where "prepare_perf perf_platform ''rt'' ''out'' perf_sample h = Some (Inr (), h\<lparr>ho_files := files\<rparr>)"
    and "files (perf_sample_path ''-requests.jsonl'') = Some []" and "files (perf_sample_path ''-resources.jsonl'') = Some []"
    and "files ''/proc/self/mountinfo'' = ho_files h ''/proc/self/mountinfo''"
proof -
  obtain clean where c: "forA unlink (map perf_sample_path log_suffixes) h = Some (Inr (), h\<lparr>ho_files := clean\<rparr>)"
    and gone: "\<forall>p. clean p = (if p \<in> set (map perf_sample_path log_suffixes) then None else ho_files h p)"
    using forA_unlink [of "map perf_sample_path log_suffixes" h] by blast
  let ?files = "clean(done_path perf_sample := None, perf_sample_path ''-result.json'' := None, perf_sample_path ''-requests.jsonl'' := Some [],
    perf_sample_path ''-resources.jsonl'' := Some [])"
  have none: "clean (perf_sample_path ''-requests.jsonl'') = None" "clean (perf_sample_path ''-resources.jsonl'') = None"
    and kept: "clean ''rt/config.json'' = ho_files h ''rt/config.json''" "clean ''/proc/self/mountinfo'' = ho_files h ''/proc/self/mountinfo''"
    using gone by (auto simp: log_suffixes_def)
  have "ho_files (h\<lparr>ho_files := ?files\<rparr>) ''rt/config.json'' = Some (dumps_indent sample_bundle)" using assms kept by simp
  from sample_bundle_config [OF this, of "[socket_path \<mapsto> [], perf_sample_path ''-gateway-summary.json'' \<mapsto> dumps_compact gateway_sample]"
      "pf_scenario perf_sample" "pf_duration perf_sample" "pf_seed perf_sample"]
  obtain t where t: "write_bundle_config perf_platform ''rt'' (pf_scenario perf_sample) (pf_duration perf_sample) (pf_seed perf_sample) (h\<lparr>ho_files := ?files\<rparr>)
      = Some (Inr (), h\<lparr>ho_files := ?files(''rt/config.json'' \<mapsto> t)\<rparr>)" by auto
  have first: "forA (\<lambda>suffix. unlink (perf_sample_path suffix)) log_suffixes h = Some (Inr (), h\<lparr>ho_files := clean\<rparr>)"
    using c by (simp add: log_suffixes_def)
  show thesis
  proof (rule that)
    show "prepare_perf perf_platform ''rt'' ''out'' perf_sample h
        = Some (Inr (), h\<lparr>ho_files := ?files(''rt/config.json'' \<mapsto> t, socket_path := None, perf_sample_path ''-gateway.log'' \<mapsto> [])\<rparr>)"
      unfolding prepare_perf_def bindA_step [of "forA (\<lambda>suffix. unlink (perf_sample_path suffix)) log_suffixes", OF first]
      using t none by (simp add: unlink_apply action_defs touch_def file_exists_def write_file_def)
  qed (simp_all add: kept)
qed

lemma sample_container_starts:
  assumes "file_exists socket_path h"
  shows "start_container (sample_services fs) bundle pf i h = Some (Inr 5, h)"
proof -
  have late: "flt (Fin 0) (fadd (Fin 0) (Fin 10))"
    using of_exact_small [of 10] by (simp add: rnd_id representable_numeral)
  have "container_pid (Some stopped_state) = Inr 5" by (simp add: container_pid_def stopped_state_def dget_def int_field_def)
  then show ?thesis
    using late by (simp add: start_container_def wait_for_socket_def remove_container_def run_checked_def action_defs sample_runc
        sample_socket [OF _ assms])
qed

lemma sample_sampling:
  assumes "pf_duration pf = Fin 1"
  shows "\<exists>files. sample_until_stopped (sample_services fs) out pf processes h = Some (Inr (), h\<lparr>ho_files := files\<rparr>)
    \<and> (\<forall>p. p \<noteq> done_path pf \<longrightarrow> files p = ho_files h p)"
proof -
  have late: "flt (Fin 0) (fadd (fadd (Fin 0) (Fin 1)) (Fin 15))"
    using of_exact_small [of 16] of_exact_small [of 1] by (simp add: rnd_id representable_numeral)
  let ?files = "if file_exists (done_path pf) h then ho_files h else (ho_files h)(done_path pf \<mapsto> [])"
  have "touch (done_path pf) h = Some (Inr (), h\<lparr>ho_files := ?files\<rparr>)" by (simp add: touch_def modifyA_def)
  then have "sample_until_stopped (sample_services fs) out pf processes h = Some (Inr (), h\<lparr>ho_files := ?files\<rparr>)"
    using late by (simp add: sample_stop sample_until_stopped_def assms bindA_def modifyA_def callA_def returnA_def)
  then show ?thesis by (intro exI [of _ ?files]) simp
qed

lemma sample_perf_cleaned:
  "\<exists>files. clean_perf (sample_services fs) pf i None h = Some (Inr (), h\<lparr>ho_files := files\<rparr>)
    \<and> (\<forall>p. p \<noteq> done_path pf \<longrightarrow> p \<noteq> socket_path \<longrightarrow> files p = ho_files h p)"
proof -
  let ?files = "(ho_files h)(socket_path := None, done_path pf := None)"
  have "clean_perf (sample_services fs) pf i None h = Some (Inr (), h\<lparr>ho_files := ?files\<rparr>)"
    by (auto simp: clean_perf_def remove_container_def stop_if_running_def stop_process_def action_defs touch_def unlink_apply)
  then show ?thesis by (intro exI [of _ ?files]) simp
qed

lemma perf_sample_written:
  assumes "ho_files h (perf_sample_path ''-gateway-summary.json'') = Some (dumps_compact gateway_sample)"
    and "ho_files h (perf_sample_path ''-requests.jsonl'') = Some []" and "ho_files h (perf_sample_path ''-resources.jsonl'') = Some []"
  shows "write_perf (sample_services fs) ''out'' perf_sample (Fin 0) False h
    = Some (Inr (), h\<lparr>ho_files := (ho_files h)(perf_sample_path ''-result.json'' \<mapsto> dumps_indent perf_sample_record)\<rparr>)"
proof -
  have "read_json (perf_sample_path ''-gateway-summary.json'') h = Some (Inr gateway_sample, h)"
    by (simp add: read_json_def read_file_def action_defs assms(1) perf_sample_loads)
  moreover have "read_file (perf_sample_path ''-resources.jsonl'') h = Some (Inr [], h)" by (simp add: read_file_def assms(3))
  moreover have "resource_summary [] = Inr (PDict [])" by (simp add: resource_summary_def splitlines_def)
  moreover have "count_jsonl (Some []) = 0" by (simp add: count_jsonl_def splitlines_def)
  moreover have "check_gateway perf_sample gateway_sample 0 = Inr ()"
    by (simp add: check_gateway_def telemetry_on_def perf_sample_def gateway_sample_def int_field_def dget_def)
  moreover have "bindE (py_subscript gateway_sample ''throughput_rps'') format_fixed = Inr ()" by (simp add: gateway_sample_def dget_def)
  moreover have "fsub (Fin 0) (Fin 0) = Fin 0" using of_exact_small [of 0] by (simp add: fsub_def)
  ultimately show ?thesis by (simp add: write_perf_def action_defs assms(2) write_file_def)
qed

lemma perf_sample_executes:
  assumes "ho_files h ''rt/config.json'' = Some (dumps_indent sample_bundle)"
  shows "\<exists>files. execute_perf perf_platform python script gateway ''rt'' ''out'' model perf_sample h = Some (Inr (), h\<lparr>ho_files := files\<rparr>)
    \<and> files (perf_sample_path ''-result.json'') = Some (dumps_indent perf_sample_record)
    \<and> files ''/proc/self/mountinfo'' = ho_files h ''/proc/self/mountinfo''"
proof -
  obtain files where p: "prepare_perf perf_platform ''rt'' ''out'' perf_sample h = Some (Inr (), h\<lparr>ho_files := files\<rparr>)"
    and empty: "files (perf_sample_path ''-requests.jsonl'') = Some []" "files (perf_sample_path ''-resources.jsonl'') = Some []"
    and kept: "files ''/proc/self/mountinfo'' = ho_files h ''/proc/self/mountinfo''"
    by (rule perf_sample_prepare [OF assms])
  let ?h = "h\<lparr>ho_files := files(socket_path \<mapsto> [], perf_sample_path ''-gateway-summary.json'' \<mapsto> dumps_compact gateway_sample)\<rparr>"
  have plain: "pf_duration perf_sample = Fin 1" "\<not> monitored perf_sample" by (simp_all add: perf_sample_def monitored_def)
  have container: "start_container perf_platform ''rt'' perf_sample 7 ?h = Some (Inr 5, ?h)"
    by (rule sample_container_starts) (simp add: file_exists_def)
  obtain sampled where s: "sample_until_stopped perf_platform ''out'' perf_sample [(''container'', 5), (''gateway'', 7)] ?h = Some (Inr (), h\<lparr>ho_files := sampled\<rparr>)"
    and same: "\<forall>p. p \<noteq> done_path perf_sample \<longrightarrow> sampled p = ho_files ?h p"
    using sample_sampling [OF plain(1), of "[socket_path \<mapsto> [], perf_sample_path ''-gateway-summary.json'' \<mapsto> dumps_compact gateway_sample]"
        "''out''" "[(''container'', 5), (''gateway'', 7)]" ?h] by auto
  let ?written = "h\<lparr>ho_files := sampled(perf_sample_path ''-result.json'' \<mapsto> dumps_indent perf_sample_record)\<rparr>"
  have "write_perf perf_platform ''out'' perf_sample (Fin 0) False (h\<lparr>ho_files := sampled\<rparr>) = Some (Inr (), ?written)"
    using perf_sample_written [of "h\<lparr>ho_files := sampled\<rparr>"] same empty by simp
  then have measured: "measure_run perf_platform ''out'' perf_sample 5 7 None (Fin 0) ?h = Some (Inr (), ?written)"
    using s by (simp add: measure_run_def finish_monitor_def wait_for_def action_defs)
  obtain final where f: "clean_perf perf_platform perf_sample 7 None ?written = Some (Inr (), h\<lparr>ho_files := final\<rparr>)"
    and last: "\<forall>p. p \<noteq> done_path perf_sample \<longrightarrow> p \<noteq> socket_path \<longrightarrow> final p = ho_files ?written p"
    using sample_perf_cleaned [of "[socket_path \<mapsto> [], perf_sample_path ''-gateway-summary.json'' \<mapsto> dumps_compact gateway_sample]" perf_sample 7 ?written] by auto
  have "execute_perf perf_platform python script gateway ''rt'' ''out'' model perf_sample h = Some (Inr (), h\<lparr>ho_files := final\<rparr>)"
    unfolding execute_perf_def bindA_step [of "prepare_perf perf_platform ''rt'' ''out'' perf_sample", OF p]
    using container measured f by (simp add: bindA_def tryA_def callA_def start_monitor_def plain finallyA_def returnA_def)
  then show ?thesis using last same kept by (intro exI [of _ final]) simp
qed

lemma shuffle_one: "shuffle rb [x] s = [x]"
  by (simp add: shuffle_def)

lemma perf_sample_collects:
  obtains h1 where "collect_performance first_item (\<lambda>_. ()) perf_platform ''python3'' ''monitor'' perf_sample_args perf_host = Some (Inr (), h1)"
    and "ho_files h1 (perf_sample_path ''-result.json'') = Some (dumps_indent perf_sample_record)"
proof -
  let ?text = "dumps_indent (sorted_json perf_sample_config) @ [CHR 0x0A]"
  let ?h = "perf_host\<lparr>ho_files := (ho_files perf_host)(''out/performance-config.json'' \<mapsto> ?text)\<rparr>"
  have files: "ho_files ?h ''/proc/self/mountinfo'' = Some ''1 2 3 4 /sys/fs/cgroup''" "ho_files ?h ''bundle/config.json'' = Some []"
    "ho_files ?h ''bundle/rootfs/dev/tee0'' = None" "ho_files ?h ''bundle/rootfs/dev/teepriv0'' = None"
    "ho_files ?h ''rt/config.json'' = Some (dumps_indent sample_bundle)" "file_exists ''/mnt/host/m'' ?h" "ho_files perf_host ''out/performance-config.json'' = None"
    by (simp_all add: perf_host_def file_exists_def)
  obtain out where run: "execute_perf perf_platform ''python3'' ''monitor'' ''gateway'' ''rt'' ''out'' ''/mnt/host/m'' perf_sample ?h = Some (Inr (), ?h\<lparr>ho_files := out\<rparr>)"
    and result: "out (perf_sample_path ''-result.json'') = Some (dumps_indent perf_sample_record)" "out ''/proc/self/mountinfo'' = Some ''1 2 3 4 /sys/fs/cgroup''"
    using perf_sample_executes [OF files(5), of "''python3''" "''monitor''" "''gateway''" "''/mnt/host/m''"] files(1) by auto
  let ?h1 = "?h\<lparr>ho_files := out\<rparr>"
  have config: "with_overrides perf_sample_args perf_sample_config = Inr perf_sample_config" "mapR model_path (str_field ''model'' perf_sample_config) = Inr ''/mnt/host/m''"
    "int_field perf_sample_config ''repeats_per_configuration'' = Inr 1" "int_field perf_sample_config ''seed'' = Inr 7"
    "bindE (py_subscript perf_sample_config ''configurations'') py_names = Inr [''gateway_only'']"
    "perf_spec_of perf_sample_config ''gateway_only'' 0 = Inr perf_sample"
    by (simp_all add: with_overrides_def perf_sample_args_def perf_sample_config_def dget_def str_field_def model_path_def int_field_def py_names_def
        perf_spec_of_def float_field_def perf_sample_def)
  have args: "pa_config perf_sample_args = ''cfg''" "pa_output perf_sample_args = ''out''" "pa_bundle perf_sample_args = ''bundle''"
    "pa_runtime perf_sample_args = ''rt''" "pa_gateway perf_sample_args = ''gateway''" "\<not> pa_resume perf_sample_args" by (simp_all add: perf_sample_args_def)
  have once: "perf_run perf_platform ''python3'' ''monitor'' perf_sample_args perf_sample_config ''/mnt/host/m'' (''gateway_only'', 0) ?h = Some (Inr (), ?h1)"
    using run by (simp add: perf_run_def args config)
  have removed: "remove_runtime_bundle perf_platform ''rt'' ?h1 = Some (Inr (), ?h1)" by (rule sample_removed) (use result(2) in simp)
  have staged: "ensure_cgroup_v2 perf_platform ?h = Some (Inr (), ?h)" "stage_runtime_bundle perf_platform ''bundle'' ''rt'' ?h = Some (Inr (), ?h)"
    by (rule sample_staging [OF files(1-4)])+
  have runs: "finallyA (forA (perf_run perf_platform ''python3'' ''monitor'' perf_sample_args perf_sample_config ''/mnt/host/m'') [(''gateway_only'', 0)])
      (remove_runtime_bundle perf_platform ''rt'') ?h = Some (Inr (), ?h1)"
    using once removed by (simp add: finallyA_def bindA_def returnA_def)
  have "read_json ''cfg'' perf_host = Some (Inr perf_sample_config, perf_host)"
    by (simp add: read_json_def read_file_def action_defs perf_host_def perf_sample_loads)
  moreover have "perf_matrix [''gateway_only''] (nat 1) = [(''gateway_only'', 0)]" by (simp add: perf_matrix_def)
  ultimately have "collect_performance first_item (\<lambda>_. ()) perf_platform ''python3'' ''monitor'' perf_sample_args perf_host = Some (Inr (), ?h1)"
    using runs files(6,7) staged
    by (simp add: collect_performance_def Let_def args action_defs config shuffle_one write_file_def)
  then show thesis by (rule that) (use result in simp)
qed

lemma perf_sample_short: "length (dumps_indent perf_sample_record) \<le> 4300"
proof -
  have "nat_str 0 = ''0''" "nat_str (Suc 0) = ''1''" "nat_str 7 = ''7''" by code_simp+
  moreover have "json_float (Fin 0) = ''0.0''" by simp
  ultimately show ?thesis
    by (simp add: dumps_indent_def perf_record_def perf_sample_def pf_id_def gateway_sample_def telemetry_on_def run_name_def enclose_def
        line_break_def json_string_def json_escape_def Let_def int_str_def json_one del: json_float.simps)
qed

section \<open>Properties\<close>



text \<open>C12. A collection that returned, from the first start or resumed, has collected what the analysis
  asks for: its results, in any order, are read and pass every check.\<close>

theorem collected_performance_passes:
  assumes "collect_performance rb seeded pl python script pa h = Some (Inr (), h1)" and "ho_files h (pa_config pa) = Some t"
    and "json_loads t = Inr loaded" and "with_overrides pa loaded = Inr config" and "int_field config ''repeats_per_configuration'' = Inr repeats"
    and "0 < repeats" and "bindE (py_subscript config ''configurations'') py_names = Inr names" and "distinct names"
    and "\<forall>d. pa_duration pa = Some d \<longrightarrow> is_f64 d" and draws: "bounded_draws rb"
    and files: "\<forall>x\<in>set (perf_matrix names (nat repeats)). apart pl (pa_runtime pa) (perf_result (pa_output pa) x)
      \<and> (\<forall>t. ho_files h (perf_result (pa_output pa) x) = Some t \<longrightarrow> perf_stored x t)
      \<and> length (the (ho_files h1 (perf_result (pa_output pa) x))) \<le> 4300"
    and texts: "mset texts = mset (map (\<lambda>x. the (ho_files h1 (perf_result (pa_output pa) x))) (perf_matrix names (nat repeats)))"
  shows "\<exists>results. mapE json_loads texts = Inr results \<and> check_performance results names repeats = Inr ()"
proof -
  let ?matrix = "perf_matrix names (nat repeats)" and ?text = "\<lambda>x. the (ho_files h1 (perf_result (pa_output pa) x))"
  let ?loaded = "\<lambda>t. get_ok (json_loads t) PNone"
  have config: "shaped config" by (rule shaped_overrides [OF assms(4) storable_shaped [OF loaded_storable [OF assms(3)]] assms(9)])
  obtain seed model h2 where runs: "finallyA (forA (perf_run pl python script pa config model) (shuffle rb ?matrix (seeded seed)))
      (remove_runtime_bundle pl (pa_runtime pa)) h2 = Some (Inr (), h1)"
    and kept: "\<And>x. apart pl (pa_runtime pa) (perf_result (pa_output pa) x) \<Longrightarrow>
      ho_files h2 (perf_result (pa_output pa) x) = ho_files h (perf_result (pa_output pa) x)"
    by (rule collect_performance_runs [OF assms(1-7)]) blast
  have order: "set (shuffle rb ?matrix (seeded seed)) = set ?matrix" using mset_eq_setD [OF mset_shuffle [OF draws]] .
  have stored: "\<forall>x\<in>set ?matrix. \<exists>t. ho_files h1 (perf_result (pa_output pa) x) = Some t \<and> perf_stored x t"
    using collect_performance_stored [OF runs config, unfolded order] files kept by simp
  have read: "json_loads (?text x) = Inr (?loaded (?text x)) \<and> perf_evidence (fst x) (snd x) (?loaded (?text x))" if x: "x \<in> set ?matrix" for x
  proof -
    obtain v where v: "?text x = dumps_indent v" "shaped v" "perf_evidence (fst x) (snd x) v"
      using bspec [OF stored x] by (auto simp: perf_stored_def split: prod.splits)
    have "json_loads (dumps_indent v) = Inr v" by (rule shaped_loads [OF v(2)]) (use bspec [OF files x] v(1) in simp)
    then show ?thesis using v by simp
  qed
  have "mapE json_loads texts = Inr (map ?loaded texts)"
  proof (rule mapE_total)
    fix t assume "t \<in> set texts"
    then have "t \<in> ?text ` set ?matrix" using mset_eq_setD [OF texts] by simp
    then show "json_loads t = Inr (?loaded t)" using read by blast
  qed
  moreover have "check_performance (map ?loaded texts) names repeats = Inr ()"
  proof (rule perf_results_pass [OF assms(8,6)])
    show "mset (map ?loaded texts) = mset (map (\<lambda>x. ?loaded (?text x)) ?matrix)" using texts by (simp add: multiset.map_comp comp_def)
  qed (use read in auto)
  ultimately show ?thesis by blast
qed


theorem collected_performance_passes_witness:
  "\<exists>h1 t results. collect_performance first_item (\<lambda>_. ()) perf_platform ''python3'' ''monitor'' perf_sample_args perf_host = Some (Inr (), h1)
    \<and> ho_files h1 (perf_path ''out'' ''gateway_only'' 0 ''-result.json'') = Some t
    \<and> mapE json_loads [t] = Inr results \<and> check_performance results [''gateway_only''] 1 = Inr ()"
proof -
  obtain h1 where run: "collect_performance first_item (\<lambda>_. ()) perf_platform ''python3'' ''monitor'' perf_sample_args perf_host = Some (Inr (), h1)"
    and result: "ho_files h1 (perf_sample_path ''-result.json'') = Some (dumps_indent perf_sample_record)"
    by (rule perf_sample_collects)
  have config: "with_overrides perf_sample_args perf_sample_config = Inr perf_sample_config" "int_field perf_sample_config ''repeats_per_configuration'' = Inr 1"
    "bindE (py_subscript perf_sample_config ''configurations'') py_names = Inr [''gateway_only'']"
    by (simp_all add: with_overrides_def perf_sample_args_def perf_sample_config_def dget_def int_field_def py_names_def)
  have none: "ho_files perf_host (perf_sample_path ''-result.json'') = None" by (simp add: perf_host_def perf_sample_path)
  have args: "pa_config perf_sample_args = ''cfg''" "pa_output perf_sample_args = ''out''" "pa_runtime perf_sample_args = ''rt''"
    "pa_duration perf_sample_args = None" by (simp_all add: perf_sample_args_def)
  have "ho_files perf_host (pa_config perf_sample_args) = Some (dumps_indent perf_sample_config)" by (simp add: perf_host_def args)
  moreover have "perf_matrix [''gateway_only''] (nat 1) = [(''gateway_only'', 0)]" by (simp add: perf_matrix_def)
  moreover have "bounded_draws first_item" by (simp add: bounded_draws_def first_item_def)
  ultimately have "\<exists>results. mapE json_loads [dumps_indent perf_sample_record] = Inr results \<and> check_performance results [''gateway_only''] 1 = Inr ()"
    using collected_performance_passes [OF run _ perf_sample_loads(2) config(1,2) _ config(3), of "[dumps_indent perf_sample_record]"]
      perf_sample_apart perf_sample_short
    by (simp add: args perf_sample_result result none del: mapE.simps)
  then show ?thesis using run result perf_sample_result by metis
qed

end
