(* ===== verification/Performance_Table.thy ===== *)
theory Performance_Table
  imports Performance "HOL-Library.Product_Lexorder"
begin

text \<open>
  The table \<open>performance-runs.csv\<close> of \<open>scripts/stage4-analyze-performance.py\<close>: a row for every run,
  in the order of configurations and repeats.  As elsewhere, a configuration is a text and a
  repeat an integer; another JSON value is met here as a \<open>TypeError\<close>.
\<close>

section \<open>The table\<close>

definition table_key :: "pyval \<Rightarrow> (string \<times> int) result" where
  "table_key item =
     bindE (py_subscript item ''configuration'') (\<lambda>c.
     bindE (py_subscript item ''repeat'') (\<lambda>r.
     case (c, r) of (PStr s, PInt n) \<Rightarrow> Inr (s, n) | _ \<Rightarrow> Inl TypeError))"

text \<open>What \<open>csv.DictWriter\<close> makes of a value.\<close>

definition table_cell :: "pyval \<Rightarrow> string" where
  "table_cell v = (if v = PNone then [] else py_str v)"

definition table_row :: "pyval \<Rightarrow> string list result" where
  "table_row item =
     bindE (py_subscript item ''configuration'') (\<lambda>c.
     bindE (py_subscript item ''repeat'') (\<lambda>r.
     bindE (bindE (py_subscript item ''gateway'') (\<lambda>g. py_subscript g ''requests'')) (\<lambda>n.
     bindE (mapE (\<lambda>(name, path). nested item path) METRICS) (\<lambda>metrics.
     Inr (map table_cell ([c, r, n] @ map optional_float metrics))))))"

definition run_table :: "pyval list \<Rightarrow> string list list result" where
  "run_table results =
     bindE (mapE table_key results) (\<lambda>keys.
     mapR (\<lambda>rows. ([''configuration'', ''repeat'', ''requests''] @ map fst METRICS) # rows)
       (mapE table_row (map snd (sort_key fst (zip keys results)))))"

text \<open>The summary and the table, which are made from the same results.\<close>

definition performance_files ::
  "'s randbelow \<Rightarrow> (int \<Rightarrow> 's) \<Rightarrow> string \<Rightarrow> string list \<Rightarrow> nat \<Rightarrow> (pyval \<times> string list list) result" where
  "performance_files rb seeded config_text result_texts iterations =
     bindE (analyze_performance rb seeded config_text result_texts iterations) (\<lambda>summary.
     bindE (mapE json_loads result_texts) (\<lambda>results.
     mapR (\<lambda>rows. (summary, rows)) (run_table results)))"

section \<open>Order\<close>

lemma map_fst_sort: "map fst (sort_key fst xs) = sort (map fst xs)"
  by (rule properties_for_sort [symmetric]) simp_all

text \<open>The pairs of a sorted list of names with the numbers of a sorted list, name by name.\<close>

lemma sorted_pairs:
  fixes names :: "string list" and ks :: "int list"
  assumes "sorted names" and "distinct names" and "sorted ks" and "distinct ks"
  defines "pairs \<equiv> concat (map (\<lambda>name. map (Pair name) ks) names)"
  shows "sorted pairs" and "distinct pairs" and "set pairs = set names \<times> set ks"
proof -
  show "set pairs = set names \<times> set ks" by (auto simp: pairs_def)
  have own: "sorted (map (Pair name) ks)" "distinct (map (Pair name) ks)" for name :: string
    using assms(3,4) by (auto simp: sorted_map less_eq_prod_def distinct_map inj_on_def elim: sorted_wrt_mono_rel [rotated])
  show "sorted pairs" "distinct pairs" using assms(1,2) unfolding pairs_def
    by (induction names) (auto simp: sorted_append own order.strict_iff_order)
qed

lemma table_keyD:
  assumes "table_key item = Inr (c, n)"
  shows "py_subscript item ''configuration'' = Inr (PStr c)" and "py_subscript item ''repeat'' = Inr (PInt n)"
    and "named item c" and "int_field item ''repeat'' = Inr n"
proof -
  obtain v r where vr: "py_subscript item ''configuration'' = Inr v" "py_subscript item ''repeat'' = Inr r"
    and "(case (v, r) of (PStr s, PInt n) \<Rightarrow> Inr (s, n) | _ \<Rightarrow> Inl TypeError) = (Inr (c, n) :: (string \<times> int) result)"
    using assms by (auto simp: table_key_def bindE_eq_Inr_iff)
  then have "v = PStr c" "r = PInt n" by (cases v; cases r; simp)+
  then show "py_subscript item ''configuration'' = Inr (PStr c)" "py_subscript item ''repeat'' = Inr (PInt n)"
    "named item c" "int_field item ''repeat'' = Inr n"
    using vr by (simp_all add: named_def int_field_def)
qed

lemma table_keys:
  assumes "check_performance results names repeats = Inr ()" and "distinct names" and keys: "mapE table_key results = Inr keys"
  shows "set keys = set names \<times> {0..<repeats}" and "distinct keys"
proof -
  note key = table_keyD
  have pos: "int (length results) = int (length names) * repeats" using assms(1) by (auto simp: check_performance_def bindE_eq_Inr_iff)
  have numbers: "{n. \<exists>item\<in>set results. named item c \<and> int_field item ''repeat'' = Inr n} = {0..<repeats}" if c: "c \<in> set names" for c
  proof -
    obtain ks where ks: "mapE (\<lambda>item. int_field item ''repeat'') (filter (\<lambda>item. named item c) results) = Inr ks" "sort ks = [0..repeats - 1]"
      using bspec [OF check_performance_complete(1) [OF assms(1)] c] unfolding numbered_def by blast
    have "{n. \<exists>item\<in>set results. named item c \<and> int_field item ''repeat'' = Inr n} = set ks"
    proof (intro set_eqI iffI)
      fix n assume "n \<in> {n. \<exists>item\<in>set results. named item c \<and> int_field item ''repeat'' = Inr n}"
      then obtain item where item: "item \<in> set (filter (\<lambda>item. named item c) results)" "int_field item ''repeat'' = Inr n" by auto
      obtain m where "m \<in> set ks" "int_field item ''repeat'' = Inr m" by (rule mapE_set_source [OF ks(1) item(1)])
      then show "n \<in> set ks" using item(2) by simp
    next
      fix n assume "n \<in> set ks"
      then obtain item where "item \<in> set (filter (\<lambda>item. named item c) results)" "int_field item ''repeat'' = Inr n"
        by (rule mapE_set_mem [OF ks(1)])
      then show "n \<in> {n. \<exists>item\<in>set results. named item c \<and> int_field item ''repeat'' = Inr n}" by auto
    qed
    also have "\<dots> = set (sort ks)" by simp
    finally show ?thesis by (auto simp: ks(2))
  qed
  have readable: "\<exists>k. table_key item = Inr k \<and> k \<in> set keys" if "item \<in> set results" for item
    using mapE_set_source [OF keys that] by blast
  show eq: "set keys = set names \<times> {0..<repeats}"
  proof (rule set_eqI)
    fix x :: "string \<times> int"
    obtain c n where x: "x = (c, n)" by fastforce
    show "x \<in> set keys \<longleftrightarrow> x \<in> set names \<times> {0..<repeats}"
    proof
      assume "x \<in> set keys"
      then obtain item where item: "item \<in> set results" "table_key item = Inr (c, n)" using mapE_set_mem [OF keys] x by blast
      note k = key [OF item(2)]
      have "c \<in> set names" using check_performance_complete(2) [OF assms(1)] assms(2) item(1) named_unique k(3) by blast
      then show "x \<in> set names \<times> {0..<repeats}" using numbers [of c] item(1) k x by blast
    next
      assume "x \<in> set names \<times> {0..<repeats}"
      then obtain item where item: "item \<in> set results" "named item c" "int_field item ''repeat'' = Inr n" using numbers [of c] x by blast
      obtain c' n' where "table_key item = Inr (c', n')" "(c', n') \<in> set keys" using readable [OF item(1)] by auto
      note k = this
      have "c' = c" by (rule named_unique [OF key(3) [OF k(1)] item(2)])
      moreover have "n' = n" using key(4) [OF k(1)] item(3) by simp
      ultimately show "x \<in> set keys" using k(2) x by simp
    qed
  qed
  have "length names * nat repeats = length results"
  proof (cases "names = []")
    case False
    then have "0 \<le> repeats" using pos by (metis of_nat_0_le_iff of_nat_0_less_iff length_greater_0_conv zero_le_mult_iff not_less)
    then have "int (length names * nat repeats) = int (length results)" using pos by simp
    then show ?thesis by (simp only: of_nat_eq_iff)
  qed (use pos in simp)
  then have "card (set keys) = length keys"
    using mapE_length [OF keys] by (simp add: eq card_cartesian_product distinct_card [OF assms(2)])
  then show "distinct keys" by (rule card_distinct)
qed

section \<open>Every run in its place\<close>

text \<open>When the checks have passed and the configurations are distinct, the table lists the
  configurations in order and under each one its repeats from 0.\<close>

theorem table_lists_every_repeat:
  assumes "check_performance results names repeats = Inr ()" and "distinct names" and "run_table results = Inr rows"
  shows "map (take 2) rows = [''configuration'', ''repeat''] # concat (map (\<lambda>name. map (\<lambda>k. [name, py_str (PInt k)]) [0..repeats - 1]) (sort names))"
proof -
  obtain keys cells where keys: "mapE table_key results = Inr keys" and cells: "mapE table_row (map snd (sort_key fst (zip keys results))) = Inr cells"
    and rows: "rows = ([''configuration'', ''repeat'', ''requests''] @ map fst METRICS) # cells"
    using assms(3) by (auto simp: run_table_def bindE_eq_Inr_iff mapR_eq_Inr_iff)
  let ?sorted = "sort_key fst (zip keys results)"
  let ?pairs = "concat (map (\<lambda>name. map (Pair name) [0..repeats - 1]) (sort names))"
  have pairs: "sorted ?pairs" "distinct ?pairs" "set ?pairs = set names \<times> {0..<repeats}"
    using sorted_pairs [of "sort names" "[0..repeats - 1]"] assms(2) by auto
  have "map fst (zip keys results) = keys" using mapE_length [OF keys] by simp
  then have "map fst ?sorted = sort keys" by (simp only: map_fst_sort)
  also have "\<dots> = ?pairs" by (rule sorted_distinct_set_unique) (use pairs table_keys [OF assms(1,2) keys] in auto)
  finally have order: "map fst ?sorted = ?pairs" .
  have first: "take 2 cs = [fst k, py_str (PInt (snd k))]" if "(k, item) \<in> set ?sorted" "table_row item = Inr cs" for k item cs
  proof -
    have "table_key item = Inr k" using that(1) keys by (auto simp: set_zip mapE_eq_Inr_iff list_all2_conv_all_nth)
    then have "py_subscript item ''configuration'' = Inr (PStr (fst k))" "py_subscript item ''repeat'' = Inr (PInt (snd k))"
      using table_keyD(1,2) [of item "fst k" "snd k"] by simp_all
    then show ?thesis using that(2) by (auto simp: table_row_def bindE_eq_Inr_iff table_cell_def)
  qed
  have "list_all2 (\<lambda>x cs. table_row (snd x) = Inr cs) ?sorted cells" using cells by (simp add: mapE_eq_Inr_iff list.rel_map)
  then have "list_all2 (\<lambda>x cs. [fst (fst x), py_str (PInt (snd (fst x)))] = take 2 cs) ?sorted cells"
    by (rule list.rel_mono_strong) (use first in \<open>force simp del: set_sort\<close>)
  then have "map (take 2) cells = map (\<lambda>x. [fst (fst x), py_str (PInt (snd (fst x)))]) ?sorted"
    by (induction rule: list_all2_induct) simp_all
  also have "\<dots> = map (\<lambda>k. [fst k, py_str (PInt (snd k))]) (map fst ?sorted)" by simp
  also have "\<dots> = concat (map (\<lambda>name. map (\<lambda>k. [name, py_str (PInt k)]) [0..repeats - 1]) (sort names))"
    unfolding order by (simp add: map_concat comp_def)
  finally show ?thesis by (simp add: rows)
qed

text \<open>C30. So it is for the files of an analysis that returned.\<close>

theorem files_list_every_repeat:
  assumes "performance_files rb seeded config_text result_texts iterations = Inr (summary, rows)"
    and "json_loads config_text = Inr config" and "bindE (py_subscript config ''configurations'') py_names = Inr names" and "distinct names"
  shows "\<exists>repeats. int_field config ''repeats_per_configuration'' = Inr repeats
    \<and> map (take 2) rows = [''configuration'', ''repeat''] # concat (map (\<lambda>name. map (\<lambda>k. [name, py_str (PInt k)]) [0..repeats - 1]) (sort names))"
proof -
  obtain results repeats where "int_field config ''repeats_per_configuration'' = Inr repeats" "check_performance results names repeats = Inr ()"
    "run_table results = Inr rows"
    using assms(1-3) by (auto simp: performance_files_def analyze_performance_def bindE_eq_Inr_iff mapR_eq_Inr_iff)
  then show ?thesis using table_lists_every_repeat [OF _ assms(4)] by blast
qed

lemma sample_table: "\<exists>rows. run_table [performance_run] = Inr rows"
proof -
  have "mapE (\<lambda>(name, path). nested performance_run path) METRICS = Inr (map (\<lambda>_. None) METRICS)"
    by (rule mapE_total) (auto simp: METRICS_def performance_run_def dget_def)
  then have "is_ok (table_row performance_run)" by (simp add: table_row_def performance_run_def dget_def)
  moreover have "table_key performance_run = Inr (''gateway_only'', 0)" by (simp add: table_key_def performance_run_def dget_def)
  ultimately show ?thesis by (auto simp: run_table_def elim!: is_okE)
qed

theorem files_list_every_repeat_witness:
  "\<exists>summary rows. performance_files first_item (\<lambda>_. ()) (dumps_indent performance_config) [dumps_indent performance_run] 0 = Inr (summary, rows)
    \<and> map (take 2) rows = [[''configuration'', ''repeat''], [''gateway_only'', ''0'']]"
proof -
  obtain v where v: "analyze_performance first_item (\<lambda>_. ()) (dumps_indent performance_config) [dumps_indent performance_run] 0 = Inr v"
    using performance_sample by blast
  obtain rows where rows: "run_table [performance_run] = Inr rows" using sample_table by blast
  have files: "performance_files first_item (\<lambda>_. ()) (dumps_indent performance_config) [dumps_indent performance_run] 0 = Inr (v, rows)"
    by (simp add: performance_files_def v rows loads_dumps(3) [OF performance_storable(2)])
  have "bindE (py_subscript performance_config ''configurations'') py_names = Inr [''gateway_only'']"
    "int_field performance_config ''repeats_per_configuration'' = Inr 1"
    by (simp_all add: performance_config_def dget_def py_names_def int_field_def)
  moreover have "[0..(1 :: int) - 1] = [0]" by code_simp
  moreover have "py_str (PInt 0) = ''0''" by code_simp
  ultimately show ?thesis using files_list_every_repeat [OF files loads_dumps(3) [OF performance_storable(1)]] files by auto
qed

end
