(* ===== verification/Spec2Isabelle.thy ===== *)
theory Spec2Isabelle
  imports Online_Monitor Experiment Acceptance Row_Types Performance Guest_Benchmark Performance_Evidence Performance_Table
begin

text \<open>
  COTE3-Mon watches a key-value gateway: the gateway writes one telemetry event per connection,
  a sampler adds the resource use of a process, the events of a time window become a row of
  features, a detector scores the row, and every alert is anchored in a chain of receipts that
  a trusted application (or a local reference of it) signs with an HMAC.  The development models
  the Python programs that do this, and the trusted application in C with its client, and
  proves what makes them correct.

  \<^bold>\<open>Parts.\<close>  Each theory models one source file; definitions carry the names of the functions.

  \<^item> \<open>Prelude\<close>: exceptions as values (\<open>py_error\<close>, \<open>result\<close>, \<open>bindE\<close>, \<open>mapE\<close>, \<open>foldE\<close>), bytes,
    hexadecimal, insertion-ordered dictionaries as association lists, big-endian integers.
  \<^item> \<open>Float64\<close>, \<open>PyFloat\<close>: binary64 with round to nearest even, computed on rationals, and the
    Python operations on it (\<open>f64\<close>: a finite value, the infinities or NaN; zero has no sign).
  \<^item> \<open>PyVal\<close>, \<open>Json\<close>: the values of the program (\<open>pyval\<close>), \<open>int\<close>, \<open>float\<close>, \<open>str\<close>, \<open>repr\<close>, the
    canonical \<open>json.dumps\<close>, \<open>json.loads\<close> and \<open>read_jsonl\<close>.
  \<^item> \<open>Crypto\<close>: SHA-256, HMAC-SHA-256 and BLAKE2b, computed in the model.
  \<^item> \<open>Protocol\<close> (\<open>cote3mon/protocol.py\<close>), \<open>Mock_Gateway\<close> (\<open>mock_gateway.py\<close>), \<open>Workload\<close>
    (\<open>workload.py\<close>), \<open>Experiment\<close> (\<open>experiment.py\<close>), \<open>Resource\<close> (\<open>resource.py\<close>).
  \<^item> \<open>Features\<close> (\<open>features.py\<close>), \<open>Threshold\<close> (\<open>threshold.py\<close>), \<open>IForest\<close>
    (\<open>iforest_runtime.py\<close>), \<open>Training\<close> (\<open>training.py\<close>), \<open>Evaluation\<close> (\<open>evaluation.py\<close>).
  \<^item> \<open>Audit_Store\<close> (\<open>audit_store.py\<close>), \<open>Audit_TA\<close> (\<open>optee/audit_ta/ta/entry.c\<close> and
    \<open>optee/audit_ta/host/audit_client.c\<close>), \<open>Monitor\<close> (\<open>monitor.py\<close>), \<open>Online_Monitor\<close>
    (\<open>scripts/guest-online-monitor.py\<close>), \<open>Cli\<close> (\<open>cli.py\<close>), \<open>Acceptance\<close>
    (\<open>scripts/qemu-audit-acceptance.py\<close>).
  \<^item> \<open>Float_Text\<close>, \<open>Json_Text\<close>: every float and every value of JSON shape is read back from its
    text; \<open>Alert_File\<close>: the files of a batch; \<open>Row_Types\<close>: the types of a row's fields; \<open>Script\<close>:
    what the scripts share (paths into dictionaries, requirements, lists of files).
  \<^item> \<open>Detection_Report\<close> and \<open>Host_Pipeline\<close> (\<open>scripts/stage3-train-evaluate.py\<close>), \<open>Host_Sample\<close>
    (a run of it, evaluated), \<open>Guest_Parity\<close> (\<open>scripts/qemu-model-parity.py\<close>),
    \<open>Stage_Acceptance\<close> (\<open>stage3-finalize.py\<close>), \<open>Final_Acceptance\<close> (\<open>stage4-complete.py\<close>,
    \<open>stage5-finalize.py\<close>), \<open>Ablation\<close> (\<open>stage5_feature_sets.py\<close>, \<open>stage5-feature-ablation.py\<close>,
    \<open>stage5-prepare-guest-parity.py\<close>), \<open>Stage5_Parity\<close> (its vectors in the guest and in the final
    record), \<open>Comparison\<close> (\<open>stage5-statistical-comparison.py\<close>), \<open>Performance\<close>
    and \<open>Performance_Table\<close> (\<open>stage4-analyze-performance.py\<close>), \<open>Guest_Benchmark\<close> (\<open>stage5-guest-inference-benchmark.py\<close>).
  \<^item> \<open>Host_Actions\<close>: programs that change the files and processes of a machine, raise, and clean up;
    \<open>Collection\<close> (\<open>scripts/run-qemu-experiments.py\<close>) and \<open>Performance_Collection\<close>
    (\<open>scripts/run-qemu-performance.py\<close>), with what they leave behind in \<open>Collection_Evidence\<close> and
    \<open>Performance_Evidence\<close>; \<open>Json_Loaded\<close>: whatever \<open>json.loads\<close> returns can be written and read again.

  \<^bold>\<open>State and interfaces.\<close>  State is passed explicitly: \<open>gateway\<close> and \<open>audit\<close> are the attributes
  of the classes, \<open>audit_state\<close> is the persistent object of the trusted application, \<open>online\<close> the
  local variables of the online monitor.  Streams, clocks, random generators, connections, the
  files under \<open>/proc\<close> and the audit backends are parameters, records or functions on a state of
  their own.  The locales are the interfaces: \<open>byte_stream\<close> (the readers of the protocol, files
  and sockets), \<open>fixed_digest\<close> (a hash of fixed length), \<open>object_store\<close> (the dictionary of the gateway), \<open>hash_chain\<close> (the links of the
  receipts), \<open>audit_backend\<close> (the local store and the trusted application behind its client),
  \<open>world_invariant\<close> (what a workload keeps of the world it runs in) and \<open>host_relation\<close> (what holds
  between the host before and after a program because it holds along its steps).  The state of the
  collections is a \<open>host\<close>, its text files and a rest only the operating system knows; the clocks,
  processes, threads and directories are the functions of a \<open>platform\<close>, which may change the host
  whenever they are called.

  \<^bold>\<open>What is shown.\<close>  Round trips of protocol messages, models and JSON; that the gateway refines a
  finite map under every segmentation of the stream and rejects what is malformed; that the
  windows partition the events and every ratio of a row lies in the unit interval; that forests
  are walked and exported in finitely many steps and score in the unit interval; the bounds of
  metrics, bootstrap intervals and delays; that splits go by whole runs; that receipts bind the
  alerts of a chain unless a hash collides, that the trusted application refines the reference
  store, and that what the monitors report is exactly what the detector flags and verifies.
  Along the scripts: what the host pipeline writes is accepted by the guest and by the scripts
  that join the evidence, where only a stage's label can be refused; a record is bound to the
  digests of the files it was made from; bootstraps over runs stay in their bounds; the
  performance analysis refuses every incomplete group of runs and lists every run in its place.  Both collections leave only
  complete records however they are interrupted, and what a collection that returned has left is
  accepted by the scripts that read it.

  \<^bold>\<open>Termination and fuel.\<close>  Loops over data are structural.  Loops that a clock or a foreign tree
  may keep running are partial functions, and their theorems say when they end.  \<open>json_loads\<close>
  reads nested values with fuel of twice the length of the text, which is always enough
  (\<open>json_value_enough\<close>).

  \<^bold>\<open>Bounds of the model.\<close>  Strings are sequences of characters below 256, and the text of a JSON
  string is the one without \<open>\u\<close> escapes for characters above 127 (\<open>ensure_ascii=False\<close>).  Model
  files are checked for their types when they are loaded, not at the first use of an array.
  \<open>sort\<close> on floats uses the linear order in which NaN is the largest value.  The interpreter's
  limits on recursion and memory are not modelled; its limit of 4300 digits is.

  \<^bold>\<open>Not modelled.\<close>  Opening, connecting, threads, time-outs and files as such; \<open>argparse\<close>; the
  start and stop of the development gateway; the Mersenne Twister, the C library's \<open>log\<close> and
  \<open>pow\<close> and scikit-learn, which are parameters; failures of the secure storage and of the
  cryptographic services of the trusted application; the gateway, its back ends and its clients
  in C; the lines that scripts print, shell scripts, build files and the tests.  The collections know the operating system only through their platform.
\<close>

end
